(* ===== verification/Prelude.thy ===== *)
theory Prelude
  imports Main "HOL-Library.Char_ord" "HOL-Library.List_Lexorder"
begin

text \<open>
  Shared vocabulary of the development: Go strings as character lists with the functions of the
  standard packages \<open>strings\<close>, \<open>strconv\<close> and \<open>sort\<close> that the modelled code
  calls, and the fact collections the component proofs rest on. Characters are ASCII bytes:
  the white space and the case mapping below are those of Go on ASCII text.
\<close>

named_theorems go_defs \<open>unfolding rules of small operations\<close>
named_theorems inv_intros \<open>preservation of component invariants\<close>

type_synonym time = nat  \<comment> \<open>an instant read from the wall clock\<close>

section \<open>Package strings\<close>

definition is_ascii_space :: "char \<Rightarrow> bool" where
  "is_ascii_space c = (let n = (of_char c :: nat) in n = 32 \<or> (9 \<le> n \<and> n \<le> 13))"

definition trim_left :: "string \<Rightarrow> string" where
  "trim_left s = dropWhile is_ascii_space s"

text \<open>\<open>strings.TrimSpace\<close>\<close>

definition trim_space :: "string \<Rightarrow> string" where
  "trim_space s = rev (trim_left (rev (trim_left s)))"

text \<open>\<open>strings.Split\<close> with a one-character separator: never empty.\<close>

fun split_on :: "char \<Rightarrow> string \<Rightarrow> string list" where
  "split_on c [] = [[]]"
| "split_on c (x # xs) =
     (if x = c then [] # split_on c xs
      else (case split_on c xs of [] \<Rightarrow> [[x]] | p # ps \<Rightarrow> (x # p) # ps))"

text \<open>\<open>strings.Join\<close>\<close>

fun join_with :: "string \<Rightarrow> string list \<Rightarrow> string" where
  "join_with sep [] = []"
| "join_with sep [p] = p"
| "join_with sep (p # q # ps) = p @ sep @ join_with sep (q # ps)"

text \<open>\<open>strings.HasPrefix\<close>\<close>

fun has_prefix :: "string \<Rightarrow> string \<Rightarrow> bool" where
  "has_prefix s [] = True"
| "has_prefix [] (p # ps) = False"
| "has_prefix (c # cs) (p # ps) = (c = p \<and> has_prefix cs ps)"

text \<open>\<open>strings.Contains\<close>\<close>

fun contains_sub :: "string \<Rightarrow> string \<Rightarrow> bool" where
  "contains_sub [] p = (p = [])"
| "contains_sub (c # cs) p = (has_prefix (c # cs) p \<or> contains_sub cs p)"

text \<open>\<open>strings.ToLower\<close>\<close>

definition char_lower :: "char \<Rightarrow> char" where
  "char_lower c = (let n = (of_char c :: nat) in if 65 \<le> n \<and> n \<le> 90 then char_of (n + 32) else c)"

definition to_lower :: "string \<Rightarrow> string" where
  "to_lower s = map char_lower s"

text \<open>\<open>strings.HasSuffix\<close>\<close>

definition has_suffix :: "string \<Rightarrow> string \<Rightarrow> bool" where
  "has_suffix s p = has_prefix (rev s) (rev p)"

text \<open>\<open>strings.ReplaceAll\<close> for a non-empty pattern\<close>

function replace_all :: "string \<Rightarrow> string \<Rightarrow> string \<Rightarrow> string" where
  "replace_all s v r =
     (if s = [] \<or> v = [] then s
      else if has_prefix s v then r @ replace_all (drop (length v) s) v r
      else hd s # replace_all (tl s) v r)"
  by pat_completeness auto

termination
  by (relation "measure (\<lambda>(s, v, r). length s)") (auto simp: neq_Nil_conv)

declare replace_all.simps [simp del]

text \<open>\<open>strings.TrimPrefix\<close>, \<open>strings.TrimSuffix\<close>\<close>

definition trim_prefix :: "string \<Rightarrow> string \<Rightarrow> string" where
  "trim_prefix s p = (if has_prefix s p then drop (length p) s else s)"

definition trim_suffix :: "string \<Rightarrow> string \<Rightarrow> string" where
  "trim_suffix s p = rev (trim_prefix (rev s) (rev p))"

section \<open>Decimal numbers\<close>

definition digit_char :: "nat \<Rightarrow> char" where
  "digit_char d = char_of (48 + d)"

fun show_nat :: "nat \<Rightarrow> string" where
  "show_nat n = (if n < 10 then [digit_char n] else show_nat (n div 10) @ [digit_char (n mod 10)])"

declare show_nat.simps [simp del]

definition show_int :: "int \<Rightarrow> string" where
  "show_int i = (if i < 0 then ''-'' @ show_nat (nat (- i)) else show_nat (nat i))"

definition is_digit :: "char \<Rightarrow> bool" where
  "is_digit c = (let n = (of_char c :: nat) in 48 \<le> n \<and> n \<le> 57)"

section \<open>Facts on the string functions\<close>

lemma is_digit_show: "d < 10 \<Longrightarrow> is_digit (digit_char d)"
  by (simp add: is_digit_def digit_char_def)

lemma show_nat_digits: "show_nat n \<noteq> [] \<and> list_all is_digit (show_nat n)"
proof (induction n rule: show_nat.induct)
  case (1 n)
  show ?case
  proof (cases "n < 10")
    case True
    then show ?thesis by (subst (1 2) show_nat.simps) (simp add: is_digit_show)
  next
    case False
    with 1 have "list_all is_digit (show_nat (n div 10))" by simp
    with False show ?thesis by (subst (1 2) show_nat.simps) (simp add: is_digit_show)
  qed
qed

lemma split_on_ne [simp]: "split_on c s \<noteq> []"
  by (induction s) (auto split: list.splits)

lemma split_on_no_sep [simp]: "c \<notin> set s \<Longrightarrow> split_on c s = [s]"
  by (induction s) auto

lemma split_on_append: "c \<notin> set p \<Longrightarrow> split_on c (p @ c # s) = p # split_on c s"
  by (induction p) auto

lemma split_on_parts: "p \<in> set (split_on c s) \<Longrightarrow> c \<notin> set p"
  by (induction s arbitrary: p) (auto split: list.splits if_splits)

lemma join_with_Cons: "ps \<noteq> [] \<Longrightarrow> join_with sep (p # ps) = p @ sep @ join_with sep ps"
  by (cases ps) auto

lemma join_with_Cons_char: "join_with sep ((x # p) # ps) = x # join_with sep (p # ps)"
  by (cases ps) auto

lemma join_split_on: "join_with [c] (split_on c s) = s"
proof (induction s)
  case (Cons x xs)
  then show ?case
    by (auto simp: join_with_Cons join_with_Cons_char split: list.splits)
qed simp

lemma split_on_join:
  "ps \<noteq> [] \<Longrightarrow> (\<And>p. p \<in> set ps \<Longrightarrow> c \<notin> set p) \<Longrightarrow> split_on c (join_with [c] ps) = ps"
  by (induction "[c]" ps rule: join_with.induct) (auto simp: split_on_append)

lemma set_trim_space: "set (trim_space s) \<subseteq> set s"
proof
  fix x
  assume "x \<in> set (trim_space s)"
  then have "x \<in> set (dropWhile is_ascii_space (rev (trim_left s)))"
    by (simp add: trim_space_def trim_left_def)
  then have "x \<in> set (rev (trim_left s))" by (rule set_dropWhileD)
  then have "x \<in> set (dropWhile is_ascii_space s)" by (simp add: trim_left_def)
  then show "x \<in> set s" by (rule set_dropWhileD)
qed

lemma trim_left_id: "s = [] \<or> \<not> is_ascii_space (hd s) \<Longrightarrow> trim_left s = s"
  by (cases s) (auto simp: trim_left_def)

lemma trim_left_hd: "trim_left s \<noteq> [] \<Longrightarrow> \<not> is_ascii_space (hd (trim_left s))"
  by (simp add: trim_left_def hd_dropWhile)

lemma trim_space_id:
  assumes "s = [] \<or> (\<not> is_ascii_space (hd s) \<and> \<not> is_ascii_space (last s))"
  shows "trim_space s = s"
proof -
  have "trim_left s = s" "trim_left (rev s) = rev s"
    using assms by (auto intro!: trim_left_id simp: hd_rev)
  then show ?thesis by (simp add: trim_space_def)
qed

lemma trim_space_Nil [simp]: "trim_space [] = []"
  by (simp add: trim_space_def trim_left_def)

lemma trim_space_ends:
  assumes "trim_space s \<noteq> []"
  shows "\<not> is_ascii_space (hd (trim_space s)) \<and> \<not> is_ascii_space (last (trim_space s))"
proof -
  let ?l = "trim_left s" and ?r = "trim_left (rev (trim_left s))"
  have r: "?r \<noteq> []" using assms by (auto simp: trim_space_def)
  obtain k where k: "rev ?l = takeWhile is_ascii_space (rev ?l) @ ?r"
    by (simp add: trim_left_def)
  then have l: "?l = rev ?r @ rev (takeWhile is_ascii_space (rev ?l))"
    by (metis rev_append rev_rev_ident)
  then have "hd ?l = hd (rev ?r)" using r by (metis hd_append2 rev_is_Nil_conv)
  moreover have "?l \<noteq> []" using l r by (metis append_is_Nil_conv rev_is_Nil_conv)
  ultimately show ?thesis
    using trim_left_hd [of s] trim_left_hd [of "rev ?l"] r by (simp add: trim_space_def last_rev)
qed

lemma trim_space_idem [simp]: "trim_space (trim_space s) = trim_space s"
  using trim_space_ends [of s] by (intro trim_space_id) auto

lemma to_lower_append [simp]: "to_lower (s @ t) = to_lower s @ to_lower t"
  by (simp add: to_lower_def)

lemma has_prefix_append [simp]: "has_prefix (p @ s) p"
  by (induction p) auto

lemma has_prefix_iff: "has_prefix s p \<longleftrightarrow> (\<exists>r. s = p @ r)"
  by (induction s p rule: has_prefix.induct) auto

lemma contains_sub_iff: "contains_sub s p \<longleftrightarrow> (\<exists>a b. s = a @ p @ b)"
proof (induction s p rule: contains_sub.induct)
  case (2 c cs p)
  show ?case
  proof
    assume "contains_sub (c # cs) p"
    then show "\<exists>a b. c # cs = a @ p @ b"
      using 2 by (metis append_Cons append_Nil contains_sub.simps(2) has_prefix_iff)
  next
    assume "\<exists>a b. c # cs = a @ p @ b"
    then obtain a b where ab: "c # cs = a @ p @ b" by blast
    show "contains_sub (c # cs) p"
    proof (cases a)
      case Nil
      then have "has_prefix (c # cs) p" using ab has_prefix_append by simp
      then show ?thesis by simp
    next
      case (Cons d a')
      then show ?thesis using ab 2 by auto
    qed
  qed
qed auto

lemma replace_all_Nil [simp]: "replace_all [] v r = []"
  by (simp add: replace_all.simps)

lemma replace_all_Cons: "v \<noteq> [] \<Longrightarrow> replace_all (c # cs) v r =
    (if has_prefix (c # cs) v then r @ replace_all (drop (length v) (c # cs)) v r else c # replace_all cs v r)"
  by (subst replace_all.simps) simp

end
