(* ===== verification/GoErrors.thy ===== *)
theory GoErrors
  imports Prelude
begin

text \<open>
  Error values and the classification of Terraform failures (package
  \<open>pkg/terraform/errors\<close>). A Go error is a value of the datatype below; a nil error is the
  option \<open>None\<close>. \<open>Plain\<close> is a leaf made by \<open>errors.New\<close> or
  \<open>errors.Errorf\<close>, \<open>WithMsg\<close> the result of \<open>errors.Wrap\<close>,
  \<open>errors.Wrapf\<close> or \<open>errors.WithMessage\<close>; the others are the package's own
  types. Only \<open>WithMsg\<close> has an \<open>Unwrap\<close> method: the package's types embed an
  \<open>error\<close> or a \<open>*tfError\<close>, which promotes \<open>Error\<close> alone.
\<close>

datatype gerror =
    Plain string
  | WithMsg string gerror
  | ApplyFailed string
  | DestroyFailed string
  | RefreshFailed string
  | PlanFailed string
  | RetrySchedule int int
  | AsyncCreateFailed gerror
  | AsyncUpdateFailed gerror
  | AsyncDeleteFailed gerror

text \<open>The \<open>Error()\<close> methods.\<close>

primrec error_string :: "gerror \<Rightarrow> string" where
  "error_string (Plain m) = m"
| "error_string (WithMsg m e) = m @ '': '' @ error_string e"
| "error_string (ApplyFailed m) = m"
| "error_string (DestroyFailed m) = m"
| "error_string (RefreshFailed m) = m"
| "error_string (PlanFailed m) = m"
| "error_string (RetrySchedule n t) =
     ''native provider reuse budget has been exceeded: invocationCount: '' @ show_int n
       @ '', ttl: '' @ show_int t"
| "error_string (AsyncCreateFailed e) = error_string e"
| "error_string (AsyncUpdateFailed e) = error_string e"
| "error_string (AsyncDeleteFailed e) = error_string e"

text \<open>\<open>errors.Wrap\<close> maps nil to nil.\<close>

definition wrap_err :: "string \<Rightarrow> gerror option \<Rightarrow> gerror option" where
  "wrap_err m e = map_option (WithMsg m) e"

text \<open>\<open>errors.As\<close>: the first error of the chain that has the wanted type.\<close>

primrec errors_as :: "(gerror \<Rightarrow> bool) \<Rightarrow> gerror \<Rightarrow> bool" where
  "errors_as p (Plain m) = p (Plain m)"
| "errors_as p (WithMsg m e) = (p (WithMsg m e) \<or> errors_as p e)"
| "errors_as p (ApplyFailed m) = p (ApplyFailed m)"
| "errors_as p (DestroyFailed m) = p (DestroyFailed m)"
| "errors_as p (RefreshFailed m) = p (RefreshFailed m)"
| "errors_as p (PlanFailed m) = p (PlanFailed m)"
| "errors_as p (RetrySchedule n t) = p (RetrySchedule n t)"
| "errors_as p (AsyncCreateFailed e) = p (AsyncCreateFailed e)"
| "errors_as p (AsyncUpdateFailed e) = p (AsyncUpdateFailed e)"
| "errors_as p (AsyncDeleteFailed e) = p (AsyncDeleteFailed e)"

section \<open>Terraform logs\<close>

record log_diagnostic =
  severity :: string
  summary :: string
  detail :: string

record terraform_log =
  level :: string
  message :: string
  diagnostic :: log_diagnostic

definition level_error :: string where
  "level_error = ''error''"

text \<open>The JSON decoder of one log line is a parameter.\<close>

type_synonym log_decoder = "string \<Rightarrow> gerror + terraform_log"

fun parse_log_lines :: "log_decoder \<Rightarrow> string list \<Rightarrow> gerror + terraform_log list" where
  "parse_log_lines unmarshal [] = Inr []"
| "parse_log_lines unmarshal (x # xs) =
     (let l = trim_space x in
      if l = [] then parse_log_lines unmarshal xs
      else (case unmarshal l of
              Inl e \<Rightarrow> Inl e
            | Inr log \<Rightarrow> (case parse_log_lines unmarshal xs of
                             Inl e \<Rightarrow> Inl e
                           | Inr logs \<Rightarrow> Inr (log # logs))))"

definition parse_terraform_logs :: "log_decoder \<Rightarrow> string \<Rightarrow> gerror + terraform_log list" where
  "parse_terraform_logs unmarshal logs = parse_log_lines unmarshal (split_on (CHR 0x0A) logs)"

definition log_error_message :: "terraform_log \<Rightarrow> string" where
  "log_error_message l =
     (if severity (diagnostic l) = level_error \<and> summary (diagnostic l) \<noteq> ''''
      then summary (diagnostic l) @ '': '' @ detail (diagnostic l)
      else message l)"

text \<open>The parse error (empty when the logs parse) and the error's message.\<close>

definition new_tf_error :: "log_decoder \<Rightarrow> string \<Rightarrow> string \<Rightarrow> string \<times> string" where
  "new_tf_error unmarshal msg logs =
     (case parse_terraform_logs unmarshal logs of
        Inl err \<Rightarrow> (error_string err, msg)
      | Inr tf_logs \<Rightarrow>
          ('''', msg @ '': '' @ join_with [CHR 0x0A]
             (map log_error_message (filter (\<lambda>l. level l = level_error) tf_logs))))"

definition with_parse_error :: "string \<Rightarrow> gerror \<Rightarrow> gerror" where
  "with_parse_error parse_error result =
     (if parse_error = '''' then result else WithMsg parse_error result)"

definition new_apply_failed :: "log_decoder \<Rightarrow> string \<Rightarrow> gerror" where
  "new_apply_failed unmarshal logs =
     (let (pe, m) = new_tf_error unmarshal ''apply failed'' logs in with_parse_error pe (ApplyFailed m))"

definition new_destroy_failed :: "log_decoder \<Rightarrow> string \<Rightarrow> gerror" where
  "new_destroy_failed unmarshal logs =
     (let (pe, m) = new_tf_error unmarshal ''destroy failed'' logs in with_parse_error pe (DestroyFailed m))"

definition new_refresh_failed :: "log_decoder \<Rightarrow> string \<Rightarrow> gerror" where
  "new_refresh_failed unmarshal logs =
     (let (pe, m) = new_tf_error unmarshal ''refresh failed'' logs in with_parse_error pe (RefreshFailed m))"

definition new_plan_failed :: "log_decoder \<Rightarrow> string \<Rightarrow> gerror" where
  "new_plan_failed unmarshal logs =
     (let (pe, m) = new_tf_error unmarshal ''plan failed'' logs in with_parse_error pe (PlanFailed m))"

definition new_retry_schedule_error :: "int \<Rightarrow> int \<Rightarrow> gerror" where
  "new_retry_schedule_error invocation_count ttl = RetrySchedule invocation_count ttl"

definition new_async_create_failed :: "gerror option \<Rightarrow> gerror option" where
  "new_async_create_failed err =
     (case err of None \<Rightarrow> None | Some e \<Rightarrow> Some (AsyncCreateFailed (WithMsg ''async create failed'' e)))"

definition new_async_update_failed :: "gerror option \<Rightarrow> gerror option" where
  "new_async_update_failed err =
     (case err of None \<Rightarrow> None | Some e \<Rightarrow> Some (AsyncUpdateFailed (WithMsg ''async update failed'' e)))"

definition new_async_delete_failed :: "gerror option \<Rightarrow> gerror option" where
  "new_async_delete_failed err =
     (case err of None \<Rightarrow> None | Some e \<Rightarrow> Some (AsyncDeleteFailed (WithMsg ''async delete failed'' e)))"

section \<open>Classification\<close>

definition is_apply_failed :: "gerror \<Rightarrow> bool" where
  "is_apply_failed e = errors_as (\<lambda>x. case x of ApplyFailed _ \<Rightarrow> True | _ \<Rightarrow> False) e"

definition is_destroy_failed :: "gerror \<Rightarrow> bool" where
  "is_destroy_failed e = errors_as (\<lambda>x. case x of DestroyFailed _ \<Rightarrow> True | _ \<Rightarrow> False) e"

definition is_refresh_failed :: "gerror \<Rightarrow> bool" where
  "is_refresh_failed e = errors_as (\<lambda>x. case x of RefreshFailed _ \<Rightarrow> True | _ \<Rightarrow> False) e"

definition is_plan_failed :: "gerror \<Rightarrow> bool" where
  "is_plan_failed e = errors_as (\<lambda>x. case x of PlanFailed _ \<Rightarrow> True | _ \<Rightarrow> False) e"

definition is_retry_schedule_error :: "gerror \<Rightarrow> bool" where
  "is_retry_schedule_error e = errors_as (\<lambda>x. case x of RetrySchedule _ _ \<Rightarrow> True | _ \<Rightarrow> False) e"

definition is_async_create_failed :: "gerror \<Rightarrow> bool" where
  "is_async_create_failed e = errors_as (\<lambda>x. case x of AsyncCreateFailed _ \<Rightarrow> True | _ \<Rightarrow> False) e"

definition is_async_update_failed :: "gerror \<Rightarrow> bool" where
  "is_async_update_failed e = errors_as (\<lambda>x. case x of AsyncUpdateFailed _ \<Rightarrow> True | _ \<Rightarrow> False) e"

definition is_async_delete_failed :: "gerror \<Rightarrow> bool" where
  "is_async_delete_failed e = errors_as (\<lambda>x. case x of AsyncDeleteFailed _ \<Rightarrow> True | _ \<Rightarrow> False) e"

lemmas classifier_defs =
  is_apply_failed_def is_destroy_failed_def is_refresh_failed_def is_plan_failed_def
  is_retry_schedule_error_def is_async_create_failed_def is_async_update_failed_def
  is_async_delete_failed_def

lemmas constructor_defs =
  new_apply_failed_def new_destroy_failed_def new_refresh_failed_def new_plan_failed_def
  with_parse_error_def

lemma new_async_failed_simps [simp]:
  "new_async_create_failed None = None" "new_async_update_failed None = None"
  "new_async_delete_failed None = None"
  "new_async_create_failed (Some e) = Some (AsyncCreateFailed (WithMsg ''async create failed'' e))"
  "new_async_update_failed (Some e) = Some (AsyncUpdateFailed (WithMsg ''async update failed'' e))"
  "new_async_delete_failed (Some e) = Some (AsyncDeleteFailed (WithMsg ''async delete failed'' e))"
  by (simp_all add: new_async_create_failed_def new_async_update_failed_def new_async_delete_failed_def)

text \<open>A failure of one Terraform command is never taken for a failure of another one, whatever the logs hold.\<close>

lemma new_apply_failed_class [simp]:
  "is_apply_failed (new_apply_failed u logs)" "\<not> is_destroy_failed (new_apply_failed u logs)"
  by (auto simp: constructor_defs classifier_defs split: prod.splits)

lemma new_destroy_failed_class [simp]:
  "is_destroy_failed (new_destroy_failed u logs)" "\<not> is_apply_failed (new_destroy_failed u logs)"
  by (auto simp: constructor_defs classifier_defs split: prod.splits)

lemma async_failed_class [simp]:
  "is_async_create_failed (AsyncCreateFailed e)" "is_async_update_failed (AsyncUpdateFailed e)"
  "is_async_delete_failed (AsyncDeleteFailed e)"
  "\<not> is_async_create_failed (AsyncUpdateFailed e)" "\<not> is_async_create_failed (AsyncDeleteFailed e)"
  "\<not> is_async_update_failed (AsyncCreateFailed e)" "\<not> is_async_update_failed (AsyncDeleteFailed e)"
  "\<not> is_async_delete_failed (AsyncCreateFailed e)" "\<not> is_async_delete_failed (AsyncUpdateFailed e)"
  "\<not> is_apply_failed (AsyncCreateFailed e)" "\<not> is_apply_failed (AsyncUpdateFailed e)"
  "\<not> is_apply_failed (AsyncDeleteFailed e)"
  "\<not> is_destroy_failed (AsyncCreateFailed e)" "\<not> is_destroy_failed (AsyncUpdateFailed e)"
  "\<not> is_destroy_failed (AsyncDeleteFailed e)"
  by (simp_all add: classifier_defs)

end
