(* ===== verification/KeyedStore.thy ===== *)
theory KeyedStore
  imports GoErrors
begin

text \<open>
  The interface shared by the two per-resource stores of the runtime, the
  \<open>OperationTrackerStore\<close> and the \<open>WorkspaceStore\<close>: get-or-create by the UID of the
  managed resource, and removal. What is handed out is a pointer, so an entry is an address and
  the laws speak of which address a UID has and which addresses were ever allocated. The
  finalizers that clean a store before the Kubernetes finalizer goes are clients of the interface.
\<close>

record kobject =
  obj_uid :: string
  obj_namespace :: string
  obj_name :: string

locale keyed_store =
  fixes get :: "string \<Rightarrow> 's \<Rightarrow> nat \<times> 's"
    and remove :: "string \<Rightarrow> 's \<Rightarrow> gerror option \<times> 's"
    and live :: "'s \<Rightarrow> string \<rightharpoonup> nat"
    and allocated :: "'s \<Rightarrow> nat set"
    and inv :: "'s \<Rightarrow> bool"
  assumes get_hit: "inv s \<Longrightarrow> live s k = Some a \<Longrightarrow> get k s = (a, s)"
    and get_miss: "inv s \<Longrightarrow> live s k = None \<Longrightarrow> get k s = (a, s') \<Longrightarrow>
      a \<notin> allocated s \<and> live s' = (live s)(k \<mapsto> a) \<and> allocated s' = insert a (allocated s)"
    and get_inv: "inv s \<Longrightarrow> get k s = (a, s') \<Longrightarrow> inv s'"
    and remove_ok: "inv s \<Longrightarrow> remove k s = (None, s') \<Longrightarrow>
      live s' = (live s)(k := None) \<and> allocated s' = allocated s"
    and remove_failed: "inv s \<Longrightarrow> remove k s = (Some e, s') \<Longrightarrow> s' = s"
    and remove_inv: "inv s \<Longrightarrow> remove k s = (r, s') \<Longrightarrow> inv s'"
    and inv_live: "inv s \<Longrightarrow> live s k = Some a \<Longrightarrow> a \<in> allocated s"
    and inv_inj: "inv s \<Longrightarrow> live s k = Some a \<Longrightarrow> live s j = Some a \<Longrightarrow> j = k"
begin

lemma get_live: "inv s \<Longrightarrow> get k s = (a, s') \<Longrightarrow> live s' = (live s)(k \<mapsto> a)"
proof (cases "live s k")
  case (Some b)
  assume "inv s" "get k s = (a, s')"
  with Some get_hit [of s k b] show ?thesis by (auto simp: fun_upd_idem)
qed (use get_miss in blast)

text \<open>Asking twice gives the same entry, whatever happened to other keys in between.\<close>

lemma get_stable:
  assumes "inv s" "get k s = (a, s1)" "get j s1 = (b, s2)"
  shows "fst (get k s2) = a"
proof -
  have i1: "inv s1" using assms(1,2) by (rule get_inv)
  have i2: "inv s2" using i1 assms(3) by (rule get_inv)
  have l1: "live s1 k = Some a" using get_live [OF assms(1,2)] by simp
  have "live s2 k = Some a"
    using get_live [OF i1 assms(3)] l1 get_hit [OF i1 l1] assms(3) by (cases "j = k") auto
  then show ?thesis using get_hit [OF i2] by simp
qed

lemma get_distinct:
  assumes "inv s" "get k s = (a, s1)" "get j s1 = (b, s2)" "j \<noteq> k"
  shows "a \<noteq> b"
proof
  assume "a = b"
  have i1: "inv s1" using assms(1,2) by (rule get_inv)
  have i2: "inv s2" using i1 assms(3) by (rule get_inv)
  have "live s2 j = Some b" "live s2 k = Some a"
    using get_live [OF assms(1,2)] get_live [OF i1 assms(3)] assms(4) by simp_all
  with \<open>a = b\<close> i2 assms(4) show False using inv_inj by blast
qed

text \<open>A new entry for a removed key is a fresh one: holders of the old pointer do not share it.\<close>

lemma get_after_remove_fresh:
  assumes "inv s" "get k s = (a, s1)" "remove k s1 = (None, s2)" "get k s2 = (b, s3)"
  shows "b \<noteq> a"
proof -
  have i1: "inv s1" using assms(1,2) by (rule get_inv)
  have i2: "inv s2" using i1 assms(3) by (rule remove_inv)
  have "a \<in> allocated s1" using get_live [OF assms(1,2)] inv_live [OF i1, of k a] by simp
  moreover have "live s2 k = None" "allocated s2 = allocated s1"
    using remove_ok [OF i1 assms(3)] by simp_all
  ultimately show ?thesis using get_miss [OF i2 _ assms(4)] by blast
qed

end

section \<open>Finalizers\<close>

text \<open>
  \<open>WorkspaceFinalizer\<close> (\<open>pkg/terraform/finalizer.go\<close>) and \<open>OperationTrackerFinalizer\<close>
  (\<open>pkg/controller/finalizer_tfpluginsdk.go\<close>): the store's removal, then the underlying
  finalizer's. The Kubernetes finalizer is the parameter \<open>af\<close> on the state of the API server.
\<close>

definition workspace_add_finalizer ::
  "(kobject \<Rightarrow> 'w \<Rightarrow> gerror option \<times> 'w) \<Rightarrow> kobject \<Rightarrow> 'w \<Rightarrow> gerror option \<times> 'w" where
  "workspace_add_finalizer af obj w = af obj w"

definition workspace_remove_finalizer ::
  "(string \<Rightarrow> 's \<Rightarrow> gerror option \<times> 's) \<Rightarrow> (kobject \<Rightarrow> 'w \<Rightarrow> gerror option \<times> 'w) \<Rightarrow>
     kobject \<Rightarrow> 's \<times> 'w \<Rightarrow> gerror option \<times> ('s \<times> 'w)" where
  "workspace_remove_finalizer store_remove af obj sw =
     (let (s, w) = sw; (e, s') = store_remove (obj_uid obj) s in
      case e of
        Some err \<Rightarrow> (wrap_err ''cannot remove workspace from the store'' (Some err), (s', w))
      | None \<Rightarrow> (let (r, w') = af obj w in (r, (s', w'))))"

definition tracker_remove_finalizer ::
  "(string \<Rightarrow> 's \<Rightarrow> gerror option \<times> 's) \<Rightarrow> (kobject \<Rightarrow> 'w \<Rightarrow> gerror option \<times> 'w) \<Rightarrow>
     kobject \<Rightarrow> 's \<times> 'w \<Rightarrow> gerror option \<times> ('s \<times> 'w)" where
  "tracker_remove_finalizer remove_tracker af obj sw =
     (let (s, w) = sw; (e, s') = remove_tracker (obj_uid obj) s in
      case e of
        Some err \<Rightarrow> (wrap_err ''cannot remove tracker from the store'' (Some err), (s', w))
      | None \<Rightarrow> (let (r, w') = af obj w in (r, (s', w'))))"

definition tracker_add_finalizer ::
  "(kobject \<Rightarrow> 'w \<Rightarrow> gerror option \<times> 'w) \<Rightarrow> kobject \<Rightarrow> 'w \<Rightarrow> gerror option \<times> 'w" where
  "tracker_add_finalizer af obj w = af obj w"

context keyed_store
begin

text \<open>
  The Kubernetes finalizer is only touched once the entry of the resource is gone; when the store
  cannot remove it, neither the store nor the API server changes.
\<close>

lemma workspace_finalizer_order:
  assumes "inv s" "workspace_remove_finalizer remove af obj (s, w) = (r, (s', w'))"
  shows "(live s' (obj_uid obj) = None \<and> (r, w') = af obj w) \<or> (r \<noteq> None \<and> s' = s \<and> w' = w)"
  using assms remove_ok [OF assms(1)] remove_failed [OF assms(1)]
  by (fastforce simp: workspace_remove_finalizer_def wrap_err_def split: prod.splits option.splits)

lemma tracker_finalizer_order:
  assumes "inv s" "tracker_remove_finalizer remove af obj (s, w) = (r, (s', w'))"
  shows "(live s' (obj_uid obj) = None \<and> (r, w') = af obj w) \<or>
    (fst (remove (obj_uid obj) s) \<noteq> None \<and> r \<noteq> None \<and> s' = s \<and> w' = w)"
  using assms remove_ok [OF assms(1)] remove_failed [OF assms(1)]
  by (fastforce simp: tracker_remove_finalizer_def wrap_err_def split: prod.splits option.splits)

end

end
