(* ===== verification/Operation.thy ===== *)
theory Operation
  imports GoErrors
begin

text \<open>
  The record of the last Terraform operation of a resource (\<open>pkg/terraform/operation.go\<close>):
  its fields, its methods, each of which runs under the operation's mutex and so is one atomic
  step on the record, and the interface \<open>exclusive_op\<close> its clients rely on: whoever gets
  \<open>true\<close> from \<open>MarkStart\<close> is the only one until the operation is ended or
  cleared.
\<close>

record operation =
  op_type :: string
  start_time :: "time option"
  end_time :: "time option"
  op_err :: "gerror option"

definition new_operation :: operation where
  "new_operation = \<lparr>op_type = '''', start_time = None, end_time = None, op_err = None\<rparr>"

definition mark_start :: "string \<Rightarrow> time \<Rightarrow> operation \<Rightarrow> bool \<times> operation" where
  "mark_start t now o1 =
     (if start_time o1 \<noteq> None \<and> end_time o1 = None then (False, o1)
      else (True, o1\<lparr>op_type := t, start_time := Some now, end_time := None\<rparr>))"

definition mark_end :: "time \<Rightarrow> operation \<Rightarrow> operation" where
  "mark_end now o1 = o1\<lparr>end_time := Some now\<rparr>"

definition clear_op :: "bool \<Rightarrow> operation \<Rightarrow> operation" where
  "clear_op preserve_error o1 =
     (let o2 = o1\<lparr>op_type := '''', start_time := None, end_time := None\<rparr>
      in if \<not> preserve_error then o2\<lparr>op_err := None\<rparr> else o2)"

definition flush_op :: "operation \<Rightarrow> operation" where
  "flush_op o1 = clear_op False o1"

definition is_ended :: "operation \<Rightarrow> bool" where
  "is_ended o1 \<longleftrightarrow> end_time o1 \<noteq> None"

definition is_running :: "operation \<Rightarrow> bool" where
  "is_running o1 \<longleftrightarrow> start_time o1 \<noteq> None \<and> end_time o1 = None"

text \<open>\<open>StartTime\<close> and \<open>EndTime\<close> dereference a pointer: \<open>None\<close> is the nil dereference panic.\<close>

definition get_start_time :: "operation \<Rightarrow> time option" where
  "get_start_time o1 = start_time o1"

definition get_end_time :: "operation \<Rightarrow> time option" where
  "get_end_time o1 = end_time o1"

definition set_error :: "gerror option \<Rightarrow> operation \<Rightarrow> operation" where
  "set_error e o1 = o1\<lparr>op_err := e\<rparr>"

definition get_error :: "operation \<Rightarrow> gerror option" where
  "get_error o1 = op_err o1"

section \<open>The interface\<close>

locale exclusive_op =
  fixes start :: "string \<Rightarrow> time \<Rightarrow> 's \<Rightarrow> bool \<times> 's"
    and finish :: "time \<Rightarrow> 's \<Rightarrow> 's"
    and clear :: "bool \<Rightarrow> 's \<Rightarrow> 's"
    and record_error :: "gerror option \<Rightarrow> 's \<Rightarrow> 's"
    and running :: "'s \<Rightarrow> bool"
    and started_at :: "'s \<Rightarrow> time option"
  assumes start_refused: "running s \<Longrightarrow> start t now s = (False, s)"
    and start_granted: "\<not> running s \<Longrightarrow> \<exists>s'. start t now s = (True, s') \<and> running s' \<and> started_at s' = Some now"
    and finish_stops: "\<not> running (finish now s)"
    and clear_stops: "\<not> running (clear b s)"
    and record_error_frame: "running (record_error e s) = running s"
    and running_started: "running s \<Longrightarrow> started_at s \<noteq> None"
begin

lemma start_iff: "fst (start t now s) \<longleftrightarrow> \<not> running s"
proof (cases "running s")
  case False
  then obtain s' where "start t now s = (True, s')" using start_granted by blast
  with False show ?thesis by simp
qed (simp add: start_refused)

lemma start_leaves_running: "running (snd (start t now s))"
proof (cases "running s")
  case False
  then obtain s' where "start t now s = (True, s')" "running s'" using start_granted by blast
  then show ?thesis by simp
qed (simp add: start_refused)

lemma granted_not_running: "start t now s = (True, s') \<Longrightarrow> \<not> running s \<and> running s'"
  using start_iff [of t now s] start_leaves_running [of t now s] by simp

lemma refused_unchanged: "start t now s = (False, s') \<Longrightarrow> running s \<and> s' = s"
  using start_iff [of t now s] start_refused [of s t now] by auto

text \<open>The error message of a refused start reads the start time of the running operation: it never panics.\<close>

lemma refused_start_time: "start t now s = (False, s') \<Longrightarrow> started_at s' \<noteq> None"
  using refused_unchanged running_started by blast

lemma granted_start_time: "start t now s = (True, s') \<Longrightarrow> started_at s' = Some now"
  using start_granted [of s t now] granted_not_running [of t now s s'] by auto

end

interpretation tfop: exclusive_op mark_start mark_end clear_op set_error is_running get_start_time
  by unfold_locales
    (auto simp: mark_start_def mark_end_def clear_op_def set_error_def is_running_def get_start_time_def Let_def)

section \<open>Runs of concurrent callers\<close>

text \<open>
  Any number of goroutines call the methods; the mutex serialises them, so an execution is a
  list of calls. \<open>run_calls\<close> also counts the granted starts and the calls that may stop
  a running operation.
\<close>

datatype op_call = CStart string time | CEnd time | CClear bool | CSetError "gerror option"

fun do_call :: "op_call \<Rightarrow> operation \<Rightarrow> bool \<times> operation" where
  "do_call (CStart t now) o1 = mark_start t now o1"
| "do_call (CEnd now) o1 = (True, mark_end now o1)"
| "do_call (CClear b) o1 = (True, clear_op b o1)"
| "do_call (CSetError e) o1 = (True, set_error e o1)"

fun run_calls :: "op_call list \<Rightarrow> operation \<Rightarrow> operation" where
  "run_calls [] o1 = o1"
| "run_calls (c # cs) o1 = run_calls cs (snd (do_call c o1))"

fun releases :: "op_call \<Rightarrow> bool" where
  "releases (CStart _ _) = False"
| "releases (CEnd _) = True"
| "releases (CClear _) = True"
| "releases (CSetError _) = False"

lemma run_calls_keep_running:
  "is_running o1 \<Longrightarrow> (\<forall>c \<in> set cs. \<not> releases c) \<Longrightarrow> is_running (run_calls cs o1)"
proof (induction cs arbitrary: o1)
  case (Cons c cs)
  then show ?case
    by (cases c) (auto simp: tfop.start_leaves_running tfop.record_error_frame)
qed simp

text \<open>
  Mutual exclusion of operations: after a granted \<open>MarkStart\<close>, and whatever other
  goroutines call in between, a second \<open>MarkStart\<close> is refused and leaves the record
  unchanged unless some call ended or cleared the operation.
\<close>

lemma mark_start_exclusive:
  assumes "mark_start t now o1 = (True, o2)"
    and "\<forall>c \<in> set cs. \<not> releases c"
  shows "mark_start t' now' (run_calls cs o2) = (False, run_calls cs o2)"
proof -
  have "is_running o2" using tfop.granted_not_running [OF assms(1)] by simp
  then have "is_running (run_calls cs o2)" using assms(2) by (rule run_calls_keep_running)
  then show ?thesis by (rule tfop.start_refused)
qed

end
