(* ===== verification/AsyncTracker.thy ===== *)
theory AsyncTracker
  imports KeyedStore Operation
begin

text \<open>
  The per-resource tracker of the no-fork clients and its store
  (\<open>pkg/controller/nofork_store.go\<close>). The Terraform states are values of third-party types:
  the SDKv2 instance state keeps its ID and an opaque rest, the Framework state and identity are
  opaque. A nil pointer is \<open>None\<close>. Each method runs under the tracker's mutex.
\<close>

datatype state_mark = DefaultState | ReconstructedState

record 'a instance_state =
  state_id :: string
  state_rest :: 'a

record ('a, 'f, 'i) async_tracker =
  last_operation :: operation
  tf_state :: "'a instance_state option"
  fw_state :: "'f option"
  fw_identity :: "'i option"
  state_mark :: state_mark
  is_deleted :: bool

definition new_async_tracker :: "('a, 'f, 'i) async_tracker" where
  "new_async_tracker =
     \<lparr>last_operation = new_operation, tf_state = None, fw_state = None, fw_identity = None,
      state_mark = DefaultState, is_deleted = False\<rparr>"

definition get_tf_state :: "('a, 'f, 'i) async_tracker \<Rightarrow> 'a instance_state option" where
  "get_tf_state t = tf_state t"

definition has_state :: "('a, 'f, 'i) async_tracker \<Rightarrow> bool" where
  "has_state t = (case tf_state t of None \<Rightarrow> False | Some s \<Rightarrow> state_id s \<noteq> '''')"

definition set_tf_state :: "'a instance_state option \<Rightarrow> ('a, 'f, 'i) async_tracker \<Rightarrow> ('a, 'f, 'i) async_tracker" where
  "set_tf_state s t = t\<lparr>tf_state := s, state_mark := DefaultState\<rparr>"

definition set_reconstructed_tf_state ::
  "'a instance_state option \<Rightarrow> ('a, 'f, 'i) async_tracker \<Rightarrow> ('a, 'f, 'i) async_tracker" where
  "set_reconstructed_tf_state s t = t\<lparr>tf_state := s, state_mark := ReconstructedState\<rparr>"

definition reset_reconstructed_tf_state :: "('a, 'f, 'i) async_tracker \<Rightarrow> ('a, 'f, 'i) async_tracker" where
  "reset_reconstructed_tf_state t =
     (if state_mark t = ReconstructedState then t\<lparr>tf_state := None, state_mark := DefaultState\<rparr> else t)"

definition get_tf_id :: "('a, 'f, 'i) async_tracker \<Rightarrow> string" where
  "get_tf_id t = (case tf_state t of None \<Rightarrow> '''' | Some s \<Rightarrow> state_id s)"

definition get_deleted :: "('a, 'f, 'i) async_tracker \<Rightarrow> bool" where
  "get_deleted t = is_deleted t"

definition set_deleted :: "bool \<Rightarrow> ('a, 'f, 'i) async_tracker \<Rightarrow> ('a, 'f, 'i) async_tracker" where
  "set_deleted b t = t\<lparr>is_deleted := b\<rparr>"

definition get_framework_tf_state :: "('a, 'f, 'i) async_tracker \<Rightarrow> 'f option" where
  "get_framework_tf_state t = fw_state t"

definition has_framework_tf_state :: "('a, 'f, 'i) async_tracker \<Rightarrow> bool" where
  "has_framework_tf_state t \<longleftrightarrow> fw_state t \<noteq> None"

definition set_framework_tf_state :: "'f option \<Rightarrow> ('a, 'f, 'i) async_tracker \<Rightarrow> ('a, 'f, 'i) async_tracker" where
  "set_framework_tf_state s t = t\<lparr>fw_state := s, state_mark := DefaultState\<rparr>"

definition set_reconstructed_framework_tf_state ::
  "'f option \<Rightarrow> ('a, 'f, 'i) async_tracker \<Rightarrow> ('a, 'f, 'i) async_tracker" where
  "set_reconstructed_framework_tf_state s t = t\<lparr>fw_state := s, state_mark := ReconstructedState\<rparr>"

definition reset_reconstructed_framework_tf_state :: "('a, 'f, 'i) async_tracker \<Rightarrow> ('a, 'f, 'i) async_tracker" where
  "reset_reconstructed_framework_tf_state t =
     (if state_mark t = ReconstructedState
      then t\<lparr>fw_state := None, fw_identity := None, state_mark := DefaultState\<rparr> else t)"

definition get_framework_identity :: "('a, 'f, 'i) async_tracker \<Rightarrow> 'i option" where
  "get_framework_identity t = fw_identity t"

definition set_framework_identity :: "'i option \<Rightarrow> ('a, 'f, 'i) async_tracker \<Rightarrow> ('a, 'f, 'i) async_tracker" where
  "set_framework_identity i t = t\<lparr>fw_identity := i\<rparr>"

lemmas tracker_defs =
  get_tf_state_def has_state_def set_tf_state_def set_reconstructed_tf_state_def
  reset_reconstructed_tf_state_def get_tf_id_def get_deleted_def set_deleted_def
  get_framework_tf_state_def has_framework_tf_state_def set_framework_tf_state_def
  set_reconstructed_framework_tf_state_def reset_reconstructed_framework_tf_state_def
  get_framework_identity_def set_framework_identity_def

text \<open>A state that came from the provider is never dropped by a reset; a reconstructed one always is.\<close>

lemma reset_keeps_provider_state:
  "get_tf_state (reset_reconstructed_tf_state (set_tf_state s t)) = s"
  "get_tf_state (reset_reconstructed_tf_state (set_reconstructed_tf_state s t)) = None"
  by (simp_all add: tracker_defs)

section \<open>The store\<close>

text \<open>\<open>trackers\<close> is the heap of allocated trackers, \<open>tracker_of\<close> the map of the store.\<close>

record ('a, 'f, 'i) operation_store =
  tracker_of :: "string \<rightharpoonup> nat"
  trackers :: "('a, 'f, 'i) async_tracker list"

definition new_operation_store :: "('a, 'f, 'i) operation_store" where
  "new_operation_store = \<lparr>tracker_of = Map.empty, trackers = []\<rparr>"

definition tracker :: "string \<Rightarrow> ('a, 'f, 'i) operation_store \<Rightarrow> nat \<times> ('a, 'f, 'i) operation_store" where
  "tracker uid ops =
     (case tracker_of ops uid of
        Some a \<Rightarrow> (a, ops)
      | None \<Rightarrow>
          let a = length (trackers ops) in
          (a, ops\<lparr>tracker_of := (tracker_of ops)(uid \<mapsto> a), trackers := trackers ops @ [new_async_tracker]\<rparr>))"

definition remove_tracker ::
  "string \<Rightarrow> ('a, 'f, 'i) operation_store \<Rightarrow> gerror option \<times> ('a, 'f, 'i) operation_store" where
  "remove_tracker uid ops = (None, ops\<lparr>tracker_of := (tracker_of ops)(uid := None)\<rparr>)"

definition store_inv :: "('a, 'f, 'i) operation_store \<Rightarrow> bool" where
  "store_inv ops \<longleftrightarrow>
     (\<forall>k a. tracker_of ops k = Some a \<longrightarrow> a < length (trackers ops)) \<and>
     (\<forall>j k a. tracker_of ops k = Some a \<and> tracker_of ops j = Some a \<longrightarrow> j = k)"

lemma store_inv_new [inv_intros]: "store_inv new_operation_store"
  by (simp add: store_inv_def new_operation_store_def)

interpretation ots: keyed_store tracker remove_tracker tracker_of "\<lambda>ops. {..<length (trackers ops)}" store_inv
proof unfold_locales
  fix s :: "('a, 'f, 'i) operation_store" and k a s'
  assume "store_inv s" "tracker k s = (a, s')"
  then show "store_inv s'"
    by (auto simp: store_inv_def tracker_def Let_def less_Suc_eq split: option.splits if_splits) blast+
qed (auto simp: tracker_def remove_tracker_def store_inv_def Let_def)

text \<open>
  Isolation of the trackers: in a reachable store two different resources never share a
  tracker, asking again for a resource gives its tracker, and once the tracker of a resource was
  removed a later reconciliation gets a new one, never the one an old goroutine may still hold.
\<close>

lemma tracker_isolation:
  assumes "store_inv s" "tracker u s = (a, s1)" "tracker v s1 = (b, s2)"
  shows "fst (tracker u s2) = a \<and> (u \<noteq> v \<longrightarrow> a \<noteq> b) \<and>
    (\<forall>s3 c s4. remove_tracker u s1 = (None, s3) \<longrightarrow> tracker u s3 = (c, s4) \<longrightarrow> c \<noteq> a)"
  using ots.get_stable [OF assms] ots.get_distinct [OF assms] ots.get_after_remove_fresh [OF assms(1,2)]
  by blast

text \<open>
  The finalizer of a no-fork resource reaches the Kubernetes API only after the resource's
  tracker has left the store.
\<close>

lemma tracker_finalizer_after_cleanup:
  assumes "store_inv s" "tracker_remove_finalizer remove_tracker af obj (s, w) = (r, (s', w'))"
  shows "tracker_of s' (obj_uid obj) = None \<and> (r, w') = af obj w"
  using ots.tracker_finalizer_order [OF assms] assms(2)
  by (simp add: remove_tracker_def)

end
