(* ===== verification/StructTag.thy ===== *)
theory StructTag
  imports Prelude
begin

text \<open>
  Struct tag values of the generated API types (\<open>pkg/types/structtag/value.go\<close>): the
  option constructors, \<open>build\<close>, the parser, the printer and \<open>OverrideFrom\<close>. A panic of
  \<open>build\<close> and an error of \<open>parse\<close> are the left values of the results; the
  constructors of \<open>tag_error\<close> are the source's error formats.
\<close>

datatype omit = OmitAlways | OmitEmpty | NotOmitted

datatype tag_key = KeyJSON | KeyTF

record tag_value =
  key :: tag_key
  name :: string
  omit_policy :: omit
  inline :: bool

datatype tag_error =
    InvalidJSONTagName string
  | InlineWithName string
  | InlineWithOmit omit
  | InvalidCombination string string string
  | InvalidOption string

primrec omit_str :: "omit \<Rightarrow> string" where
  "omit_str OmitAlways = ''-''"
| "omit_str OmitEmpty = ''omitempty''"
| "omit_str NotOmitted = ''''"

primrec key_str :: "tag_key \<Rightarrow> string" where
  "key_str KeyJSON = ''json''"
| "key_str KeyTF = ''tf''"

text \<open>The regular expression \<open>^[a-zA-Z_][a-zA-Z0-9_]*$\<close>.\<close>

definition is_name_start :: "char \<Rightarrow> bool" where
  "is_name_start c = (let n = (of_char c :: nat) in (97 \<le> n \<and> n \<le> 122) \<or> (65 \<le> n \<and> n \<le> 90) \<or> n = 95)"

definition is_name_char :: "char \<Rightarrow> bool" where
  "is_name_char c = (let n = (of_char c :: nat) in is_name_start c \<or> (48 \<le> n \<and> n \<le> 57))"

definition re_json_name :: "string \<Rightarrow> bool" where
  "re_json_name s = (case s of [] \<Rightarrow> False | c # cs \<Rightarrow> is_name_start c \<and> list_all is_name_char cs)"

section \<open>Options and build\<close>

datatype tag_option = WithName string | WithOmit omit | WithInline bool

primrec apply_option :: "tag_option \<Rightarrow> tag_value \<Rightarrow> tag_value" where
  "apply_option (WithName n) v = v\<lparr>name := n\<rparr>"
| "apply_option (WithOmit om) v = v\<lparr>omit_policy := om\<rparr>"
| "apply_option (WithInline b) v = v\<lparr>inline := b\<rparr>"

definition zero_value :: "tag_key \<Rightarrow> tag_value" where
  "zero_value k = \<lparr>key = k, name = '''', omit_policy = NotOmitted, inline = False\<rparr>"

definition build :: "tag_key \<Rightarrow> tag_option list \<Rightarrow> tag_error + tag_value" where
  "build k opts =
     (let v = fold apply_option opts (zero_value k) in
      if k = KeyJSON \<and> length (name v) > 0 \<and> \<not> re_json_name (name v)
      then Inl (InvalidJSONTagName (name v))
      else if inline v \<and> name v \<noteq> '''' then Inl (InlineWithName (name v))
      else if inline v \<and> omit_policy v \<noteq> NotOmitted then Inl (InlineWithOmit (omit_policy v))
      else Inr v)"

definition new_json :: "tag_option list \<Rightarrow> tag_error + tag_value" where
  "new_json opts = build KeyJSON opts"

definition new_tf :: "tag_option list \<Rightarrow> tag_error + tag_value" where
  "new_tf opts = build KeyTF opts"

section \<open>The parser\<close>

text \<open>The loop over the parts after the first.\<close>

fun parse_options :: "string list \<Rightarrow> tag_value \<Rightarrow> tag_error + tag_value" where
  "parse_options [] v = Inr v"
| "parse_options (p # ps) v =
     (let opt = trim_space p in
      if opt = omit_str OmitEmpty then parse_options ps (v\<lparr>omit_policy := OmitEmpty\<rparr>)
      else if opt = ''inline'' then parse_options ps (v\<lparr>inline := True\<rparr>)
      else Inl (InvalidOption opt))"

definition parse :: "tag_key \<Rightarrow> string \<Rightarrow> tag_error + tag_value" where
  "parse k val =
     (let v = zero_value k in
      if val = '''' then Inr v
      else
        let parts = split_on (CHR '','') val;
            nm = trim_space (hd parts) in
        if nm = omit_str OmitAlways then
          (if length parts > 1 then Inl (InvalidCombination val (omit_str OmitAlways) ''other options'')
           else Inr (v\<lparr>omit_policy := OmitAlways\<rparr>))
        else if length nm > 0 \<and> k = KeyJSON \<and> \<not> re_json_name nm then Inl (InvalidJSONTagName nm)
        else
          let v = (if length nm > 0 then v\<lparr>name := nm\<rparr> else v) in
          (case parse_options (tl parts) v of
             Inl e \<Rightarrow> Inl e
           | Inr v \<Rightarrow>
               if inline v \<and> name v \<noteq> '''' then Inl (InvalidCombination val ''name'' ''inline'')
               else if inline v \<and> omit_policy v \<noteq> NotOmitted
               then Inl (InvalidCombination val ''inline'' ''omitempty'')
               else Inr v))"

definition parse_json :: "string \<Rightarrow> tag_error + tag_value" where
  "parse_json val = parse KeyJSON val"

definition parse_tf :: "string \<Rightarrow> tag_error + tag_value" where
  "parse_tf val = parse KeyTF val"

text \<open>\<open>MustParseTF\<close> panics with the error: the left value.\<close>

definition must_parse_tf :: "string \<Rightarrow> tag_error + tag_value" where
  "must_parse_tf val = (case parse_tf val of Inl e \<Rightarrow> Inl e | Inr v \<Rightarrow> Inr v)"

section \<open>Methods\<close>

text \<open>Nil pointers are \<open>None\<close>.\<close>

definition override_from :: "tag_value option \<Rightarrow> tag_value option \<Rightarrow> tag_value option" where
  "override_from v ov =
     (case v of None \<Rightarrow> None
      | Some r \<Rightarrow>
          (case ov of None \<Rightarrow> Some r
           | Some o1 \<Rightarrow>
               let r = (if length (name o1) > 0 then r\<lparr>name := name o1\<rparr> else r) in
               Some (r\<lparr>omit_policy := omit_policy o1, inline := inline o1\<rparr>)))"

definition no_omit :: "tag_value \<Rightarrow> tag_value" where
  "no_omit v = v\<lparr>omit_policy := NotOmitted\<rparr>"

definition always_omitted :: "tag_value \<Rightarrow> bool" where
  "always_omitted v \<longleftrightarrow> omit_policy v = OmitAlways"

definition set_omit :: "omit \<Rightarrow> tag_value \<Rightarrow> tag_value" where
  "set_omit om v = v\<lparr>omit_policy := om\<rparr>"

definition string_without_key :: "tag_value \<Rightarrow> string" where
  "string_without_key v =
     (if omit_policy v = OmitAlways then omit_str OmitAlways
      else
        let r = name v;
            r = (if omit_policy v = OmitEmpty then r @ '','' @ omit_str OmitEmpty else r);
            r = (if inline v then r @ '',inline'' else r)
        in r)"

definition tag_string :: "tag_value \<Rightarrow> string" where
  "tag_string v = key_str (key v) @ '':\"'' @ string_without_key v @ ''\"''"

section \<open>The invariant of a well-formed value\<close>

text \<open>
  \<open>valid_tag\<close> is what \<open>build\<close> validates; \<open>canonical_tag\<close> adds that the name survives
  the parser: a trimmed name without commas, and no name on a field that is never serialised.
\<close>

definition valid_tag :: "tag_value \<Rightarrow> bool" where
  "valid_tag v \<longleftrightarrow>
     (key v = KeyJSON \<longrightarrow> name v = '''' \<or> re_json_name (name v)) \<and>
     (inline v \<longrightarrow> name v = '''' \<and> omit_policy v = NotOmitted)"

definition canonical_tag :: "tag_value \<Rightarrow> bool" where
  "canonical_tag v \<longleftrightarrow>
     valid_tag v \<and> CHR '','' \<notin> set (name v) \<and> trim_space (name v) = name v \<and> name v \<noteq> ''-'' \<and>
     (omit_policy v = OmitAlways \<longrightarrow> name v = '''')"

lemma build_valid: "build k opts = Inr v \<Longrightarrow> valid_tag v \<and> key v = k"
proof -
  have k: "key (fold apply_option opts u) = key u" for u
  proof (induction opts arbitrary: u)
    case (Cons a opts)
    then show ?case by (cases a) auto
  qed simp
  assume "build k opts = Inr v"
  then show ?thesis
    using k [of "zero_value k"]
    by (auto simp: build_def valid_tag_def zero_value_def Let_def split: if_splits)
qed

lemma re_json_name_chars: "re_json_name s \<Longrightarrow> c \<in> set s \<Longrightarrow> is_name_char c"
  by (auto simp: re_json_name_def is_name_char_def list_all_iff Let_def split: list.splits)

lemma name_char_no_space: "is_name_char c \<Longrightarrow> \<not> is_ascii_space c"
  by (auto simp: is_name_char_def is_name_start_def is_ascii_space_def Let_def)

lemma name_char_no_comma: "is_name_char c \<Longrightarrow> c \<noteq> CHR '',''"
  by (auto simp: is_name_char_def is_name_start_def)

lemma re_json_name_trim: "re_json_name s \<Longrightarrow> trim_space s = s"
  by (rule trim_space_id) (metis hd_in_set last_in_set name_char_no_space re_json_name_chars)

lemma re_json_name_no_comma: "re_json_name s \<Longrightarrow> CHR '','' \<notin> set s"
  using name_char_no_comma re_json_name_chars by blast

lemma re_json_name_not_dash: "\<not> re_json_name ''-''"
  by (simp add: re_json_name_def is_name_start_def)

text \<open>A valid JSON tag that is not always omitted is canonical.\<close>

lemma json_valid_canonical:
  assumes "valid_tag v" "key v = KeyJSON" "omit_policy v \<noteq> OmitAlways"
  shows "canonical_tag v"
  using assms re_json_name_trim re_json_name_no_comma re_json_name_not_dash
  by (cases "name v = ''''") (auto simp: canonical_tag_def valid_tag_def)

section \<open>Parsing\<close>

lemma parse_options_frame:
  "parse_options ps v = Inr w \<Longrightarrow>
     key w = key v \<and> name w = name v \<and> (omit_policy w = omit_policy v \<or> omit_policy w = OmitEmpty)"
  by (induction ps v rule: parse_options.induct) (fastforce simp: Let_def split: if_splits)+

lemma parse_canonical: "parse k s = Inr v \<Longrightarrow> canonical_tag v \<and> key v = k"
proof -
  assume p: "parse k s = Inr v"
  let ?n = "trim_space (hd (split_on (CHR '','') s))"
  have "hd (split_on (CHR '','') s) \<in> set (split_on (CHR '','') s)"
    by (simp add: list.set_sel)
  then have "CHR '','' \<notin> set (hd (split_on (CHR '','') s))" by (rule split_on_parts)
  then have "CHR '','' \<notin> set ?n" using set_trim_space by blast
  with p show ?thesis
    by (auto simp: parse_def canonical_tag_def valid_tag_def zero_value_def Let_def
          split: if_splits sum.splits dest!: parse_options_frame)
qed

section \<open>Printing and parsing\<close>

lemma split_options:
  "split_on (CHR '','') ''omitempty'' = [''omitempty'']" "split_on (CHR '','') ''inline'' = [''inline'']"
  by simp_all

lemma trim_options:
  "trim_space ''omitempty'' = ''omitempty''" "trim_space ''inline'' = ''inline''" "trim_space ''-'' = ''-''"
  by (simp_all add: trim_space_def trim_left_def is_ascii_space_def)

lemma roundtrip_canonical:
  assumes "canonical_tag v"
  shows "parse (key v) (string_without_key v) = Inr v"
proof -
  obtain k n om i where v: "v = \<lparr>key = k, name = n, omit_policy = om, inline = i\<rparr>"
    by (cases v) auto
  have n: "CHR '','' \<notin> set n" "trim_space n = n" "n \<noteq> ''-''" "k = KeyJSON \<Longrightarrow> n = '''' \<or> re_json_name n"
    and i: "i \<Longrightarrow> n = '''' \<and> om = NotOmitted" and a: "om = OmitAlways \<Longrightarrow> n = ''''"
    using assms by (auto simp: canonical_tag_def valid_tag_def v)
  have split: "split_on (CHR '','') (n @ CHR '','' # s) = n # split_on (CHR '','') s" for s
    using n(1) by (rule split_on_append)
  show ?thesis
  proof (cases om)
    case OmitAlways
    with a i show ?thesis by (auto simp: v parse_def string_without_key_def zero_value_def trim_options)
  next
    case OmitEmpty
    with i n show ?thesis
      by (auto simp: v parse_def string_without_key_def zero_value_def split split_options trim_options Let_def)
  next
    case NotOmitted
    with i n show ?thesis
      by (cases i) (auto simp: v parse_def string_without_key_def zero_value_def split_options trim_options Let_def)
  qed
qed

text \<open>
  Round trip: printing a tag value that \<open>build\<close> accepts under the JSON key, unless the field
  is always omitted, and parsing the text gives the value back.
\<close>

lemma build_print_parse:
  assumes "new_json opts = Inr v" and "\<not> always_omitted v"
  shows "parse_json (string_without_key v) = Inr v"
proof -
  have "valid_tag v" "key v = KeyJSON"
    using assms(1) build_valid by (auto simp: new_json_def)
  then show ?thesis
    using assms(2) roundtrip_canonical [of v] json_valid_canonical [of v]
    by (simp add: parse_json_def always_omitted_def)
qed

text \<open>
  Parsing normalises: whatever the parser accepts, printing the parsed value and parsing it
  again under the same key gives exactly the same value, so a generated tag is stable under
  regeneration.
\<close>

lemma parse_print_parse:
  assumes "parse k s = Inr v"
  shows "parse k (string_without_key v) = Inr v"
  using parse_canonical [OF assms] roundtrip_canonical by blast

section \<open>Overriding\<close>

lemma override_assoc:
  "override_from (override_from v (Some o1)) (Some o2) =
     override_from v (override_from (Some o1) (Some o2))"
  by (auto simp: override_from_def Let_def split: option.splits)

lemma override_key: "override_from (Some v) ov = Some w \<Longrightarrow> key w = key v"
  by (auto simp: override_from_def Let_def split: option.splits if_splits)

text \<open>
  \<open>OverrideFrom\<close> does not re-validate: a named field overridden by an inline tag is both named and
  inline, which \<open>build\<close> and \<open>parse\<close> refuse.
\<close>

lemma override_invalid:
  assumes "new_json [WithName ''spec''] = Inr v" "new_json [WithInline True] = Inr w"
  shows "\<exists>u. override_from (Some v) (Some w) = Some u \<and> \<not> valid_tag u"
  using assms
  by (auto simp: new_json_def build_def zero_value_def re_json_name_def is_name_start_def
      is_name_char_def override_from_def valid_tag_def)

end
