(* ===== verification/GoValue.thy ===== *)
theory GoValue
  imports Prelude
begin

text \<open>
  Values of Go's \<open>any\<close> as the JSON decoders produce them, and the part of \<open>fmt.Sprintf\<close> the
  modelled code uses. A \<open>map[string]any\<close> is the list of its entries in the order an iteration
  visits them, which Go leaves open: theorems about maps hold for every order. Integers are \<open>Num_v\<close>;
  \<open>Float_v m e\<close> is the \<open>float64\<close> with the value \<open>m * 2 ^ e\<close>.
\<close>

datatype any =
    Nil_v
  | Bool_v bool
  | Num_v int
  | Float_v int int
  | Str_v string
  | Slice_v "any list"
  | Map_v "(string \<times> any) list"

type_synonym any_map = "(string \<times> any) list"

section \<open>Maps as entry lists\<close>

text \<open>\<open>m[k] = v\<close>; a new key may come anywhere in the iteration order.\<close>

fun put_key :: "string \<Rightarrow> 'v \<Rightarrow> (string \<times> 'v) list \<Rightarrow> (string \<times> 'v) list" where
  "put_key k v [] = [(k, v)]"
| "put_key k v ((j, w) # m) = (if j = k then (k, v) # m else (j, w) # put_key k v m)"

definition del_key :: "string \<Rightarrow> (string \<times> 'v) list \<Rightarrow> (string \<times> 'v) list" where
  "del_key k m = filter (\<lambda>e. fst e \<noteq> k) m"

fun put_all :: "(string \<times> 'v) list \<Rightarrow> (string \<times> 'v) list \<Rightarrow> (string \<times> 'v) list" where
  "put_all [] m = m"
| "put_all ((k, v) # es) m = put_all es (put_key k v m)"

lemma map_of_put_key [simp]: "map_of (put_key k v m) = (map_of m)(k \<mapsto> v)"
  by (induction k v m rule: put_key.induct) auto

lemma map_of_del_key [simp]: "map_of (del_key k m) = (map_of m)(k := None)"
  by (induction m) (auto simp: del_key_def)

lemma map_of_put_all:
  "distinct (map fst es) \<Longrightarrow> map_of (put_all es m) = map_of m ++ map_of es"
proof (induction es m rule: put_all.induct)
  case (2 k v es m)
  then have k: "map_of es k = None" by (simp add: map_of_eq_None_iff)
  have "map_of (put_all es (put_key k v m)) = (map_of m)(k \<mapsto> v) ++ map_of es" using 2 by (simp add: fun_upd_def)
  also have "\<dots> = map_of m ++ (map_of es)(k \<mapsto> v)"
    using k by (auto simp: map_add_def fun_eq_iff split: option.splits)
  finally show ?case by (auto simp: fun_eq_iff map_add_def)
qed simp

lemma fst_put_key: "fst ` set (put_key k v m) = insert k (fst ` set m)"
  by (induction k v m rule: put_key.induct) auto

lemma distinct_put_key: "distinct (map fst m) \<Longrightarrow> distinct (map fst (put_key k v m))"
proof (induction k v m rule: put_key.induct)
  case (2 k v j w m)
  have "fst ` set (put_key k v m) = insert k (fst ` set m)" by (rule fst_put_key)
  with 2 show ?case by auto
qed simp

lemma distinct_put_all: "distinct (map fst m) \<Longrightarrow> distinct (map fst (put_all es m))"
  by (induction es m rule: put_all.induct) (auto intro: distinct_put_key)

section \<open>Paths into values\<close>

datatype seg = Key_seg string | Idx_seg nat

primrec child :: "any \<Rightarrow> seg \<Rightarrow> any option" where
  "child Nil_v s = None"
| "child (Bool_v b) s = None"
| "child (Num_v n) s = None"
| "child (Float_v m e) s = None"
| "child (Str_v t) s = None"
| "child (Slice_v xs) s = (case s of Key_seg k \<Rightarrow> None | Idx_seg i \<Rightarrow> if i < length xs then Some (xs ! i) else None)"
| "child (Map_v m) s = (case s of Key_seg k \<Rightarrow> map_of m k | Idx_seg i \<Rightarrow> None)"

fun lookup_path :: "any \<Rightarrow> seg list \<Rightarrow> any option" where
  "lookup_path v [] = Some v"
| "lookup_path v (s # p) = (case child v s of None \<Rightarrow> None | Some w \<Rightarrow> lookup_path w p)"

lemma lookup_path_append:
  "lookup_path v (p @ q) = (case lookup_path v p of None \<Rightarrow> None | Some w \<Rightarrow> lookup_path w q)"
  by (induction v p rule: lookup_path.induct) (auto split: option.splits)

text \<open>A path without wildcards is an instance of one with wildcards; a wildcard is the field \<open>*\<close>.\<close>

definition wildcard :: seg where
  "wildcard = Key_seg ''*''"

fun expanded_for :: "seg list \<Rightarrow> seg list \<Rightarrow> bool" where
  "expanded_for [] [] = True"
| "expanded_for (e # es) (w # ws) = ((w = wildcard \<or> w = e) \<and> expanded_for es ws)"
| "expanded_for _ _ = False"

text \<open>Maps have distinct keys, at every level.\<close>

fun wf_any :: "any \<Rightarrow> bool" where
  "wf_any (Slice_v xs) = list_all wf_any xs"
| "wf_any (Map_v m) = (distinct (map fst m) \<and> list_all (\<lambda>e. wf_any (snd e)) m)"
| "wf_any v = True"

text \<open>A property of every map key of a value.\<close>

fun all_keys :: "(string \<Rightarrow> bool) \<Rightarrow> any \<Rightarrow> bool" where
  "all_keys P (Slice_v xs) = list_all (all_keys P) xs"
| "all_keys P (Map_v m) = list_all (\<lambda>e. P (fst e) \<and> all_keys P (snd e)) m"
| "all_keys P v = True"

section \<open>fmt.Sprintf\<close>

text \<open>
  Verbs without flags or width: \<open>%s\<close>, \<open>%v\<close>, \<open>%q\<close>, \<open>%d\<close> and \<open>%%\<close>, with Go's
  output for a missing, an extra and a mismatched argument.
\<close>

datatype farg = FStr string | FInt nat

definition hex_digit :: "nat \<Rightarrow> char" where
  "hex_digit d = (if d < 10 then char_of (48 + d) else char_of (87 + d))"

definition quote_char :: "char \<Rightarrow> string" where
  "quote_char c =
     (let n = (of_char c :: nat) in
      if n = 34 then [CHR 0x5C, c] else if n = 92 then [CHR 0x5C, c]
      else if n = 7 then [CHR 0x5C, CHR ''a''] else if n = 8 then [CHR 0x5C, CHR ''b'']
      else if n = 12 then [CHR 0x5C, CHR ''f''] else if n = 10 then [CHR 0x5C, CHR ''n'']
      else if n = 13 then [CHR 0x5C, CHR ''r''] else if n = 9 then [CHR 0x5C, CHR ''t'']
      else if n = 11 then [CHR 0x5C, CHR ''v'']
      else if n < 32 \<or> n = 127 then [CHR 0x5C, CHR ''x'', hex_digit (n div 16), hex_digit (n mod 16)]
      else [c])"

text \<open>\<open>strconv.Quote\<close> on ASCII text\<close>

definition go_quote :: "string \<Rightarrow> string" where
  "go_quote s = [CHR 0x22] @ concat (map quote_char s) @ [CHR 0x22]"

primrec arg_type :: "farg \<Rightarrow> string" where
  "arg_type (FStr s) = ''string''"
| "arg_type (FInt n) = ''int''"

primrec arg_plain :: "farg \<Rightarrow> string" where
  "arg_plain (FStr s) = s"
| "arg_plain (FInt n) = show_nat n"

definition bad_verb :: "char \<Rightarrow> farg \<Rightarrow> string" where
  "bad_verb v a = ''%!'' @ [v] @ ''('' @ arg_type a @ ''='' @ arg_plain a @ '')''"

primrec format_arg :: "char \<Rightarrow> farg \<Rightarrow> string" where
  "format_arg v (FStr s) =
     (if v = CHR ''s'' \<or> v = CHR ''v'' then s else if v = CHR ''q'' then go_quote s else bad_verb v (FStr s))"
| "format_arg v (FInt n) =
     (if v = CHR ''d'' \<or> v = CHR ''v'' then show_nat n else bad_verb v (FInt n))"

fun sprintf_scan :: "string \<Rightarrow> farg list \<Rightarrow> string \<times> farg list" where
  "sprintf_scan [] args = ([], args)"
| "sprintf_scan (c # cs) args =
     (if c \<noteq> CHR ''%'' then (let (s, r) = sprintf_scan cs args in (c # s, r))
      else (case cs of
              [] \<Rightarrow> (''%!(NOVERB)'', args)
            | v # ds \<Rightarrow>
                if v = CHR ''%'' then (let (s, r) = sprintf_scan ds args in (CHR ''%'' # s, r))
                else (case args of
                        [] \<Rightarrow> (let (s, r) = sprintf_scan ds [] in (''%!'' @ [v] @ ''(MISSING)'' @ s, r))
                      | a # as \<Rightarrow> (let (s, r) = sprintf_scan ds as in (format_arg v a @ s, r)))))"

definition sprintf :: "string \<Rightarrow> farg list \<Rightarrow> string" where
  "sprintf fmt args =
     (let (s, rest) = sprintf_scan fmt args in
      if rest = [] then s
      else s @ ''%!(EXTRA '' @ join_with '', '' (map (\<lambda>a. arg_type a @ ''='' @ arg_plain a) rest) @ '')'')"

lemma sprintf_scan_literal:
  "CHR ''%'' \<notin> set p \<Longrightarrow> sprintf_scan (p @ f) args = (let (s, r) = sprintf_scan f args in (p @ s, r))"
  by (induction p) (auto split: prod.splits)

lemma sprintf_prefix: "CHR ''%'' \<notin> set p \<Longrightarrow> sprintf (p @ f) args = p @ sprintf f args"
  by (simp add: sprintf_def sprintf_scan_literal split: prod.splits)

lemma sprintf_verbs [simp]:
  "sprintf ''%s'' [FStr k] = k" "sprintf ''.%s'' [FStr k] = CHR ''.'' # k"
  "sprintf ''.%v'' [FStr k] = CHR ''.'' # k" "sprintf ''[%q]'' [FStr k] = ''['' @ go_quote k @ '']''"
  "sprintf ''%s[%d]'' [FStr k, FInt i] = k @ ''['' @ show_nat i @ '']''"
  "sprintf ''%s.%d'' [FStr k, FInt i] = k @ CHR ''.'' # show_nat i"
  by (simp_all add: sprintf_def)

end
