(* ===== verification/IgnoreChanges.thy ===== *)
theory IgnoreChanges
  imports GoValue
begin

text \<open>
  Fields exclusive to \<open>spec.initProvider\<close>: the two copies of the algorithm, the one that
  writes Terraform's \<open>ignore_changes\<close> (\<open>pkg/resource/ignored.go\<close>) and the one that
  filters the diff of the no-fork client (\<open>pkg/controller/ignored_tfpluginsdk.go\<close>). A failed type
  assertion panics: \<open>None\<close>.
\<close>

definition append_opt :: "'a list option \<Rightarrow> 'a list option \<Rightarrow> 'a list option" where
  "append_opt a b = (case a of None \<Rightarrow> None | Some xs \<Rightarrow> (case b of None \<Rightarrow> None | Some ys \<Rightarrow> Some (xs @ ys)))"

section \<open>The copy of the no-fork client\<close>

function (sequential) ctl_ignored_map :: "string \<Rightarrow> any_map \<Rightarrow> any_map \<Rightarrow> string list option"
  and ctl_ignored_array :: "string \<Rightarrow> nat \<Rightarrow> any list \<Rightarrow> any list \<Rightarrow> string list option" where
  "ctl_ignored_map format fp [] = Some []"
| "ctl_ignored_map format fp ((k, v) # ip) =
     append_opt
       (if v = Nil_v then Some []
        else (case map_of fp k of
                None \<Rightarrow> Some [sprintf format [FStr k]]
              | Some fv \<Rightarrow>
                  (case v of
                     Map_v m \<Rightarrow>
                       (case fv of Map_v fm \<Rightarrow> ctl_ignored_map (sprintf format [FStr k] @ ''.%v'') fm m | _ \<Rightarrow> None)
                   | Slice_v xs \<Rightarrow>
                       (case fv of Slice_v fs \<Rightarrow> ctl_ignored_array (sprintf format [FStr k]) 0 fs xs | _ \<Rightarrow> None)
                   | _ \<Rightarrow> Some [])))
       (ctl_ignored_map format fp ip)"
| "ctl_ignored_array format i fs [] = Some []"
| "ctl_ignored_array format i fs (x # xs) =
     (let field_path = sprintf ''%s.%d'' [FStr format, FInt i] in
      append_opt
        (case fs of
           [] \<Rightarrow> Some [field_path]
         | f # _ \<Rightarrow>
             (case x of
                Map_v m \<Rightarrow>
                  (case f of Map_v fm \<Rightarrow> ctl_ignored_map (field_path @ ''.%s'') fm m | _ \<Rightarrow> None)
              | Slice_v ys \<Rightarrow>
                  (case f of Slice_v gs \<Rightarrow> ctl_ignored_array field_path 0 gs ys | _ \<Rightarrow> None)
              | _ \<Rightarrow> Some []))
        (ctl_ignored_array format (Suc i) (tl fs) xs))"
  by pat_completeness auto
termination
  by (relation "measure (\<lambda>x. case x of
        Inl (_, _, ip) \<Rightarrow> size_list (size_prod (\<lambda>_. 0) size) ip
      | Inr (_, _, _, xs) \<Rightarrow> size_list size xs)") auto

definition ctl_get_terraform_ignore_changes :: "any_map \<Rightarrow> any_map \<Rightarrow> string list option" where
  "ctl_get_terraform_ignore_changes fp ip = ctl_ignored_map ''%s'' fp ip"

section \<open>The copy of the Terraform workspace\<close>

function (sequential) ignored_map :: "string \<Rightarrow> any_map \<Rightarrow> any_map \<Rightarrow> string list option"
  and ignored_array :: "string \<Rightarrow> nat \<Rightarrow> any list \<Rightarrow> any list \<Rightarrow> string list option" where
  "ignored_map format fp [] = Some []"
| "ignored_map format fp ((k, v) # ip) =
     append_opt
       (case map_of fp k of
          None \<Rightarrow> Some [sprintf format [FStr k]]
        | Some fv \<Rightarrow>
            (case v of
               Map_v m \<Rightarrow>
                 (case fv of Map_v fm \<Rightarrow> ignored_map (sprintf format [FStr k] @ ''[%q]'') fm m | _ \<Rightarrow> None)
             | Slice_v xs \<Rightarrow>
                 (case fv of Slice_v fs \<Rightarrow> ignored_array (sprintf format [FStr k]) 0 fs xs | _ \<Rightarrow> None)
             | _ \<Rightarrow> Some []))
       (ignored_map format fp ip)"
| "ignored_array format i fs [] = Some []"
| "ignored_array format i fs (x # xs) =
     (let field_path = sprintf ''%s[%d]'' [FStr format, FInt i] in
      append_opt
        (case fs of
           [] \<Rightarrow> Some [field_path]
         | f # _ \<Rightarrow>
             (case x of
                Map_v m \<Rightarrow>
                  (case f of Map_v fm \<Rightarrow> ignored_map (field_path @ ''.%s'') fm m | _ \<Rightarrow> None)
              | Slice_v ys \<Rightarrow>
                  (case f of Slice_v gs \<Rightarrow> ignored_array (field_path @ ''%s'') 0 gs ys | _ \<Rightarrow> None)
              | _ \<Rightarrow> Some []))
        (ignored_array format (Suc i) (tl fs) xs))"
  by pat_completeness auto
termination
  by (relation "measure (\<lambda>x. case x of
        Inl (_, _, ip) \<Rightarrow> size_list (size_prod (\<lambda>_. 0) size) ip
      | Inr (_, _, _, xs) \<Rightarrow> size_list size xs)") auto

definition get_terraform_ignore_changes :: "any_map \<Rightarrow> any_map \<Rightarrow> string list option" where
  "get_terraform_ignore_changes fp ip = map_option sort (ignored_map ''%s'' fp ip)"

section \<open>Specification\<close>

text \<open>
  A path is exclusive to \<open>iv\<close> when \<open>iv\<close> has it, \<open>fv\<close> does not, and \<open>fv\<close> has everything
  above it. \<open>skip_nil\<close> leaves out map entries whose value is nil.
\<close>

definition nil_entry :: "any \<Rightarrow> seg list \<Rightarrow> bool" where
  "nil_entry iv p \<longleftrightarrow> (\<exists>k. last p = Key_seg k) \<and> lookup_path iv p = Some Nil_v"

definition exclusive_path :: "bool \<Rightarrow> any \<Rightarrow> any \<Rightarrow> seg list \<Rightarrow> bool" where
  "exclusive_path skip_nil fv iv p \<longleftrightarrow>
     p \<noteq> [] \<and> lookup_path iv p \<noteq> None \<and> lookup_path fv p = None \<and> lookup_path fv (butlast p) \<noteq> None
     \<and> \<not> (skip_nil \<and> nil_entry iv p)"

primrec seg_str :: "seg \<Rightarrow> string" where
  "seg_str (Key_seg k) = k"
| "seg_str (Idx_seg i) = show_nat i"

definition dot_rest :: "seg list \<Rightarrow> string" where
  "dot_rest p = concat (map (\<lambda>s. CHR ''.'' # seg_str s) p)"

text \<open>The dotted spelling of a path, as in the keys of an instance diff.\<close>

definition dotted :: "seg list \<Rightarrow> string" where
  "dotted p = tl (dot_rest p)"

lemma dot_rest_simps [simp]: "dot_rest [] = []" "dot_rest (s # p) = CHR ''.'' # seg_str s @ dot_rest p"
  by (simp_all add: dot_rest_def)

lemma exclusive_single:
  "exclusive_path b fv iv [s] \<longleftrightarrow>
     (\<exists>v. child iv s = Some v \<and> \<not> (b \<and> v = Nil_v \<and> (\<exists>k. s = Key_seg k))) \<and> child fv s = None"
  by (auto simp: exclusive_path_def nil_entry_def split: option.splits)

lemma exclusive_Cons:
  "p \<noteq> [] \<Longrightarrow> exclusive_path b fv iv (s # p) \<longleftrightarrow>
     (\<exists>fw iw. child fv s = Some fw \<and> child iv s = Some iw \<and> exclusive_path b fw iw p)"
  by (cases p) (auto simp: exclusive_path_def nil_entry_def split: option.splits)

lemma not_exclusive_Nil [simp]: "\<not> exclusive_path b fv iv []"
  by (simp add: exclusive_path_def)

section \<open>The computed list against the specification\<close>

definition no_percent :: "string \<Rightarrow> bool" where
  "no_percent s \<longleftrightarrow> CHR ''%'' \<notin> set s"

text \<open>A format that puts a key behind a fixed prefix.\<close>

definition key_format :: "string \<Rightarrow> string \<Rightarrow> bool" where
  "key_format pre fmt \<longleftrightarrow> no_percent pre \<and> (\<forall>k. sprintf fmt [FStr k] = pre @ k)"

lemma key_format_simps [simp]:
  "key_format '''' ''%s''"
  "no_percent p \<Longrightarrow> key_format (p @ ''.'') (p @ ''.%v'')"
  "no_percent p \<Longrightarrow> key_format (p @ ''.'') (p @ ''.%s'')"
  by (auto simp: key_format_def no_percent_def sprintf_prefix)

lemma show_nat_no_percent [simp]: "no_percent (show_nat n)"
proof (induction n rule: show_nat.induct)
  case (1 n)
  have d: "d < 10 \<Longrightarrow> CHR ''%'' \<noteq> digit_char d" for d :: nat
    by (auto simp: digit_char_def dest: arg_cong [where f = "of_char :: char \<Rightarrow> nat"])
  show ?case
    using 1 d [of n] d [of "n mod 10"] by (subst show_nat.simps) (simp add: no_percent_def)
qed

lemma no_percent_append [simp]: "no_percent (s @ t) \<longleftrightarrow> no_percent s \<and> no_percent t"
  by (auto simp: no_percent_def)

lemma no_percent_Cons: "no_percent (c # t) \<longleftrightarrow> c \<noteq> CHR ''%'' \<and> no_percent t"
  by (auto simp: no_percent_def)

text \<open>The exclusive paths below one entry.\<close>

definition excl_at :: "any option \<Rightarrow> any \<Rightarrow> seg \<Rightarrow> seg list \<Rightarrow> bool" where
  "excl_at fvo v s r \<longleftrightarrow>
     (if r = [] then fvo = None \<and> \<not> (v = Nil_v \<and> (\<exists>k. s = Key_seg k))
      else (\<exists>fw. fvo = Some fw \<and> exclusive_path True fw v r))"

lemma exclusive_excl_at:
  "exclusive_path True fv iv (s # r) \<longleftrightarrow> (\<exists>v. child iv s = Some v \<and> excl_at (child fv s) v s r)"
  by (cases "r = []") (auto simp: excl_at_def exclusive_single exclusive_Cons)

lemma exclusive_leaf [simp]:
  "\<not> exclusive_path b fv Nil_v p" "\<not> exclusive_path b fv (Bool_v t) p"
  "\<not> exclusive_path b fv (Num_v n) p" "\<not> exclusive_path b fv (Float_v m e) p" "\<not> exclusive_path b fv (Str_v s) p"
  by (cases p; simp add: exclusive_path_def)+

lemma excl_at_map:
  "{h @ dot_rest r | r. excl_at (Some (Map_v fm)) (Map_v m) s r} =
     {(h @ ''.'') @ k @ dot_rest r | k r. exclusive_path True (Map_v fm) (Map_v m) (Key_seg k # r)}"
    (is "?L = ?R")
proof
  show "?L \<subseteq> ?R"
  proof
    fix x assume "x \<in> ?L"
    then obtain r where x: "x = h @ dot_rest r" and ne: "r \<noteq> []"
      and ex: "exclusive_path True (Map_v fm) (Map_v m) r"
      by (auto simp: excl_at_def split: if_splits)
    obtain t q where r: "r = t # q" using ne by (cases r) auto
    then obtain k where "t = Key_seg k" using ex by (cases t) (auto simp: exclusive_path_def)
    with r ex x show "x \<in> ?R" by auto
  qed
  show "?R \<subseteq> ?L" by (force simp: excl_at_def)
qed

lemma excl_at_slice:
  "{h @ dot_rest r | r. excl_at (Some (Slice_v fs)) (Slice_v xs) s r} =
     {h @ dot_rest (Idx_seg j # r) | j r. exclusive_path True (Slice_v fs) (Slice_v xs) (Idx_seg j # r)}"
    (is "?L = ?R")
proof
  show "?L \<subseteq> ?R"
  proof
    fix x assume "x \<in> ?L"
    then obtain r where x: "x = h @ dot_rest r" and ne: "r \<noteq> []"
      and ex: "exclusive_path True (Slice_v fs) (Slice_v xs) r"
      by (auto simp: excl_at_def split: if_splits)
    obtain t q where r: "r = t # q" using ne by (cases r) auto
    then obtain j where "t = Idx_seg j" using ex by (cases t) (auto simp: exclusive_path_def)
    with r ex x show "x \<in> ?R" by auto
  qed
  show "?R \<subseteq> ?L" by (force simp: excl_at_def)
qed

lemma excl_at_leaf:
  "(\<forall>m. v \<noteq> Map_v m) \<Longrightarrow> (\<forall>xs. v \<noteq> Slice_v xs) \<Longrightarrow> \<not> excl_at (Some fw) v s r"
  by (cases v) (auto simp: excl_at_def)

lemma excl_at_None:
  "{h @ dot_rest r | r. excl_at None v s r} = (if v = Nil_v \<and> (\<exists>k. s = Key_seg k) then {} else {h})"
  by (auto simp: excl_at_def split: if_splits intro: exI [of _ "[]"])

lemma exclusive_map_Cons:
  assumes "k \<notin> set (map fst ip)"
  shows "{h @ l @ dot_rest r | l r. exclusive_path True (Map_v fp) (Map_v ((k, v) # ip)) (Key_seg l # r)} =
    {(h @ k) @ dot_rest r | r. excl_at (map_of fp k) v (Key_seg k) r} \<union>
    {h @ l @ dot_rest r | l r. exclusive_path True (Map_v fp) (Map_v ip) (Key_seg l # r)}"
proof -
  have "map_of ip k = None" using assms by (simp add: map_of_eq_None_iff)
  then have "exclusive_path True (Map_v fp) (Map_v ((k, v) # ip)) (Key_seg l # r) \<longleftrightarrow>
      (l = k \<and> excl_at (map_of fp k) v (Key_seg k) r) \<or>
      exclusive_path True (Map_v fp) (Map_v ip) (Key_seg l # r)" for l r
    by (auto simp: exclusive_excl_at)
  then show ?thesis by auto
qed

lemma child_slice_Suc: "child (Slice_v fs) (Idx_seg (Suc j)) = child (Slice_v (tl fs)) (Idx_seg j)"
  by (cases fs) auto

lemma excl_at_idx: "excl_at fvo v (Idx_seg i) r = excl_at fvo v (Idx_seg j) r"
  by (simp add: excl_at_def)

lemma exclusive_slice_Cons:
  "{h @ dot_rest (Idx_seg (i + j) # r) | j r. exclusive_path True (Slice_v fs) (Slice_v (x # xs)) (Idx_seg j # r)} =
    {(h @ CHR ''.'' # show_nat i) @ dot_rest r | r.
        excl_at (case fs of [] \<Rightarrow> None | f # _ \<Rightarrow> Some f) x (Idx_seg 0) r} \<union>
    {h @ dot_rest (Idx_seg (Suc i + j) # r) | j r. exclusive_path True (Slice_v (tl fs)) (Slice_v xs) (Idx_seg j # r)}"
    (is "?L = ?H \<union> ?T")
proof -
  have z: "exclusive_path True (Slice_v fs) (Slice_v (x # xs)) (Idx_seg 0 # r) \<longleftrightarrow>
      excl_at (case fs of [] \<Rightarrow> None | f # _ \<Rightarrow> Some f) x (Idx_seg 0) r" for r
    by (cases fs) (auto simp: exclusive_excl_at)
  have s: "exclusive_path True (Slice_v fs) (Slice_v (x # xs)) (Idx_seg (Suc j) # r) \<longleftrightarrow>
      exclusive_path True (Slice_v (tl fs)) (Slice_v xs) (Idx_seg j # r)" for j r
    unfolding exclusive_excl_at child_slice_Suc by (auto simp: excl_at_idx [of _ _ "Suc j" r j])
  have "?L \<subseteq> ?H \<union> ?T"
  proof
    fix q assume "q \<in> ?L"
    then obtain j r where "q = h @ dot_rest (Idx_seg (i + j) # r)"
      "exclusive_path True (Slice_v fs) (Slice_v (x # xs)) (Idx_seg j # r)" by blast
    then show "q \<in> ?H \<union> ?T" by (cases j) (auto simp: z s)
  qed
  moreover have "?H \<subseteq> ?L"
  proof
    fix q assume "q \<in> ?H"
    then obtain r where "q = h @ dot_rest (Idx_seg (i + 0) # r)"
      "exclusive_path True (Slice_v fs) (Slice_v (x # xs)) (Idx_seg 0 # r)" by (auto simp: z)
    then show "q \<in> ?L" by blast
  qed
  moreover have "?T \<subseteq> ?L"
  proof
    fix q assume "q \<in> ?T"
    then obtain j r where "q = h @ dot_rest (Idx_seg (i + Suc j) # r)"
      "exclusive_path True (Slice_v fs) (Slice_v (x # xs)) (Idx_seg (Suc j) # r)" by (auto simp: s)
    then show "q \<in> ?L" by blast
  qed
  ultimately show ?thesis by blast
qed

lemma append_opt_Some: "append_opt a b = Some zs \<longleftrightarrow> (\<exists>xs ys. a = Some xs \<and> b = Some ys \<and> zs = xs @ ys)"
  by (auto simp: append_opt_def split: option.splits)

lemma ctl_ignored_spec:
  "ctl_ignored_map format fp ip = Some ps \<Longrightarrow> wf_any (Map_v ip) \<Longrightarrow> all_keys no_percent (Map_v ip) \<Longrightarrow>
     key_format pre format \<Longrightarrow>
     set ps = {pre @ k @ dot_rest r | k r. exclusive_path True (Map_v fp) (Map_v ip) (Key_seg k # r)}"
  "ctl_ignored_array format i fs xs = Some qs \<Longrightarrow> list_all wf_any xs \<Longrightarrow> list_all (all_keys no_percent) xs \<Longrightarrow>
     no_percent format \<Longrightarrow>
     set qs = {format @ dot_rest (Idx_seg (i + j) # r) | j r.
                 exclusive_path True (Slice_v fs) (Slice_v xs) (Idx_seg j # r)}"
proof (induction format fp ip and format i fs xs arbitrary: ps pre and qs
    rule: ctl_ignored_map_ctl_ignored_array.induct)
  case (1 format fp)
  then show ?case by (simp add: exclusive_excl_at)
next
  case (2 format fp k v ip)
  obtain hs ts where ps: "ps = hs @ ts"
    and here: "(if v = Nil_v then Some []
        else (case map_of fp k of
                None \<Rightarrow> Some [sprintf format [FStr k]]
              | Some fv \<Rightarrow>
                  (case v of
                     Map_v m \<Rightarrow>
                       (case fv of Map_v fm \<Rightarrow> ctl_ignored_map (sprintf format [FStr k] @ ''.%v'') fm m | _ \<Rightarrow> None)
                   | Slice_v xs \<Rightarrow>
                       (case fv of Slice_v fs \<Rightarrow> ctl_ignored_array (sprintf format [FStr k]) 0 fs xs | _ \<Rightarrow> None)
                   | _ \<Rightarrow> Some []))) = Some hs"
    and rest: "ctl_ignored_map format fp ip = Some ts"
    using "2.prems"(1) by (auto simp: append_opt_Some simp del: not_None_eq)
  have fmt: "sprintf format [FStr k] = pre @ k" and pk: "no_percent (pre @ k)"
    using "2.prems"(3,4) by (auto simp: key_format_def)
  have tail: "set ts = {pre @ l @ dot_rest r | l r. exclusive_path True (Map_v fp) (Map_v ip) (Key_seg l # r)}"
    using "2.IH"(3) [OF rest _ _ "2.prems"(4)] "2.prems"(2,3) by simp
  have "set hs = {(pre @ k) @ dot_rest r | r. excl_at (map_of fp k) v (Key_seg k) r}"
  proof (cases "v = Nil_v")
    case True
    then show ?thesis using here by (auto simp: excl_at_def)
  next
    case False
    show ?thesis
    proof (cases "map_of fp k")
      case None
      then have "hs = [pre @ k]" using here False fmt by simp
      then show ?thesis unfolding None excl_at_None using False by simp
    next
      case (Some fv)
      consider (m) m fm where "v = Map_v m" "fv = Map_v fm" | (s) ys fs where "v = Slice_v ys" "fv = Slice_v fs"
        | (leaf) "\<forall>m. v \<noteq> Map_v m" "\<forall>xs. v \<noteq> Slice_v xs" "hs = []"
        using here False Some by (cases v; cases fv) auto
      then show ?thesis
      proof cases
        case m
        then have "ctl_ignored_map ((pre @ k) @ ''.%v'') fm m = Some hs" using here Some fmt by simp
        then show ?thesis
          using "2.IH"(2) [OF False Some m, of hs "(pre @ k) @ ''.''"] "2.prems"(2,3) pk
            key_format_simps(2) [OF pk]
          unfolding Some m excl_at_map fmt by simp
      next
        case s
        then have "ctl_ignored_array (pre @ k) 0 fs ys = Some hs" using here Some fmt by simp
        then show ?thesis
          using "2.IH"(1) [OF False Some s, of hs] "2.prems"(2,3) pk
          unfolding Some s excl_at_slice fmt by simp
      next
        case leaf
        then show ?thesis unfolding Some using excl_at_leaf by auto
      qed
    qed
  qed
  then show ?case
    using exclusive_map_Cons [of k ip pre fp v] "2.prems"(2) tail by (simp add: ps)
next
  case (3 format i fs)
  then show ?case by (simp add: exclusive_excl_at)
next
  case (4 format i fs x xs)
  let ?path = "format @ CHR ''.'' # show_nat i"
  have path: "sprintf ''%s.%d'' [FStr format, FInt i] = ?path" by simp
  obtain hs ts where qs: "qs = hs @ ts"
    and here: "(case fs of
           [] \<Rightarrow> Some [?path]
         | f # _ \<Rightarrow>
             (case x of
                Map_v m \<Rightarrow> (case f of Map_v fm \<Rightarrow> ctl_ignored_map (?path @ ''.%s'') fm m | _ \<Rightarrow> None)
              | Slice_v ys \<Rightarrow> (case f of Slice_v gs \<Rightarrow> ctl_ignored_array ?path 0 gs ys | _ \<Rightarrow> None)
              | _ \<Rightarrow> Some [])) = Some hs"
    and rest: "ctl_ignored_array format (Suc i) (tl fs) xs = Some ts"
    using "4.prems"(1) by (auto simp: append_opt_Some Let_def simp del: not_None_eq append_assoc append.simps)
  have pk: "no_percent ?path" using "4.prems"(4) by (simp add: no_percent_Cons)
  have tail: "set ts = {format @ dot_rest (Idx_seg (Suc i + j) # r) | j r.
      exclusive_path True (Slice_v (tl fs)) (Slice_v xs) (Idx_seg j # r)}"
    using "4.IH"(3) [OF path [symmetric] rest] "4.prems"(2,3,4) by simp
  have "set hs = {?path @ dot_rest r | r. excl_at (case fs of [] \<Rightarrow> None | f # _ \<Rightarrow> Some f) x (Idx_seg 0) r}"
  proof (cases fs)
    case Nil
    then show ?thesis using here by (auto simp: excl_at_def)
  next
    case (Cons f gs)
    consider (m) m fm where "x = Map_v m" "f = Map_v fm" | (s) ys fs where "x = Slice_v ys" "f = Slice_v fs"
      | (leaf) "\<forall>m. x \<noteq> Map_v m" "\<forall>xs. x \<noteq> Slice_v xs" "hs = []"
      using here Cons by (cases x; cases f) auto
    then show ?thesis
    proof cases
      case m
      then have "ctl_ignored_map (?path @ ''.%s'') fm m = Some hs" using here Cons by simp
      then show ?thesis
        using "4.IH"(2) [OF path [symmetric] Cons m, of hs "?path @ ''.''"] "4.prems"(2,3) pk
          key_format_simps(3) [OF pk]
        unfolding Cons m list.case excl_at_map by simp
    next
      case s
      then have "ctl_ignored_array ?path 0 fs ys = Some hs" using here Cons by simp
      then show ?thesis
        using "4.IH"(1) [OF path [symmetric] Cons s, of hs] "4.prems"(2,3) pk
        unfolding Cons s list.case excl_at_slice by simp
    next
      case leaf
      then show ?thesis unfolding Cons list.case using excl_at_leaf by auto
    qed
  qed
  then show ?case
    using exclusive_slice_Cons [of format i fs x xs] tail by (simp add: qs)
qed

text \<open>
  The no-fork client ignores exactly the fields the user set in \<open>spec.initProvider\<close> only: when
  the computation does not panic, the listed keys are the dotted spellings of the paths that
  \<open>initProvider\<close> has with a non-nil entry and \<open>forProvider\<close> lacks although it has everything above
  them, whatever the iteration order of the maps.
\<close>

lemma ignored_are_exclusive:
  assumes "ctl_get_terraform_ignore_changes fp ip = Some ps"
    and "wf_any (Map_v ip)" and "all_keys no_percent (Map_v ip)"
  shows "set ps = dotted ` {p. exclusive_path True (Map_v fp) (Map_v ip) p}"
proof -
  let ?S = "{'''' @ k @ dot_rest r | k r. exclusive_path True (Map_v fp) (Map_v ip) (Key_seg k # r)}"
  have "set ps = ?S"
    using ctl_ignored_spec(1) [OF _ assms(2,3) key_format_simps(1)] assms(1)
    by (simp add: ctl_get_terraform_ignore_changes_def)
  moreover have "dotted p \<in> ?S" if ex: "exclusive_path True (Map_v fp) (Map_v ip) p" for p
  proof -
    have "p \<noteq> []" using ex by (simp add: exclusive_path_def)
    then obtain s r where p: "p = s # r" by (cases p) simp_all
    then obtain k where "s = Key_seg k" using ex by (cases s) (auto simp: exclusive_path_def)
    with p ex show ?thesis by (auto simp: dotted_def)
  qed
  ultimately show ?thesis by (force simp: dotted_def image_iff)
qed

text \<open>
  In the workspace's copy the format of a list nested in a list keeps a verb that nothing
  formats: an element that only \<open>initProvider\<close> has is reported under a path that holds a literal
  \<open>%s\<close>, which names no field of the resource.
\<close>

lemma nested_list_path_unformatted:
  "get_terraform_ignore_changes [(k, Slice_v [Slice_v [Num_v x]])] [(k, Slice_v [Slice_v [Num_v x, y]])]
     = Some [k @ ''[0]%s[1]'']"
proof -
  have n: "show_nat 0 = ''0''" "show_nat 1 = ''1''" "show_nat (Suc 0) = ''1''"
    by code_simp+
  show ?thesis
    by (simp add: get_terraform_ignore_changes_def append_opt_def n sprintf_def sprintf_scan_literal Let_def)
qed

text \<open>The list written to the workspace is sorted.\<close>

lemma ignore_changes_sorted:
  "get_terraform_ignore_changes fp ip = Some ps \<Longrightarrow> sorted ps"
  by (auto simp: get_terraform_ignore_changes_def)

end
