(* ===== verification/EncapsulatingLimiter.thy ===== *)
theory EncapsulatingLimiter
  imports Prelude
begin

text \<open>
  The rate limiter that keeps one limiter per caller-supplied key
  (\<open>pkg/internal/ratelimiter/encapsulating.go\<close>). The limiters it wraps are third-party objects
  behind the interface \<open>workqueue.TypedRateLimiter\<close>: a pointer is an address of the heap \<open>lims\<close>,
  nil is \<open>None\<close>, and the three methods are the parameter \<open>limiter_ops\<close>. Every method of the
  wrapper holds its mutex, so an execution is a sequence of calls.
\<close>

record ('q, 'l) limiter_ops =
  lim_when :: "'q \<Rightarrow> 'l \<Rightarrow> nat \<times> 'l"
  lim_forget :: "'q \<Rightarrow> 'l \<Rightarrow> 'l"
  lim_requeues :: "'q \<Rightarrow> 'l \<Rightarrow> nat"
  lim_default :: "'l"

text \<open>What the documentation of the interface promises, and of the limiter a new controller gets.\<close>

definition limiter_laws :: "('q, 'l) limiter_ops \<Rightarrow> bool" where
  "limiter_laws ops \<longleftrightarrow>
     (\<forall>q l. lim_requeues ops q (lim_forget ops q l) = 0) \<and>
     (\<forall>q l. lim_requeues ops q (snd (lim_when ops q l)) = Suc (lim_requeues ops q l)) \<and>
     (\<forall>p q l. p \<noteq> q \<longrightarrow> lim_requeues ops p (lim_forget ops q l) = lim_requeues ops p l) \<and>
     (\<forall>p q l. p \<noteq> q \<longrightarrow> lim_requeues ops p (snd (lim_when ops q l)) = lim_requeues ops p l) \<and>
     (\<forall>q. lim_requeues ops q (lim_default ops) = 0)"

text \<open>A limiter that counts failures per request, to instantiate the parameter.\<close>

definition counting_ops :: "('q, 'q \<Rightarrow> nat) limiter_ops" where
  "counting_ops =
     \<lparr>lim_when = (\<lambda>q l. (2 ^ l q, l(q := Suc (l q)))), lim_forget = (\<lambda>q l. l(q := 0)),
      lim_requeues = (\<lambda>q l. l q), lim_default = (\<lambda>_. 0)\<rparr>"

lemma counting_laws: "limiter_laws counting_ops"
  by (simp add: limiter_laws_def counting_ops_def)

section \<open>State and methods\<close>

record 'q request_set =
  bucket_limiter :: "nat option"
  bucket_requests :: "'q set"

record ('k, 'q, 'l) encapsulating =
  default_limiter :: "nat option"
  inner_key :: "'q \<rightharpoonup> 'k"
  rate_limiters :: "'k \<rightharpoonup> 'q request_set"
  lims :: "nat \<Rightarrow> 'l"

definition new_encapsulating :: "nat option \<Rightarrow> (nat \<Rightarrow> 'l) \<Rightarrow> ('k, 'q, 'l) encapsulating" where
  "new_encapsulating rl heap =
     \<lparr>default_limiter = rl, inner_key = Map.empty, rate_limiters = Map.empty, lims = heap\<rparr>"

definition cleanup_req :: "('q, 'l) limiter_ops \<Rightarrow> 'q \<Rightarrow> ('k, 'q, 'l) encapsulating \<Rightarrow> ('k, 'q, 'l) encapsulating" where
  "cleanup_req ops q c =
     (case inner_key c q of
        None \<Rightarrow> c
      | Some k \<Rightarrow>
          let c = c\<lparr>inner_key := (inner_key c)(q := None)\<rparr> in
          case rate_limiters c k of
            None \<Rightarrow> c
          | Some b \<Rightarrow>
              let b = b\<lparr>bucket_requests := bucket_requests b - {q}\<rparr>;
                  c = (case bucket_limiter b of
                         None \<Rightarrow> c
                       | Some a \<Rightarrow> c\<lparr>lims := (lims c)(a := lim_forget ops q (lims c a))\<rparr>) in
              c\<lparr>rate_limiters := (rate_limiters c)(k := if bucket_requests b = {} then None else Some b)\<rparr>)"

definition add_req ::
  "('q, 'l) limiter_ops \<Rightarrow> 'k \<Rightarrow> nat option \<Rightarrow> 'q \<Rightarrow> ('k, 'q, 'l) encapsulating \<Rightarrow> ('k, 'q, 'l) encapsulating" where
  "add_req ops k rl q c =
     (let b = (case rate_limiters c k of
                 None \<Rightarrow> \<lparr>bucket_limiter = rl, bucket_requests = {q}\<rparr>
               | Some r \<Rightarrow> r\<lparr>bucket_requests := insert q (bucket_requests r)\<rparr>);
          c = c\<lparr>rate_limiters := (rate_limiters c)(k \<mapsto> b)\<rparr>;
          c = (case inner_key c q of
                 None \<Rightarrow> c
               | Some prev \<Rightarrow> if prev \<noteq> k then cleanup_req ops q c else c) in
      c\<lparr>inner_key := (inner_key c)(q \<mapsto> k)\<rparr>)"

definition remove_req :: "('q, 'l) limiter_ops \<Rightarrow> 'q \<Rightarrow> ('k, 'q, 'l) encapsulating \<Rightarrow> ('k, 'q, 'l) encapsulating" where
  "remove_req ops q c = cleanup_req ops q c"

definition get_rate_limiter_for :: "'q \<Rightarrow> ('k, 'q, 'l) encapsulating \<Rightarrow> nat option" where
  "get_rate_limiter_for q c =
     (case inner_key c q of
        None \<Rightarrow> default_limiter c
      | Some k \<Rightarrow> (case rate_limiters c k of None \<Rightarrow> default_limiter c | Some b \<Rightarrow> bucket_limiter b))"

text \<open>A call through a nil limiter panics: \<open>None\<close>.\<close>

definition enc_when ::
  "('q, 'l) limiter_ops \<Rightarrow> 'q \<Rightarrow> ('k, 'q, 'l) encapsulating \<Rightarrow> (nat \<times> ('k, 'q, 'l) encapsulating) option" where
  "enc_when ops q c =
     map_option (\<lambda>a. let (d, l) = lim_when ops q (lims c a) in (d, c\<lparr>lims := (lims c)(a := l)\<rparr>))
       (get_rate_limiter_for q c)"

definition enc_forget ::
  "('q, 'l) limiter_ops \<Rightarrow> 'q \<Rightarrow> ('k, 'q, 'l) encapsulating \<Rightarrow> ('k, 'q, 'l) encapsulating option" where
  "enc_forget ops q c =
     map_option (\<lambda>a. c\<lparr>lims := (lims c)(a := lim_forget ops q (lims c a))\<rparr>) (get_rate_limiter_for q c)"

definition enc_num_requeues :: "('q, 'l) limiter_ops \<Rightarrow> 'q \<Rightarrow> ('k, 'q, 'l) encapsulating \<Rightarrow> nat option" where
  "enc_num_requeues ops q c =
     map_option (\<lambda>a. lim_requeues ops q (lims c a)) (get_rate_limiter_for q c)"

section \<open>The registry invariant\<close>

text \<open>\<open>inner\<close> and \<open>rateLimiters\<close> describe the same partition and no bucket is empty.\<close>

definition members :: "('k, 'q, 'l) encapsulating \<Rightarrow> 'k \<Rightarrow> 'q set" where
  "members c k = (case rate_limiters c k of None \<Rightarrow> {} | Some b \<Rightarrow> bucket_requests b)"

definition enc_inv :: "('k, 'q, 'l) encapsulating \<Rightarrow> bool" where
  "enc_inv c \<longleftrightarrow>
     (\<forall>q k. q \<in> members c k \<longleftrightarrow> inner_key c q = Some k) \<and>
     (\<forall>k. rate_limiters c k \<noteq> None \<longrightarrow> members c k \<noteq> {})"

lemma enc_inv_member: "enc_inv c \<Longrightarrow> q \<in> members c k \<longleftrightarrow> inner_key c q = Some k"
  by (simp add: enc_inv_def)

lemma enc_inv_bucket: "enc_inv c \<Longrightarrow> inner_key c q = Some k \<Longrightarrow> \<exists>b. rate_limiters c k = Some b \<and> q \<in> bucket_requests b"
  by (simp add: enc_inv_def members_def split: option.splits) (metis empty_iff option.exhaust)

text \<open>\<open>cleanup\<close> is also called in the middle of \<open>Add\<close>, where the request sits in two buckets.\<close>

lemma cleanup_req_effect:
  assumes "inner_key c q = Some p" and "rate_limiters c p = Some b"
  shows "inner_key (cleanup_req ops q c) = (inner_key c)(q := None)"
    and "rate_limiters (cleanup_req ops q c) = (rate_limiters c)(p :=
      if bucket_requests b - {q} = {} then None else Some (b\<lparr>bucket_requests := bucket_requests b - {q}\<rparr>))"
    and "default_limiter (cleanup_req ops q c) = default_limiter c"
    and "lims (cleanup_req ops q c) = (case bucket_limiter b of None \<Rightarrow> lims c
      | Some a \<Rightarrow> (lims c)(a := lim_forget ops q (lims c a)))"
  using assms by (simp_all add: cleanup_req_def Let_def split: option.splits)

lemma cleanup_req_none: "inner_key c q = None \<Longrightarrow> cleanup_req ops q c = c"
  by (simp add: cleanup_req_def)

lemma remove_req_members:
  assumes inv: "enc_inv c" and q: "inner_key c q = Some p"
  shows "members (remove_req ops q c) k = (if k = p then members c p - {q} else members c k)"
    and "rate_limiters (remove_req ops q c) k \<noteq> None \<longleftrightarrow>
      (if k = p then members c p - {q} \<noteq> {} else rate_limiters c k \<noteq> None)"
proof -
  obtain b where b: "rate_limiters c p = Some b" using enc_inv_bucket [OF inv q] by blast
  show "members (remove_req ops q c) k = (if k = p then members c p - {q} else members c k)"
    "rate_limiters (remove_req ops q c) k \<noteq> None \<longleftrightarrow>
      (if k = p then members c p - {q} \<noteq> {} else rate_limiters c k \<noteq> None)"
    using b unfolding members_def remove_req_def cleanup_req_effect(2) [OF q b] by simp_all
qed

lemma remove_req_inv [inv_intros]:
  assumes inv: "enc_inv c"
  shows "enc_inv (remove_req ops q c)"
proof (cases "inner_key c q")
  case (Some p)
  obtain b where b: "rate_limiters c p = Some b" using enc_inv_bucket [OF inv Some] by blast
  have k: "inner_key (remove_req ops q c) = (inner_key c)(q := None)"
    unfolding remove_req_def by (rule cleanup_req_effect(1) [OF Some b])
  show ?thesis
    using inv Some unfolding enc_inv_def remove_req_members [OF inv Some] k
    by (auto simp: enc_inv_def)
qed (simp add: inv remove_req_def cleanup_req_none)

text \<open>The registry after \<open>Add\<close>, for a request with and without a previous bucket.\<close>

definition joined :: "('k, 'q, 'l) encapsulating \<Rightarrow> 'k \<Rightarrow> nat option \<Rightarrow> 'q \<Rightarrow> 'q request_set" where
  "joined c k rl q =
     (case rate_limiters c k of
        None \<Rightarrow> \<lparr>bucket_limiter = rl, bucket_requests = {q}\<rparr>
      | Some r \<Rightarrow> r\<lparr>bucket_requests := insert q (bucket_requests r)\<rparr>)"

lemma add_req_stay:
  "inner_key c q = None \<or> inner_key c q = Some k \<Longrightarrow>
     add_req ops k rl q c = c\<lparr>rate_limiters := (rate_limiters c)(k \<mapsto> joined c k rl q),
       inner_key := (inner_key c)(q \<mapsto> k)\<rparr>"
  by (auto simp: add_req_def joined_def Let_def)

lemma add_req_move:
  assumes "inner_key c q = Some p" and "p \<noteq> k" and "rate_limiters c p = Some b"
  shows "inner_key (add_req ops k rl q c) = (inner_key c)(q \<mapsto> k)"
    and "rate_limiters (add_req ops k rl q c) = (rate_limiters c)(k \<mapsto> joined c k rl q, p :=
      if bucket_requests b - {q} = {} then None else Some (b\<lparr>bucket_requests := bucket_requests b - {q}\<rparr>))"
    and "default_limiter (add_req ops k rl q c) = default_limiter c"
    and "lims (add_req ops k rl q c) = (case bucket_limiter b of None \<Rightarrow> lims c
      | Some a \<Rightarrow> (lims c)(a := lim_forget ops q (lims c a)))"
  using assms cleanup_req_effect [of "c\<lparr>rate_limiters := (rate_limiters c)(k \<mapsto> joined c k rl q)\<rparr>" q p b ops]
  by (simp_all add: add_req_def joined_def [symmetric] Let_def cong: option.case_cong)

lemma joined_requests: "bucket_requests (joined c k rl q) =
    insert q (case rate_limiters c k of None \<Rightarrow> {} | Some r \<Rightarrow> bucket_requests r)"
  by (simp add: joined_def split: option.splits)

lemma add_req_members:
  assumes inv: "enc_inv c"
  shows "members (add_req ops k rl q c) j = (if j = k then insert q (members c k) else members c j - {q})"
    and "rate_limiters (add_req ops k rl q c) j \<noteq> None \<Longrightarrow> members (add_req ops k rl q c) j \<noteq> {}"
    and "inner_key (add_req ops k rl q c) = (inner_key c)(q \<mapsto> k)"
proof -
  have ne: "rate_limiters c j \<noteq> None \<Longrightarrow> members c j \<noteq> {}" for j using inv by (simp add: enc_inv_def)
  have "members (add_req ops k rl q c) j = (if j = k then insert q (members c k) else members c j - {q}) \<and>
    (rate_limiters (add_req ops k rl q c) j \<noteq> None \<longrightarrow> members (add_req ops k rl q c) j \<noteq> {}) \<and>
    inner_key (add_req ops k rl q c) = (inner_key c)(q \<mapsto> k)"
  proof (cases "inner_key c q = None \<or> inner_key c q = Some k")
    case True
    then have "j \<noteq> k \<Longrightarrow> q \<notin> members c j" using inv by (auto simp: enc_inv_def)
    then show ?thesis
      using ne [of j] unfolding add_req_stay [OF True]
      by (auto simp: members_def joined_requests split: option.splits)
  next
    case False
    then obtain p where p: "inner_key c q = Some p" "p \<noteq> k" by auto
    obtain b where b: "rate_limiters c p = Some b" using enc_inv_bucket [OF inv p(1)] by blast
    have "j \<noteq> p \<Longrightarrow> q \<notin> members c j" using inv p(1) by (auto simp: enc_inv_def)
    then show ?thesis
      using ne [of j] b p(2) unfolding members_def add_req_move(1,2) [OF p b]
      by (cases "j = p"; cases "j = k") (auto simp: joined_requests split: option.splits)
  qed
  then show "members (add_req ops k rl q c) j = (if j = k then insert q (members c k) else members c j - {q})"
    "rate_limiters (add_req ops k rl q c) j \<noteq> None \<Longrightarrow> members (add_req ops k rl q c) j \<noteq> {}"
    "inner_key (add_req ops k rl q c) = (inner_key c)(q \<mapsto> k)" by blast+
qed

lemma add_req_inv [inv_intros]:
  assumes inv: "enc_inv c"
  shows "enc_inv (add_req ops k rl q c)"
  using inv add_req_members(2) [OF inv] unfolding enc_inv_def add_req_members(1,3) [OF inv] by auto

section \<open>Runs of calls\<close>

datatype ('k, 'q) enc_call = EAdd 'k "nat option" 'q | ERemove 'q | EWhen 'q | EForget 'q

fun enc_do :: "('q, 'l) limiter_ops \<Rightarrow> ('k, 'q) enc_call \<Rightarrow> ('k, 'q, 'l) encapsulating \<Rightarrow> ('k, 'q, 'l) encapsulating option" where
  "enc_do ops (EAdd k rl q) c = Some (add_req ops k rl q c)"
| "enc_do ops (ERemove q) c = Some (remove_req ops q c)"
| "enc_do ops (EWhen q) c = map_option snd (enc_when ops q c)"
| "enc_do ops (EForget q) c = enc_forget ops q c"

fun enc_run :: "('q, 'l) limiter_ops \<Rightarrow> ('k, 'q) enc_call list \<Rightarrow> ('k, 'q, 'l) encapsulating \<Rightarrow> ('k, 'q, 'l) encapsulating option" where
  "enc_run ops [] c = Some c"
| "enc_run ops (x # xs) c = Option.bind (enc_do ops x c) (enc_run ops xs)"

lemma enc_inv_new [inv_intros]: "enc_inv (new_encapsulating rl heap)"
  by (simp add: enc_inv_def members_def new_encapsulating_def)

lemma enc_inv_lims [inv_intros]: "enc_inv c \<Longrightarrow> enc_inv (c\<lparr>lims := h\<rparr>)"
  by (simp add: enc_inv_def members_def)

lemma enc_do_inv: "enc_inv c \<Longrightarrow> enc_do ops x c = Some d \<Longrightarrow> enc_inv d"
  by (cases x) (auto simp: enc_when_def enc_forget_def split_beta intro: inv_intros)

lemma enc_run_inv: "enc_inv c \<Longrightarrow> enc_run ops xs c = Some d \<Longrightarrow> enc_inv d"
proof (induction xs arbitrary: c)
  case (Cons x xs)
  then show ?case using enc_do_inv [OF Cons.prems(1), of ops x] by (cases "enc_do ops x c") auto
qed simp

section \<open>Who limits a request\<close>

lemma get_limiter_registered:
  "enc_inv c \<Longrightarrow> inner_key c q = Some k \<Longrightarrow>
     get_rate_limiter_for q c = (case rate_limiters c k of None \<Rightarrow> None | Some b \<Rightarrow> bucket_limiter b)"
  using enc_inv_bucket [of c q k] by (auto simp: get_rate_limiter_for_def)

text \<open>\<open>Add\<close> keeps the existing limiter of a key and gives a new key the caller's one.\<close>

lemma add_req_limiter:
  assumes inv: "enc_inv c"
  shows "get_rate_limiter_for q (add_req ops k rl q c) =
    (case rate_limiters c k of None \<Rightarrow> rl | Some b \<Rightarrow> bucket_limiter b)"
proof (cases "inner_key c q = None \<or> inner_key c q = Some k")
  case True
  then show ?thesis
    unfolding add_req_stay [OF True] by (simp add: get_rate_limiter_for_def joined_def split: option.splits)
next
  case False
  then obtain p where p: "inner_key c q = Some p" "p \<noteq> k" by auto
  obtain b where b: "rate_limiters c p = Some b" using enc_inv_bucket [OF inv p(1)] by blast
  show ?thesis
    using p(2) by (simp add: get_rate_limiter_for_def add_req_move [OF p b] joined_def split: option.splits)
qed

text \<open>Neither \<open>Add\<close> nor \<open>Remove\<close> changes the limiter of another request.\<close>

lemma remove_req_other:
  assumes inv: "enc_inv c" and pq: "p \<noteq> q"
  shows "get_rate_limiter_for p (remove_req ops q c) = get_rate_limiter_for p c"
proof (cases "inner_key c q")
  case (Some k)
  obtain b where b: "rate_limiters c k = Some b" using enc_inv_bucket [OF inv Some] by blast
  have "inner_key c p = Some k \<Longrightarrow> p \<in> bucket_requests b"
    using enc_inv_bucket [OF inv, of p k] b by auto
  then show ?thesis
    using pq b unfolding get_rate_limiter_for_def remove_req_def cleanup_req_effect(1,2,3) [OF Some b]
    by (auto split: option.splits)
qed (simp add: remove_req_def cleanup_req_none)

lemma add_req_other:
  assumes inv: "enc_inv c" and pq: "p \<noteq> q"
  shows "get_rate_limiter_for p (add_req ops k rl q c) = get_rate_limiter_for p c"
proof (cases "inner_key c q = None \<or> inner_key c q = Some k")
  case True
  show ?thesis
    using pq enc_inv_bucket [OF inv, of p k] unfolding add_req_stay [OF True]
    by (auto simp: get_rate_limiter_for_def joined_def split: option.splits)
next
  case False
  then obtain j where j: "inner_key c q = Some j" "j \<noteq> k" by auto
  obtain b where b: "rate_limiters c j = Some b" using enc_inv_bucket [OF inv j(1)] by blast
  have "inner_key c p = Some j \<Longrightarrow> p \<in> bucket_requests b"
    using enc_inv_bucket [OF inv, of p j] b by auto
  then show ?thesis
    using pq b j(2) enc_inv_bucket [OF inv, of p k]
    unfolding get_rate_limiter_for_def add_req_move(1,2,3) [OF j b]
    by (auto simp: joined_def split: option.splits)
qed

text \<open>
  C29. After any run of calls, \<open>Add\<close> puts the request under the existing limiter of the key (the
  caller's one if the key is new), \<open>Remove\<close> puts it back under the default limiter, and neither
  changes the limiter of any other request.
\<close>

theorem overrides_are_per_request:
  assumes "enc_run ops xs (new_encapsulating dflt heap) = Some c"
  shows "get_rate_limiter_for q (add_req ops k rl q c) =
      (case rate_limiters c k of None \<Rightarrow> rl | Some b \<Rightarrow> bucket_limiter b) \<and>
    get_rate_limiter_for q (remove_req ops q c) = default_limiter c \<and>
    (\<forall>p. p \<noteq> q \<longrightarrow> get_rate_limiter_for p (add_req ops k rl q c) = get_rate_limiter_for p c \<and>
       get_rate_limiter_for p (remove_req ops q c) = get_rate_limiter_for p c)"
proof -
  have inv: "enc_inv c" using enc_inv_new assms by (rule enc_run_inv)
  have "get_rate_limiter_for q (remove_req ops q c) = default_limiter c"
  proof (cases "inner_key c q")
    case None
    then show ?thesis by (simp add: remove_req_def cleanup_req_none get_rate_limiter_for_def)
  next
    case (Some k)
    then obtain b where "rate_limiters c k = Some b" using enc_inv_bucket [OF inv] by blast
    then show ?thesis by (simp add: get_rate_limiter_for_def remove_req_def cleanup_req_effect [OF Some])
  qed
  then show ?thesis using add_req_limiter [OF inv] add_req_other [OF inv] remove_req_other [OF inv] by blast
qed

theorem overrides_are_per_request_witness:
  "get_rate_limiter_for (2::nat) (add_req counting_ops ''k'' (Some 9) 1
     (the (enc_run counting_ops [EAdd ''k'' (Some 1) 2, EAdd ''j'' (Some 2) 1, EWhen 1]
       (new_encapsulating (Some 0) (\<lambda>_ _. 0))))) = Some 1"
  using overrides_are_per_request [where ops = counting_ops and q = "1::nat" and k = "''k''" and rl = "Some 9"
      and dflt = "Some 0" and heap = "\<lambda>_ _. 0" and xs = "[EAdd ''k'' (Some 1) 2, EAdd ''j'' (Some 2) 1, EWhen 1]",
      OF option.collapse [symmetric]]
  by (simp add: counting_ops_def add_req_def cleanup_req_def new_encapsulating_def enc_when_def
      get_rate_limiter_for_def)

text \<open>
  The registry does not leak and forgets: after any run of calls a key has a bucket exactly when
  some request is registered under it, and moving a request to another key resets its failure
  count in the limiter it leaves, while every other request keeps its count there.
\<close>

lemma registry_exact:
  assumes "enc_run ops xs (new_encapsulating dflt heap) = Some c" and "limiter_laws ops"
  shows "(rate_limiters c k \<noteq> None \<longleftrightarrow> (\<exists>q. inner_key c q = Some k)) \<and>
    (inner_key c q = Some j \<and> j \<noteq> k \<and> get_rate_limiter_for q c = Some a \<longrightarrow>
       lim_requeues ops q (lims (add_req ops k rl q c) a) = 0 \<and>
       (\<forall>p. p \<noteq> q \<longrightarrow> lim_requeues ops p (lims (add_req ops k rl q c) a) = lim_requeues ops p (lims c a)))"
proof -
  have inv: "enc_inv c" using enc_inv_new assms(1) by (rule enc_run_inv)
  have bucket: "rate_limiters c k \<noteq> None \<longleftrightarrow> (\<exists>q. inner_key c q = Some k)"
  proof
    assume "rate_limiters c k \<noteq> None"
    then have "members c k \<noteq> {}" using inv by (simp add: enc_inv_def)
    then show "\<exists>q. inner_key c q = Some k" using enc_inv_member [OF inv] by blast
  next
    assume "\<exists>q. inner_key c q = Some k"
    then show "rate_limiters c k \<noteq> None" using enc_inv_bucket [OF inv] by blast
  qed
  have "lim_requeues ops q (lims (add_req ops k rl q c) a) = 0 \<and>
      (\<forall>p. p \<noteq> q \<longrightarrow> lim_requeues ops p (lims (add_req ops k rl q c) a) = lim_requeues ops p (lims c a))"
    if j: "inner_key c q = Some j" "j \<noteq> k" and a: "get_rate_limiter_for q c = Some a"
  proof -
    obtain b where b: "rate_limiters c j = Some b" using enc_inv_bucket [OF inv j(1)] by blast
    then have "bucket_limiter b = Some a" using a j(1) by (simp add: get_rate_limiter_for_def)
    then show ?thesis using assms(2) by (simp add: add_req_move [OF j b] limiter_laws_def)
  qed
  with bucket show ?thesis by blast
qed

end
