(* ===== verification/EventHandling.thy ===== *)
theory EventHandling
  imports EncapsulatingLimiter
begin

text \<open>
  The event handler that lets the runtime queue reconcile requests
  (\<open>pkg/controller/handler/eventhandler.go\<close>). Work queues are addresses with a log of
  \<open>AddAfter\<close> calls; limiters are addresses of a heap, allocated when
  \<open>DefaultTypedControllerRateLimiter\<close> is called. The methods of limiters and of the wrapped handler
  are parameters. Every method holds the handler's mutex.
\<close>

record ('q, 'l) event_handler =
  eh_queue :: "nat option"
  limiter_map :: "string \<rightharpoonup> nat"
  eh_default :: "nat option"
  eh_lims :: "nat \<Rightarrow> 'l"
  eh_next :: nat
  queue_log :: "nat \<Rightarrow> ('q \<times> nat) list"

definition new_event_handler :: "nat option \<Rightarrow> (nat \<Rightarrow> 'l) \<Rightarrow> nat \<Rightarrow> ('q, 'l) event_handler" where
  "new_event_handler dflt heap next =
     \<lparr>eh_queue = None, limiter_map = Map.empty, eh_default = dflt, eh_lims = heap, eh_next = next,
      queue_log = (\<lambda>_. [])\<rparr>"

definition set_queue :: "nat \<Rightarrow> ('q, 'l) event_handler \<Rightarrow> ('q, 'l) event_handler" where
  "set_queue w e = (if eh_queue e = None then e\<lparr>eh_queue := Some w\<rparr> else e)"

definition add_after :: "nat \<Rightarrow> 'q \<Rightarrow> nat \<Rightarrow> ('q, 'l) event_handler \<Rightarrow> ('q, 'l) event_handler" where
  "add_after w q d e = e\<lparr>queue_log := (queue_log e)(w := queue_log e w @ [(q, d)])\<rparr>"

text \<open>The limiter of a name, created at its first use.\<close>

definition named_limiter ::
  "('q, 'l) limiter_ops \<Rightarrow> string \<Rightarrow> ('q, 'l) event_handler \<Rightarrow> nat \<times> ('q, 'l) event_handler" where
  "named_limiter ops rn e =
     (case limiter_map e rn of
        Some a \<Rightarrow> (a, e)
      | None \<Rightarrow>
          (case eh_default e of
             Some a \<Rightarrow> (a, e\<lparr>limiter_map := (limiter_map e)(rn \<mapsto> a)\<rparr>)
           | None \<Rightarrow> (eh_next e,
               e\<lparr>eh_lims := (eh_lims e)(eh_next e := lim_default ops), eh_next := Suc (eh_next e),
                 limiter_map := (limiter_map e)(rn \<mapsto> eh_next e)\<rparr>)))"

definition request_reconcile ::
  "('q, 'l) limiter_ops \<Rightarrow> string \<Rightarrow> 'q \<Rightarrow> int option \<Rightarrow> ('q, 'l) event_handler \<Rightarrow> bool \<times> ('q, 'l) event_handler" where
  "request_reconcile ops rn q limit e =
     (case eh_queue e of
        None \<Rightarrow> (False, e)
      | Some w \<Rightarrow>
          if rn = '''' then (True, add_after w q 0 e)
          else
            let (a, e) = named_limiter ops rn e in
            if (case limit of None \<Rightarrow> False | Some n \<Rightarrow> int (lim_requeues ops q (eh_lims e a)) > n)
            then (False, e)
            else
              let (d, l) = lim_when ops q (eh_lims e a) in
              (True, add_after w q d (e\<lparr>eh_lims := (eh_lims e)(a := l)\<rparr>)))"

definition eh_forget :: "('q, 'l) limiter_ops \<Rightarrow> string \<Rightarrow> 'q \<Rightarrow> ('q, 'l) event_handler \<Rightarrow> ('q, 'l) event_handler" where
  "eh_forget ops rn q e =
     (case limiter_map e rn of
        None \<Rightarrow> e
      | Some a \<Rightarrow> e\<lparr>eh_lims := (eh_lims e)(a := lim_forget ops q (eh_lims e a))\<rparr>)"

text \<open>The four event methods: keep the first queue seen, then call the wrapped handler on the queue given.\<close>

datatype 'o watch_event = CreateEvent 'o | UpdateEvent 'o 'o | DeleteEvent 'o | GenericEvent 'o

definition handle_event ::
  "('o watch_event \<Rightarrow> ('q \<times> nat) list) \<Rightarrow> 'o watch_event \<Rightarrow> nat \<Rightarrow> ('q, 'l) event_handler \<Rightarrow> ('q, 'l) event_handler" where
  "handle_event wrapped ev w e =
     (let e = set_queue w e in e\<lparr>queue_log := (queue_log e)(w := queue_log e w @ wrapped ev)\<rparr>)"

section \<open>The failure limit\<close>

text \<open>
  An execution is a list of calls. \<open>counted\<close> is the failure count of a request under a limiter
  name; a name without a limiter yet would get a fresh one or the default one.
\<close>

datatype ('q, 'o) eh_call =
  HRequest string 'q "int option" | HForget string 'q | HEvent "'o watch_event" nat

definition eh_do ::
  "('q, 'l) limiter_ops \<Rightarrow> ('o watch_event \<Rightarrow> ('q \<times> nat) list) \<Rightarrow> ('q, 'o) eh_call \<Rightarrow>
     ('q, 'l) event_handler \<Rightarrow> bool \<times> ('q, 'l) event_handler" where
  "eh_do ops wrapped c e =
     (case c of
        HRequest rn q limit \<Rightarrow> request_reconcile ops rn q limit e
      | HForget rn q \<Rightarrow> (False, eh_forget ops rn q e)
      | HEvent ev w \<Rightarrow> (False, handle_event wrapped ev w e))"

text \<open>The number of requests for \<open>q\<close> under a limiter name that were queued.\<close>

definition retry_weight :: "'q \<Rightarrow> bool \<Rightarrow> ('q, 'o) eh_call \<Rightarrow> nat" where
  "retry_weight q ok c = (case c of HRequest rn p limit \<Rightarrow> if p = q \<and> rn \<noteq> '''' \<and> ok then 1 else 0 | _ \<Rightarrow> 0)"

fun queued_retries ::
  "('q, 'l) limiter_ops \<Rightarrow> ('o watch_event \<Rightarrow> ('q \<times> nat) list) \<Rightarrow> 'q \<Rightarrow> ('q, 'o) eh_call list \<Rightarrow> ('q, 'l) event_handler \<Rightarrow> nat" where
  "queued_retries ops wrapped q [] e = 0"
| "queued_retries ops wrapped q (c # cs) e =
     (let (ok, e') = eh_do ops wrapped c e in
      retry_weight q ok c + queued_retries ops wrapped q cs e')"

definition eh_wf :: "('q, 'l) event_handler \<Rightarrow> bool" where
  "eh_wf e \<longleftrightarrow> (\<forall>rn a. limiter_map e rn = Some a \<longrightarrow> a < eh_next e) \<and> (\<forall>a. eh_default e = Some a \<longrightarrow> a < eh_next e)"

definition counted :: "('q, 'l) limiter_ops \<Rightarrow> string \<Rightarrow> 'q \<Rightarrow> ('q, 'l) event_handler \<Rightarrow> nat" where
  "counted ops rn q e =
     (case limiter_map e rn of
        Some a \<Rightarrow> lim_requeues ops q (eh_lims e a)
      | None \<Rightarrow> (case eh_default e of Some a \<Rightarrow> lim_requeues ops q (eh_lims e a) | None \<Rightarrow> 0))"

text \<open>The calls that a retry bound allows: every retry of \<open>q\<close> names the limit and nobody forgets \<open>q\<close>.\<close>

definition bounded_call :: "string \<Rightarrow> 'q \<Rightarrow> int \<Rightarrow> ('q, 'o) eh_call \<Rightarrow> bool" where
  "bounded_call rn q n c =
     (case c of
        HRequest r p limit \<Rightarrow> p = q \<and> r \<noteq> '''' \<longrightarrow> r = rn \<and> (\<exists>m \<le> n. limit = Some m)
      | HForget r p \<Rightarrow> p \<noteq> q
      | HEvent _ _ \<Rightarrow> True)"

lemma named_limiter_counted:
  assumes "eh_wf e" and "limiter_laws ops" and "named_limiter ops rn e = (a, e')"
  shows "eh_wf e'" and "limiter_map e' rn = Some a" and "counted ops r q e' = counted ops r q e"
    and "lim_requeues ops q (eh_lims e' a) = counted ops rn q e" and "eh_queue e' = eh_queue e"
proof -
  have lt: "limiter_map e r = Some b \<Longrightarrow> b < eh_next e" "eh_default e = Some b \<Longrightarrow> b < eh_next e" for r b
    using assms(1) by (auto simp: eh_wf_def)
  have z: "lim_requeues ops q (lim_default ops) = 0" for q using assms(2) by (simp add: limiter_laws_def)
  show "eh_wf e'" "limiter_map e' rn = Some a" "eh_queue e' = eh_queue e"
    using assms(3) lt by (auto simp: named_limiter_def eh_wf_def less_SucI split: option.splits if_splits)
  have fresh: "limiter_map e r \<noteq> Some (eh_next e)" for r using lt(1) by blast
  show "counted ops r q e' = counted ops r q e" "lim_requeues ops q (eh_lims e' a) = counted ops rn q e"
    using assms(3) fresh z
    by (auto simp: named_limiter_def counted_def split: option.splits if_splits)
qed

text \<open>A retry of another request, or one without a limiter, leaves the count alone.\<close>

lemma request_reconcile_wf:
  assumes "eh_wf e" and "limiter_laws ops" and "request_reconcile ops r p limit e = (ok, e')"
  shows "eh_wf e'"
proof (cases "eh_queue e = None \<or> r = ''''")
  case True
  then show ?thesis using assms(1,3)
    by (auto simp: request_reconcile_def add_after_def eh_wf_def split: option.splits)
next
  case False
  obtain a f where nl: "named_limiter ops r e = (a, f)" by fastforce
  then have "eh_wf f" by (rule named_limiter_counted(1) [OF assms(1,2)])
  then show ?thesis using assms(3) False nl
    by (auto simp: request_reconcile_def add_after_def eh_wf_def Let_def split: option.splits if_splits prod.splits)
qed

lemma when_counted:
  assumes "limiter_laws ops" and "lim_when ops p (eh_lims f a) = (d, l)" and "limiter_map f r = Some a"
  shows "p \<noteq> q \<Longrightarrow> counted ops rn q (f\<lparr>eh_lims := (eh_lims f)(a := l), queue_log := z\<rparr>) = counted ops rn q f"
    and "counted ops r p (f\<lparr>eh_lims := (eh_lims f)(a := l), queue_log := z\<rparr>) = Suc (counted ops r p f)"
proof -
  have l: "l = snd (lim_when ops p (eh_lims f a))" using assms(2) by simp
  show "p \<noteq> q \<Longrightarrow> counted ops rn q (f\<lparr>eh_lims := (eh_lims f)(a := l), queue_log := z\<rparr>) = counted ops rn q f"
    using assms(1) by (auto simp: counted_def l limiter_laws_def split: option.splits)
  show "counted ops r p (f\<lparr>eh_lims := (eh_lims f)(a := l), queue_log := z\<rparr>) = Suc (counted ops r p f)"
    using assms(1,3) by (simp add: counted_def l limiter_laws_def)
qed

lemma request_reconcile_other:
  assumes "eh_wf e" and "limiter_laws ops" and "request_reconcile ops r p limit e = (ok, e')"
    and "p \<noteq> q \<or> r = ''''"
  shows "counted ops rn q e' = counted ops rn q e"
proof (cases "eh_queue e = None \<or> r = ''''")
  case True
  then show ?thesis using assms(3)
    by (auto simp: request_reconcile_def add_after_def counted_def split: option.splits)
next
  case False
  obtain a f where nl: "named_limiter ops r e = (a, f)" by fastforce
  note nlc = named_limiter_counted [OF assms(1,2) nl]
  from False assms(3,4) nl when_counted(1) [OF assms(2) _ nlc(2), of p _ _ q rn] nlc(3)
  show ?thesis
    by (auto simp: request_reconcile_def add_after_def Let_def split: option.splits if_splits prod.splits)
qed

lemma request_reconcile_same:
  assumes "eh_wf e" and "limiter_laws ops" and "request_reconcile ops rn q (Some m) e = (ok, e')"
    and "rn \<noteq> ''''"
  shows "if ok then counted ops rn q e' = Suc (counted ops rn q e) \<and> int (counted ops rn q e) \<le> m
    else counted ops rn q e' = counted ops rn q e"
proof (cases "eh_queue e")
  case None
  then show ?thesis using assms(3) by (auto simp: request_reconcile_def)
next
  case (Some w)
  obtain a f where nl: "named_limiter ops rn e = (a, f)" by fastforce
  note nlc = named_limiter_counted [OF assms(1,2) nl]
  from Some assms(3,4) nl when_counted(2) [OF assms(2) _ nlc(2), of q] nlc(3,4)
  show ?thesis
    by (auto simp: request_reconcile_def add_after_def Let_def split: if_splits prod.splits)
qed

lemma eh_do_bounded:
  assumes "eh_wf e" and "limiter_laws ops" and "bounded_call rn q n c" and "eh_do ops wrapped c e = (ok, e')"
  shows "eh_wf e' \<and> counted ops rn q e' = counted ops rn q e + retry_weight q ok c \<and>
    (retry_weight q ok c = 0 \<or> retry_weight q ok c = 1 \<and> int (counted ops rn q e) \<le> n)"
proof (cases c)
  case (HRequest r p limit)
  then have rr: "request_reconcile ops r p limit e = (ok, e')" using assms(4) by (simp add: eh_do_def)
  have wf: "eh_wf e'" by (rule request_reconcile_wf [OF assms(1,2) rr])
  show ?thesis
  proof (cases "p = q \<and> r \<noteq> ''''")
    case True
    then obtain m where m: "r = rn" "limit = Some m" "m \<le> n"
      using assms(3) HRequest by (auto simp: bounded_call_def)
    have "request_reconcile ops rn q (Some m) e = (ok, e')" using rr True m by simp
    from request_reconcile_same [OF assms(1,2) this] True m wf HRequest
    show ?thesis by (auto simp: retry_weight_def split: if_splits)
  next
    case False
    then have "counted ops rn q e' = counted ops rn q e"
      using request_reconcile_other [OF assms(1,2) rr] by blast
    then show ?thesis using wf False HRequest by (auto simp: retry_weight_def)
  qed
next
  case (HForget r p)
  then have "p \<noteq> q" "e' = eh_forget ops r p e"
    using assms(3,4) by (auto simp: bounded_call_def eh_do_def)
  then show ?thesis
    using assms(1,2) HForget
    by (auto simp: eh_forget_def eh_wf_def counted_def limiter_laws_def retry_weight_def split: option.splits)
next
  case (HEvent ev w)
  then show ?thesis
    using assms(1,4)
    by (cases "eh_queue e = None")
      (auto simp: eh_do_def handle_event_def set_queue_def eh_wf_def counted_def retry_weight_def Let_def cong: option.case_cong)
qed

text \<open>
  The failure limit bounds retries: in any run in which every retry of a request names the same
  limiter and a limit of at most \<open>n\<close> and nobody forgets the request, at most \<open>n + 1\<close> retries of it
  are queued in total, less the failures counted before the run; other requests, limiters and
  watch events may come in between.
\<close>

lemma failure_limit_bounds_retries:
  assumes "eh_wf e" and "limiter_laws ops" and "\<forall>c \<in> set cs. bounded_call rn q n c"
  shows "int (queued_retries ops wrapped q cs e) \<le> max 0 (n + 1 - int (counted ops rn q e))"
  using assms(1,3)
proof (induction cs arbitrary: e)
  case (Cons c cs)
  obtain ok e' where st: "eh_do ops wrapped c e = (ok, e')" by fastforce
  have b: "bounded_call rn q n c" using Cons.prems(2) by simp
  note d = eh_do_bounded [OF Cons.prems(1) assms(2) b st]
  have "int (queued_retries ops wrapped q cs e') \<le> max 0 (n + 1 - int (counted ops rn q e'))"
    using Cons.IH [of e'] d Cons.prems(2) by auto
  then show ?case using d st by auto
qed simp

end
