(* ===== verification/AsyncCallbacks.thy ===== *)
theory AsyncCallbacks
  imports GoErrors EventHandling
begin

text \<open>
  The status conditions of asynchronous operations (\<open>pkg/resource/conditions.go\<close>) and the
  callbacks that report the result of one (\<open>pkg/controller/api.go\<close>). The transition times are left
  out. The Kubernetes client, \<open>SetConditions\<close> and the \<open>Synced\<close> conditions of the Crossplane API
  are parameters, gathered in \<open>condition_api\<close>.
\<close>

section \<open>Conditions\<close>

record condition =
  cond_type :: string
  cond_status :: string
  cond_reason :: string
  cond_message :: string

definition last_async_operation_condition :: "gerror option \<Rightarrow> condition" where
  "last_async_operation_condition err =
     (case err of
        None \<Rightarrow> \<lparr>cond_type = ''LastAsyncOperation'', cond_status = ''True'', cond_reason = ''Success'', cond_message = ''''\<rparr>
      | Some e \<Rightarrow>
          let failed = (\<lambda>r. \<lparr>cond_type = ''LastAsyncOperation'', cond_status = ''False'', cond_reason = r,
                               cond_message = error_string e\<rparr>) in
          if is_apply_failed e then failed ''ApplyFailure''
          else if is_destroy_failed e then failed ''DestroyFailure''
          else if is_async_create_failed e then failed ''AsyncCreateFailure''
          else if is_async_update_failed e then failed ''AsyncUpdateFailure''
          else if is_async_delete_failed e then failed ''AsyncDeleteFailure''
          else \<lparr>cond_type = ''Unknown'', cond_status = ''False'', cond_reason = ''Unknown'',
                 cond_message = error_string e\<rparr>)"

definition async_operation_finished_condition :: condition where
  "async_operation_finished_condition =
     \<lparr>cond_type = ''AsyncOperation'', cond_status = ''True'', cond_reason = ''Finished'', cond_message = ''''\<rparr>"

definition async_operation_ongoing_condition :: condition where
  "async_operation_ongoing_condition =
     \<lparr>cond_type = ''AsyncOperation'', cond_status = ''False'', cond_reason = ''Ongoing'', cond_message = ''''\<rparr>"

definition up_to_date_condition :: condition where
  "up_to_date_condition =
     \<lparr>cond_type = ''Test'', cond_status = ''True'', cond_reason = ''UpToDate'', cond_message = ''''\<rparr>"

text \<open>The third-party side: setting and reading conditions, and the two \<open>Synced\<close> conditions.\<close>

record 's condition_api =
  set_condition :: "condition \<Rightarrow> 's \<Rightarrow> 's"
  get_condition :: "string \<Rightarrow> 's \<Rightarrow> condition option"
  reconcile_error :: "gerror \<Rightarrow> condition"
  reconcile_success :: "condition"

definition condition_laws :: "'s condition_api \<Rightarrow> bool" where
  "condition_laws api \<longleftrightarrow>
     (\<forall>t c s. get_condition api t (set_condition api c s) =
        (if t = cond_type c then Some c else get_condition api t s)) \<and>
     (\<forall>e. cond_type (reconcile_error api e) = ''Synced'' \<and> cond_status (reconcile_error api e) = ''False'') \<and>
     cond_type (reconcile_success api) = ''Synced'' \<and> cond_status (reconcile_success api) = ''True''"

definition map_api :: "(string \<rightharpoonup> condition) condition_api" where
  "map_api =
     \<lparr>set_condition = (\<lambda>c s. s(cond_type c \<mapsto> c)), get_condition = (\<lambda>t s. s t),
      reconcile_error = (\<lambda>e. \<lparr>cond_type = ''Synced'', cond_status = ''False'', cond_reason = ''ReconcileError'',
        cond_message = error_string e\<rparr>),
      reconcile_success = \<lparr>cond_type = ''Synced'', cond_status = ''True'', cond_reason = ''ReconcileSuccess'',
        cond_message = ''''\<rparr>\<rparr>"

lemma map_api_laws: "condition_laws map_api"
  by (simp add: condition_laws_def map_api_def)

definition set_up_to_date_condition :: "'s condition_api \<Rightarrow> bool \<Rightarrow> bool \<Rightarrow> 's \<Rightarrow> 's" where
  "set_up_to_date_condition api is_test up_to_date s =
     (if up_to_date \<and> is_test then set_condition api up_to_date_condition s else s)"

section \<open>The callback\<close>

datatype async_operation = OpCreate | OpUpdate | OpDestroy

fun op_text :: "async_operation \<Rightarrow> string" where
  "op_text OpCreate = ''create''"
| "op_text OpUpdate = ''update''"
| "op_text OpDestroy = ''destroy''"

fun wrap_msg :: "async_operation \<Rightarrow> string" where
  "wrap_msg OpCreate = ''create failed''"
| "wrap_msg OpUpdate = ''update failed''"
| "wrap_msg OpDestroy = ''delete failed''"

record api_callbacks =
  enable_status_updates :: bool
  has_event_handler :: bool

definition rate_limiter_callback :: string where
  "rate_limiter_callback = ''asyncCallback''"

text \<open>The name of an object is its namespace and name; \<open>gvk\<close> is the printed kind.\<close>

definition about_async :: "string \<Rightarrow> string \<Rightarrow> string \<times> string \<Rightarrow> async_operation \<Rightarrow> string" where
  "about_async prefix gvk nn op =
     prefix @ '' the resource '' @ gvk @ ''/'' @ fst nn @ ''/'' @ snd nn @ '' after an async '' @ op_text op"

definition callback_status ::
  "'s condition_api \<Rightarrow> api_callbacks \<Rightarrow> async_operation \<Rightarrow> gerror option \<Rightarrow> 's \<Rightarrow> 's" where
  "callback_status api ac op err tr =
     (let tr = set_condition api (last_async_operation_condition err) tr;
          tr = (case err of
                  Some e \<Rightarrow> set_condition api (reconcile_error api (WithMsg (wrap_msg op) e)) tr
                | None \<Rightarrow> set_condition api (reconcile_success api) tr) in
      if enable_status_updates ac then set_condition api async_operation_finished_condition tr else tr)"

text \<open>
  \<open>got\<close> is what the client's \<open>Get\<close> returns and \<open>update_err\<close> the error of the status update. The
  result is the callback's error, the status sent to the API server if any, and the event handler.
\<close>

definition callback_fn ::
  "'s condition_api \<Rightarrow> (string \<times> string, 'l) limiter_ops \<Rightarrow> string \<Rightarrow> api_callbacks \<Rightarrow> string \<times> string \<Rightarrow>
     async_operation \<Rightarrow> bool \<Rightarrow> (gerror + 's) \<Rightarrow> gerror option \<Rightarrow> gerror option \<Rightarrow>
     (string \<times> string, 'l) event_handler \<Rightarrow> gerror option \<times> 's option \<times> (string \<times> string, 'l) event_handler" where
  "callback_fn api ops gvk ac nn op request got update_err err e =
     (case got of
        Inl k_err \<Rightarrow> (wrap_err (about_async ''cannot get resource'' gvk nn op) (Some k_err), None, e)
      | Inr tr \<Rightarrow>
          let tr = callback_status api ac op err tr;
              u_err = wrap_err (about_async ''cannot update status of'' gvk nn op) update_err in
          if has_event_handler ac \<and> request then
            let (limiter, e) =
                  (case err of
                     Some x \<Rightarrow> (rate_limiter_callback, e)
                   | None \<Rightarrow> ('''', eh_forget ops rate_limiter_callback nn e));
                (ok, e) = request_reconcile ops limiter nn None e in
            if ok then (u_err, Some tr, e)
            else (Some (Plain (about_async ''cannot request the reconciliation of'' gvk nn op)), Some tr, e)
          else (u_err, Some tr, e))"

definition callback_create where
  "callback_create api ops gvk ac nn request = callback_fn api ops gvk ac nn OpCreate request"

definition callback_update where
  "callback_update api ops gvk ac nn request = callback_fn api ops gvk ac nn OpUpdate request"

definition callback_destroy where
  "callback_destroy api ops gvk ac nn request = callback_fn api ops gvk ac nn OpDestroy request"

section \<open>What a callback reports\<close>

definition classified :: "gerror \<Rightarrow> bool" where
  "classified e \<longleftrightarrow> is_apply_failed e \<or> is_destroy_failed e \<or> is_async_create_failed e \<or>
     is_async_update_failed e \<or> is_async_delete_failed e"

lemma last_async_type:
  "cond_type (last_async_operation_condition err) =
     (case err of None \<Rightarrow> ''LastAsyncOperation''
      | Some e \<Rightarrow> if classified e then ''LastAsyncOperation'' else ''Unknown'')"
  by (simp add: last_async_operation_condition_def classified_def Let_def split: option.splits)

lemma last_async_status:
  "cond_status (last_async_operation_condition err) = (if err = None then ''True'' else ''False'')"
  by (simp add: last_async_operation_condition_def Let_def split: option.splits)

lemma callback_status_get:
  assumes "condition_laws api"
  shows "get_condition api ''LastAsyncOperation'' (callback_status api ac op err tr) =
      (case err of
         None \<Rightarrow> Some (last_async_operation_condition None)
       | Some e \<Rightarrow> if classified e then Some (last_async_operation_condition err)
                   else get_condition api ''LastAsyncOperation'' tr)"
    and "map_option cond_status (get_condition api ''Synced'' (callback_status api ac op err tr)) =
      Some (if err = None then ''True'' else ''False'')"
    and "get_condition api ''AsyncOperation'' (callback_status api ac op err tr) =
      (if enable_status_updates ac then Some async_operation_finished_condition
       else get_condition api ''AsyncOperation'' tr)"
  using assms last_async_type [of err]
  by (auto simp: condition_laws_def callback_status_def Let_def async_operation_finished_condition_def
      split: option.splits if_splits)

text \<open>
  What a callback writes: whenever the object could be read, the status it sends has \<open>Synced\<close>
  true exactly when the operation succeeded, \<open>AsyncOperation\<close> finished if status updates are
  enabled, and \<open>LastAsyncOperation\<close> successful after a success and failed after every error of an
  asynchronous operation; only an error of another type leaves \<open>LastAsyncOperation\<close> as it was.
\<close>

lemma callback_reports:
  assumes "condition_laws api"
    and "callback_fn api ops gvk ac nn op request (Inr tr) update_err err e = (res, written, e')"
  shows "\<exists>st. written = Some st \<and>
    map_option cond_status (get_condition api ''Synced'' st) = Some (if err = None then ''True'' else ''False'') \<and>
    (enable_status_updates ac \<longrightarrow> get_condition api ''AsyncOperation'' st = Some async_operation_finished_condition) \<and>
    (err = None \<longrightarrow> map_option cond_status (get_condition api ''LastAsyncOperation'' st) = Some ''True'') \<and>
    (\<forall>x. err = Some x \<longrightarrow>
       (if classified x then map_option cond_status (get_condition api ''LastAsyncOperation'' st) = Some ''False''
        else get_condition api ''LastAsyncOperation'' st = get_condition api ''LastAsyncOperation'' tr))"
proof -
  have "written = Some (callback_status api ac op err tr)"
    using assms(2) by (auto simp: callback_fn_def Let_def split: if_splits prod.splits)
  then show ?thesis
    using callback_status_get [OF assms(1), of ac op err tr] last_async_status [of err]
    by (auto split: option.splits)
qed

text \<open>
  A finished operation always leads to one more reconcile: with an event handler that has a
  queue, the callback adds the object to it exactly once, at once and with its failure count reset
  after a success, rate limited and with its failure count increased after an error; the callback
  then returns the error of the status update and nothing else.
\<close>

lemma callback_requeues:
  assumes "limiter_laws ops" and "eh_wf e" and "eh_queue e = Some w" and "has_event_handler ac"
    and "callback_fn api ops gvk ac nn op True (Inr tr) update_err err e = (res, written, e')"
  shows "(\<exists>d. queue_log e' w = queue_log e w @ [(nn, d)] \<and> (err = None \<longrightarrow> d = 0)) \<and>
    (res = None \<longleftrightarrow> update_err = None) \<and>
    (err = None \<longrightarrow> limiter_map e rate_limiter_callback \<noteq> None \<longrightarrow> counted ops rate_limiter_callback nn e' = 0) \<and>
    (err \<noteq> None \<longrightarrow> counted ops rate_limiter_callback nn e' = Suc (counted ops rate_limiter_callback nn e))"
proof (cases err)
  case None
  have "request_reconcile ops '''' nn None (eh_forget ops rate_limiter_callback nn e)
      = (True, add_after w nn 0 (eh_forget ops rate_limiter_callback nn e))"
    using assms(3) by (simp add: request_reconcile_def eh_forget_def split: option.splits)
  moreover have "lim_requeues ops nn (lim_forget ops nn l) = 0" for l
    using assms(1) unfolding limiter_laws_def by blast
  ultimately show ?thesis
    using assms(4,5) None
    by (auto simp: callback_fn_def Let_def wrap_err_def add_after_def eh_forget_def counted_def split: option.splits)
next
  case (Some x)
  obtain a f where nl: "named_limiter ops rate_limiter_callback e = (a, f)" by fastforce
  note nlc = named_limiter_counted [OF assms(2,1) nl]
  obtain d l where wh: "lim_when ops nn (eh_lims f a) = (d, l)" by fastforce
  have log: "queue_log f = queue_log e"
    using nl by (auto simp: named_limiter_def split: option.splits)
  have "request_reconcile ops rate_limiter_callback nn None e
      = (True, add_after w nn d (f\<lparr>eh_lims := (eh_lims f)(a := l)\<rparr>))"
    using assms(3) nl wh by (simp add: request_reconcile_def rate_limiter_callback_def)
  then show ?thesis
    using assms(4,5) Some log nlc(3) when_counted(2) [OF assms(1) wh nlc(2)]
    by (auto simp: callback_fn_def Let_def wrap_err_def add_after_def)
qed

end
