(* ===== verification/AsyncExternal.thy ===== *)
theory AsyncExternal
  imports AsyncCallbacks Operation
begin

text \<open>
  The asynchronous no-fork clients (\<open>pkg/controller/external_async_tfpluginsdk.go\<close> and
  \<open>pkg/controller/external_async_tfpluginfw.go\<close>): one reconciler per resource and the goroutines it
  starts, over the \<open>LastOperation\<close> record of the resource's tracker. The two clients run the same
  goroutine; the Framework client's \<open>Observe\<close> first tries to recover an external name. Every access
  to the record is a step of its own. What the wrapped synchronous client does is an input of the
  step that ends its call; the calls' begins and ends are logged as events.
\<close>

datatype work_result = Returned "gerror option" | Panicked string

datatype go_phase =
    AForked async_operation
  | AWorking async_operation
  | AReturned async_operation "gerror option"
  | ARead async_operation "gerror option" "gerror option"
  | ASet async_operation "gerror option" "gerror option"
  | AEnded async_operation "gerror option" "gerror option"

datatype ext_event = BeginObserve | EndObserve | BeginWork async_operation | EndWork async_operation

datatype reconciler_pc =
  Idle | ObsChecked | ObsCleared | Observing | Starting async_operation | Returning async_operation

record async_client =
  ax_op :: operation
  ax_tasks :: "go_phase list"
  ax_pc :: reconciler_pc
  ax_events :: "ext_event list"
  ax_callbacks :: "(async_operation \<times> bool \<times> gerror option) list"

definition new_async_client :: async_client where
  "new_async_client = \<lparr>ax_op = new_operation, ax_tasks = [], ax_pc = Idle, ax_events = [], ax_callbacks = []\<rparr>"

fun op_name :: "async_operation \<Rightarrow> string" where
  "op_name OpCreate = ''create''"
| "op_name OpUpdate = ''update''"
| "op_name OpDestroy = ''delete''"

fun async_failed :: "async_operation \<Rightarrow> gerror option \<Rightarrow> gerror option" where
  "async_failed OpCreate e = new_async_create_failed e"
| "async_failed OpUpdate e = new_async_update_failed e"
| "async_failed OpDestroy e = new_async_delete_failed e"

section \<open>The goroutine\<close>

text \<open>\<open>recoverIfPanic\<close> turns a panic of the synchronous call into its error.\<close>

fun recover_if_panic :: "work_result \<Rightarrow> gerror option" where
  "recover_if_panic (Returned e) = e"
| "recover_if_panic (Panicked r) = Some (Plain (''recovered from panic: '' @ r))"

text \<open>
  The synchronous call, then the deferred finishing operations: read the cached error, store the new
  one, end the operation, call back.
\<close>

fun go_step :: "time \<Rightarrow> work_result \<Rightarrow> go_phase \<Rightarrow> async_client \<Rightarrow> go_phase option \<times> async_client" where
  "go_step now out (AForked k) c = (Some (AWorking k), c\<lparr>ax_events := ax_events c @ [BeginWork k]\<rparr>)"
| "go_step now out (AWorking k) c =
     (Some (AReturned k (recover_if_panic out)), c\<lparr>ax_events := ax_events c @ [EndWork k]\<rparr>)"
| "go_step now out (AReturned k e) c = (Some (ARead k e (get_error (ax_op c))), c)"
| "go_step now out (ARead k e cur) c =
     (let err = async_failed k e in (Some (ASet k err cur), c\<lparr>ax_op := set_error err (ax_op c)\<rparr>))"
| "go_step now out (ASet k err cur) c = (Some (AEnded k err cur), c\<lparr>ax_op := mark_end now (ax_op c)\<rparr>)"
| "go_step now out (AEnded k err cur) c =
     (None, c\<lparr>ax_callbacks := ax_callbacks c @ [(k, err = None \<or> cur = None, err)]\<rparr>)"

section \<open>The reconciler\<close>

text \<open>What the synchronous \<open>Observe\<close> returned.\<close>

record observed =
  obs_err :: "gerror option"
  obs_exists :: bool
  obs_up_to_date :: bool

text \<open>\<open>Observe\<close>: \<open>None\<close> when it returns at once because an operation is running.\<close>

definition observe_check :: "async_client \<Rightarrow> async_client option" where
  "observe_check c = (if is_running (ax_op c) then None else Some (c\<lparr>ax_pc := ObsChecked\<rparr>))"

definition fw_observe_recover :: "bool \<Rightarrow> async_client \<Rightarrow> async_client option" where
  "fw_observe_recover recovered c =
     (if get_error (ax_op c) \<noteq> None \<and> is_ended (ax_op c) \<and> op_type (ax_op c) = ''create'' \<and> recovered
      then Some (c\<lparr>ax_op := clear_op True (ax_op c), ax_pc := Idle\<rparr>) else None)"

definition observe_clear :: "async_client \<Rightarrow> async_client" where
  "observe_clear c = c\<lparr>ax_op := clear_op True (ax_op c), ax_pc := ObsCleared\<rparr>"

definition observe_begin :: "async_client \<Rightarrow> async_client" where
  "observe_begin c = c\<lparr>ax_pc := Observing, ax_events := ax_events c @ [BeginObserve]\<rparr>"

definition observe_end :: "bool \<Rightarrow> observed \<Rightarrow> async_client \<Rightarrow> async_client" where
  "observe_end deleted o1 c =
     (let c = c\<lparr>ax_pc := Idle, ax_events := ax_events c @ [EndObserve]\<rparr> in
      if obs_err o1 = None \<and> obs_exists o1 \<and> obs_up_to_date o1 \<and> \<not> deleted
      then c\<lparr>ax_op := clear_op False (ax_op c)\<rparr> else c)"

text \<open>\<open>Observe\<close> of either client, undisturbed; the first component is set when it reports a running operation.\<close>

definition sdk_async_observe :: "bool \<Rightarrow> observed \<Rightarrow> async_client \<Rightarrow> bool \<times> async_client" where
  "sdk_async_observe deleted o1 c =
     (case observe_check c of
        None \<Rightarrow> (True, c)
      | Some c \<Rightarrow> (False, observe_end deleted o1 (observe_begin (observe_clear c))))"

definition fw_async_observe :: "bool \<Rightarrow> bool \<Rightarrow> observed \<Rightarrow> async_client \<Rightarrow> bool \<times> async_client" where
  "fw_async_observe recovered deleted o1 c =
     (case observe_check c of
        None \<Rightarrow> (True, c)
      | Some c \<Rightarrow>
          (case fw_observe_recover recovered c of
             Some d \<Rightarrow> (False, d)
           | None \<Rightarrow> (False, observe_end deleted o1 (observe_begin (observe_clear c)))))"

text \<open>\<open>Create\<close>, \<open>Update\<close> and \<open>Delete\<close> up to the grant of \<open>MarkStart\<close>, the \<open>go\<close> statement, and the return.\<close>

definition start_request :: "async_operation \<Rightarrow> time \<Rightarrow> async_client \<Rightarrow> async_client" where
  "start_request k now c =
     (if k = OpDestroy \<and> op_type (ax_op c) = ''delete'' then c
      else
        let (ok, o1) = mark_start (op_name k) now (ax_op c) in
        if ok then c\<lparr>ax_op := o1, ax_pc := Starting k\<rparr> else c)"

definition start_spawn :: "async_operation \<Rightarrow> async_client \<Rightarrow> async_client" where
  "start_spawn k c = c\<lparr>ax_tasks := AForked k # ax_tasks c, ax_pc := Returning k\<rparr>"

definition start_error :: "(time \<Rightarrow> string) \<Rightarrow> operation \<Rightarrow> gerror" where
  "start_error show_time o1 =
     Plain (op_type o1 @ '' operation that started at ''
       @ (case get_start_time o1 of None \<Rightarrow> '''' | Some t \<Rightarrow> show_time t) @ '' is still running'')"

definition async_call ::
  "(time \<Rightarrow> string) \<Rightarrow> async_operation \<Rightarrow> time \<Rightarrow> async_client \<Rightarrow> gerror option \<times> async_client" where
  "async_call show_time k now c =
     (if k = OpDestroy \<and> op_type (ax_op c) = ''delete'' then (None, c)
      else if ax_pc (start_request k now c) = Starting k then
        let d = start_spawn k (start_request k now c) in (get_error (ax_op d), d\<lparr>ax_pc := Idle\<rparr>)
      else (Some (start_error show_time (ax_op c)), c))"

definition sdk_async_create where "sdk_async_create show_time now c = async_call show_time OpCreate now c"
definition sdk_async_update where "sdk_async_update show_time now c = async_call show_time OpUpdate now c"
definition sdk_async_delete where "sdk_async_delete show_time now c = async_call show_time OpDestroy now c"
definition fw_async_create where "fw_async_create show_time now c = async_call show_time OpCreate now c"
definition fw_async_update where "fw_async_update show_time now c = async_call show_time OpUpdate now c"
definition fw_async_delete where "fw_async_delete show_time now c = async_call show_time OpDestroy now c"

section \<open>Executions\<close>

definition as_list :: "go_phase option \<Rightarrow> go_phase list" where
  "as_list q = (case q of None \<Rightarrow> [] | Some p \<Rightarrow> [p])"

text \<open>\<open>fw\<close> selects the Framework client.\<close>

inductive ax_step :: "bool \<Rightarrow> async_client \<Rightarrow> async_client \<Rightarrow> bool" for fw where
  check: "ax_pc c = Idle \<Longrightarrow> observe_check c = Some d \<Longrightarrow> ax_step fw c d"
| recover: "fw \<Longrightarrow> ax_pc c = ObsChecked \<Longrightarrow> fw_observe_recover r c = Some d \<Longrightarrow> ax_step fw c d"
| clear: "ax_pc c = ObsChecked \<Longrightarrow> ax_step fw c (observe_clear c)"
| begin_call: "ax_pc c = ObsCleared \<Longrightarrow> ax_step fw c (observe_begin c)"
| end_call: "ax_pc c = Observing \<Longrightarrow> ax_step fw c (observe_end deleted o1 c)"
| request: "ax_pc c = Idle \<Longrightarrow> ax_step fw c (start_request k now c)"
| spawn: "ax_pc c = Starting k \<Longrightarrow> ax_step fw c (start_spawn k c)"
| return_call: "ax_pc c = Returning k \<Longrightarrow> ax_step fw c (c\<lparr>ax_pc := Idle\<rparr>)"
| goroutine: "ax_tasks c = xs @ p # ys \<Longrightarrow> go_step now out p c = (q, d) \<Longrightarrow>
     ax_step fw c (d\<lparr>ax_tasks := xs @ as_list q @ ys\<rparr>)"

inductive ax_reach :: "bool \<Rightarrow> async_client \<Rightarrow> bool" for fw where
  created: "ax_reach fw new_async_client"
| stepped: "ax_reach fw c \<Longrightarrow> ax_step fw c d \<Longrightarrow> ax_reach fw d"

fun unfinished :: "go_phase \<Rightarrow> bool" where
  "unfinished (AEnded k err cur) = False"
| "unfinished p = True"

definition holders :: "async_client \<Rightarrow> nat" where
  "holders c = length (filter unfinished (ax_tasks c)) + (case ax_pc c of Starting k \<Rightarrow> 1 | _ \<Rightarrow> 0)"

definition observing :: "reconciler_pc \<Rightarrow> bool" where
  "observing p \<longleftrightarrow> p \<in> {ObsChecked, ObsCleared, Observing}"

text \<open>
  The record says running exactly while one goroutine is before \<open>MarkEnd\<close> or about to be started,
  and never while the reconciler observes.
\<close>

definition ax_inv :: "async_client \<Rightarrow> bool" where
  "ax_inv c \<longleftrightarrow> holders c = (if is_running (ax_op c) then 1 else 0) \<and> (observing (ax_pc c) \<longrightarrow> \<not> is_running (ax_op c))"

lemma start_request_cases:
  "start_request k now c = c \<or>
   (\<exists>o1. \<not> is_running (ax_op c) \<and> is_running o1 \<and> start_request k now c = c\<lparr>ax_op := o1, ax_pc := Starting k\<rparr>)"
  using tfop.granted_not_running [of "op_name k" now "ax_op c"]
  by (auto simp: start_request_def Let_def split: prod.splits)

lemma go_step_frame:
  "go_step now out p c = (q, d) \<Longrightarrow> ax_pc d = ax_pc c \<and> ax_tasks d = ax_tasks c \<and>
     is_running (ax_op d) = (is_running (ax_op c) \<and> (case p of ASet _ _ _ \<Rightarrow> False | _ \<Rightarrow> True)) \<and>
     length (filter unfinished (as_list q)) = (if unfinished p then (case p of ASet _ _ _ \<Rightarrow> 0 | _ \<Rightarrow> 1) else 0)"
  by (cases p) (auto simp: as_list_def Let_def tfop.finish_stops tfop.record_error_frame)

lemma ax_step_inv: "ax_step fw c d \<Longrightarrow> ax_inv c \<Longrightarrow> ax_inv d"
proof (induction rule: ax_step.induct)
  case (request c k now)
  then show ?case using start_request_cases [of k now c]
    by (auto simp: ax_inv_def holders_def observing_def split: if_splits)
next
  case (goroutine c xs p ys now out q d)
  have pc: "ax_pc d = ax_pc c" "is_running (ax_op d) \<Longrightarrow> is_running (ax_op c)"
    using go_step_frame [OF goroutine.hyps(2)] by simp_all
  have "holders (d\<lparr>ax_tasks := xs @ as_list q @ ys\<rparr>) = (if is_running (ax_op d) then 1 else 0)"
    using go_step_frame [OF goroutine.hyps(2)] goroutine.hyps(1) goroutine.prems
    by (cases p) (auto simp: ax_inv_def holders_def split: if_splits)
  then show ?case using pc goroutine.prems by (auto simp: ax_inv_def)
qed (auto simp: ax_inv_def holders_def observing_def observe_check_def fw_observe_recover_def observe_clear_def
      observe_begin_def observe_end_def start_spawn_def tfop.clear_stops Let_def split: if_splits)

lemma ax_reach_inv: "ax_reach fw c \<Longrightarrow> ax_inv c"
proof (induction rule: ax_reach.induct)
  case created
  show ?case by (simp add: ax_inv_def holders_def new_async_client_def is_running_def new_operation_def observing_def)
qed (rule ax_step_inv)

text \<open>A call of the synchronous client is in progress.\<close>

fun working :: "go_phase \<Rightarrow> bool" where
  "working (AWorking k) = True"
| "working p = False"

text \<open>
  C7. No two calls of the synchronous client overlap, for either client and every interleaving of the
  reconciler with its goroutines: while a goroutine works, it is the only unfinished one, the
  reconciler is not observing, and every further \<open>Create\<close>, \<open>Update\<close> or \<open>Delete\<close> is turned away
  without a new goroutine.
\<close>

theorem external_calls_never_overlap:
  assumes "ax_reach fw c" and "AWorking k \<in> set (ax_tasks c)"
  shows "filter unfinished (ax_tasks c) = [AWorking k] \<and> ax_pc c \<noteq> Observing \<and>
    observe_check c = None \<and> (\<forall>j. ax_pc c \<noteq> Starting j) \<and> start_request j now c = c"
proof -
  have inv: "ax_inv c" by (rule ax_reach_inv [OF assms(1)])
  have m: "AWorking k \<in> set (filter unfinished (ax_tasks c))" using assms(2) by simp
  then have "0 < length (filter unfinished (ax_tasks c))" by (rule length_pos_if_in_set)
  then have run: "is_running (ax_op c)" and len: "length (filter unfinished (ax_tasks c)) = 1"
    and pc: "\<forall>j. ax_pc c \<noteq> Starting j" "\<not> observing (ax_pc c)"
    using inv unfolding ax_inv_def holders_def by (auto split: if_splits reconciler_pc.splits)
  obtain y where "filter unfinished (ax_tasks c) = [y]" using len by (auto simp: length_Suc_conv)
  with m have "filter unfinished (ax_tasks c) = [AWorking k]" by (metis empty_iff list.set(1) set_ConsD)
  then show ?thesis
    using run pc by (auto simp: observing_def observe_check_def start_request_def tfop.start_refused)
qed

theorem external_calls_never_overlap_witness:
  "let c = new_async_client\<lparr>ax_op := snd (mark_start ''create'' 1 new_operation), ax_pc := Returning OpCreate,
      ax_tasks := [AWorking OpCreate], ax_events := [BeginWork OpCreate]\<rparr> in
   observe_check c = None"
proof -
  let ?c1 = "start_request OpCreate 1 new_async_client"
  let ?c2 = "start_spawn OpCreate ?c1"
  obtain q d where g: "go_step 2 (Returned None) (AForked OpCreate) ?c2 = (q, d)" by fastforce
  have "ax_reach False ?c2"
    by (rule ax_reach.stepped [OF ax_reach.stepped [OF ax_reach.created request] spawn])
      (simp_all add: new_async_client_def start_request_def mark_start_def new_operation_def)
  moreover have "ax_tasks ?c2 = [] @ AForked OpCreate # []"
    by (simp add: start_spawn_def new_async_client_def start_request_def mark_start_def new_operation_def)
  ultimately have r: "ax_reach False (d\<lparr>ax_tasks := [] @ as_list q @ []\<rparr>)"
    using g by (blast intro: ax_reach.stepped goroutine)
  have d: "d\<lparr>ax_tasks := [] @ as_list q @ []\<rparr> = new_async_client\<lparr>ax_op := snd (mark_start ''create'' 1 new_operation),
      ax_pc := Returning OpCreate, ax_tasks := [AWorking OpCreate], ax_events := [BeginWork OpCreate]\<rparr>"
    using g by (auto simp: start_spawn_def new_async_client_def start_request_def mark_start_def new_operation_def as_list_def)
  from external_calls_never_overlap [OF r, of OpCreate] show ?thesis unfolding d by simp
qed

text \<open>A goroutine run to its end.\<close>

fun run_task :: "nat \<Rightarrow> time \<Rightarrow> work_result \<Rightarrow> go_phase option \<Rightarrow> async_client \<Rightarrow> async_client" where
  "run_task n now out None c = c"
| "run_task 0 now out (Some p) c = c"
| "run_task (Suc n) now out (Some p) c = (let (q, d) = go_step now out p c in run_task n now out q d)"

text \<open>
  C9. Every asynchronous operation is concluded and reported: whatever the synchronous call returns,
  a panic included, six steps of the goroutine end the operation, store its classified error, and
  make exactly one callback with that error, which requests a reconcile on a success and on the
  first failure. The error survives the next \<open>Observe\<close> unless that finds the resource up to date,
  and is what the next \<open>Create\<close>, \<open>Update\<close> or \<open>Delete\<close> returns to the managed reconciler.
\<close>

theorem async_result_reported:
  assumes "ax_op c = o1" and "is_running o1" and "run_task 6 now out (Some (AForked k)) c = d"
  shows "\<not> is_running (ax_op d) \<and> get_error (ax_op d) = async_failed k (recover_if_panic out) \<and>
    ax_callbacks d = ax_callbacks c @
      [(k, recover_if_panic out = None \<or> get_error o1 = None, async_failed k (recover_if_panic out))] \<and>
    (\<forall>deleted ob e. snd (sdk_async_observe deleted ob d) = e \<and>
       \<not> (obs_err ob = None \<and> obs_exists ob \<and> obs_up_to_date ob \<and> \<not> deleted) \<longrightarrow>
       get_error (ax_op e) = get_error (ax_op d) \<and>
       fst (async_call show_time j later e) = get_error (ax_op d))"
proof -
  have none: "async_failed k e = None \<longleftrightarrow> e = None" for e by (cases k; cases e) auto
  have six: "(6::nat) = Suc (Suc (Suc (Suc (Suc (Suc 0)))))" by simp
  have dop: "ax_op d = mark_end now (set_error (async_failed k (recover_if_panic out)) o1)"
    and dcb: "ax_callbacks d = ax_callbacks c @
      [(k, recover_if_panic out = None \<or> get_error o1 = None, async_failed k (recover_if_panic out))]"
    unfolding assms(3) [symmetric] six run_task.simps go_step.simps Let_def prod.case by (simp_all add: assms(1) none)
  have nr: "\<not> is_running (ax_op d)" and ge: "get_error (ax_op d) = async_failed k (recover_if_panic out)"
    unfolding dop by (rule tfop.finish_stops) (simp add: get_error_def mark_end_def set_error_def)
  have "get_error (ax_op e) = get_error (ax_op d) \<and> fst (async_call show_time j later e) = get_error (ax_op d)"
    if "snd (sdk_async_observe deleted ob d) = e"
      and "\<not> (obs_err ob = None \<and> obs_exists ob \<and> obs_up_to_date ob \<and> \<not> deleted)" for deleted ob e
  proof -
    have "ax_op e = clear_op True (ax_op d)"
      using that nr by (auto simp: sdk_async_observe_def observe_check_def observe_end_def observe_begin_def
          observe_clear_def Let_def)
    then show ?thesis
      by (simp add: async_call_def start_request_def start_spawn_def mark_start_def clear_op_def get_error_def Let_def)
  qed
  with nr ge dcb show ?thesis by blast
qed

theorem async_result_reported_witness:
  "get_error (ax_op (run_task 6 5 (Panicked ''nil map'') (Some (AForked OpUpdate))
     (new_async_client\<lparr>ax_op := snd (mark_start ''update'' 3 new_operation)\<rparr>)))
   = Some (AsyncUpdateFailed (WithMsg ''async update failed'' (Plain ''recovered from panic: nil map'')))"
proof -
  have "is_running (snd (mark_start ''update'' 3 new_operation))"
    by (simp add: mark_start_def new_operation_def is_running_def)
  from async_result_reported [where k = OpUpdate and out = "Panicked ''nil map''", OF _ this refl,
      THEN conjunct2, THEN conjunct1, of "new_async_client\<lparr>ax_op := snd (mark_start ''update'' 3 new_operation)\<rparr>" 5]
  show ?thesis by simp
qed

end
