(* ===== verification/Workspace.thy ===== *)
theory Workspace
  imports Operation
begin

text \<open>
  The Terraform workspace of a resource (\<open>pkg/terraform/workspace.go\<close>): blocking and asynchronous
  CLI operations over one \<open>Operation\<close> record. The CLI, the file system of the working directory and
  the JSON decoders are the parameter \<open>tf_world\<close>; \<open>'fs\<close> is the contents of the directory. An
  in-use counter of the provider scheduler is an address with a count. A goroutine of \<open>ApplyAsync\<close>
  or \<open>DestroyAsync\<close> is a task with a phase; CLI runs are serialised by the workspace's mutex, so
  one run is one step. Metrics and debug logs are left out.
\<close>

record ('fs, 'st, 'n) tf_world =
  run_cli :: "string list \<Rightarrow> string list \<Rightarrow> 'fs \<Rightarrow> (string \<times> gerror option) \<times> 'fs"
  read_tfstate :: "'fs \<Rightarrow> gerror + string"
  remove_tfstate :: "'fs \<Rightarrow> gerror option \<times> bool \<times> 'fs"
  unmarshal_state :: "string \<Rightarrow> gerror + 'st"
  has_attributes :: "'st \<Rightarrow> bool"
  unmarshal_plan :: "string \<Rightarrow> gerror + 'n \<times> 'n"
  decode_log :: log_decoder
  filter_output :: "string \<Rightarrow> string"
  show_time :: "time \<Rightarrow> string"

datatype exec_mode = ModeSync | ModeASync

datatype async_kind = AsyncApply | AsyncDestroy

text \<open>
  A goroutine before \<open>runTF\<close>, between \<open>runTF\<close> and \<open>MarkEnd\<close> with the output and the error, and
  before its callback with the callback's argument.
\<close>

datatype task_phase =
  Spawned async_kind | Ran async_kind string "gerror option" | Ended async_kind "gerror option"

record 'fs workspace =
  ws_op :: operation
  ws_env :: "string list"
  ws_in_use :: nat
  use_count :: "nat \<Rightarrow> int"
  terraform_id :: string
  ws_handle :: string
  ws_fs :: 'fs
  cli_log :: "string list list"
  ws_tasks :: "task_phase list"
  called_back :: "(async_kind \<times> gerror option) list"

definition new_workspace :: "nat \<Rightarrow> string \<Rightarrow> 'fs \<Rightarrow> 'fs workspace" where
  "new_workspace ref tid fs =
     \<lparr>ws_op = new_operation, ws_env = [], ws_in_use = ref, use_count = (\<lambda>_. 0), terraform_id = tid, ws_handle = '''',
      ws_fs = fs, cli_log = [], ws_tasks = [], called_back = []\<rparr>"

definition use_provider :: "nat \<Rightarrow> string \<Rightarrow> 'fs workspace \<Rightarrow> 'fs workspace" where
  "use_provider ref cfg w =
     (let prefix = ''TF_REATTACH_PROVIDERS='' in
      w\<lparr>ws_env := filter (\<lambda>e. \<not> has_prefix e prefix) (ws_env w) @ [prefix @ cfg], ws_in_use := ref\<rparr>)"

definition count_use :: "int \<Rightarrow> 'fs workspace \<Rightarrow> 'fs workspace" where
  "count_use d w = w\<lparr>use_count := (use_count w)(ws_in_use w := use_count w (ws_in_use w) + d)\<rparr>"

definition run_tf ::
  "('fs, 'st, 'n) tf_world \<Rightarrow> exec_mode \<Rightarrow> string list \<Rightarrow> 'fs workspace \<Rightarrow> (string \<times> gerror option) \<times> 'fs workspace" where
  "run_tf env mode args w =
     (if args = [] then (('''', Some (Plain ''args cannot be empty'')), w)
      else
        let w = (if mode = ModeSync then count_use 1 w else w);
            (res, fs) = run_cli env (''terraform'' # args) (ws_env w) (ws_fs w) in
        (res, count_use (- 1) (w\<lparr>ws_fs := fs, cli_log := cli_log w @ [args]\<rparr>)))"

definition apply_args :: "string list" where
  "apply_args = [''apply'', ''-auto-approve'', ''-input=false'', ''-lock=false'', ''-json'']"

definition destroy_args :: "string list" where
  "destroy_args = [''destroy'', ''-auto-approve'', ''-input=false'', ''-lock=false'', ''-json'']"

definition refresh_args :: "string list" where
  "refresh_args = [''apply'', ''-refresh-only'', ''-auto-approve'', ''-input=false'', ''-lock=false'', ''-json'']"

definition plan_args :: "string list" where
  "plan_args = [''plan'', ''-refresh=false'', ''-input=false'', ''-lock=false'', ''-json'']"

text \<open>The error of a refused operation; it dereferences the start time of the running one.\<close>

definition still_running :: "('fs, 'st, 'n) tf_world \<Rightarrow> operation \<Rightarrow> gerror" where
  "still_running env o1 =
     Plain (op_type o1 @ '' operation that started at ''
       @ (case get_start_time o1 of None \<Rightarrow> '''' | Some t \<Rightarrow> show_time env t) @ '' is still running'')"

section \<open>Asynchronous operations\<close>

definition apply_async :: "('fs, 'st, 'n) tf_world \<Rightarrow> time \<Rightarrow> 'fs workspace \<Rightarrow> gerror option \<times> 'fs workspace" where
  "apply_async env now w =
     (let (ok, o1) = mark_start ''apply'' now (ws_op w) in
      if \<not> ok then (Some (still_running env o1), w)
      else (None, count_use 1 (w\<lparr>ws_op := o1, ws_tasks := Spawned AsyncApply # ws_tasks w\<rparr>)))"

definition destroy_async :: "('fs, 'st, 'n) tf_world \<Rightarrow> time \<Rightarrow> 'fs workspace \<Rightarrow> gerror option \<times> 'fs workspace" where
  "destroy_async env now w =
     (if op_type (ws_op w) = ''destroy'' then (None, w)
      else
        let (ok, o1) = mark_start ''destroy'' now (ws_op w) in
        if \<not> ok then (Some (still_running env o1), w)
        else (None, count_use 1 (w\<lparr>ws_op := o1, ws_tasks := Spawned AsyncDestroy # ws_tasks w\<rparr>)))"

text \<open>The goroutine: \<open>runTF\<close>, then the error and \<open>MarkEnd\<close>, then the callback.\<close>

fun task_step :: "('fs, 'st, 'n) tf_world \<Rightarrow> time \<Rightarrow> task_phase \<Rightarrow> 'fs workspace \<Rightarrow> task_phase option \<times> 'fs workspace" where
  "task_step env now (Spawned k) w =
     (let ((out, err), w) = run_tf env ModeASync (case k of AsyncApply \<Rightarrow> apply_args | AsyncDestroy \<Rightarrow> destroy_args) w in
      (Some (Ran k out err), w))"
| "task_step env now (Ran k out err) w =
     (Some (Ended k (case err of
         None \<Rightarrow> None
       | Some _ \<Rightarrow> Some (case k of AsyncApply \<Rightarrow> new_apply_failed (decode_log env) out
                                | AsyncDestroy \<Rightarrow> new_destroy_failed (decode_log env) out))),
      w\<lparr>ws_op := mark_end now (ws_op w)\<rparr>)"
| "task_step env now (Ended k err) w = (None, w\<lparr>called_back := called_back w @ [(k, err)]\<rparr>)"

section \<open>Blocking operations\<close>

definition load_state :: "('fs, 'st, 'n) tf_world \<Rightarrow> 'fs \<Rightarrow> gerror + 'st" where
  "load_state env fs =
     (case read_tfstate env fs of
        Inl e \<Rightarrow> Inl (WithMsg ''cannot read terraform state file'' e)
      | Inr raw \<Rightarrow>
          (case unmarshal_state env raw of
             Inl e \<Rightarrow> Inl (WithMsg ''cannot unmarshal tfstate file'' e)
           | Inr st \<Rightarrow> Inr st))"

definition apply_sync :: "('fs, 'st, 'n) tf_world \<Rightarrow> 'fs workspace \<Rightarrow> (gerror + 'st) \<times> 'fs workspace" where
  "apply_sync env w =
     (if is_running (ws_op w) then (Inl (still_running env (ws_op w)), w)
      else
        let ((out, err), w) = run_tf env ModeSync apply_args w in
        case err of
          Some _ \<Rightarrow> (Inl (new_apply_failed (decode_log env) out), w)
        | None \<Rightarrow> (load_state env (ws_fs w), w))"

definition destroy_sync :: "('fs, 'st, 'n) tf_world \<Rightarrow> 'fs workspace \<Rightarrow> gerror option \<times> 'fs workspace" where
  "destroy_sync env w =
     (if is_running (ws_op w) then (Some (still_running env (ws_op w)), w)
      else
        let ((out, err), w) = run_tf env ModeSync destroy_args w in
        (map_option (\<lambda>_. new_destroy_failed (decode_log env) out) err, w))"

record 'st refresh_result =
  res_exists :: bool
  in_progress :: bool
  res_state :: "'st option"

definition state_result :: "('fs, 'st, 'n) tf_world \<Rightarrow> gerror + 'st \<Rightarrow> gerror + 'st refresh_result" where
  "state_result env r =
     (case r of
        Inl e \<Rightarrow> Inl e
      | Inr st \<Rightarrow> Inr \<lparr>res_exists = has_attributes env st, in_progress = False, res_state = Some st\<rparr>)"

definition running_result :: "operation \<Rightarrow> 'st refresh_result" where
  "running_result o1 =
     \<lparr>res_exists = False, in_progress = op_type o1 = ''apply'' \<or> op_type o1 = ''destroy'', res_state = None\<rparr>"

text \<open>The deferred \<open>Flush\<close> of an ended operation.\<close>

definition flush_ended :: "bool \<Rightarrow> 'fs workspace \<Rightarrow> 'fs workspace" where
  "flush_ended ended w = (if ended then w\<lparr>ws_op := flush_op (ws_op w)\<rparr> else w)"

definition refresh ::
  "('fs, 'st, 'n) tf_world \<Rightarrow> 'fs workspace \<Rightarrow> (gerror + 'st refresh_result) \<times> 'fs workspace" where
  "refresh env w =
     (if is_running (ws_op w) then (Inr (running_result (ws_op w)), w)
      else
        let ended = is_ended (ws_op w);
            ((out, err), w) = run_tf env ModeSync refresh_args w in
        (case err of
           Some _ \<Rightarrow> Inl (new_refresh_failed (decode_log env) out)
         | None \<Rightarrow> state_result env (load_state env (ws_fs w)),
         flush_ended ended w))"

record plan_result =
  plan_exists :: bool
  plan_up_to_date :: bool

definition change_summary_mark :: string where
  "change_summary_mark =
     [CHR 0x22] @ ''type'' @ [CHR 0x22] @ '':'' @ [CHR 0x22] @ ''change_summary'' @ [CHR 0x22]"

fun change_summary :: "string list \<Rightarrow> string" where
  "change_summary [] = ''''"
| "change_summary (l # ls) = (if contains_sub l change_summary_mark then l else change_summary ls)"

definition plan :: "('fs, 'st, 'n::zero) tf_world \<Rightarrow> 'fs workspace \<Rightarrow> (gerror + plan_result) \<times> 'fs workspace" where
  "plan env w =
     (if is_running (ws_op w) then (Inl (still_running env (ws_op w)), w)
      else
        let ((out, err), w) = run_tf env ModeSync plan_args w in
        (case err of
           Some _ \<Rightarrow> Inl (new_plan_failed (decode_log env) out)
         | None \<Rightarrow>
             let line = change_summary (split_on (CHR 0x0A) out) in
             if line = '''' then Inl (Plain (''cannot find the change summary line in plan log: '' @ out))
             else (case unmarshal_plan env line of
                     Inl e \<Rightarrow> Inl (WithMsg ''cannot unmarshal change summary json'' e)
                   | Inr (add, change) \<Rightarrow> Inr \<lparr>plan_exists = (add = 0), plan_up_to_date = (change = 0)\<rparr>), w))"

definition import_resource ::
  "('fs, 'st, 'n) tf_world \<Rightarrow> string \<Rightarrow> string \<Rightarrow> 'fs workspace \<Rightarrow> (gerror + 'st refresh_result) \<times> 'fs workspace" where
  "import_resource env rtype nm w =
     (if is_running (ws_op w) then (Inr (running_result (ws_op w)), w)
      else
        let ended = is_ended (ws_op w);
            absent = \<lparr>res_exists = False, in_progress = False, res_state = None\<rparr> in
        if terraform_id w = '''' then (Inr absent, flush_ended ended w)
        else
          let (rm, not_exist, fs) = remove_tfstate env (ws_fs w); w = w\<lparr>ws_fs := fs\<rparr> in
          if rm \<noteq> None \<and> \<not> not_exist
          then (Inl (WithMsg ''cannot remove terraform.tfstate file'' (the rm)), flush_ended ended w)
          else
            let ((out, err), w) =
                  run_tf env ModeSync [''import'', ''-input=false'', ''-lock=false'', rtype @ ''.'' @ nm, terraform_id w] w in
            (case err of
               Some _ \<Rightarrow>
                 if contains_sub out ''Cannot import non-existent remote object'' then Inr absent
                 else Inl (WithMsg (filter_output env out) (Plain ''import failed''))
             | None \<Rightarrow> state_result env (load_state env (ws_fs w)),
             flush_ended ended w))"

section \<open>Executions\<close>

text \<open>The reconciler's calls and the steps of the goroutines; \<open>UseProvider\<close> may come at any time.\<close>

definition put_task :: "task_phase option \<Rightarrow> task_phase list" where
  "put_task q = (case q of None \<Rightarrow> [] | Some p \<Rightarrow> [p])"

inductive ws_step :: "('fs, 'st, 'n::zero) tf_world \<Rightarrow> 'fs workspace \<Rightarrow> 'fs workspace \<Rightarrow> bool"
  for env :: "('fs, 'st, 'n::zero) tf_world" where
  do_apply_async: "ws_step env w (snd (apply_async env now w))"
| do_destroy_async: "ws_step env w (snd (destroy_async env now w))"
| do_apply: "ws_step env w (snd (apply_sync env w))"
| do_destroy: "ws_step env w (snd (destroy_sync env w))"
| do_refresh: "ws_step env w (snd (refresh env w))"
| do_plan: "ws_step env w (snd (plan env w))"
| do_import: "ws_step env w (snd (import_resource env rtype nm w))"
| do_task: "ws_tasks w = xs @ p # ys \<Longrightarrow> task_step env now p w = (q, w') \<Longrightarrow>
     ws_step env w (w'\<lparr>ws_tasks := xs @ put_task q @ ys\<rparr>)"

inductive ws_reach :: "('fs, 'st, 'n::zero) tf_world \<Rightarrow> 'fs workspace \<Rightarrow> bool"
  for env :: "('fs, 'st, 'n::zero) tf_world" where
  created: "ws_reach env (new_workspace ref tid fs)"
| stepped: "ws_reach env w \<Longrightarrow> ws_step env w w' \<Longrightarrow> ws_reach env w'"
| shared: "ws_reach env w \<Longrightarrow> ws_reach env (use_provider ref cfg w)"

fun active :: "task_phase \<Rightarrow> bool" where
  "active (Spawned _) = True"
| "active (Ran _ _ _) = True"
| "active (Ended _ _) = False"

text \<open>At most one goroutine is before its \<open>MarkEnd\<close>, and there is one exactly while the record says so.\<close>

definition ws_inv :: "'fs workspace \<Rightarrow> bool" where
  "ws_inv w \<longleftrightarrow> length (filter active (ws_tasks w)) = (if is_running (ws_op w) then 1 else 0)"

lemma run_tf_frame [simp]:
  "ws_op (snd (run_tf env mode args w)) = ws_op w" "ws_tasks (snd (run_tf env mode args w)) = ws_tasks w"
  "ws_in_use (snd (run_tf env mode args w)) = ws_in_use w"
  "terraform_id (snd (run_tf env mode args w)) = terraform_id w"
  by (simp_all add: run_tf_def count_use_def Let_def split: prod.splits)

lemma run_tf_use:
  "args \<noteq> [] \<Longrightarrow> use_count (snd (run_tf env mode args w)) = (use_count w)(ws_in_use w :=
     use_count w (ws_in_use w) - (if mode = ModeSync then 0 else 1))"
  by (simp add: run_tf_def count_use_def Let_def split: prod.splits)

lemma flush_ended_frame [simp]:
  "ws_tasks (flush_ended b w) = ws_tasks w" "use_count (flush_ended b w) = use_count w"
  "ws_in_use (flush_ended b w) = ws_in_use w" "cli_log (flush_ended b w) = cli_log w"
  by (simp_all add: flush_ended_def)

lemma flush_not_running [simp]: "\<not> is_running (flush_op o1)"
  by (simp add: flush_op_def tfop.clear_stops)

lemma flush_ended_running [simp]:
  "is_running (ws_op (flush_ended b w)) = (\<not> b \<and> is_running (ws_op w))"
  by (simp add: flush_ended_def)

lemmas args_defs = apply_args_def destroy_args_def refresh_args_def plan_args_def

text \<open>What a blocking operation does: nothing while an operation runs, else one run of the CLI at most.\<close>

definition quiet :: "'fs workspace \<Rightarrow> 'fs workspace \<Rightarrow> bool" where
  "quiet w w' \<longleftrightarrow> (is_running (ws_op w) \<longrightarrow> w' = w) \<and> (\<not> is_running (ws_op w) \<longrightarrow> \<not> is_running (ws_op w')) \<and>
     ws_tasks w' = ws_tasks w \<and> ws_in_use w' = ws_in_use w \<and> use_count w' = use_count w"

lemma run_tf_sync_use [simp]: "args \<noteq> [] \<Longrightarrow> use_count (snd (run_tf env ModeSync args w)) = use_count w"
  by (simp add: run_tf_use)

lemma quiet_sync:
  "quiet w (snd (apply_sync env w))" "quiet w (snd (destroy_sync env w))"
  "quiet w (snd (refresh env w))" "quiet w (snd (plan env w))"
  by (simp_all add: quiet_def apply_sync_def destroy_sync_def refresh_def plan_def Let_def split_beta args_defs
      split: option.splits)

lemma quiet_import: "quiet w (snd (import_resource env rtype nm w))"
  by (simp add: quiet_def import_resource_def Let_def split_beta)

lemma quiet_inv: "quiet w w' \<Longrightarrow> ws_inv w \<Longrightarrow> ws_inv w'"
  by (auto simp: quiet_def ws_inv_def split: if_splits)

lemma use_provider_frame [simp]:
  "ws_op (use_provider ref cfg w) = ws_op w" "ws_tasks (use_provider ref cfg w) = ws_tasks w"
  "use_count (use_provider ref cfg w) = use_count w" "ws_in_use (use_provider ref cfg w) = ref"
  by (simp_all add: use_provider_def Let_def)

lemma count_use_frame [simp]:
  "ws_op (count_use d w) = ws_op w" "ws_tasks (count_use d w) = ws_tasks w" "ws_in_use (count_use d w) = ws_in_use w"
  "use_count (count_use d w) = (use_count w)(ws_in_use w := use_count w (ws_in_use w) + d)"
  by (simp_all add: count_use_def)

text \<open>An asynchronous call either changes nothing or starts the only active goroutine.\<close>

lemma async_start:
  "snd (apply_async env now w) = w \<or> (\<not> is_running (ws_op w) \<and> is_running (ws_op (snd (apply_async env now w))) \<and>
     ws_tasks (snd (apply_async env now w)) = Spawned AsyncApply # ws_tasks w \<and>
     ws_in_use (snd (apply_async env now w)) = ws_in_use w \<and>
     use_count (snd (apply_async env now w)) = (use_count w)(ws_in_use w := use_count w (ws_in_use w) + 1))"
  "snd (destroy_async env now w) = w \<or> (\<not> is_running (ws_op w) \<and> is_running (ws_op (snd (destroy_async env now w))) \<and>
     ws_tasks (snd (destroy_async env now w)) = Spawned AsyncDestroy # ws_tasks w \<and>
     ws_in_use (snd (destroy_async env now w)) = ws_in_use w \<and>
     use_count (snd (destroy_async env now w)) = (use_count w)(ws_in_use w := use_count w (ws_in_use w) + 1))"
  using tfop.granted_not_running [of "''apply''" now "ws_op w"] tfop.granted_not_running [of "''destroy''" now "ws_op w"]
  by (auto simp: apply_async_def destroy_async_def Let_def split: prod.splits)

lemma task_step_frame:
  "task_step env now p w = (q, w') \<Longrightarrow> ws_tasks w' = ws_tasks w \<and> ws_in_use w' = ws_in_use w \<and>
     length (filter active (put_task q)) =
       (case p of Spawned _ \<Rightarrow> 1 | _ \<Rightarrow> 0) \<and>
     is_running (ws_op w') = (is_running (ws_op w) \<and> (case p of Ran _ _ _ \<Rightarrow> False | _ \<Rightarrow> True)) \<and>
     use_count w' = (case p of
        Spawned _ \<Rightarrow> (use_count w)(ws_in_use w := use_count w (ws_in_use w) - 1) | _ \<Rightarrow> use_count w)"
  using run_tf_frame [of env ModeASync] run_tf_use [of _ env ModeASync]
  by (cases p) (auto simp: put_task_def Let_def split_beta args_defs tfop.finish_stops split: async_kind.splits)

lemma ws_step_inv: "ws_step env w w' \<Longrightarrow> ws_inv w \<Longrightarrow> ws_inv w'"
proof (induction rule: ws_step.induct)
  case (do_apply_async w now)
  then show ?case using async_start(1) [of env now w] by (auto simp: ws_inv_def)
next
  case (do_destroy_async w now)
  then show ?case using async_start(2) [of env now w] by (auto simp: ws_inv_def)
next
  case (do_task w xs p ys now q w')
  then show ?case using task_step_frame [OF do_task.hyps(2)]
    by (cases p) (auto simp: ws_inv_def split: if_splits)
qed (auto intro: quiet_inv quiet_sync quiet_import)

lemma ws_reach_inv: "ws_reach env w \<Longrightarrow> ws_inv w"
proof (induction rule: ws_reach.induct)
  case (created ref tid fs)
  show ?case by (simp add: ws_inv_def new_workspace_def is_running_def new_operation_def)
next
  case (shared w ref cfg)
  then show ?case by (simp add: ws_inv_def)
qed (rule ws_step_inv)

section \<open>Properties\<close>

text \<open>
  C8. One operation at a time: in every reachable workspace in which some goroutine has not reached
  \<open>MarkEnd\<close>, it is the only one, every blocking operation returns without running the CLI or
  touching the workspace, and a further \<open>ApplyAsync\<close> is refused.
\<close>

theorem one_operation_at_a_time:
  assumes "ws_reach env w" and "p \<in> set (ws_tasks w)" and "active p"
  shows "filter active (ws_tasks w) = [p] \<and>
    snd (apply_sync env w) = w \<and> snd (destroy_sync env w) = w \<and> snd (refresh env w) = w \<and>
    snd (plan env w) = w \<and> snd (import_resource env rtype nm w) = w \<and>
    apply_async env now w = (Some (still_running env (ws_op w)), w) \<and> snd (destroy_async env now w) = w"
proof -
  have inv: "ws_inv w" by (rule ws_reach_inv [OF assms(1)])
  have p: "p \<in> set (filter active (ws_tasks w))" using assms(2,3) by simp
  then have "length (filter active (ws_tasks w)) \<noteq> 0" by (metis length_pos_if_in_set less_irrefl)
  then have run: "is_running (ws_op w)" and len: "length (filter active (ws_tasks w)) = 1"
    using inv by (auto simp: ws_inv_def split: if_splits)
  obtain y where "filter active (ws_tasks w) = [y]" using len by (auto simp: length_Suc_conv)
  with p have "filter active (ws_tasks w) = [p]" by (metis empty_iff list.set(1) set_ConsD)
  moreover have "snd (apply_sync env w) = w" "snd (destroy_sync env w) = w" "snd (refresh env w) = w"
    "snd (plan env w) = w" "snd (import_resource env rtype nm w) = w"
    using run quiet_sync [of w env] quiet_import [of w env rtype nm] by (simp_all add: quiet_def)
  moreover have "apply_async env now w = (Some (still_running env (ws_op w)), w)" "snd (destroy_async env now w) = w"
    using run by (simp_all add: apply_async_def destroy_async_def tfop.start_refused)
  ultimately show ?thesis by blast
qed

definition demo_world :: "(unit, unit, nat) tf_world" where
  "demo_world =
     \<lparr>run_cli = (\<lambda>_ _ _. (('''', None), ())), read_tfstate = (\<lambda>_. Inr ''''), remove_tfstate = (\<lambda>_. (None, False, ())),
      unmarshal_state = (\<lambda>_. Inr ()), has_attributes = (\<lambda>_. True), unmarshal_plan = (\<lambda>_. Inr (0, 0)),
      decode_log = (\<lambda>_. Inl (Plain ''no log'')), filter_output = (\<lambda>s. s), show_time = show_nat\<rparr>"

theorem one_operation_at_a_time_witness:
  "let w = snd (apply_async demo_world 3 (new_workspace 0 ''id'' ())) in snd (plan demo_world w) = w"
  using one_operation_at_a_time [OF ws_reach.stepped [OF ws_reach.created [of demo_world 0 "''id''" "()"]
      do_apply_async [of demo_world _ 3]], of "Spawned AsyncApply"]
  by (simp add: apply_async_def new_workspace_def mark_start_def new_operation_def Let_def)

text \<open>
  Deletion is retried after every observation and never twice in between: once a destroy ended,
  whatever its result, a further \<open>DestroyAsync\<close> returns nil and does nothing, and after a
  \<open>Refresh\<close>, successful or not, it starts a new destroy.
\<close>

lemma destroy_once_per_refresh:
  assumes "op_type (ws_op w) = ''destroy''" and "is_ended (ws_op w)"
  shows "destroy_async env now w = (None, w) \<and>
    fst (destroy_async env now (snd (refresh env w))) = None \<and>
    ws_tasks (snd (destroy_async env now (snd (refresh env w)))) = Spawned AsyncDestroy # ws_tasks w"
proof -
  have nr: "\<not> is_running (ws_op w)" using assms(2) by (simp add: is_running_def is_ended_def)
  obtain res w1 where tf: "run_tf env ModeSync refresh_args w = (res, w1)" by fastforce
  have w1: "ws_op w1 = ws_op w" "ws_tasks w1 = ws_tasks w"
    using run_tf_frame [of env ModeSync refresh_args w] tf by simp_all
  have "snd (refresh env w) = w1\<lparr>ws_op := flush_op (ws_op w)\<rparr>"
    using nr assms(2) tf w1 by (simp add: refresh_def flush_ended_def Let_def split_beta)
  then show ?thesis
    using assms(1) w1
    by (simp add: destroy_async_def mark_start_def flush_op_def clear_op_def Let_def)
qed

text \<open>The use counts, as long as the provider is not swapped under a goroutine that has not started its CLI run.\<close>

inductive ws_calm :: "('fs, 'st, 'n::zero) tf_world \<Rightarrow> 'fs workspace \<Rightarrow> bool"
  for env :: "('fs, 'st, 'n::zero) tf_world" where
  created: "ws_calm env (new_workspace ref tid fs)"
| stepped: "ws_calm env w \<Longrightarrow> ws_step env w w' \<Longrightarrow> ws_calm env w'"
| shared: "ws_calm env w \<Longrightarrow> (\<forall>k. Spawned k \<notin> set (ws_tasks w)) \<Longrightarrow> ws_calm env (use_provider ref cfg w)"

fun waiting_start :: "task_phase \<Rightarrow> bool" where
  "waiting_start (Spawned _) = True"
| "waiting_start (Ran _ _ _) = False"
| "waiting_start (Ended _ _) = False"

definition balanced :: "'fs workspace \<Rightarrow> bool" where
  "balanced w \<longleftrightarrow> (\<forall>r. use_count w r =
     (if r = ws_in_use w then int (length (filter waiting_start (ws_tasks w))) else 0))"

lemma quiet_balanced: "quiet w w' \<Longrightarrow> balanced w \<Longrightarrow> balanced w'"
  by (simp add: quiet_def balanced_def)

lemma ws_step_balanced: "ws_step env w w' \<Longrightarrow> balanced w \<Longrightarrow> balanced w'"
proof (induction rule: ws_step.induct)
  case (do_apply_async w now)
  then show ?case using async_start(1) [of env now w] by (auto simp: balanced_def)
next
  case (do_destroy_async w now)
  then show ?case using async_start(2) [of env now w] by (auto simp: balanced_def)
next
  case (do_task w xs p ys now q w')
  have "filter waiting_start (put_task q) = []"
    using do_task.hyps(2) by (cases p) (auto simp: put_task_def Let_def split: prod.splits)
  then show ?case using task_step_frame [OF do_task.hyps(2)] do_task.hyps(1) do_task.prems
    by (cases p) (auto simp: balanced_def)
qed (auto intro: quiet_balanced quiet_sync quiet_import)

text \<open>
  Every \<open>Increment\<close> of a provider is paid back: in every execution that does not swap the
  provider under a goroutine whose CLI run has not begun, a provider counts as used by the
  workspace exactly while such a goroutine exists, so no use is leaked by a failing CLI or a
  failing operation.
\<close>

lemma uses_paid_back:
  assumes "ws_calm env w"
  shows "(\<forall>r. r \<noteq> ws_in_use w \<longrightarrow> use_count w r = 0) \<and>
    use_count w (ws_in_use w) = int (length (filter waiting_start (ws_tasks w)))"
proof -
  from assms have "balanced w"
  proof (induction rule: ws_calm.induct)
    case (created ref tid fs)
    show ?case by (simp add: balanced_def new_workspace_def)
  next
    case (shared w ref cfg)
    have "filter waiting_start (ws_tasks w) = []"
      using shared.hyps(2) by (auto simp: filter_empty_conv elim: waiting_start.elims)
    then show ?case using shared.IH by (simp add: balanced_def)
  qed (rule ws_step_balanced)
  then show ?thesis by (simp add: balanced_def)
qed

text \<open>
  Without that restriction a use leaks: when \<open>UseProvider\<close> comes between \<open>ApplyAsync\<close> and the
  start of its goroutine, the use is counted on the old provider and given back on the new one.
\<close>

lemma swapped_provider_leaks_use:
  "\<exists>w. ws_reach (env :: ('fs, 'st, 'n::zero) tf_world) w \<and> ws_tasks w = [] \<and> use_count w 0 = 1 \<and> use_count w 1 = - 1"
proof -
  let ?w0 = "new_workspace 0 ''id'' undefined :: 'fs workspace"
  let ?w1 = "snd (apply_async env 3 ?w0)"
  let ?w2 = "use_provider 1 ''cfg'' ?w1"
  have t2: "ws_tasks ?w2 = [] @ Spawned AsyncApply # []" and i2: "ws_in_use ?w2 = 1"
    and u2: "use_count ?w2 = (\<lambda>_. 0)(0 := 1)"
    by (simp_all add: apply_async_def new_workspace_def mark_start_def new_operation_def Let_def)
  have "ws_reach env ?w2"
    by (intro ws_reach.shared ws_reach.stepped [OF ws_reach.created do_apply_async])
  moreover obtain q3 v3 where s3: "task_step env 4 (Spawned AsyncApply) ?w2 = (q3, v3)" by fastforce
  ultimately have r3: "ws_reach env (v3\<lparr>ws_tasks := put_task q3\<rparr>)"
    using ws_reach.stepped [OF _ do_task [OF t2 s3]] by simp
  obtain out err where q3: "q3 = Some (Ran AsyncApply out err)" using s3 by (auto simp: Let_def split: prod.splits)
  have u3: "use_count v3 0 = 1 \<and> use_count v3 1 = - 1" using task_step_frame [OF s3] u2 i2 by simp
  let ?w3 = "v3\<lparr>ws_tasks := put_task q3\<rparr>"
  have t3: "ws_tasks ?w3 = [] @ Ran AsyncApply out err # []" by (simp add: q3 put_task_def)
  obtain q4 v4 where s4: "task_step env 5 (Ran AsyncApply out err) ?w3 = (q4, v4)" by fastforce
  obtain e where q4: "q4 = Some (Ended AsyncApply e)" using s4 by auto
  have r4: "ws_reach env (v4\<lparr>ws_tasks := put_task q4\<rparr>)"
    using ws_reach.stepped [OF r3 do_task [OF t3 s4]] by simp
  let ?w4 = "v4\<lparr>ws_tasks := put_task q4\<rparr>"
  have t4: "ws_tasks ?w4 = [] @ Ended AsyncApply e # []" by (simp add: q4 put_task_def)
  obtain q5 v5 where s5: "task_step env 6 (Ended AsyncApply e) ?w4 = (q5, v5)" by fastforce
  have "ws_reach env (v5\<lparr>ws_tasks := []\<rparr>)"
    using ws_reach.stepped [OF r4 do_task [OF t4 s5]] s5 by (simp add: put_task_def)
  moreover have "use_count v5 0 = 1 \<and> use_count v5 1 = - 1"
    using task_step_frame [OF s5] task_step_frame [OF s4] u3 by simp
  ultimately show ?thesis by (intro exI [of _ "v5\<lparr>ws_tasks := []\<rparr>"]) simp
qed

text \<open>Only \<open>ApplyAsync\<close> and \<open>DestroyAsync\<close> start operations, so a running one is an apply or a destroy.\<close>

definition running_kind_ok :: "'fs workspace \<Rightarrow> bool" where
  "running_kind_ok w \<longleftrightarrow> (is_running (ws_op w) \<longrightarrow> op_type (ws_op w) \<in> {''apply'', ''destroy''})"

lemma quiet_kind: "quiet w w' \<Longrightarrow> running_kind_ok w \<Longrightarrow> running_kind_ok w'"
  by (cases "is_running (ws_op w)") (auto simp: quiet_def running_kind_ok_def)

lemma task_step_kind: "task_step env now p w = (q, w') \<Longrightarrow> running_kind_ok w \<Longrightarrow> running_kind_ok w'"
  by (cases p) (auto simp: running_kind_ok_def Let_def split_beta tfop.finish_stops)

lemma async_kind:
  "running_kind_ok w \<Longrightarrow> running_kind_ok (snd (apply_async env now w))"
  "running_kind_ok w \<Longrightarrow> running_kind_ok (snd (destroy_async env now w))"
  by (auto simp: running_kind_ok_def apply_async_def destroy_async_def mark_start_def Let_def split: if_splits)

lemma ws_step_kind: "ws_step env w w' \<Longrightarrow> running_kind_ok w \<Longrightarrow> running_kind_ok w'"
proof (induction rule: ws_step.induct)
  case (do_task w xs p ys now q w')
  then show ?case using task_step_kind [OF do_task.hyps(2)] by (simp add: running_kind_ok_def)
qed (auto intro: quiet_kind quiet_sync quiet_import async_kind)

lemma ws_reach_kind: "ws_reach env w \<Longrightarrow> running_kind_ok w"
proof (induction rule: ws_reach.induct)
  case (created ref tid fs)
  show ?case by (simp add: running_kind_ok_def new_workspace_def is_running_def new_operation_def)
next
  case (shared w ref cfg)
  then show ?case by (simp add: running_kind_ok_def)
qed (rule ws_step_kind)

end
