(* ===== verification/Timeouts.thy ===== *)
theory Timeouts
  imports GoValue GoErrors
begin

text \<open>
  Operation timeouts as Terraform parameters and as provider metadata
  (\<open>pkg/terraform/timeouts.go\<close>), with \<open>time.Duration.String\<close> of the standard library. The JSON
  codec is a parameter: \<open>marshal\<close> and \<open>unmarshal\<close> of maps.
\<close>

section \<open>Durations\<close>

text \<open>Zero padded to \<open>prec\<close> digits, trailing zeros dropped.\<close>

fun padded :: "nat \<Rightarrow> nat \<Rightarrow> string" where
  "padded 0 n = ''''"
| "padded (Suc prec) n = padded prec (n div 10) @ show_nat (n mod 10)"

definition fmt_frac :: "nat \<Rightarrow> nat \<Rightarrow> string" where
  "fmt_frac prec n =
     (let ds = rev (dropWhile (\<lambda>c. c = CHR ''0'') (rev (padded prec (n mod 10 ^ prec)))) in
      if ds = '''' then '''' else ''.'' @ ds)"

definition duration_nat :: "nat \<Rightarrow> string" where
  "duration_nat u =
     (if u = 0 then ''0s''
      else if u < 1000 then show_nat u @ ''ns''
      else if u < 1000000 then show_nat (u div 1000) @ fmt_frac 3 u @ [CHR 0xC2, CHR 0xB5] @ ''s''
      else if u < 1000000000 then show_nat (u div 1000000) @ fmt_frac 6 u @ ''ms''
      else
        let secs = u div 1000000000; mins = secs div 60; hours = mins div 60;
            s = show_nat (secs mod 60) @ fmt_frac 9 u @ ''s'';
            s = (if mins = 0 then s else show_nat (mins mod 60) @ ''m'' @ s) in
        if hours = 0 then s else show_nat hours @ ''h'' @ s)"

definition duration_string :: "int \<Rightarrow> string" where
  "duration_string d = (if d < 0 then ''-'' @ duration_nat (nat (- d)) else duration_nat (nat d))"

lemma show_nat_ne [simp]: "show_nat n \<noteq> ''''"
  by (subst show_nat.simps) simp

lemma length_show_nat_pos: "0 < length (show_nat n)"
  by simp

lemma show_nat_0 [simp]: "show_nat 0 = ''0''"
  by code_simp

lemma duration_nat_zero_iff: "duration_nat u = ''0s'' \<longleftrightarrow> u = 0"
proof
  assume eq: "duration_nat u = ''0s''"
  show "u = 0"
  proof (rule ccontr)
    assume u: "u \<noteq> 0"
    note pos = length_show_nat_pos
    have two: "length (duration_nat u) = 2" by (simp add: eq)
    have "\<not> u < 1000000000"
      using two u pos [of u] pos [of "u div 1000"] pos [of "u div 1000000"]
      by (auto simp: duration_nat_def split: if_splits)
    then have secs: "u div 1000000000 \<noteq> 0" by (simp add: div_eq_0_iff)
    have mins: "u div 1000000000 div 60 = 0"
    proof (rule ccontr)
      assume "u div 1000000000 div 60 \<noteq> 0"
      then have "length (show_nat (u div 1000000000 div 60 mod 60)) + length (show_nat (u div 1000000000 mod 60)) + 2
          \<le> length (duration_nat u)"
        using \<open>\<not> u < 1000000000\<close> by (auto simp: duration_nat_def Let_def)
      then show False
        using pos [of "u div 1000000000 div 60 mod 60"] pos [of "u div 1000000000 mod 60"] two by linarith
    qed
    then have "u div 1000000000 < 60" by (simp add: div_eq_0_iff)
    then have "duration_nat u = show_nat (u div 1000000000) @ fmt_frac 9 u @ ''s''"
      using mins \<open>\<not> u < 1000000000\<close> by (simp add: duration_nat_def Let_def)
    then have "show_nat (u div 1000000000) @ fmt_frac 9 u @ ''s'' = ''0s''" using eq by simp
    then have "show_nat (u div 1000000000) @ fmt_frac 9 u = ''0''"
      by (metis append.assoc append1_eq_conv append_Cons append_Nil)
    then have z: "show_nat (u div 1000000000) = ''0''"
      using pos [of "u div 1000000000"] by (cases "show_nat (u div 1000000000)") auto
    show False
    proof (cases "u div 1000000000 < 10")
      case True
      then have "digit_char (u div 1000000000) = CHR ''0''"
        using z by (subst (asm) show_nat.simps) simp
      then have "(of_char (digit_char (u div 1000000000)) :: nat) = 48" by simp
      then show False using secs True by (simp add: digit_char_def)
    next
      case False
      then have "length (show_nat (u div 1000000000)) \<ge> 2"
        using pos [of "u div 1000000000 div 10"] by (subst show_nat.simps) (simp add: Suc_le_eq)
      with z show False by simp
    qed
  qed
qed (simp add: duration_nat_def)

lemma duration_string_zero_iff [simp]: "duration_string d = ''0s'' \<longleftrightarrow> d = 0"
  using duration_nat_zero_iff [of "nat d"] by (auto simp: duration_string_def)

section \<open>Timeouts\<close>

record op_timeouts =
  t_read :: int
  t_create :: int
  t_update :: int
  t_delete :: int

definition if_set :: "(int \<Rightarrow> 'v) \<Rightarrow> string \<Rightarrow> int \<Rightarrow> (string \<times> 'v) list \<Rightarrow> (string \<times> 'v) list" where
  "if_set f k d m = (if duration_string d \<noteq> ''0s'' then put_key k (f d) m else m)"

definition as_parameter :: "op_timeouts \<Rightarrow> (string \<times> string) list" where
  "as_parameter ts =
     if_set duration_string ''delete'' (t_delete ts)
       (if_set duration_string ''update'' (t_update ts)
         (if_set duration_string ''create'' (t_create ts)
           (if_set duration_string ''read'' (t_read ts) [])))"

definition as_metadata :: "op_timeouts \<Rightarrow> any_map" where
  "as_metadata ts =
     if_set Num_v ''delete'' (t_delete ts)
       (if_set Num_v ''update'' (t_update ts)
         (if_set Num_v ''create'' (t_create ts)
           (if_set Num_v ''read'' (t_read ts) [])))"

definition tf_meta_timeout_key :: string where
  "tf_meta_timeout_key = ''e2bfb730-ecaa-11e6-8f88-34363bc7c4c0''"

record json_codec =
  marshal :: "any_map \<Rightarrow> gerror + string"
  unmarshal :: "string \<Rightarrow> gerror + any_map"

definition meta_with_timeouts :: "any_map \<Rightarrow> any_map \<Rightarrow> any_map" where
  "meta_with_timeouts custom m =
     (case map_of m tf_meta_timeout_key of
        Some (Map_v existing) \<Rightarrow> put_key tf_meta_timeout_key (Map_v (put_all custom existing)) m
      | _ \<Rightarrow> put_key tf_meta_timeout_key (Map_v custom) m)"

definition insert_timeouts_meta :: "json_codec \<Rightarrow> string \<Rightarrow> op_timeouts \<Rightarrow> gerror + string" where
  "insert_timeouts_meta js existing_meta ts =
     (let custom = as_metadata ts in
      if custom = [] then Inr existing_meta
      else if existing_meta = '''' then marshal js [(tf_meta_timeout_key, Map_v custom)]
      else (case unmarshal js existing_meta of
              Inl e \<Rightarrow> Inl (WithMsg ''cannot parse existing metadata'' e)
            | Inr m \<Rightarrow> marshal js (meta_with_timeouts custom m)))"

lemma as_metadata_map: "map_of (as_metadata ts) k =
    (if k = ''read'' \<and> t_read ts \<noteq> 0 then Some (Num_v (t_read ts))
     else if k = ''create'' \<and> t_create ts \<noteq> 0 then Some (Num_v (t_create ts))
     else if k = ''update'' \<and> t_update ts \<noteq> 0 then Some (Num_v (t_update ts))
     else if k = ''delete'' \<and> t_delete ts \<noteq> 0 then Some (Num_v (t_delete ts)) else None)"
  by (simp add: as_metadata_def if_set_def)

lemma as_parameter_map: "map_of (as_parameter ts) k =
    (if k = ''read'' \<and> t_read ts \<noteq> 0 then Some (duration_string (t_read ts))
     else if k = ''create'' \<and> t_create ts \<noteq> 0 then Some (duration_string (t_create ts))
     else if k = ''update'' \<and> t_update ts \<noteq> 0 then Some (duration_string (t_update ts))
     else if k = ''delete'' \<and> t_delete ts \<noteq> 0 then Some (duration_string (t_delete ts)) else None)"
  by (simp add: as_parameter_def if_set_def)

lemma as_metadata_distinct: "distinct (map fst (as_metadata ts))"
  by (simp add: as_metadata_def if_set_def distinct_put_key)

text \<open>
  Inserting timeouts keeps the metadata: whenever the existing metadata parses to a map and the
  result is marshalled, every other key of the metadata is unchanged, the timeouts key holds each
  configured (non-zero) timeout in nanoseconds, and an existing timeout that is not configured is
  kept.
\<close>

lemma timeouts_meta_merged:
  assumes "existing_meta \<noteq> ''''" and "unmarshal js existing_meta = Inr m" and "as_metadata ts \<noteq> []"
  shows "\<exists>m'. insert_timeouts_meta js existing_meta ts = marshal js m' \<and>
    (\<forall>k. k \<noteq> tf_meta_timeout_key \<longrightarrow> map_of m' k = map_of m k) \<and>
    (\<exists>tm. map_of m' tf_meta_timeout_key = Some (Map_v tm) \<and>
      (\<forall>k v. map_of (as_metadata ts) k = Some v \<longrightarrow> map_of tm k = Some v) \<and>
      (\<forall>old k. map_of m tf_meta_timeout_key = Some (Map_v old) \<and> map_of (as_metadata ts) k = None \<longrightarrow>
         map_of tm k = map_of old k))"
proof (intro exI conjI allI impI)
  let ?m = "meta_with_timeouts (as_metadata ts) m"
  show "insert_timeouts_meta js existing_meta ts = marshal js ?m"
    using assms by (simp add: insert_timeouts_meta_def Let_def)
  show "map_of ?m k = map_of m k" if "k \<noteq> tf_meta_timeout_key" for k
    using that by (auto simp: meta_with_timeouts_def split: option.splits any.splits)
  let ?old = "case map_of m tf_meta_timeout_key of Some (Map_v existing) \<Rightarrow> existing | _ \<Rightarrow> []"
  let ?tm = "case map_of m tf_meta_timeout_key of
      Some (Map_v existing) \<Rightarrow> put_all (as_metadata ts) existing | _ \<Rightarrow> as_metadata ts"
  show "map_of ?m tf_meta_timeout_key = Some (Map_v ?tm)"
    by (auto simp: meta_with_timeouts_def split: option.splits any.splits)
  show "map_of ?tm k = Some v" if "map_of (as_metadata ts) k = Some v" for k v
    using that map_of_put_all [OF as_metadata_distinct] by (simp split: option.splits any.splits)
  show "map_of ?tm k = map_of old k"
    if "map_of m tf_meta_timeout_key = Some (Map_v old) \<and> map_of (as_metadata ts) k = None" for old k
    using that map_of_put_all [OF as_metadata_distinct] by (simp add: map_add_def)
qed

end
