(* ===== verification/ProviderConfig.thy ===== *)
theory ProviderConfig
  imports GoValue "HOL-Library.Multiset"
begin

text \<open>
  The provider configuration of a Terraform setup and what is derived from it
  (\<open>pkg/terraform/store.go\<close>): the handle of the provider scheduler and the filter that redacts
  secrets from CLI output. Configuration maps are entry lists in iteration order. The hash is the
  parameter \<open>hash_hex\<close>, and \<open>q_other\<close> is the \<open>%q\<close> rendering of a value that is not a string.
\<close>

text \<open>The dynamic types that \<open>getSortedKeyValuePairs\<close> tells apart.\<close>

datatype cfg =
    CStrings "string list"
  | CMap "(string \<times> cfg) list"
  | CMaps "(string \<times> cfg) list list"
  | CPtr "string option"
  | COther any

type_synonym cfg_map = "(string \<times> cfg) list"

section \<open>Sorted key-value pairs\<close>

definition pair_text :: "string \<Rightarrow> string \<Rightarrow> string" where
  "pair_text k v = go_quote k @ '':'' @ go_quote v"

definition sort_entries :: "(string \<times> 'v) list \<Rightarrow> (string \<times> 'v) list" where
  "sort_entries m = sort_key fst m"

text \<open>
  The value of each key is rendered under the prefix and the results are taken in the order of the
  sorted keys.
\<close>

fun render :: "(any \<Rightarrow> string) \<Rightarrow> string \<Rightarrow> string \<Rightarrow> cfg \<Rightarrow> string list"
  and render_entries :: "(any \<Rightarrow> string) \<Rightarrow> string \<Rightarrow> cfg_map \<Rightarrow> (string \<times> string list) list"
  and render_maps :: "(any \<Rightarrow> string) \<Rightarrow> string \<Rightarrow> nat \<Rightarrow> cfg_map list \<Rightarrow> string list" where
  "render q parent k (CStrings t) = [pair_text (parent @ k) (join_with '','' t)]"
| "render q parent k (CMap t) = concat (map snd (sort_entries (render_entries q (parent @ k @ ''.'') t)))"
| "render q parent k (CMaps t) = [pair_text (parent @ k) (join_with '','' (render_maps q (parent @ k) 0 t))]"
| "render q parent k (CPtr t) = (case t of None \<Rightarrow> [] | Some s \<Rightarrow> [pair_text (parent @ k) s])"
| "render q parent k (COther v) =
     (case v of Str_v s \<Rightarrow> [pair_text (parent @ k) s] | _ \<Rightarrow> [go_quote (parent @ k) @ '':'' @ q v])"
| "render_entries q parent [] = []"
| "render_entries q parent ((k, v) # m) = (k, render q parent k v) # render_entries q parent m"
| "render_maps q path i [] = []"
| "render_maps q path i (e # es) =
     concat (map snd (sort_entries (render_entries q (path @ ''['' @ show_nat i @ ''].'') e)))
       @ render_maps q path (Suc i) es"

definition get_sorted_key_value_pairs :: "(any \<Rightarrow> string) \<Rightarrow> string \<Rightarrow> cfg_map \<Rightarrow> string list" where
  "get_sorted_key_value_pairs q parent m = concat (map snd (sort_entries (render_entries q parent m)))"

definition to_provider_handle :: "(string \<Rightarrow> string) \<Rightarrow> (any \<Rightarrow> string) \<Rightarrow> cfg_map \<Rightarrow> string" where
  "to_provider_handle hash_hex q m = hash_hex (join_with '','' (get_sorted_key_value_pairs q '''' m))"

text \<open>The same configuration visited in another order, at every level.\<close>

inductive same_cfg :: "cfg \<Rightarrow> cfg \<Rightarrow> bool"
  and same_map :: "cfg_map \<Rightarrow> cfg_map \<Rightarrow> bool" where
  leaf: "same_cfg v v"
| sub: "same_map m n \<Longrightarrow> same_cfg (CMap m) (CMap n)"
| subs: "list_all2 same_map ms ns \<Longrightarrow> same_cfg (CMaps ms) (CMaps ns)"
| entries: "map fst m = map fst m' \<Longrightarrow> list_all2 same_cfg (map snd m) (map snd m') \<Longrightarrow>
     mset m' = mset n \<Longrightarrow> distinct (map fst m) \<Longrightarrow> same_map m n"

lemma render_entries_map: "render_entries q parent m = map (\<lambda>(k, v). (k, render q parent k v)) m"
  by (induction m) auto

text \<open>Entries with distinct keys are sorted to the same list, whatever their order.\<close>

lemma sort_entries_perm:
  assumes "mset m = mset n" and "distinct (map fst m)"
  shows "sort_entries m = sort_entries n"
  unfolding sort_entries_def
proof (rule sort_key_inj_key_eq)
  show "mset m = mset (sort_key fst n)" using assms(1) by simp
  show "inj_on fst (set m)" using assms(2) by (simp add: distinct_map)
  show "sorted (map fst (sort_key fst n))" by simp
qed

lemma same_render:
  "same_cfg v w \<Longrightarrow> render q parent k v = render q parent k w"
  "same_map m n \<Longrightarrow> sort_entries (render_entries q parent m) = sort_entries (render_entries q parent n)"
proof (induction arbitrary: parent k and parent rule: same_cfg_same_map.inducts)
  case (sub m n)
  then show ?case by simp
next
  case (subs ms ns)
  have "render_maps q path i ms = render_maps q path i ns" for path i
    using subs by (induction arbitrary: i rule: list_all2_induct) auto
  then show ?case by simp
next
  case (entries m m' n)
  have len: "length m = length m'" using entries.hyps(1) by (metis length_map)
  have "map (\<lambda>(k, v). (k, render q parent k v)) m = map (\<lambda>(k, v). (k, render q parent k v)) m'"
  proof (rule nth_equalityI)
    show "length (map (\<lambda>(k, v). (k, render q parent k v)) m) = length (map (\<lambda>(k, v). (k, render q parent k v)) m')"
      using len by simp
    fix i
    assume "i < length (map (\<lambda>(k, v). (k, render q parent k v)) m)"
    then have i: "i < length m" "i < length m'" using len by simp_all
    have "fst (m ! i) = fst (m' ! i)" using entries.hyps(1) i by (metis nth_map)
    moreover have "render q parent (fst (m ! i)) (snd (m ! i)) = render q parent (fst (m ! i)) (snd (m' ! i))"
      using entries.IH(1) i by (simp add: list_all2_conv_all_nth)
    ultimately show "map (\<lambda>(k, v). (k, render q parent k v)) m ! i = map (\<lambda>(k, v). (k, render q parent k v)) m' ! i"
      using i by (simp add: split_beta)
  qed
  then have "render_entries q parent m = render_entries q parent m'" by (simp add: render_entries_map)
  moreover have "mset (render_entries q parent m') = mset (render_entries q parent n)"
    using entries.hyps(2) by (simp add: render_entries_map)
  moreover have "map fst (render_entries q parent m') = map fst m'"
    by (simp add: render_entries_map o_def split_beta)
  ultimately show ?case using entries.hyps(1,3) sort_entries_perm by metis
qed simp

text \<open>
  The provider handle is a function of the configuration, not of Go's map iteration order: the
  same configuration visited in any order, at every nesting level, gives the same handle, so a
  shared provider process is found again.
\<close>

lemma handle_order_independent:
  assumes "same_map m n"
  shows "to_provider_handle hash_hex q m = to_provider_handle hash_hex q n"
  using same_render(2) [OF assms] by (simp add: to_provider_handle_def get_sorted_key_value_pairs_def)

text \<open>Two configurations that differ may share a handle: a list and the string that joins it.\<close>

lemma handle_not_injective:
  "to_provider_handle hash_hex q [(''k'', CStrings [''a'', ''b''])] =
     to_provider_handle hash_hex q [(''k'', COther (Str_v ''a,b''))]"
  by (simp add: to_provider_handle_def get_sorted_key_value_pairs_def sort_entries_def)

section \<open>Redacting secrets\<close>

definition redacted :: string where
  "redacted = ''REDACTED''"

definition redact_entry :: "string \<times> cfg \<Rightarrow> string \<Rightarrow> string" where
  "redact_entry e s =
     (case snd e of
        COther (Str_v v) \<Rightarrow> if v \<noteq> '''' then replace_all s v redacted else s
      | _ \<Rightarrow> s)"

definition filter_sensitive_information :: "cfg_map \<Rightarrow> string \<Rightarrow> string" where
  "filter_sensitive_information m s = fold redact_entry m s"

text \<open>An occurrence of a text that shares no character with the replacement was there before.\<close>

lemma replace_all_prefix:
  "set p \<inter> set r = {} \<Longrightarrow> r \<noteq> [] \<Longrightarrow> has_prefix (replace_all s v r) p \<Longrightarrow> has_prefix s p"
proof (induction s v r arbitrary: p rule: replace_all.induct)
  case (1 s v r)
  show ?case
  proof (cases p)
    case (Cons c p')
    show ?thesis
    proof (cases "s = [] \<or> v = []")
      case False
      have "\<not> has_prefix s v"
      proof
        assume "has_prefix s v"
        then have "replace_all s v r = r @ replace_all (drop (length v) s) v r"
          using False by (subst replace_all.simps) simp
        moreover obtain a l where "r = a # l" using "1.prems"(2) by (cases r) auto
        ultimately show False using "1.prems" Cons by auto
      qed
      then show ?thesis
        using "1.IH"(2) [of p'] "1.prems" Cons False
        by (cases s) (auto simp: replace_all_Cons)
    qed (use "1.prems" in \<open>simp add: replace_all.simps [of s v r]\<close>)
  qed simp
qed

lemma contains_sub_skip:
  "set p \<inter> set r = {} \<Longrightarrow> p \<noteq> [] \<Longrightarrow> contains_sub (r @ s) p \<Longrightarrow> contains_sub s p"
  by (induction r) (cases p; auto)+

lemma replace_all_contains:
  "set p \<inter> set r = {} \<Longrightarrow> r \<noteq> [] \<Longrightarrow> p \<noteq> [] \<Longrightarrow> contains_sub (replace_all s v r) p \<Longrightarrow> contains_sub s p"
proof (induction s v r rule: replace_all.induct)
  case (1 s v r)
  show ?case
  proof (cases "s = [] \<or> v = []")
    case False
    show ?thesis
    proof (cases "has_prefix s v")
      case True
      have "replace_all s v r = r @ replace_all (drop (length v) s) v r"
        using False True by (subst replace_all.simps) simp
      then have "contains_sub (drop (length v) s) p"
        using "1.IH"(1) [OF False True] "1.prems" contains_sub_skip by metis
      then show ?thesis
        unfolding contains_sub_iff by (metis append.assoc append_take_drop_id)
    next
      case pre: False
      have e: "replace_all s v r = hd s # replace_all (tl s) v r"
        using False pre by (subst replace_all.simps) simp
      have s: "s = hd s # tl s" using False by simp
      have "has_prefix (replace_all s v r) p \<or> contains_sub (replace_all (tl s) v r) p"
        using "1.prems"(4) e by simp
      then have "has_prefix s p \<or> contains_sub (tl s) p"
        using replace_all_prefix [OF "1.prems"(1,2)] "1.IH"(2) [OF False pre "1.prems"(1,2,3)] by blast
      then show ?thesis by (metis s contains_sub.simps(2))
    qed
  qed (use "1.prems" in \<open>simp add: replace_all.simps [of s v r]\<close>)
qed

lemma replace_all_removes:
  "set v \<inter> set r = {} \<Longrightarrow> r \<noteq> [] \<Longrightarrow> v \<noteq> [] \<Longrightarrow> \<not> contains_sub (replace_all s v r) v"
proof (induction s v r rule: replace_all.induct)
  case (1 s v r)
  show ?case
  proof (cases "s = [] \<or> v = []")
    case False
    show ?thesis
    proof (cases "has_prefix s v")
      case True
      have "replace_all s v r = r @ replace_all (drop (length v) s) v r"
        using False True by (subst replace_all.simps) simp
      then show ?thesis using "1.IH"(1) [OF False True "1.prems"] "1.prems" contains_sub_skip by metis
    next
      case pre: False
      have e: "replace_all s v r = hd s # replace_all (tl s) v r"
        using False pre by (subst replace_all.simps) simp
      have "\<not> has_prefix (replace_all s v r) v"
        using replace_all_prefix [OF "1.prems"(1,2)] pre by blast
      then show ?thesis using "1.IH"(2) [OF False pre "1.prems"] e by simp
    qed
  qed (use "1.prems" in \<open>cases v; auto\<close>)
qed

lemma redacted_ne: "redacted \<noteq> []"
  by (simp add: redacted_def)

text \<open>
  No secret survives the filter whole: for every iteration order of the configuration, a
  non-empty string value that shares no character with the marker \<open>REDACTED\<close> does not occur in the
  filtered output.
\<close>

lemma no_secret_survives:
  assumes "(k, COther (Str_v v)) \<in> set m" and "v \<noteq> ''''" and "set v \<inter> set redacted = {}"
  shows "\<not> contains_sub (filter_sensitive_information m s) v"
  using assms(1)
proof (induction m arbitrary: s)
  case (Cons e m)
  have ent: "contains_sub (redact_entry e t) v \<Longrightarrow> contains_sub t v" for e t
  proof -
    assume "contains_sub (redact_entry e t) v"
    moreover have "redact_entry e t = t \<or> (\<exists>u. redact_entry e t = replace_all t u redacted)"
      by (auto simp: redact_entry_def split: cfg.splits any.splits)
    ultimately show "contains_sub t v" using replace_all_contains [OF assms(3) redacted_ne assms(2)] by metis
  qed
  have keep: "contains_sub (filter_sensitive_information n t) v \<Longrightarrow> contains_sub t v" for n t
    by (induction n arbitrary: t) (auto simp: filter_sensitive_information_def dest: ent)
  show ?case
  proof (cases "e = (k, COther (Str_v v))")
    case True
    have "\<not> contains_sub (replace_all s v redacted) v"
      by (rule replace_all_removes [OF assms(3) redacted_ne assms(2)])
    then show ?thesis
      using True assms(2) keep [of m "replace_all s v redacted"] by (auto simp: filter_sensitive_information_def redact_entry_def)
  next
    case False
    then have "(k, COther (Str_v v)) \<in> set m" using Cons.prems by auto
    then show ?thesis using Cons.IH [of "redact_entry e s"] by (simp add: filter_sensitive_information_def)
  qed
qed simp

text \<open>
  Part of a secret can survive: when one secret is a prefix of another, the output depends on
  the iteration order of the configuration, and in one order the rest of the longer secret stays
  readable.
\<close>

lemma overlapping_secret_leaks:
  "filter_sensitive_information [(''a'', COther (Str_v ''pass'')), (''b'', COther (Str_v ''password1''))] ''t=password1''
     = ''t=REDACTEDword1'' \<and>
   filter_sensitive_information [(''b'', COther (Str_v ''password1'')), (''a'', COther (Str_v ''pass''))] ''t=password1''
     = ''t=REDACTED''"
  by (simp add: filter_sensitive_information_def redact_entry_def redacted_def replace_all_Cons)

end
