(* ===== verification/WorkspaceFiles.thy ===== *)
theory WorkspaceFiles
  imports Timeouts ProviderConfig IgnoreChanges
begin

text \<open>
  The files of a workspace (\<open>pkg/terraform/files.go\<close>) and the version 4 Terraform state
  (\<open>pkg/resource/json/statev4.go\<close>). The working directory is a map from file names to contents
  with injected I/O faults. The JSON codec, the merge of \<open>mergo\<close>, and the operations of the
  managed resource (generated code) are parameters.
\<close>

section \<open>State files\<close>

record instance_v4 =
  in_schema_version :: int
  in_attributes :: "string option"
  in_sensitive :: "string option"
  in_private :: string

record resource_v4 =
  rs_mode :: string
  rs_type :: string
  rs_name :: string
  rs_provider :: string
  rs_instances :: "instance_v4 list"

record state_v4 =
  st_version :: nat
  st_tf_version :: string
  st_serial :: nat
  st_lineage :: string
  st_resources :: "resource_v4 list"

definition new_state_v4 :: state_v4 where
  "new_state_v4 =
     \<lparr>st_version = 4, st_tf_version = '''', st_serial = 1, st_lineage = '''', st_resources = []\<rparr>"

definition first_instance :: "state_v4 option \<Rightarrow> instance_v4 option" where
  "first_instance st =
     (case st of
        None \<Rightarrow> None
      | Some s \<Rightarrow> (case st_resources s of
                     [] \<Rightarrow> None
                   | r # _ \<Rightarrow> (case rs_instances r of [] \<Rightarrow> None | i # _ \<Rightarrow> Some i)))"

definition get_attributes :: "state_v4 option \<Rightarrow> string option" where
  "get_attributes st = Option.bind (first_instance st) in_attributes"

definition get_sensitive_attributes :: "state_v4 option \<Rightarrow> string option" where
  "get_sensitive_attributes st = Option.bind (first_instance st) in_sensitive"

definition get_private_raw :: "state_v4 option \<Rightarrow> string" where
  "get_private_raw st = (case first_instance st of None \<Rightarrow> '''' | Some i \<Rightarrow> in_private i)"

section \<open>The working directory\<close>

datatype read_result = NotExist | ReadError gerror | FileData string

record faults =
  read_fault :: "string \<Rightarrow> gerror option"
  write_fault :: "string \<Rightarrow> gerror option"

type_synonym files = "string \<rightharpoonup> string"

definition read_file :: "faults \<Rightarrow> string \<Rightarrow> files \<Rightarrow> read_result" where
  "read_file fl nm d =
     (case read_fault fl nm of
        Some e \<Rightarrow> ReadError e
      | None \<Rightarrow> (case d nm of None \<Rightarrow> NotExist | Some c \<Rightarrow> FileData c))"

definition write_file :: "faults \<Rightarrow> string \<Rightarrow> string \<Rightarrow> files \<Rightarrow> gerror option \<times> files" where
  "write_file fl nm c d = (case write_fault fl nm of Some e \<Rightarrow> (Some e, d) | None \<Rightarrow> (None, d(nm \<mapsto> c)))"

definition no_faults :: faults where
  "no_faults = \<lparr>read_fault = (\<lambda>_. None), write_fault = (\<lambda>_. None)\<rparr>"

section \<open>The file producer\<close>

record requirement =
  rq_source :: string
  rq_version :: string
  rq_registry :: string
  rq_local_name :: string

record tf_setup =
  su_version :: string
  su_requirement :: requirement
  su_configuration :: cfg_map

record tf_codec = json_codec +
  marshal_state :: "state_v4 \<Rightarrow> gerror + string"
  unmarshal_state :: "string \<Rightarrow> gerror + state_v4"
  unmarshal_main :: "string \<Rightarrow> gerror + any_map"
  cfg_value :: "cfg \<Rightarrow> any"
  sprint :: "any \<Rightarrow> string"
  q_other :: "any \<Rightarrow> string"
  hash_hex :: "string \<Rightarrow> string"

record file_producer =
  fp_setup :: tf_setup
  fp_parameters :: any_map
  fp_observation :: any_map
  fp_ignored :: "string list"
  fp_has_id :: bool
  fp_deleted :: bool
  fp_timeouts :: op_timeouts
  fp_uid :: string
  fp_type :: string
  fp_name :: string
  fp_schema_version :: int
  fp_private :: "string option"

text \<open>The resource and the configuration as \<open>NewFileProducer\<close> uses them.\<close>

record resource_ops =
  get_parameters :: "gerror + any_map"
  get_init_parameters :: "gerror + any_map"
  get_observation :: "gerror + any_map"
  merge_params :: "any_map \<Rightarrow> any_map \<Rightarrow> gerror + any_map"
  to_terraform :: "any_map \<Rightarrow> gerror + any_map"
  sensitive_parameters :: "any_map \<Rightarrow> gerror + any_map"
  sensitive_observation :: "any_map \<Rightarrow> gerror + any_map"
  set_identifier :: "any_map \<Rightarrow> any_map"
  connection_secret_ref :: "gerror option"
  ref_namespace :: string
  ref_name :: string

definition and_then :: "gerror + 'a \<Rightarrow> string \<Rightarrow> ('a \<Rightarrow> gerror + 'b) \<Rightarrow> gerror + 'b" where
  "and_then r msg f = (case r of Inl e \<Rightarrow> Inl (WithMsg msg e) | Inr x \<Rightarrow> f x)"

lemma and_then_simps [simp]:
  "and_then (Inl e) msg f = Inl (WithMsg msg e)" "and_then (Inr x) msg f = f x"
  by (simp_all add: and_then_def)

text \<open>
  \<open>NewFileProducer\<close>. The ignored fields are computed by the copy in \<open>pkg/resource\<close>; its panic on
  values of unexpected types is \<open>None\<close>.
\<close>

definition with_init_parameters ::
  "bool \<Rightarrow> resource_ops \<Rightarrow> any_map \<Rightarrow> (gerror + any_map \<times> string list) option" where
  "with_init_parameters policies tr params =
     (if \<not> policies then Some (Inr (params, []))
      else
        let at = '' resource '' @ go_quote (ref_namespace tr @ ''/'' @ ref_name tr) in
        case get_init_parameters tr of
          Inl e \<Rightarrow> Some (Inl (WithMsg (''cannot get the init parameters for the'' @ at) e))
        | Inr init \<Rightarrow>
            (case get_terraform_ignore_changes params init of
               None \<Rightarrow> None
             | Some ignored \<Rightarrow>
                 Some (and_then (merge_params tr params init)
                   (''cannot merge the spec.initProvider and spec.forProvider parameters for the'' @ at)
                   (\<lambda>p. Inr (p, ignored)))))"

definition new_file_producer ::
  "bool \<Rightarrow> resource_ops \<Rightarrow> file_producer \<Rightarrow> (gerror + file_producer) option" where
  "new_file_producer policies tr fp =
     (case get_parameters tr of
        Inl e \<Rightarrow> Some (Inl (WithMsg ''cannot get parameters'' e))
      | Inr params \<Rightarrow>
          map_option (\<lambda>r. case r of Inl e \<Rightarrow> Inl e | Inr (params, ignored) \<Rightarrow>
            and_then (to_terraform tr params) ''cannot apply terraform parameter conversions'' (\<lambda>params.
            and_then (sensitive_parameters tr params) ''cannot get sensitive parameters'' (\<lambda>params.
            and_then (get_observation tr) ''cannot get observation'' (\<lambda>obs.
            and_then (to_terraform tr obs) ''cannot apply terraform conversions on MR state'' (\<lambda>obs.
            case connection_secret_ref tr of Some e \<Rightarrow> Inl (WithMsg ''cannot get connection secret ref'' e) | None \<Rightarrow>
            and_then (sensitive_observation tr obs) ''cannot get sensitive observation'' (\<lambda>obs.
              Inr (fp\<lparr>fp_parameters := set_identifier tr params, fp_observation := obs, fp_ignored := ignored\<rparr>)))))))
          (with_init_parameters policies tr params))"

definition provider_name_of :: "requirement \<Rightarrow> string" where
  "provider_name_of rq =
     (if rq_local_name rq = '''' then last (split_on (CHR ''/'') (rq_source rq)) else rq_local_name rq)"

text \<open>\<open>BuildMainTF\<close> also writes the lifecycle block and the timeouts into the parameters.\<close>

definition build_main_tf :: "tf_codec \<Rightarrow> file_producer \<Rightarrow> any_map \<times> file_producer" where
  "build_main_tf js fp =
     (let lifecycle = [(''prevent_destroy'', Bool_v (\<not> fp_deleted fp))];
          lifecycle = (if fp_ignored fp \<noteq> []
                       then put_key ''ignore_changes'' (Slice_v (map Str_v (fp_ignored fp))) lifecycle else lifecycle);
          params = put_key ''lifecycle'' (Map_v lifecycle) (fp_parameters fp);
          tp = as_parameter (fp_timeouts fp);
          params = (if tp \<noteq> [] then put_key ''timeouts'' (Map_v (map (\<lambda>(k, t). (k, Str_v t)) tp)) params else params);
          rq = su_requirement (fp_setup fp); pn = provider_name_of rq in
      ([(''terraform'', Map_v [(''required_providers'', Map_v [(pn,
           Map_v [(''source'', Str_v (rq_source rq)), (''version'', Str_v (rq_version rq))])])]),
        (''provider'', Map_v [(pn, Map_v (map (\<lambda>(k, c). (k, cfg_value js c)) (su_configuration (fp_setup fp))))]),
        (''resource'', Map_v [(fp_type fp, Map_v [(fp_name fp, Map_v params)])])],
       fp\<lparr>fp_parameters := params\<rparr>))"

text \<open>The handle, the error, the producer and the directory.\<close>

definition write_main_tf ::
  "tf_codec \<Rightarrow> faults \<Rightarrow> file_producer \<Rightarrow> files \<Rightarrow> (string \<times> gerror option) \<times> file_producer \<times> files" where
  "write_main_tf js fl fp d =
     (let (m, fp) = build_main_tf js fp in
      case marshal js m of
        Inl e \<Rightarrow> (('''', Some (WithMsg ''cannot marshal main hcl object'' e)), fp, d)
      | Inr raw \<Rightarrow>
          let h = to_provider_handle (hash_hex js) (q_other js) (su_configuration (fp_setup fp));
              (e, d) = write_file fl ''main.tf.json'' raw d in
          ((h, wrap_err ''cannot write main.tf.json file'' e), fp, d))"

definition is_state_empty :: "tf_codec \<Rightarrow> faults \<Rightarrow> file_producer \<Rightarrow> files \<Rightarrow> gerror + bool" where
  "is_state_empty js fl fp d =
     (case read_file fl ''terraform.tfstate'' d of
        NotExist \<Rightarrow> Inr True
      | ReadError e \<Rightarrow> Inl (WithMsg ''cannot read terraform.tfstate file'' e)
      | FileData raw \<Rightarrow>
          and_then (unmarshal_state js raw) ''cannot unmarshal tfstate file'' (\<lambda>s.
          case get_attributes (Some s) of
            None \<Rightarrow> Inr True
          | Some ad \<Rightarrow>
              and_then (unmarshal js ad) ''cannot unmarshal state attributes'' (\<lambda>attr.
              if \<not> fp_has_id fp then Inr (attr = [])
              else (case map_of attr ''id'' of
                      None \<Rightarrow> Inr True
                    | Some (Str_v sid) \<Rightarrow> Inr (sid = '''')
                    | Some v \<Rightarrow> Inl (Plain (''cannot work with a non-string id: '' @ sprint js v))))))"

definition default_registry :: string where
  "default_registry = ''provider['' @ [CHR 0x22] @ ''registry.terraform.io/%s'' @ [CHR 0x22] @ '']''"

definition state_attributes :: "file_producer \<Rightarrow> string \<Rightarrow> any_map" where
  "state_attributes fp tf_id =
     (let base = put_all (fp_observation fp) (put_all (fp_parameters fp) []) in
      if fp_has_id fp then put_key ''id'' (Str_v tf_id) base else base)"

definition ensure_tf_state ::
  "tf_codec \<Rightarrow> faults \<Rightarrow> file_producer \<Rightarrow> string \<Rightarrow> files \<Rightarrow> gerror option \<times> files" where
  "ensure_tf_state js fl fp tf_id d =
     (case is_state_empty js fl fp d of
        Inl e \<Rightarrow> (Some (WithMsg ''cannot check whether the state is empty'' e), d)
      | Inr no_state \<Rightarrow>
          if \<not> no_state \<or> fp_deleted fp then (None, d)
          else (case marshal js (state_attributes fp tf_id) of
            Inl e \<Rightarrow> (Some (WithMsg ''cannot marshal produced state attributes'' e), d)
          | Inr attr \<Rightarrow>
              (case insert_timeouts_meta (json_codec.truncate js) (case fp_private fp of None \<Rightarrow> '''' | Some p \<Rightarrow> p) (fp_timeouts fp) of
                 Inl e \<Rightarrow> (Some (WithMsg ''cannot insert timeouts metadata to priv raw'' e), d)
               | Inr priv \<Rightarrow>
                   let rq = su_requirement (fp_setup fp);
                       registry = (if rq_registry rq = '''' then default_registry else rq_registry rq);
                       s = new_state_v4\<lparr>st_tf_version := su_version (fp_setup fp), st_lineage := fp_uid fp,
                             st_resources := [\<lparr>rs_mode = ''managed'', rs_type = fp_type fp, rs_name = fp_name fp,
                               rs_provider = sprintf registry [FStr (rq_source rq)],
                               rs_instances = [\<lparr>in_schema_version = fp_schema_version fp, in_attributes = Some attr,
                                 in_sensitive = None, in_private = priv\<rparr>]\<rparr>]\<rparr> in
                   (case marshal_state js s of
                      Inl e \<Rightarrow> (Some (WithMsg ''cannot marshal state object'' e), d)
                    | Inr raw \<Rightarrow>
                        let (e, d) = write_file fl ''terraform.tfstate'' raw d in
                        (wrap_err ''cannot write terraform.tfstate file'' e, d)))))"

text \<open>A provider entry that is not a map makes the type assertion panic: \<open>None\<close>.\<close>

definition need_provider_upgrade :: "tf_codec \<Rightarrow> faults \<Rightarrow> file_producer \<Rightarrow> files \<Rightarrow> (gerror + bool) option" where
  "need_provider_upgrade js fl fp d =
     (case read_file fl ''main.tf.json'' d of
        NotExist \<Rightarrow> Some (Inr False)
      | ReadError e \<Rightarrow> Some (Inl (WithMsg ''cannot read main.tf.json file'' e))
      | FileData raw \<Rightarrow>
          (case unmarshal_main js raw of
             Inl e \<Rightarrow> Some (Inl (WithMsg ''cannot read main.tf.json file'' e))
           | Inr required \<Rightarrow>
               (case map_of required (provider_name_of (su_requirement (fp_setup fp))) of
                  None \<Rightarrow> Some (Inl (Plain ''cannot get provider configuration''))
                | Some (Map_v pc) \<Rightarrow>
                    (case map_of pc ''version'' of
                       None \<Rightarrow> Some (Inl (Plain ''cannot get version''))
                     | Some v \<Rightarrow> Some (Inr (v \<noteq> Str_v (rq_version (su_requirement (fp_setup fp))))))
                | Some _ \<Rightarrow> None)))"

section \<open>What the codec promises\<close>

definition required_providers :: "any_map \<Rightarrow> any_map" where
  "required_providers m =
     (case map_of m ''terraform'' of
        Some (Map_v t) \<Rightarrow> (case map_of t ''required_providers'' of Some (Map_v r) \<Rightarrow> r | _ \<Rightarrow> [])
      | _ \<Rightarrow> [])"

text \<open>Decoding what was encoded: states, string values under \<open>id\<close> and the provider requirements.\<close>

definition codec_laws :: "tf_codec \<Rightarrow> bool" where
  "codec_laws js \<longleftrightarrow>
     (\<forall>s t. marshal_state js s = Inr t \<longrightarrow> unmarshal_state js t = Inr s) \<and>
     (\<forall>m t. marshal js m = Inr t \<longrightarrow> (\<exists>m'. unmarshal js t = Inr m' \<and> (m' = [] \<longleftrightarrow> m = []) \<and>
        (\<forall>s. map_of m ''id'' = Some (Str_v s) \<longrightarrow> map_of m' ''id'' = Some (Str_v s)))) \<and>
     (\<forall>m t. marshal js m = Inr t \<longrightarrow> unmarshal_main js t = Inr (required_providers m))"

text \<open>A codec that encodes two maps and one state, to instantiate the parameter.\<close>

definition demo_fp :: file_producer where
  "demo_fp =
     \<lparr>fp_setup = \<lparr>su_version = ''1.5.7'', su_requirement = \<lparr>rq_source = ''hashicorp/aws'', rq_version = ''4.0'',
        rq_registry = ''r'', rq_local_name = ''''\<rparr>, su_configuration = []\<rparr>,
      fp_parameters = [], fp_observation = [], fp_ignored = [], fp_has_id = True, fp_deleted = False,
      fp_timeouts = \<lparr>t_read = 0, t_create = 0, t_update = 0, t_delete = 0\<rparr>, fp_uid = ''u'', fp_type = ''aws_vpc'',
      fp_name = ''v'', fp_schema_version = 0, fp_private = None\<rparr>"

definition demo_attributes :: any_map where
  "demo_attributes = [(''id'', Str_v ''i'')]"

definition demo_state :: state_v4 where
  "demo_state = \<lparr>st_version = 4, st_tf_version = ''1.5.7'', st_serial = 1, st_lineage = ''u'',
     st_resources = [\<lparr>rs_mode = ''managed'', rs_type = ''aws_vpc'', rs_name = ''v'', rs_provider = sprintf ''r'' [FStr ''hashicorp/aws''],
       rs_instances = [\<lparr>in_schema_version = 0, in_attributes = Some ''A'', in_sensitive = None, in_private = ''''\<rparr>]\<rparr>]\<rparr>"

definition demo_main :: any_map where
  "demo_main = [(''terraform'', Map_v [(''required_providers'', Map_v [(''aws'',
       Map_v [(''source'', Str_v ''hashicorp/aws''), (''version'', Str_v ''4.0'')])])]),
     (''provider'', Map_v [(''aws'', Map_v [])]),
     (''resource'', Map_v [(''aws_vpc'', Map_v [(''v'', Map_v [(''lifecycle'', Map_v [(''prevent_destroy'', Bool_v True)])])])])]"

definition demo_js :: tf_codec where
  "demo_js =
     \<lparr>marshal = (\<lambda>m. if m = demo_attributes then Inr ''A'' else if m = demo_main then Inr ''M'' else Inl (Plain ''json'')),
      unmarshal = (\<lambda>t. if t = ''A'' then Inr demo_attributes else Inr demo_main),
      marshal_state = (\<lambda>s. if s = demo_state then Inr ''S'' else Inl (Plain ''json'')),
      unmarshal_state = (\<lambda>t. Inr demo_state),
      unmarshal_main = (\<lambda>t. Inr (if t = ''A'' then [] else required_providers demo_main)),
      cfg_value = (\<lambda>_. Nil_v), sprint = (\<lambda>_. ''''), q_other = (\<lambda>_. ''''), hash_hex = (\<lambda>s. s)\<rparr>"

lemma demo_js_laws: "codec_laws demo_js"
  by (auto simp: codec_laws_def demo_js_def demo_attributes_def demo_main_def required_providers_def split: if_splits)

section \<open>The state file\<close>

lemma map_of_state_attributes:
  assumes "distinct (map fst (fp_parameters fp))" and "distinct (map fst (fp_observation fp))"
  shows "map_of (state_attributes fp tf_id) k =
    (if fp_has_id fp \<and> k = ''id'' then Some (Str_v tf_id)
     else case map_of (fp_observation fp) k of Some v \<Rightarrow> Some v | None \<Rightarrow> map_of (fp_parameters fp) k)"
  using map_of_put_all [OF assms(1), of "[]"] map_of_put_all [OF assms(2)]
  by (simp add: state_attributes_def Let_def map_add_def split: option.splits)

lemma put_key_ne [simp]: "put_key k v m \<noteq> []"
  by (cases m) (auto split: if_splits)

text \<open>During deletion the state is never filled up again, so a removed resource stays removed.\<close>

lemma ensure_tf_state_deleted: "fp_deleted fp \<Longrightarrow> snd (ensure_tf_state js fl fp tf_id d) = d"
  by (simp add: ensure_tf_state_def split: sum.splits)

lemma ensure_written:
  assumes "ensure_tf_state js fl fp tf_id d = (None, d')" and "is_state_empty js fl fp d = Inr True"
    and "\<not> fp_deleted fp"
  shows "\<exists>raw s attr priv. d' = d(''terraform.tfstate'' \<mapsto> raw) \<and> marshal_state js s = Inr raw \<and>
    marshal js (state_attributes fp tf_id) = Inr attr \<and> get_attributes (Some s) = Some attr \<and>
    insert_timeouts_meta (json_codec.truncate js) (case fp_private fp of None \<Rightarrow> '''' | Some p \<Rightarrow> p) (fp_timeouts fp) = Inr priv \<and>
    get_private_raw (Some s) = priv \<and> st_lineage s = fp_uid fp"
proof -
  obtain attr where attr: "marshal js (state_attributes fp tf_id) = Inr attr"
    using assms by (auto simp: ensure_tf_state_def split: sum.splits)
  obtain priv where priv: "insert_timeouts_meta (json_codec.truncate js)
      (case fp_private fp of None \<Rightarrow> '''' | Some p \<Rightarrow> p) (fp_timeouts fp) = Inr priv"
    using assms attr by (auto simp: ensure_tf_state_def split: sum.splits)
  define rq where "rq = su_requirement (fp_setup fp)"
  define s where "s = new_state_v4\<lparr>st_tf_version := su_version (fp_setup fp), st_lineage := fp_uid fp,
      st_resources := [\<lparr>rs_mode = ''managed'', rs_type = fp_type fp, rs_name = fp_name fp,
        rs_provider = sprintf (if rq_registry rq = '''' then default_registry else rq_registry rq) [FStr (rq_source rq)],
        rs_instances = [\<lparr>in_schema_version = fp_schema_version fp, in_attributes = Some attr,
          in_sensitive = None, in_private = priv\<rparr>]\<rparr>]\<rparr>"
  have run: "ensure_tf_state js fl fp tf_id d = (case marshal_state js s of
      Inl e \<Rightarrow> (Some (WithMsg ''cannot marshal state object'' e), d)
    | Inr raw \<Rightarrow> let (e, d) = write_file fl ''terraform.tfstate'' raw d in
        (wrap_err ''cannot write terraform.tfstate file'' e, d))"
    using assms(2,3) attr priv by (simp add: ensure_tf_state_def s_def rq_def Let_def)
  obtain raw where raw: "marshal_state js s = Inr raw" using assms(1) run by (auto split: sum.splits)
  have "d' = d(''terraform.tfstate'' \<mapsto> raw)"
    using assms(1) run raw by (auto simp: write_file_def wrap_err_def split: option.splits)
  moreover have "get_attributes (Some s) = Some attr" "get_private_raw (Some s) = priv" "st_lineage s = fp_uid fp"
    by (simp_all add: s_def get_attributes_def get_private_raw_def first_instance_def new_state_v4_def)
  ultimately show ?thesis using raw attr priv by blast
qed

text \<open>
  The state file is filled exactly once: when \<open>EnsureTFState\<close> succeeds on an empty state of a
  resource that is not being deleted, the state it wrote is not empty (the ID, or for a resource
  without one some attribute, must not be empty), and calling it again changes nothing.
\<close>

lemma ensure_fills_once:
  assumes "codec_laws js" and "ensure_tf_state js fl fp tf_id d = (None, d')"
    and "is_state_empty js fl fp d = Inr True" and "\<not> fp_deleted fp"
    and "if fp_has_id fp then tf_id \<noteq> '''' else state_attributes fp tf_id \<noteq> []"
  shows "is_state_empty js fl fp d' = Inr False \<and> ensure_tf_state js fl fp other_id d' = (None, d')"
proof -
  obtain raw s attr where w: "d' = d(''terraform.tfstate'' \<mapsto> raw)" "marshal_state js s = Inr raw"
    "marshal js (state_attributes fp tf_id) = Inr attr" "get_attributes (Some s) = Some attr"
    using ensure_written [OF assms(2) assms(3) assms(4)] by blast
  have rf: "read_fault fl ''terraform.tfstate'' = None"
    using assms(3) by (auto simp: is_state_empty_def read_file_def split: option.splits)
  have us: "unmarshal_state js raw = Inr s" using assms(1) w(2) by (simp add: codec_laws_def)
  obtain m' where m': "unmarshal js attr = Inr m'" "m' = [] \<longleftrightarrow> state_attributes fp tf_id = []"
    "\<And>x. map_of (state_attributes fp tf_id) ''id'' = Some (Str_v x) \<Longrightarrow> map_of m' ''id'' = Some (Str_v x)"
    using assms(1) w(3) unfolding codec_laws_def by blast
  have "fp_has_id fp \<Longrightarrow> map_of m' ''id'' = Some (Str_v tf_id)"
    by (rule m'(3)) (simp add: state_attributes_def Let_def)
  then have e: "is_state_empty js fl fp d' = Inr False"
    using rf us w(1,4) m'(1,2) assms(5) by (auto simp: is_state_empty_def read_file_def)
  then show ?thesis by (simp add: ensure_tf_state_def)
qed

text \<open>
  \<open>init -upgrade\<close> runs exactly when the provider version changed: after \<open>WriteMainTF\<close> succeeded,
  a later setup with the same provider name needs an upgrade if and only if it asks for another
  version, and the type assertion on the provider entry does not panic.
\<close>

lemma upgrade_iff_version_changed:
  assumes "codec_laws js" and "write_main_tf js fl fp d = ((h, None), fp', d')"
    and "read_fault fl ''main.tf.json'' = None"
    and "provider_name_of (su_requirement (fp_setup gp)) = provider_name_of (su_requirement (fp_setup fp))"
  shows "need_provider_upgrade js fl gp d' =
    Some (Inr (rq_version (su_requirement (fp_setup gp)) \<noteq> rq_version (su_requirement (fp_setup fp))))"
proof -
  obtain m fq where b: "build_main_tf js fp = (m, fq)" by fastforce
  have fq: "fp_setup fq = fp_setup fp" using b by (auto simp: build_main_tf_def Let_def)
  obtain raw where raw: "marshal js m = Inr raw"
    using assms(2) b by (auto simp: write_main_tf_def split: sum.splits)
  then have d': "d' ''main.tf.json'' = Some raw"
    using assms(2) b by (auto simp: write_main_tf_def write_file_def wrap_err_def Let_def split: option.splits)
  have "unmarshal_main js raw = Inr (required_providers m)" using assms(1) raw by (simp add: codec_laws_def)
  moreover have "required_providers m = [(provider_name_of (su_requirement (fp_setup fp)),
      Map_v [(''source'', Str_v (rq_source (su_requirement (fp_setup fp)))),
        (''version'', Str_v (rq_version (su_requirement (fp_setup fp))))])]"
    using b by (auto simp: build_main_tf_def required_providers_def Let_def)
  ultimately show ?thesis
    using d' assms(3,4) by (auto simp: need_provider_upgrade_def read_file_def)
qed

end
