(* ===== verification/WorkspaceStore.thy ===== *)
theory WorkspaceStore
  imports Workspace WorkspaceFiles KeyedStore
begin

text \<open>
  The store of workspaces (\<open>pkg/terraform/store.go\<close>). A workspace pointer is an address; the
  directory of a UID survives in \<open>ws_disk\<close> until \<open>Remove\<close> deletes it. The lookup under the mutex
  and the preparation of the workspace's files are separate definitions, in the order of the code.
\<close>

record workspace_store =
  ws_map :: "string \<rightharpoonup> nat"
  ws_heap :: "nat \<Rightarrow> files workspace"
  ws_next :: nat
  ws_disk :: "string \<Rightarrow> files"
  remove_fault :: "string \<Rightarrow> gerror option"
  disable_init :: bool
  policies_enabled :: bool

definition new_workspace_store :: "(string \<Rightarrow> files) \<Rightarrow> (string \<Rightarrow> gerror option) \<Rightarrow> bool \<Rightarrow> bool \<Rightarrow> workspace_store" where
  "new_workspace_store disk rf noinit pol =
     \<lparr>ws_map = Map.empty, ws_heap = (\<lambda>_. new_workspace 0 '''' Map.empty), ws_next = 0, ws_disk = disk,
      remove_fault = rf, disable_init = noinit, policies_enabled = pol\<rparr>"

text \<open>The in-use counter of a new workspace is the no-op one, address 0.\<close>

definition get_workspace :: "string \<Rightarrow> workspace_store \<Rightarrow> nat \<times> workspace_store" where
  "get_workspace uid s =
     (case ws_map s uid of
        Some a \<Rightarrow> (a, s)
      | None \<Rightarrow>
          (ws_next s, s\<lparr>ws_map := (ws_map s)(uid \<mapsto> ws_next s), ws_next := Suc (ws_next s),
             ws_heap := (ws_heap s)(ws_next s := new_workspace 0 '''' (ws_disk s uid))\<rparr>))"

definition remove_workspace :: "string \<Rightarrow> workspace_store \<Rightarrow> gerror option \<times> workspace_store" where
  "remove_workspace uid s =
     (case ws_map s uid of
        None \<Rightarrow> (None, s)
      | Some a \<Rightarrow>
          (case remove_fault s uid of
             Some e \<Rightarrow> (Some (WithMsg ''cannot remove workspace folder'' e), s)
           | None \<Rightarrow> (None, s\<lparr>ws_map := (ws_map s)(uid := None), ws_disk := (ws_disk s)(uid := Map.empty)\<rparr>)))"

text \<open>What one call gets from its caller: the faults of the disk, the resource, its configuration.\<close>

record prepare_input =
  mkdir_err :: "gerror option"
  io_faults :: faults
  has_schema :: bool
  base_producer :: file_producer
  res_ops :: resource_ops
  get_id :: "any_map \<Rightarrow> gerror + string"
  get_import_id :: "(any_map \<Rightarrow> string \<times> gerror option) option"

text \<open>Everything after the lookup, on the workspace \<open>w\<close>; the first component is the returned pointer or nil.\<close>

definition init_workspace ::
  "(files, 'st, 'n) tf_world \<Rightarrow> faults \<Rightarrow> bool \<Rightarrow> bool \<Rightarrow> files workspace \<Rightarrow> (bool \<times> gerror option) \<times> files workspace" where
  "init_workspace env fl noinit upgrade w =
     (let init = (\<lambda>w.
            if noinit then ((True, None), w)
            else (case read_file fl ''.terraform.lock.hcl'' (ws_fs w) of
                    ReadError e \<Rightarrow> ((False, Some (WithMsg ''cannot stat init lock file'' e)), w)
                  | FileData _ \<Rightarrow> ((True, None), w)
                  | NotExist \<Rightarrow>
                      let ((out, err), w) = run_tf env ModeSync [''init'', ''-input=false''] w in
                      ((True, wrap_err (''cannot init workspace: '' @ filter_output env out) err), w))) in
      if upgrade then
        let ((out, err), w) = run_tf env ModeSync [''init'', ''-upgrade'', ''-input=false''] w in
        case err of
          Some e \<Rightarrow> ((True, Some (WithMsg (''cannot upgrade workspace: '' @ filter_output env out) e)), w)
        | None \<Rightarrow> init w
      else init w)"

definition write_workspace ::
  "tf_codec \<Rightarrow> (files, 'st, 'n) tf_world \<Rightarrow> prepare_input \<Rightarrow> bool \<Rightarrow> file_producer \<Rightarrow> string \<Rightarrow> files workspace \<Rightarrow>
     ((bool \<times> gerror option) \<times> files workspace) option" where
  "write_workspace js env inp noinit fp tf_id w =
     (let fl = io_faults inp; (e, d) = ensure_tf_state js fl fp tf_id (ws_fs w); w = w\<lparr>ws_fs := d\<rparr> in
      case e of
        Some err \<Rightarrow> Some ((False, Some (WithMsg ''cannot ensure tfstate file'' err)), w)
      | None \<Rightarrow>
          (case (if noinit then Some (Inr False) else need_provider_upgrade js fl fp (ws_fs w)) of
             None \<Rightarrow> None
           | Some (Inl err) \<Rightarrow>
               Some ((False, Some (WithMsg ''cannot check if a Terraform dependency update is required'' err)), w)
           | Some (Inr upgrade) \<Rightarrow>
               let ((h, e), fp, d) = write_main_tf js fl fp (ws_fs w); w = w\<lparr>ws_handle := h, ws_fs := d\<rparr> in
               (case e of
                  Some err \<Rightarrow> Some ((False, Some (WithMsg ''cannot write main tf file'' err)), w)
                | None \<Rightarrow> Some (init_workspace env fl noinit upgrade w))))"

definition prepare_workspace ::
  "tf_codec \<Rightarrow> (files, 'st, 'n) tf_world \<Rightarrow> prepare_input \<Rightarrow> bool \<Rightarrow> bool \<Rightarrow> files workspace \<Rightarrow>
     ((bool \<times> gerror option) \<times> files workspace) option" where
  "prepare_workspace js env inp noinit policies w =
     (if is_running (ws_op w) then Some ((True, None), w)
      else if \<not> has_schema inp then Some ((False, Some (Plain ''no Terraform schema found for resource'')), w)
      else (case new_file_producer policies (res_ops inp) (base_producer inp) of
              None \<Rightarrow> None
            | Some (Inl e) \<Rightarrow> Some ((False, Some (WithMsg ''cannot create a new file producer'' e)), w)
            | Some (Inr fp) \<Rightarrow>
                (case get_id inp (fp_parameters fp) of
                   Inl e \<Rightarrow> Some ((False, Some (WithMsg ''cannot get id'' e)), w)
                 | Inr tf_id \<Rightarrow>
                     let w = w\<lparr>terraform_id := tf_id\<rparr> in
                     (case get_import_id inp of
                        None \<Rightarrow> write_workspace js env inp noinit fp tf_id w
                      | Some f \<Rightarrow>
                          let (import_id, e) = f (fp_parameters fp); w = w\<lparr>terraform_id := import_id\<rparr> in
                          (case e of
                             Some err \<Rightarrow> Some ((False, Some (WithMsg ''cannot get id'' err)), w)
                           | None \<Rightarrow> write_workspace js env inp noinit fp tf_id w)))))"

definition store_workspace ::
  "tf_codec \<Rightarrow> (files, 'st, 'n) tf_world \<Rightarrow> prepare_input \<Rightarrow> string \<Rightarrow> workspace_store \<Rightarrow>
     ((nat option \<times> gerror option) \<times> workspace_store) option" where
  "store_workspace js env inp uid s =
     (case mkdir_err inp of
        Some e \<Rightarrow> Some ((None, Some (WithMsg ''cannot create directory for workspace'' e)), s)
      | None \<Rightarrow>
          let (a, s) = get_workspace uid s in
          map_option (\<lambda>((ok, e), w). ((if ok then Some a else None, e), s\<lparr>ws_heap := (ws_heap s)(a := w)\<rparr>))
            (prepare_workspace js env inp (disable_init s) (policies_enabled s) (ws_heap s a)))"

section \<open>The store as a keyed store\<close>

definition wstore_inv :: "workspace_store \<Rightarrow> bool" where
  "wstore_inv s \<longleftrightarrow> (\<forall>j k a. ws_map s j = Some a \<longrightarrow> ws_map s k = Some a \<longrightarrow> j = k) \<and>
     (\<forall>k a. ws_map s k = Some a \<longrightarrow> a < ws_next s)"

interpretation wss: keyed_store get_workspace remove_workspace ws_map "\<lambda>s. {..< ws_next s}" wstore_inv
proof unfold_locales
  fix s k a s'
  assume "wstore_inv s" "ws_map s k = None" "get_workspace k s = (a, s')"
  then show "a \<notin> {..< ws_next s} \<and> ws_map s' = (ws_map s)(k \<mapsto> a) \<and> {..< ws_next s'} = insert a {..< ws_next s}"
    by (auto simp: get_workspace_def)
next
  fix s k a s'
  assume i: "wstore_inv s" and g: "get_workspace k s = (a, s')"
  show "wstore_inv s'"
  proof (cases "ws_map s k")
    case None
    have "ws_map s j \<noteq> Some (ws_next s)" for j using i by (auto simp: wstore_inv_def)
    then show ?thesis using i g None
      by (auto simp: wstore_inv_def get_workspace_def less_Suc_eq split: if_splits)
  qed (use i g in \<open>simp add: get_workspace_def\<close>)
next
  fix s k r s'
  assume "wstore_inv s" "remove_workspace k s = (r, s')"
  then show "wstore_inv s'"
    by (auto simp: wstore_inv_def remove_workspace_def split: option.splits if_splits)
next
  fix s k a j
  assume "wstore_inv s" "ws_map s k = Some a" "ws_map s j = Some a"
  then show "j = k" unfolding wstore_inv_def by blast
qed (auto simp: wstore_inv_def get_workspace_def remove_workspace_def split: option.splits)

section \<open>Properties\<close>

lemma get_workspace_running:
  assumes "get_workspace uid s = (a, t)" and "is_running (ws_op (ws_heap t a))"
  shows "t = s \<and> ws_map s uid = Some a"
proof (cases "ws_map s uid")
  case None
  then show ?thesis using assms
    by (auto simp: get_workspace_def new_workspace_def is_running_def new_operation_def)
qed (use assms in \<open>auto simp: get_workspace_def\<close>)

text \<open>
  C39. Workspaces follow resources: preparing a workspace while its operation runs returns the same
  workspace and changes nothing, two UIDs never share a workspace, and once the finalizer of a
  resource is removed its workspace has left the store and a new one is a different object.
\<close>

theorem workspace_lifecycle:
  assumes "wstore_inv s" and "get_workspace uid s = (a, s1)"
  shows "(is_running (ws_op (ws_heap s1 a)) \<and> mkdir_err inp = None \<longrightarrow>
      store_workspace js env inp uid s = Some ((Some a, None), s)) \<and>
    (\<forall>uid2 b s2. uid2 \<noteq> uid \<and> get_workspace uid2 s1 = (b, s2) \<longrightarrow> b \<noteq> a) \<and>
    (\<forall>obj w r s2 w2. obj_uid obj = uid \<and> workspace_remove_finalizer remove_workspace af obj (s1, w) = (r, (s2, w2)) \<and> w2 \<noteq> w \<longrightarrow>
       ws_map s2 uid = None \<and> fst (get_workspace uid s2) \<noteq> a)"
proof (intro conjI allI impI; (elim conjE)?)
  assume "is_running (ws_op (ws_heap s1 a))" "mkdir_err inp = None"
  moreover have "s1 = s" using get_workspace_running [OF assms(2)] calculation(1) by blast
  ultimately show "store_workspace js env inp uid s = Some ((Some a, None), s)"
    using assms(2) by (simp add: store_workspace_def prepare_workspace_def)
next
  fix uid2 b s2
  assume "uid2 \<noteq> uid" "get_workspace uid2 s1 = (b, s2)"
  then show "b \<noteq> a" using wss.get_distinct [OF assms] by blast
next
  fix obj w r s2 w2
  assume u: "obj_uid obj = uid" and f: "workspace_remove_finalizer remove_workspace af obj (s1, w) = (r, (s2, w2))"
    and w: "w2 \<noteq> w"
  have i1: "wstore_inv s1" by (rule wss.get_inv [OF assms])
  show "ws_map s2 uid = None" using wss.workspace_finalizer_order [OF i1 f] w u by blast
  have "remove_workspace uid s1 = (None, s2)"
    using f w u by (auto simp: workspace_remove_finalizer_def wrap_err_def split: prod.splits option.splits)
  then show "fst (get_workspace uid s2) \<noteq> a"
    using wss.get_after_remove_fresh [OF assms] by (metis prod.collapse)
qed

theorem workspace_lifecycle_witness:
  "fst (get_workspace ''v'' (snd (get_workspace ''u'' (new_workspace_store (\<lambda>_. Map.empty) (\<lambda>_. None) True False)))) \<noteq> 0"
proof -
  let ?s = "new_workspace_store (\<lambda>_. Map.empty) (\<lambda>_. None) True False"
  have i: "wstore_inv ?s" by (simp add: wstore_inv_def new_workspace_store_def)
  have g: "get_workspace ''u'' ?s = (0, snd (get_workspace ''u'' ?s))"
    by (simp add: get_workspace_def new_workspace_store_def)
  have "get_workspace ''v'' (snd (get_workspace ''u'' ?s)) =
      (fst (get_workspace ''v'' (snd (get_workspace ''u'' ?s))), snd (get_workspace ''v'' (snd (get_workspace ''u'' ?s))))"
    by simp
  moreover have "''v'' \<noteq> ''u''" by simp
  ultimately show ?thesis
    by (intro workspace_lifecycle [OF i g, THEN conjunct2, THEN conjunct1, THEN spec, THEN spec, THEN spec, THEN mp] conjI)
qed

end
