(* ===== verification/ProviderRunner.thy ===== *)
theory ProviderRunner
  imports GoValue GoErrors
begin

text \<open>
  The runner of a shared native provider process (\<open>pkg/terraform/provider_runner.go\<close>).
  \<open>Start\<close> and \<open>Stop\<close> hold the runner's mutex; every fork leaves a goroutine behind, numbered by
  the fork, that waits for its process and finally clears the reattach configuration. What the
  process does is an input of the step: \<open>start_outcome\<close> is the branch that \<open>Start\<close>'s
  \<open>select\<close> takes; the error channel carries whatever \<open>cmd.Wait\<close> returned, nil included. A channel
  is named by the fork that made it.
\<close>

datatype start_outcome = Reattached string | StartErr "gerror option" | TimedOut

text \<open>
  A goroutine has forked its process (\<open>Forked\<close>), has reached its \<open>select\<close> with the value the
  field \<open>stopCh\<close> had then (\<open>Waiting\<close>), or has left it and is about to clear the
  configuration (\<open>Exiting\<close>).
\<close>

datatype gor_phase = Forked | Waiting "nat option" | Exiting

record shared_provider =
  provider_name :: string
  protocol_version :: nat
  reattach_config :: string
  stop_ch :: "nat option"
  signalled :: "nat set"
  goroutines :: "nat \<rightharpoonup> gor_phase"
  forks :: nat

definition new_shared_provider :: "string \<Rightarrow> nat \<Rightarrow> shared_provider" where
  "new_shared_provider nm version =
     \<lparr>provider_name = nm, protocol_version = version, reattach_config = '''', stop_ch = None,
      signalled = {}, goroutines = Map.empty, forks = 0\<rparr>"

section \<open>The reattach line\<close>

text \<open>
  The regular expression \<open>.*unix\|(.*)\|grpc.*\<close>: greedy, so the last \<open>unix|\<close> that still has a
  \<open>|grpc\<close> behind it, and the last such \<open>|grpc\<close>.
\<close>

fun before_last :: "string \<Rightarrow> string \<Rightarrow> string option" where
  "before_last pat [] = None"
| "before_last pat (c # cs) =
     (case before_last pat cs of
        Some p \<Rightarrow> Some (c # p)
      | None \<Rightarrow> if has_prefix (c # cs) pat then Some [] else None)"

fun match_reattach :: "string \<Rightarrow> string option" where
  "match_reattach [] = None"
| "match_reattach (c # cs) =
     (case match_reattach cs of
        Some a \<Rightarrow> Some a
      | None \<Rightarrow>
          if has_prefix (c # cs) ''unix|'' then before_last ''|grpc'' (drop 5 (c # cs)) else None)"

text \<open>The scan over the lines the process prints.\<close>

fun scan_reattach :: "string list \<Rightarrow> string option" where
  "scan_reattach [] = None"
| "scan_reattach (l # ls) = (case match_reattach l of None \<Rightarrow> scan_reattach ls | Some a \<Rightarrow> Some a)"

text \<open>
  What the forked process does, and the branch of \<open>select\<close> it leads to: no pipe, no process, lines
  printed until the end of the output and the result of \<open>cmd.Wait\<close>, or silence until the timeout.
\<close>

datatype process_run =
  NoPipe gerror | NoProcess gerror | Prints "string list" "gerror option" | Silent "string list"

fun select_branch :: "process_run \<Rightarrow> start_outcome" where
  "select_branch (NoPipe e) = StartErr (Some e)"
| "select_branch (NoProcess e) = StartErr (Some e)"
| "select_branch (Prints ls w) =
     (case scan_reattach ls of Some addr \<Rightarrow> Reattached addr | None \<Rightarrow> StartErr w)"
| "select_branch (Silent ls) =
     (case scan_reattach ls of Some addr \<Rightarrow> Reattached addr | None \<Rightarrow> TimedOut)"

definition quoted :: "string \<Rightarrow> string" where
  "quoted s = [CHR 0x22] @ s @ [CHR 0x22]"

definition format_reattach :: "string \<Rightarrow> nat \<Rightarrow> nat \<Rightarrow> string \<Rightarrow> string" where
  "format_reattach nm version pid addr =
     ''{'' @ quoted nm @ '':{'' @ quoted ''Protocol'' @ '':'' @ quoted ''grpc'' @ '',''
       @ quoted ''ProtocolVersion'' @ '':'' @ show_nat version @ '','' @ quoted ''Pid'' @ '':'' @ show_nat pid
       @ '','' @ quoted ''Test'' @ '': true,'' @ quoted ''Addr'' @ '':{'' @ quoted ''Network'' @ '': ''
       @ quoted ''unix'' @ '','' @ quoted ''String'' @ '': '' @ quoted addr @ ''}}}''"

section \<open>Start and Stop\<close>

definition provider_start ::
  "nat \<Rightarrow> start_outcome \<Rightarrow> shared_provider \<Rightarrow> (gerror + string) \<times> shared_provider" where
  "provider_start pid out sp =
     (if reattach_config sp \<noteq> '''' then (Inr (reattach_config sp), sp)
      else
        let g = forks sp;
            sp = sp\<lparr>stop_ch := Some g, forks := Suc g\<rparr> in
        case out of
          Reattached addr \<Rightarrow>
            let cfg = format_reattach (provider_name sp) (protocol_version sp) pid addr in
            (Inr cfg, sp\<lparr>reattach_config := cfg, goroutines := (goroutines sp)(g \<mapsto> Forked)\<rparr>)
        | StartErr e \<Rightarrow>
            (case e of None \<Rightarrow> Inr '''' | Some err \<Rightarrow> Inl err,
             sp\<lparr>goroutines := (goroutines sp)(g \<mapsto> Exiting)\<rparr>)
        | TimedOut \<Rightarrow>
            (Inl (Plain ''timed out after 1m0s while waiting for the reattach configuration string''),
             sp\<lparr>goroutines := (goroutines sp)(g \<mapsto> Forked)\<rparr>))"

definition provider_stop :: "shared_provider \<Rightarrow> gerror option \<times> shared_provider" where
  "provider_stop sp =
     (case stop_ch sp of
        None \<Rightarrow> (Some (Plain ''shared provider process not started yet''), sp)
      | Some c \<Rightarrow> (None, sp\<lparr>signalled := insert c (signalled sp), stop_ch := None\<rparr>))"

text \<open>The no-op runner.\<close>

definition noop_runner_start :: "(gerror + string)" where
  "noop_runner_start = Inr ''''"

definition noop_runner_stop :: "gerror option" where
  "noop_runner_stop = None"

section \<open>The goroutines\<close>

inductive runner_step :: "shared_provider \<Rightarrow> shared_provider \<Rightarrow> bool" where
  call_start: "runner_step s (snd (provider_start pid out s))"
| call_stop: "runner_step s (snd (provider_stop s))"
| enter_select: "goroutines s g = Some Forked \<Longrightarrow>
     runner_step s (s\<lparr>goroutines := (goroutines s)(g \<mapsto> Waiting (stop_ch s))\<rparr>)"
| process_exited: "goroutines s g = Some Forked \<or> goroutines s g = Some (Waiting c) \<Longrightarrow>
     runner_step s (s\<lparr>goroutines := (goroutines s)(g \<mapsto> Exiting)\<rparr>)"
| stop_received: "goroutines s g = Some (Waiting (Some c)) \<Longrightarrow> c \<in> signalled s \<Longrightarrow>
     runner_step s (s\<lparr>goroutines := (goroutines s)(g \<mapsto> Exiting)\<rparr>)"
| cleanup: "goroutines s g = Some Exiting \<Longrightarrow>
     runner_step s (s\<lparr>reattach_config := '''', goroutines := (goroutines s)(g := None)\<rparr>)"

inductive runner_reach :: "shared_provider \<Rightarrow> bool" where
  created: "runner_reach (new_shared_provider nm version)"
| stepped: "runner_reach s \<Longrightarrow> runner_step s t \<Longrightarrow> runner_reach t"

definition runner_inv :: "shared_provider \<Rightarrow> bool" where
  "runner_inv s \<longleftrightarrow>
     (\<forall>g. goroutines s g \<noteq> None \<longrightarrow> g < forks s) \<and>
     (\<forall>c. stop_ch s = Some c \<longrightarrow> Suc c = forks s) \<and>
     (reattach_config s \<noteq> '''' \<longrightarrow> 0 < forks s \<and> goroutines s (forks s - 1) \<noteq> None)"

lemma format_reattach_ne [simp]: "format_reattach nm version pid addr \<noteq> ''''"
  by (simp add: format_reattach_def)

lemma provider_start_inv [inv_intros]: "runner_inv s \<Longrightarrow> runner_inv (snd (provider_start pid out s))"
  by (auto simp: runner_inv_def provider_start_def Let_def split: start_outcome.splits)

lemma provider_stop_inv [inv_intros]: "runner_inv s \<Longrightarrow> runner_inv (snd (provider_stop s))"
  by (auto simp: runner_inv_def provider_stop_def split: option.splits)

lemma runner_step_inv: "runner_step s t \<Longrightarrow> runner_inv s \<Longrightarrow> runner_inv t"
proof (induction rule: runner_step.induct)
  case (enter_select s g)
  then show ?case by (auto simp: runner_inv_def)
next
  case (process_exited s g c)
  then show ?case by (auto simp: runner_inv_def)
next
  case (stop_received s g c)
  then show ?case by (auto simp: runner_inv_def)
next
  case (cleanup s g)
  then show ?case by (auto simp: runner_inv_def)
qed (auto intro: inv_intros)

lemma runner_reach_inv: "runner_reach s \<Longrightarrow> runner_inv s"
proof (induction rule: runner_reach.induct)
  case (created nm version)
  show ?case by (simp add: runner_inv_def new_shared_provider_def)
qed (rule runner_step_inv)

text \<open>
  A process that ends with status 0 before it printed a reattach line: \<open>Start\<close> reports success with
  an empty configuration.
\<close>

lemma clean_exit_reported_as_success:
  assumes "reattach_config sp = ''''" and "scan_reattach ls = None"
  shows "fst (provider_start pid (select_branch (Prints ls None)) sp) = Inr ''''"
  using assms by (simp add: provider_start_def Let_def)

text \<open>
  Whatever the processes do and however \<open>Start\<close>, \<open>Stop\<close> and the goroutines interleave, a
  runner that hands out a reattach configuration without forking still has the goroutine of its
  newest fork in charge of the process, and it forks at most when it has no configuration.
\<close>

lemma reattach_has_owner:
  assumes "runner_reach s" and "provider_start pid out s = (Inr cfg, t)"
  shows "goroutines t (forks t - 1) \<noteq> None \<and> reattach_config t = cfg \<and>
    forks t = (if reattach_config s = '''' then Suc (forks s) else forks s)"
  using runner_reach_inv [OF assms(1)] assms(2)
  by (auto simp: provider_start_def runner_inv_def Let_def split: if_splits start_outcome.splits option.splits)

text \<open>
  A process that outlives a timed-out \<open>Start\<close> breaks the sharing: its goroutine clears the
  configuration of the process that a later \<open>Start\<close> forked, so a reachable runner has a live
  process that was never stopped, has no configuration for it, and the next \<open>Start\<close> forks again.
\<close>

lemma stale_goroutine_clears_config:
  "\<exists>s. runner_reach s \<and> goroutines s 1 = Some (Waiting (Some 1)) \<and> signalled s = {} \<and>
     (\<forall>pid out. forks (snd (provider_start pid out s)) = 3)"
proof -
  let ?s0 = "new_shared_provider ''aws'' 5"
  let ?s1 = "snd (provider_start 1 TimedOut ?s0)"
  let ?s2 = "snd (provider_start 2 (Reattached ''/tmp/p'') ?s1)"
  let ?s3 = "?s2\<lparr>goroutines := (goroutines ?s2)(1 \<mapsto> Waiting (stop_ch ?s2))\<rparr>"
  let ?s4 = "?s3\<lparr>goroutines := (goroutines ?s3)(0 \<mapsto> Exiting)\<rparr>"
  let ?s5 = "?s4\<lparr>reattach_config := '''', goroutines := (goroutines ?s4)(0 := None)\<rparr>"
  have "runner_reach ?s2"
    by (blast intro: runner_reach.intros runner_step.intros)
  then have "runner_reach ?s3"
    by (rule runner_reach.stepped) (rule enter_select, simp add: provider_start_def new_shared_provider_def Let_def)
  then have "runner_reach ?s4"
    by (rule runner_reach.stepped)
      (rule process_exited, simp add: provider_start_def new_shared_provider_def Let_def)
  then have r: "runner_reach ?s5"
    by (rule runner_reach.stepped) (rule cleanup, simp)
  have "goroutines ?s5 1 = Some (Waiting (Some 1))" "signalled ?s5 = {}"
    by (simp_all add: provider_start_def new_shared_provider_def Let_def)
  moreover have "forks (snd (provider_start pid out ?s5)) = 3" for pid out
    by (simp add: provider_start_def new_shared_provider_def Let_def split: start_outcome.splits)
  ultimately show ?thesis using r by blast
qed

end
