(* ===== verification/ProviderScheduler.thy ===== *)
theory ProviderScheduler
  imports ProviderRunner
begin

text \<open>
  The schedulers of native provider processes (\<open>pkg/terraform/provider_scheduler.go\<close>). A
  scheduler entry is a pointer, so it carries its address; the runner of an entry is the
  \<open>SharedProvider\<close> of the previous theory. Every method runs under the scheduler's mutex. Go's
  \<open>int\<close> counters are integers: they count calls and do not reach \<open>2 ^ 63\<close>.
\<close>

section \<open>The reuse budget in float64 arithmetic\<close>

text \<open>
  \<open>int(float64(s.ttl)*(1+ttlMargin))\<close>: the constant \<open>1.1\<close> is the float64
  \<open>4953959590107546 / 2 ^ 52\<close>, a product is rounded to 53 significant bits (ties to even) and the
  conversion to \<open>int\<close> truncates towards zero.
\<close>

fun excess_bits :: "nat \<Rightarrow> nat" where
  "excess_bits n = (if n < 2 ^ 53 then 0 else Suc (excess_bits (n div 2)))"

declare excess_bits.simps [simp del]

definition round53 :: "nat \<Rightarrow> nat" where
  "round53 n =
     (let e = excess_bits n; q = n div 2 ^ e; r = n mod 2 ^ e in
      if 2 ^ e < 2 * r \<or> (2 ^ e = 2 * r \<and> odd q) then (q + 1) * 2 ^ e else q * 2 ^ e)"

definition budget_nat :: "nat \<Rightarrow> nat" where
  "budget_nat n = round53 (round53 n * 4953959590107546) div 2 ^ 52"

definition reuse_budget :: "int \<Rightarrow> int" where
  "reuse_budget t = (if t < 0 then - int (budget_nat (nat (- t))) else int (budget_nat (nat t)))"

section \<open>State and methods of the shared scheduler\<close>

record scheduler_entry =
  entry_addr :: nat
  runner :: shared_provider
  in_use :: int
  invocation_count :: int

record shared_scheduler =
  runners :: "string \<rightharpoonup> scheduler_entry"
  ttl :: int
  next_addr :: nat
  runner_name :: string
  runner_version :: nat

definition new_shared_provider_scheduler :: "int \<Rightarrow> string \<Rightarrow> nat \<Rightarrow> shared_scheduler" where
  "new_shared_provider_scheduler t nm version =
     \<lparr>runners = Map.empty, ttl = t, next_addr = 0, runner_name = nm, runner_version = version\<rparr>"

text \<open>\<open>InUse\<close> values; the shared one names its handle.\<close>

datatype in_use_ref = NoopInUse | ProviderInUse string | WorkspaceInUse

text \<open>\<open>Increment\<close> dereferences the entry: \<open>None\<close> is the nil dereference panic.\<close>

definition increment :: "string \<Rightarrow> shared_scheduler \<Rightarrow> shared_scheduler option" where
  "increment h s =
     (case runners s h of
        None \<Rightarrow> None
      | Some r \<Rightarrow> Some (s\<lparr>runners := (runners s)(h \<mapsto>
          r\<lparr>in_use := in_use r + 1, invocation_count := invocation_count r + 1\<rparr>)\<rparr>))"

definition decrement :: "string \<Rightarrow> shared_scheduler \<Rightarrow> shared_scheduler option" where
  "decrement h s =
     (case runners s h of
        None \<Rightarrow> None
      | Some r \<Rightarrow>
          if in_use r = 0 then Some s
          else Some (s\<lparr>runners := (runners s)(h \<mapsto> r\<lparr>in_use := in_use r - 1\<rparr>)\<rparr>))"

text \<open>
  \<open>Start\<close>: the in-use reference (nil is \<open>None\<close>), the reattach configuration and the error. The
  process id and the outcome of a fork are inputs.
\<close>

definition start_runner ::
  "string \<Rightarrow> string \<Rightarrow> nat \<Rightarrow> start_outcome \<Rightarrow> scheduler_entry \<Rightarrow> shared_scheduler \<Rightarrow>
     (in_use_ref option \<times> string \<times> gerror option) \<times> shared_scheduler" where
  "start_runner msg h pid out r s =
     (let (res, rn) = provider_start pid out (runner r);
          s = s\<lparr>runners := (runners s)(h \<mapsto> r\<lparr>runner := rn\<rparr>)\<rparr> in
      case res of
        Inl e \<Rightarrow> ((Some (ProviderInUse h), '''', wrap_err (msg @ h) (Some e)), s)
      | Inr rc \<Rightarrow> ((Some (ProviderInUse h), rc, None), s))"

definition new_entry :: "shared_scheduler \<Rightarrow> scheduler_entry" where
  "new_entry s =
     \<lparr>entry_addr = next_addr s, runner = new_shared_provider (runner_name s) (runner_version s),
      in_use = 0, invocation_count = 0\<rparr>"

definition shared_start ::
  "nat \<Rightarrow> start_outcome \<Rightarrow> string \<Rightarrow> shared_scheduler \<Rightarrow>
     (in_use_ref option \<times> string \<times> gerror option) \<times> shared_scheduler" where
  "shared_start pid out h s =
     (let fresh = (\<lambda>s. start_runner ''cannot start the shared provider runner for handle: '' h pid out
                     (new_entry s) (s\<lparr>next_addr := Suc (next_addr s)\<rparr>)) in
      case runners s h of
        None \<Rightarrow> fresh s
      | Some r \<Rightarrow>
          if invocation_count r < ttl s \<or> in_use r > 0 then
            (if invocation_count r > reuse_budget (ttl s)
             then ((None, '''', Some (new_retry_schedule_error (invocation_count r) (ttl s))), s)
             else start_runner ''cannot use already started provider with handle: '' h pid out r s)
          else
            (let (e, rn) = provider_stop (runner r);
                 s = s\<lparr>runners := (runners s)(h \<mapsto> r\<lparr>runner := rn\<rparr>)\<rparr> in
             case e of
               Some err \<Rightarrow>
                 ((None, '''', wrap_err (''cannot schedule a new shared provider for handle: '' @ h) (Some err)), s)
             | None \<Rightarrow> fresh s))"

definition shared_stop :: "string \<Rightarrow> shared_scheduler \<Rightarrow> gerror option \<times> shared_scheduler" where
  "shared_stop h s = (None, s)"

section \<open>The no-op scheduler and the workspace scheduler\<close>

definition noop_scheduler_start :: "string \<Rightarrow> in_use_ref option \<times> string \<times> gerror option" where
  "noop_scheduler_start h = (Some NoopInUse, '''', None)"

definition noop_scheduler_stop :: "string \<Rightarrow> gerror option" where
  "noop_scheduler_stop h = None"

text \<open>
  The workspace scheduler: one runner, a wait group counting the users, and the number of
  goroutines that \<open>Stop\<close> left waiting for it. \<open>Done\<close> below zero panics.
\<close>

record workspace_scheduler =
  ws_runner :: shared_provider
  wait_group :: nat
  stoppers :: nat

definition new_workspace_scheduler :: "string \<Rightarrow> nat \<Rightarrow> workspace_scheduler" where
  "new_workspace_scheduler nm version =
     \<lparr>ws_runner = new_shared_provider nm version, wait_group = 0, stoppers = 0\<rparr>"

definition ws_increment :: "workspace_scheduler \<Rightarrow> workspace_scheduler option" where
  "ws_increment s = Some (s\<lparr>wait_group := Suc (wait_group s)\<rparr>)"

definition ws_decrement :: "workspace_scheduler \<Rightarrow> workspace_scheduler option" where
  "ws_decrement s = (if wait_group s = 0 then None else Some (s\<lparr>wait_group := wait_group s - 1\<rparr>))"

definition ws_start ::
  "nat \<Rightarrow> start_outcome \<Rightarrow> workspace_scheduler \<Rightarrow> (in_use_ref option \<times> string \<times> gerror option) \<times> workspace_scheduler" where
  "ws_start pid out s =
     (let (res, rn) = provider_start pid out (ws_runner s); s = s\<lparr>ws_runner := rn\<rparr> in
      case res of
        Inl e \<Rightarrow> ((Some WorkspaceInUse, '''', wrap_err ''cannot start a workspace provider runner'' (Some e)), s)
      | Inr rc \<Rightarrow> ((Some WorkspaceInUse, rc, None), s))"

definition ws_stop :: "workspace_scheduler \<Rightarrow> gerror option \<times> workspace_scheduler" where
  "ws_stop s = (None, s\<lparr>stoppers := Suc (stoppers s)\<rparr>)"

text \<open>A goroutine of \<open>Stop\<close> passes \<open>wg.Wait()\<close> and stops the runner; its error is only logged.\<close>

definition ws_stopper_runs :: "workspace_scheduler \<Rightarrow> workspace_scheduler option" where
  "ws_stopper_runs s =
     (if stoppers s = 0 \<or> wait_group s \<noteq> 0 then None
      else Some (s\<lparr>stoppers := stoppers s - 1, ws_runner := snd (provider_stop (ws_runner s))\<rparr>))"

section \<open>The budget\<close>

lemma round53_exact: "n < 2 ^ 53 \<Longrightarrow> round53 n = n"
  by (simp add: round53_def excess_bits.simps)

lemma excess_bits_le: "n < 2 ^ (53 + k) \<Longrightarrow> excess_bits n \<le> k"
proof (induction n arbitrary: k rule: excess_bits.induct)
  case (1 n)
  show ?case
  proof (cases "n < 2 ^ 53")
    case False
    then obtain j where k: "k = Suc j" using "1.prems" by (cases k) auto
    have "n < 2 * 2 ^ (53 + j)" using "1.prems" k by (simp add: power_add)
    then have "n div 2 < 2 ^ (53 + j)" by (simp add: div_less_iff_less_mult mult.commute)
    with "1.IH" False k show ?thesis by (subst excess_bits.simps) simp
  qed (simp add: excess_bits.simps)
qed

lemma round53_bounds:
  assumes "excess_bits n \<le> 52"
  shows "n div 2 ^ 52 * 2 ^ 52 \<le> round53 n" "2 * round53 n \<le> 2 * n + 2 ^ excess_bits n"
proof -
  define m :: nat where "m = 2 ^ excess_bits n"
  have m: "m * (n div m) + n mod m = n" by simp
  have r: "round53 n = (if m < 2 * (n mod m) \<or> (m = 2 * (n mod m) \<and> odd (n div m))
      then (n div m + 1) * m else n div m * m)"
    by (simp add: round53_def m_def Let_def)
  obtain c where c: "(2::nat) ^ 52 = c * m"
    using assms by (metis dvd_def le_imp_power_dvd m_def mult.commute)
  have "n div 2 ^ 52 * c \<le> n div m"
    by (metis c div_mult2_eq mult.commute times_div_less_eq_dividend)
  then have "n div 2 ^ 52 * c * m \<le> n div m * m" by (rule mult_le_mono1)
  then have "n div 2 ^ 52 * 2 ^ 52 \<le> n div m * m" unfolding c by (simp only: mult.assoc)
  moreover have "n div m * m \<le> round53 n" unfolding r by simp
  ultimately show "n div 2 ^ 52 * 2 ^ 52 \<le> round53 n" by (rule le_trans)
  define q where "q = n div m"
  define k where "k = n mod m"
  have nq: "n = q * m + k" by (simp add: q_def k_def)
  have up: "(q + 1) * m = q * m + m" by simp
  have "2 * (if m < 2 * k \<or> (m = 2 * k \<and> odd q) then (q + 1) * m else q * m) \<le> 2 * (q * m + k) + m"
  proof (cases "m < 2 * k \<or> m = 2 * k \<and> odd q")
    case True
    then have mk: "m \<le> 2 * k" by auto
    show ?thesis unfolding up if_P [OF True] add_mult_distrib2 using mk by simp
  next
    case False
    show ?thesis unfolding if_not_P [OF False] add_mult_distrib2 by simp
  qed
  then show "2 * round53 n \<le> 2 * n + 2 ^ excess_bits n"
    unfolding m_def [symmetric] r q_def [symmetric] k_def [symmetric] nq [symmetric] .
qed

lemma budget_nat_eq:
  assumes "n < 2 ^ 32"
  shows "budget_nat n = n * 11 div 10"
proof -
  define p where "p = n * 4953959590107546"
  have e: "excess_bits p \<le> 32" using assms by (intro excess_bits_le) (simp add: p_def)
  then have m: "(2::nat) ^ excess_bits p \<le> 2 ^ 32" by (intro power_increasing) simp_all
  have lo: "p div 2 ^ 52 * 2 ^ 52 \<le> round53 p" and hi: "2 * round53 p \<le> 2 * p + 2 ^ excess_bits p"
    using round53_bounds [of p] e by simp_all
  have p: "10 * p = n * (11 * 2 ^ 52 + 4)" by (simp add: p_def)
  define t where "t = n * 11 div 10"
  have t: "10 * t \<le> 11 * n" "11 * n < 10 * t + 10" unfolding t_def by linarith+
  have "t * 2 ^ 52 \<le> p" using p t(1) by simp
  then have "t \<le> p div 2 ^ 52" by (simp add: less_eq_div_iff_mult_less_eq)
  then have "t * 2 ^ 52 \<le> round53 p" using lo by (meson le_trans mult_le_mono1)
  moreover have "round53 p < (t + 1) * 2 ^ 52" using hi m p t(2) assms by simp
  ultimately have "round53 p div 2 ^ 52 = t" by (intro div_nat_eqI) (simp_all add: algebra_simps)
  moreover have "round53 n = n" using assms by (intro round53_exact) simp
  ultimately show ?thesis by (simp add: budget_nat_def p_def t_def)
qed

lemma reuse_budget_eq: "0 \<le> t \<Longrightarrow> t < 2 ^ 32 \<Longrightarrow> reuse_budget t = t * 11 div 10"
proof -
  assume "0 \<le> t" "t < 2 ^ 32"
  moreover from this have "nat t < 2 ^ 32" by (simp add: nat_less_iff)
  ultimately show ?thesis by (simp add: reuse_budget_def budget_nat_eq zdiv_int)
qed

section \<open>Reachable schedulers\<close>

inductive sched_step :: "shared_scheduler \<Rightarrow> shared_scheduler \<Rightarrow> bool" where
  start: "sched_step s (snd (shared_start pid out h s))"
| inc: "increment h s = Some t \<Longrightarrow> sched_step s t"
| dec: "decrement h s = Some t \<Longrightarrow> sched_step s t"
| process: "runners s h = Some r \<Longrightarrow> runner_step (runner r) rn \<Longrightarrow>
     sched_step s (s\<lparr>runners := (runners s)(h \<mapsto> r\<lparr>runner := rn\<rparr>)\<rparr>)"

inductive sched_reach :: "shared_scheduler \<Rightarrow> bool" where
  created: "sched_reach (new_shared_provider_scheduler t nm version)"
| stepped: "sched_reach s \<Longrightarrow> sched_step s t \<Longrightarrow> sched_reach t"

definition entry_ok :: "nat \<Rightarrow> scheduler_entry \<Rightarrow> bool" where
  "entry_ok n r \<longleftrightarrow>
     0 \<le> in_use r \<and> in_use r \<le> invocation_count r \<and> entry_addr r < n \<and> runner_inv (runner r)"

definition sched_inv :: "shared_scheduler \<Rightarrow> bool" where
  "sched_inv s \<longleftrightarrow> (\<forall>h r. runners s h = Some r \<longrightarrow> entry_ok (next_addr s) r)"

lemma new_runner_inv [inv_intros]: "runner_inv (new_shared_provider nm version)"
  by (simp add: runner_inv_def new_shared_provider_def)

lemma entry_ok_new [inv_intros]: "entry_ok (Suc (next_addr s)) (new_entry s)"
  by (simp add: entry_ok_def new_entry_def new_runner_inv)

lemma entry_ok_mono: "entry_ok n r \<Longrightarrow> n \<le> k \<Longrightarrow> entry_ok k r"
  by (auto simp: entry_ok_def)

lemma start_runner_inv [inv_intros]:
  "sched_inv s \<Longrightarrow> entry_ok (next_addr s) r \<Longrightarrow> sched_inv (snd (start_runner m h pid out r s))"
  using provider_start_inv [of "runner r" pid out]
  by (auto simp: start_runner_def sched_inv_def entry_ok_def Let_def split: prod.splits sum.splits)

lemma sched_inv_bump: "sched_inv s \<Longrightarrow> sched_inv (s\<lparr>next_addr := Suc (next_addr s)\<rparr>)"
  by (fastforce simp: sched_inv_def intro: entry_ok_mono)

lemma shared_start_fresh_inv:
  "sched_inv s \<Longrightarrow> sched_inv (snd (start_runner m h pid out (new_entry s) (s\<lparr>next_addr := Suc (next_addr s)\<rparr>)))"
  by (rule start_runner_inv) (simp_all add: sched_inv_bump entry_ok_new)

lemma sched_inv_put:
  "sched_inv s \<Longrightarrow> entry_ok (next_addr s) r \<Longrightarrow> sched_inv (s\<lparr>runners := (runners s)(h \<mapsto> r)\<rparr>)"
  by (auto simp: sched_inv_def)

lemma shared_start_inv [inv_intros]:
  assumes "sched_inv s"
  shows "sched_inv (snd (shared_start pid out h s))"
proof (cases "runners s h")
  case None
  with assms show ?thesis by (simp add: shared_start_def Let_def shared_start_fresh_inv)
next
  case (Some r)
  then have r: "entry_ok (next_addr s) r" using assms by (auto simp: sched_inv_def)
  obtain e rn where st: "provider_stop (runner r) = (e, rn)" by fastforce
  then have "entry_ok (next_addr s) (r\<lparr>runner := rn\<rparr>)"
    using r provider_stop_inv [of "runner r"] by (simp add: entry_ok_def)
  with assms have put: "sched_inv (s\<lparr>runners := (runners s)(h \<mapsto> r\<lparr>runner := rn\<rparr>)\<rparr>)"
    by (rule sched_inv_put)
  show ?thesis
  proof (cases "invocation_count r < ttl s \<or> in_use r > 0")
    case True
    with Some assms r show ?thesis by (simp add: shared_start_def Let_def start_runner_inv)
  next
    case False
    then show ?thesis
      using Some st put shared_start_fresh_inv [OF put, of _ h pid out]
      by (cases e) (simp_all add: shared_start_def Let_def)
  qed
qed

lemma sched_step_inv: "sched_step s t \<Longrightarrow> sched_inv s \<Longrightarrow> sched_inv t"
proof (induction rule: sched_step.induct)
  case (inc h s t)
  then show ?case by (fastforce simp: increment_def sched_inv_def entry_ok_def split: option.splits if_splits)
next
  case (dec h s t)
  then show ?case by (fastforce simp: decrement_def sched_inv_def entry_ok_def split: option.splits if_splits)
next
  case (process s h r rn)
  then show ?case by (auto simp: sched_inv_def entry_ok_def dest: runner_step_inv)
qed (rule shared_start_inv)

lemma sched_reach_inv: "sched_reach s \<Longrightarrow> sched_inv s"
proof (induction rule: sched_reach.induct)
  case (created t nm version)
  show ?case by (simp add: sched_inv_def new_shared_provider_scheduler_def)
qed (rule sched_step_inv)

text \<open>Entries are replaced, never removed.\<close>

lemma start_runner_dom: "dom (runners (snd (start_runner m h pid out r s))) = insert h (dom (runners s))"
  by (auto simp: start_runner_def Let_def split: prod.splits sum.splits)

lemma shared_start_dom: "dom (runners s) \<subseteq> dom (runners (snd (shared_start pid out h s)))"
proof (cases "runners s h")
  case None
  then show ?thesis by (auto simp add: shared_start_def Let_def start_runner_dom simp del: dom_def)
next
  case (Some r)
  obtain e rn where st: "provider_stop (runner r) = (e, rn)" by fastforce
  show ?thesis
    by (cases "invocation_count r < ttl s \<or> in_use r > 0"; cases e)
      (auto simp: shared_start_def Let_def Some st start_runner_dom)
qed

lemma sched_step_dom: "sched_step s t \<Longrightarrow> dom (runners s) \<subseteq> dom (runners t)"
proof (induction rule: sched_step.induct)
  case (start s pid out h)
  show ?case by (rule shared_start_dom)
qed (auto simp: increment_def decrement_def split: option.splits if_splits)

lemma sched_steps_dom: "sched_step\<^sup>*\<^sup>* s t \<Longrightarrow> dom (runners s) \<subseteq> dom (runners t)"
proof (induction rule: rtranclp_induct)
  case (step y z)
  then show ?case using sched_step_dom order_trans by blast
qed simp

section \<open>Properties of the scheduler\<close>

text \<open>
  C10. The scheduler never stops or replaces a provider process in use: a \<open>Start\<close> for any handle
  leaves the entry of a handle with users in place, with its counters, and sends its runner no
  stop signal.
\<close>

theorem in_use_never_stopped:
  assumes "runners s h = Some r" and "in_use r > 0"
  shows "\<exists>r'. runners (snd (shared_start pid out g s)) h = Some r' \<and> entry_addr r' = entry_addr r \<and>
    in_use r' = in_use r \<and> invocation_count r' = invocation_count r \<and>
    signalled (runner r') = signalled (runner r)"
proof -
  have sig: "signalled (snd (provider_start pid out q)) = signalled q" for q
    by (simp add: provider_start_def Let_def split: start_outcome.splits)
  obtain res rn where ps: "provider_start pid out (runner r) = (res, rn)" by fastforce
  then have rn: "signalled rn = signalled (runner r)" using sig [of "runner r"] by simp
  show ?thesis
  proof (cases "g = h")
    case True
    then show ?thesis
      using assms ps rn by (cases res) (simp_all add: shared_start_def Let_def start_runner_def)
  next
    case False
    then show ?thesis
      using assms
      by (auto simp: shared_start_def Let_def start_runner_def split: option.splits prod.splits sum.splits)
  qed
qed

theorem in_use_never_stopped_witness:
  "\<exists>r'. runners (snd (shared_start 2 TimedOut ''h'' \<lparr>runners = [''h'' \<mapsto> \<lparr>entry_addr = 0,
        runner = new_shared_provider ''aws'' 5, in_use = 1, invocation_count = 9\<rparr>],
        ttl = 5, next_addr = 1, runner_name = ''aws'', runner_version = 5\<rparr>)) ''h'' = Some r' \<and> in_use r' = 1"
  using in_use_never_stopped [where h = "''h''" and g = "''h''" and pid = 2 and out = TimedOut
      and s = "\<lparr>runners = [''h'' \<mapsto> \<lparr>entry_addr = 0,
        runner = new_shared_provider ''aws'' 5, in_use = 1, invocation_count = 9\<rparr>],
        ttl = 5, next_addr = 1, runner_name = ''aws'', runner_version = 5\<rparr>"]
  by fastforce

text \<open>
  Bounded reuse: a \<open>Start\<close> that succeeds in a reachable scheduler hands out a provider whose
  invocation count is at most 110 percent of the TTL, float64 rounding included; beyond that the
  caller gets the retry error and the scheduler is unchanged.
\<close>

lemma reuse_bounded:
  assumes "sched_reach s" and "0 \<le> ttl s" and "ttl s < 2 ^ 32"
    and "shared_start pid out h s = ((ref, rc, err), t)"
  shows "(err = None \<longrightarrow> (\<exists>r. runners t h = Some r \<and> 10 * invocation_count r \<le> 11 * ttl s)) \<and>
    (\<forall>r. runners s h = Some r \<and> in_use r > 0 \<and> 11 * ttl s < 10 * invocation_count r \<longrightarrow>
       err = Some (RetrySchedule (invocation_count r) (ttl s)) \<and> ref = None \<and> t = s)"
proof -
  have b: "reuse_budget (ttl s) = ttl s * 11 div 10" using assms(2,3) by (rule reuse_budget_eq)
  have "ttl s * 11 div 10 < n \<longleftrightarrow> 11 * ttl s < 10 * n" for n by linarith
  note b = b this
  have sr: "err = None \<Longrightarrow> start_runner m h pid out r u = ((ref, rc, err), t) \<Longrightarrow>
      \<exists>r'. runners t h = Some r' \<and> invocation_count r' = invocation_count r" for m r u
    by (auto simp: start_runner_def Let_def wrap_err_def split: prod.splits sum.splits)
  have z: "invocation_count (new_entry u) = 0" for u by (simp add: new_entry_def)
  have "\<exists>r. runners t h = Some r \<and> 10 * invocation_count r \<le> 11 * ttl s" if e: "err = None"
  proof (cases "runners s h")
    case None
    then show ?thesis using assms(2,4) sr [OF e] z by (fastforce simp: shared_start_def Let_def)
  next
    case (Some r)
    obtain x rn where st: "provider_stop (runner r) = (x, rn)" by fastforce
    show ?thesis
    proof (cases "invocation_count r < ttl s \<or> in_use r > 0")
      case True
      then have small: "10 * invocation_count r \<le> 11 * ttl s"
        and run: "start_runner ''cannot use already started provider with handle: '' h pid out r s = ((ref, rc, err), t)"
        using assms(4) Some e b by (auto simp: shared_start_def Let_def not_less split: if_splits)
      from sr [OF e run] small show ?thesis by auto
    next
      case False
      then have "x = None" using assms(4) Some e st
        by (cases x) (auto simp: shared_start_def Let_def wrap_err_def)
      with False show ?thesis using assms(2,4) Some st sr [OF e] z by (fastforce simp: shared_start_def Let_def)
    qed
  qed
  moreover have "err = Some (RetrySchedule (invocation_count r) (ttl s)) \<and> ref = None \<and> t = s"
    if "runners s h = Some r" "in_use r > 0" "11 * ttl s < 10 * invocation_count r" for r
  proof -
    have "shared_start pid out h s = ((None, '''', Some (RetrySchedule (invocation_count r) (ttl s))), s)"
      using that b by (simp add: shared_start_def Let_def new_retry_schedule_error_def)
    then show ?thesis using assms(4) by simp
  qed
  ultimately show ?thesis by blast
qed

text \<open>
  No nil dereference: whoever got a reference from \<open>Start\<close> can increment and decrement it at
  any later time, and the counters of every reachable entry satisfy
  \<open>0 \<le> inUse \<le> invocationCount\<close>.
\<close>

lemma references_stay_valid:
  assumes "sched_reach s" and "shared_start pid out h s = ((Some ref, rc, err), t)"
    and "sched_step\<^sup>*\<^sup>* t u"
  shows "ref = ProviderInUse h \<and> increment h u \<noteq> None \<and> decrement h u \<noteq> None \<and>
    (\<forall>g r. runners u g = Some r \<longrightarrow> 0 \<le> in_use r \<and> in_use r \<le> invocation_count r)"
proof -
  have t: "sched_step s t" using sched_step.start [of s pid out h] assms(2) by simp
  have "sched_reach u" using assms(3,1) t
    by (induction rule: rtranclp_induct) (blast intro: sched_reach.stepped)+
  then have inv: "sched_inv u" by (rule sched_reach_inv)
  have "ref = ProviderInUse h \<and> h \<in> dom (runners t)"
    using assms(2)
    by (auto simp: shared_start_def Let_def start_runner_def split: option.splits prod.splits sum.splits if_splits)
  moreover from this have "h \<in> dom (runners u)" using sched_steps_dom [OF assms(3)] by blast
  ultimately show ?thesis
    using inv by (auto simp: increment_def decrement_def sched_inv_def entry_ok_def)
qed

text \<open>
  A reference does not keep a process alive between \<open>Start\<close> and \<open>Increment\<close>: with a TTL of 1 a
  client gets a configuration, a second client runs to completion, a third one's \<open>Start\<close> replaces
  the entry, and the first client's \<open>Increment\<close> then counts as a use of the new process while the
  configuration it holds belongs to the stopped one.
\<close>

lemma reference_outlives_process:
  "let start = (\<lambda>pid addr s. shared_start pid (Reattached addr) ''h'' s);
       (a, s1) = start 1 ''/tmp/old'' (new_shared_provider_scheduler 1 ''aws'' 5);
       (b, s2) = start 1 ''/tmp/old'' s1;
       s3 = the (decrement ''h'' (the (increment ''h'' s2)));
       (c, s4) = start 1 ''/tmp/new'' s3;
       s5 = the (increment ''h'' s4) in
   fst (snd a) = format_reattach ''aws'' 5 1 ''/tmp/old'' \<and>
   (\<exists>r. runners s5 ''h'' = Some r \<and> in_use r = 1 \<and> invocation_count r = 1 \<and> entry_addr r = 1 \<and>
      reattach_config (runner r) = format_reattach ''aws'' 5 1 ''/tmp/new'')"
  by (simp add: shared_start_def new_shared_provider_scheduler_def Let_def start_runner_def new_entry_def
      provider_start_def provider_stop_def new_shared_provider_def increment_def decrement_def)

end
