(* ===== verification/ExternalClient.thy ===== *)
theory ExternalClient
  imports WorkspaceStore AsyncCallbacks ProviderScheduler
begin

text \<open>
  The external client of the Terraform CLI runtime (\<open>pkg/controller/external.go\<close>): scheduling of a
  native provider, \<open>Observe\<close>, \<open>Import\<close>, \<open>Create\<close>, \<open>Update\<close> and \<open>Delete\<close> over a workspace, with
  \<open>SetCriticalAnnotations\<close> (\<open>pkg/resource/lateinit.go\<close>). The generated methods of the managed
  resource, the configuration's functions and the Kubernetes update are the parameter \<open>mr_ops\<close>.
\<close>

section \<open>The managed resource\<close>

record ('p, 's) managed =
  mg_annotations :: "string \<rightharpoonup> string"
  mg_conditions :: 's
  mg_observation :: any_map
  mg_params :: 'p

record ('p, 's, 'st, 'c) mr_ops =
  cond_api :: "'s condition_api"
  available :: condition
  unmarshal_attrs :: "'st \<Rightarrow> gerror + any_map"
  private_raw :: "'st \<Rightarrow> string"
  external_name_fn :: "any_map \<Rightarrow> gerror + string"
  connection_details :: "any_map \<Rightarrow> gerror + 'c"
  from_terraform :: "any_map \<Rightarrow> gerror + any_map"
  set_observation_err :: "any_map \<Rightarrow> gerror option"
  late_initialize :: "any_map \<Rightarrow> 'p \<Rightarrow> (gerror + bool) \<times> 'p"
  kube_update_err :: "gerror option"
  is_test :: bool
  use_async :: bool
  policies :: "string list"

definition annotation_or_empty :: "(string \<rightharpoonup> string) \<Rightarrow> string \<Rightarrow> string" where
  "annotation_or_empty m k = (case m k of None \<Rightarrow> '''' | Some v \<Rightarrow> v)"

definition private_raw_key :: string where
  "private_raw_key = ''upjet.crossplane.io/provider-meta''"

definition external_name_key :: string where
  "external_name_key = ''crossplane.io/external-name''"

definition set_critical_annotations ::
  "(any_map \<Rightarrow> gerror + string) \<Rightarrow> any_map \<Rightarrow> string \<Rightarrow> ('p, 's) managed \<Rightarrow> (gerror + bool) \<times> ('p, 's) managed" where
  "set_critical_annotations get_name tfstate private mg =
     (case get_name tfstate of
        Inl e \<Rightarrow> (Inl (WithMsg ''cannot get external name'' e), mg)
      | Inr nm \<Rightarrow>
          if annotation_or_empty (mg_annotations mg) private_raw_key = private \<and>
             annotation_or_empty (mg_annotations mg) external_name_key = nm
          then (Inr False, mg)
          else (Inr True, mg\<lparr>mg_annotations := (mg_annotations mg)(private_raw_key \<mapsto> private, external_name_key \<mapsto> nm)\<rparr>))"

section \<open>Scheduling a provider\<close>

text \<open>\<open>ex_stops\<close> counts the calls of the scheduler's \<open>Stop\<close> for the handle of the workspace.\<close>

record ('l) external =
  ex_scheduler :: bool
  ex_has_handler :: bool
  ex_handler :: "(string \<times> string, 'l) event_handler"
  ex_workspace :: "files workspace"
  ex_stops :: nat

definition rate_limiter_scheduler :: string where
  "rate_limiter_scheduler = ''scheduler''"

definition rate_limiter_status :: string where
  "rate_limiter_status = ''status''"

definition retry_limit :: int where
  "retry_limit = 20"

text \<open>
  \<open>start\<close> is the result of the scheduler's \<open>Start\<close>; \<open>addr\<close> names its in-use counter. The result is
  whether the request was requeued, and the error.
\<close>

definition schedule_provider ::
  "(string \<times> string, 'l) limiter_ops \<Rightarrow> (in_use_ref option \<Rightarrow> nat) \<Rightarrow> in_use_ref option \<times> string \<times> gerror option \<Rightarrow>
     string \<times> string \<Rightarrow> 'l external \<Rightarrow> (bool \<times> gerror option) \<times> 'l external" where
  "schedule_provider ops addr start nm x =
     (if \<not> ex_scheduler x then ((False, None), x)
      else
        let (inuse, cfg, err) = start in
        case err of
          Some e \<Rightarrow>
            (let (requeued, eh) =
                   (if is_retry_schedule_error e \<and> ex_has_handler x
                    then request_reconcile ops rate_limiter_scheduler nm (Some retry_limit) (ex_handler x)
                    else (False, ex_handler x));
                 x = x\<lparr>ex_handler := eh\<rparr> in
             if requeued then ((True, None), x)
             else ((False, wrap_err ''cannot schedule native Terraform provider process, please consider increasing its TTL with the --provider-ttl command-line option'' (Some e)), x))
        | None \<Rightarrow>
            (let x = (if ex_has_handler x then x\<lparr>ex_handler := eh_forget ops rate_limiter_scheduler nm (ex_handler x)\<rparr> else x) in
             ((False, None), x\<lparr>ex_workspace := use_provider (addr inuse) cfg (ex_workspace x)\<rparr>)))"

text \<open>
  \<open>stopProvider\<close>, which every call defers once its provider is scheduled, so that it runs after the
  rest of the call whatever that returns; an error of \<open>Stop\<close> is only logged.
\<close>

definition stop_provider :: "'l external \<Rightarrow> 'l external" where
  "stop_provider x = (if ex_scheduler x then x\<lparr>ex_stops := Suc (ex_stops x)\<rparr> else x)"

definition then_stop :: "'r \<times> 'm \<times> 'l external \<Rightarrow> 'r \<times> 'm \<times> 'l external" where
  "then_stop res = (let (r, mg, x) = res in (r, mg, stop_provider x))"

section \<open>Observe\<close>

record 'c observation =
  ob_exists :: bool
  ob_up_to_date :: bool
  ob_late_init :: bool
  ob_conn :: "'c option"

definition noop_observation :: "'c observation" where
  "noop_observation = \<lparr>ob_exists = True, ob_up_to_date = True, ob_late_init = False, ob_conn = None\<rparr>"

definition absent_observation :: "'c observation" where
  "absent_observation = \<lparr>ob_exists = False, ob_up_to_date = False, ob_late_init = False, ob_conn = None\<rparr>"

definition set_conditions :: "('p, 's, 'st, 'c) mr_ops \<Rightarrow> condition \<Rightarrow> ('p, 's) managed \<Rightarrow> ('p, 's) managed" where
  "set_conditions ops c mg = mg\<lparr>mg_conditions := set_condition (cond_api ops) c (mg_conditions mg)\<rparr>"

definition has_any :: "string list \<Rightarrow> string list \<Rightarrow> bool" where
  "has_any xs ys \<longleftrightarrow> list_ex (\<lambda>y. y \<in> set xs) ys"

text \<open>
  From the state attributes to the decision. \<open>saved\<close> is what the switch inspects: whether
  annotations were updated, the resource was marked available, and parameters late-initialized.
\<close>

record 'c saved =
  sv_annotations :: bool
  sv_available :: bool
  sv_late_init :: bool
  sv_conn :: 'c

definition consume_state ::
  "('p, 's, 'st, 'c) mr_ops \<Rightarrow> 'st \<Rightarrow> ('p, 's) managed \<Rightarrow> (gerror + 'c saved) \<times> ('p, 's) managed" where
  "consume_state ops st mg =
     (case unmarshal_attrs ops st of
        Inl e \<Rightarrow> (Inl (WithMsg ''cannot unmarshal state attributes'' e), mg)
      | Inr tfstate \<Rightarrow>
          let (r, mg) = set_critical_annotations (external_name_fn ops) tfstate (private_raw ops st) mg;
              late = has_any (policies ops) [''LateInitialize'', ''*''] in
          (case r of
             Inl e \<Rightarrow> (Inl (WithMsg ''cannot set critical annotations'' e), mg)
           | Inr updated \<Rightarrow>
               if updated \<and> \<not> late \<and> kube_update_err ops \<noteq> None
               then (Inl (WithMsg ''cannot update managed resource annotations'' (the (kube_update_err ops))), mg)
               else
                 let updated = (updated \<and> late) in
                 (case connection_details ops tfstate of
                    Inl e \<Rightarrow> (Inl (WithMsg ''cannot get connection details'' e), mg)
                  | Inr conn \<Rightarrow>
                      (case from_terraform ops tfstate of
                         Inl e \<Rightarrow> (Inl (WithMsg ''cannot apply terraform conversions'' e), mg)
                       | Inr tfstate \<Rightarrow>
                           (case set_observation_err ops tfstate of
                              Some e \<Rightarrow> (Inl (WithMsg ''cannot set observation'' e), mg)
                            | None \<Rightarrow>
                                let mg = mg\<lparr>mg_observation := tfstate\<rparr>;
                                    (li, ps) = (if late then late_initialize ops tfstate (mg_params mg) else (Inr False, mg_params mg));
                                    mg = mg\<lparr>mg_params := ps\<rparr> in
                                (case li of
                                   Inl e \<Rightarrow> (Inl (WithMsg ''cannot late initialize parameters'' e), mg)
                                 | Inr lateinit \<Rightarrow>
                                     (Inr \<lparr>sv_annotations = updated,
                                        sv_available = (get_condition (cond_api ops) ''Ready'' (mg_conditions mg) = Some (available ops)),
                                        sv_late_init = lateinit, sv_conn = conn\<rparr>, mg)))))))"

text \<open>The switch: annotations before status before late initialization before the plan.\<close>

definition decide ::
  "('p, 's, 'st, 'c) mr_ops \<Rightarrow> (string \<times> string, 'l) limiter_ops \<Rightarrow> (files, 'st, 'n::zero) tf_world \<Rightarrow> string \<times> string \<Rightarrow>
     'c saved \<Rightarrow> ('p, 's) managed \<Rightarrow> 'l external \<Rightarrow> (gerror + 'c observation) \<times> ('p, 's) managed \<times> 'l external" where
  "decide ops lops env nm sv mg x =
     (let seen = \<lparr>ob_exists = True, ob_up_to_date = True, ob_late_init = False, ob_conn = Some (sv_conn sv)\<rparr> in
      if sv_annotations sv then (Inr (seen\<lparr>ob_late_init := True\<rparr>), mg, x)
      else if \<not> sv_available sv then
        (Inr seen, set_conditions ops (available ops) mg,
         if ex_has_handler x
         then x\<lparr>ex_handler := snd (request_reconcile lops rate_limiter_status nm None (ex_handler x))\<rparr> else x)
      else if sv_late_init sv then (Inr (seen\<lparr>ob_late_init := True\<rparr>), mg, x)
      else
        let x = (if ex_has_handler x then x\<lparr>ex_handler := eh_forget lops rate_limiter_status nm (ex_handler x)\<rparr> else x);
            (r, w) = plan env (ex_workspace x); x = x\<lparr>ex_workspace := w\<rparr> in
        case r of
          Inl e \<Rightarrow> (Inl (WithMsg ''cannot run plan'' e), mg, x)
        | Inr p \<Rightarrow>
            (Inr (seen\<lparr>ob_up_to_date := plan_up_to_date p\<rparr>),
             mg\<lparr>mg_conditions := set_up_to_date_condition (cond_api ops) (is_test ops) (plan_up_to_date p) (mg_conditions mg)\<rparr>, x))"

definition import_observe ::
  "('p, 's, 'st, 'c) mr_ops \<Rightarrow> (files, 'st, 'n) tf_world \<Rightarrow> string \<Rightarrow> string \<Rightarrow>
     ('p, 's) managed \<Rightarrow> 'l external \<Rightarrow> (gerror + 'c observation) \<times> ('p, 's) managed \<times> 'l external" where
  "import_observe ops env rtype rname mg x =
     (let (r, w) = import_resource env rtype rname (ex_workspace x); x = x\<lparr>ex_workspace := w\<rparr> in
      case r of
        Inl e \<Rightarrow> (Inl (WithMsg ''cannot run import'' e), mg, x)
      | Inr res \<Rightarrow>
          if in_progress res then (Inr noop_observation, set_conditions ops async_operation_ongoing_condition mg, x)
          else if \<not> res_exists res then (Inr absent_observation, mg, x)
          else (case unmarshal_attrs ops (the (res_state res)) of
                  Inl e \<Rightarrow> (Inl (WithMsg ''cannot unmarshal state attributes'' e), mg, x)
                | Inr tfstate \<Rightarrow>
                    (case connection_details ops tfstate of
                       Inl e \<Rightarrow> (Inl (WithMsg ''cannot get connection details'' e), mg, x)
                     | Inr conn \<Rightarrow>
                         (case from_terraform ops tfstate of
                            Inl e \<Rightarrow> (Inl (WithMsg ''cannot apply terraform conversions when importing'' e), mg, x)
                          | Inr tfstate \<Rightarrow>
                              (case set_observation_err ops tfstate of
                                 Some e \<Rightarrow> (Inl (WithMsg ''cannot set observation when importing'' e), mg, x)
                               | None \<Rightarrow>
                                   (Inr \<lparr>ob_exists = True, ob_up_to_date = True, ob_late_init = False, ob_conn = Some conn\<rparr>,
                                    set_conditions ops (available ops) (mg\<lparr>mg_observation := tfstate\<rparr>), x))))))"

text \<open>From the refresh of the workspace on.\<close>

definition observe_refreshed ::
  "('p, 's, 'st, 'c) mr_ops \<Rightarrow> (string \<times> string, 'l) limiter_ops \<Rightarrow> (files, 'st, 'n::zero) tf_world \<Rightarrow> string \<times> string \<Rightarrow>
     ('p, 's) managed \<Rightarrow> 'l external \<Rightarrow> (gerror + 'c observation) \<times> ('p, 's) managed \<times> 'l external" where
  "observe_refreshed ops lops env nm mg x =
     (let (r, w) = refresh env (ex_workspace x); x = x\<lparr>ex_workspace := w\<rparr> in
      case r of
        Inl e \<Rightarrow> (Inl (WithMsg ''cannot run refresh'' e), mg, x)
      | Inr res \<Rightarrow>
          if in_progress res then (Inr noop_observation, set_conditions ops async_operation_ongoing_condition mg, x)
          else if \<not> res_exists res then (Inr absent_observation, mg, x)
          else
            let mg = (if use_async ops then set_conditions ops async_operation_finished_condition mg else mg);
                (s, mg) = consume_state ops (the (res_state res)) mg in
            (case s of
               Inl e \<Rightarrow> (Inl e, mg, x)
             | Inr sv \<Rightarrow> decide ops lops env nm sv mg x))"

definition observe ::
  "('p, 's, 'st, 'c) mr_ops \<Rightarrow> (string \<times> string, 'l) limiter_ops \<Rightarrow> (files, 'st, 'n::zero) tf_world \<Rightarrow>
     (in_use_ref option \<Rightarrow> nat) \<Rightarrow> in_use_ref option \<times> string \<times> gerror option \<Rightarrow> string \<Rightarrow> string \<Rightarrow> string \<Rightarrow> string \<times> string \<Rightarrow>
     ('p, 's) managed \<Rightarrow> 'l external \<Rightarrow> (gerror + 'c observation) \<times> ('p, 's) managed \<times> 'l external" where
  "observe ops lops env addr start uid rtype rname nm mg x =
     (let ((requeued, err), x) = schedule_provider lops addr start nm x in
      case err of
        Some e \<Rightarrow> (Inl (WithMsg (''cannot schedule a native provider during observe: '' @ uid) e), mg, x)
      | None \<Rightarrow>
          if requeued then (Inr noop_observation, mg, x)
          else then_stop
            (if \<not> has_any (policies ops) [''Create'', ''Update'', ''*''] then import_observe ops env rtype rname mg x
             else observe_refreshed ops lops env nm mg x))"

section \<open>Create, Update and Delete\<close>

text \<open>Whether the schedule step lets the call go on; the texts differ by the verb.\<close>

definition scheduled ::
  "string \<Rightarrow> string \<Rightarrow> (bool \<times> gerror option) \<times> 'l external \<Rightarrow> ('l external \<Rightarrow> (gerror + 'r) \<times> 'm \<times> 'l external) \<Rightarrow>
     'r \<Rightarrow> 'm \<Rightarrow> (gerror + 'r) \<times> 'm \<times> 'l external" where
  "scheduled verb uid sch go noop mg =
     (let ((requeued, err), x) = sch in
      case err of
        Some e \<Rightarrow> (Inl (WithMsg (''cannot schedule a native provider during '' @ verb @ '': '' @ uid) e), mg, x)
      | None \<Rightarrow> if requeued then (Inr noop, mg, x) else then_stop (go x))"

definition lift_err :: "gerror option \<Rightarrow> 'r \<Rightarrow> gerror + 'r" where
  "lift_err e r = (case e of None \<Rightarrow> Inr r | Some x \<Rightarrow> Inl x)"

definition create_resource ::
  "('p, 's, 'st, 'c) mr_ops \<Rightarrow> (files, 'st, 'n) tf_world \<Rightarrow> time \<Rightarrow> string \<Rightarrow> (bool \<times> gerror option) \<times> 'l external \<Rightarrow>
     ('p, 's) managed \<Rightarrow> (gerror + 'c option) \<times> ('p, 's) managed \<times> 'l external" where
  "create_resource ops env now uid sch mg =
     scheduled ''create'' uid sch (\<lambda>x.
       if use_async ops then
         let (e, w) = apply_async env now (ex_workspace x) in
         (lift_err (wrap_err ''cannot start async apply'' e) None, mg, x\<lparr>ex_workspace := w\<rparr>)
       else
         let (r, w) = apply_sync env (ex_workspace x); x = x\<lparr>ex_workspace := w\<rparr> in
         case r of
           Inl e \<Rightarrow> (Inl (WithMsg ''cannot apply'' e), mg, x)
         | Inr st \<Rightarrow>
             (case unmarshal_attrs ops st of
                Inl e \<Rightarrow> (Inl (WithMsg ''cannot unmarshal state attributes'' e), mg, x)
              | Inr tfstate \<Rightarrow>
                  (case connection_details ops tfstate of
                     Inl e \<Rightarrow> (Inl (WithMsg ''cannot get connection details'' e), mg, x)
                   | Inr conn \<Rightarrow>
                       let (a, mg) = set_critical_annotations (external_name_fn ops) tfstate (private_raw ops st) mg in
                       (case a of
                          Inl e \<Rightarrow> (Inl (WithMsg ''cannot set critical annotations'' e), mg, x)
                        | Inr _ \<Rightarrow> (Inr (Some conn), mg, x))))) None mg"

definition update_resource ::
  "('p, 's, 'st, 'c) mr_ops \<Rightarrow> (files, 'st, 'n) tf_world \<Rightarrow> time \<Rightarrow> string \<Rightarrow> (bool \<times> gerror option) \<times> 'l external \<Rightarrow>
     ('p, 's) managed \<Rightarrow> (gerror + unit) \<times> ('p, 's) managed \<times> 'l external" where
  "update_resource ops env now uid sch mg =
     scheduled ''update'' uid sch (\<lambda>x.
       if use_async ops then
         let (e, w) = apply_async env now (ex_workspace x) in
         (lift_err (wrap_err ''cannot start async apply'' e) (), mg, x\<lparr>ex_workspace := w\<rparr>)
       else
         let (r, w) = apply_sync env (ex_workspace x); x = x\<lparr>ex_workspace := w\<rparr> in
         case r of
           Inl e \<Rightarrow> (Inl (WithMsg ''cannot apply'' e), mg, x)
         | Inr st \<Rightarrow>
             (case unmarshal_attrs ops st of
                Inl e \<Rightarrow> (Inl (WithMsg ''cannot unmarshal state attributes'' e), mg, x)
              | Inr tfstate \<Rightarrow>
                  (case from_terraform ops tfstate of
                     Inl e \<Rightarrow> (Inl (WithMsg ''cannot apply terraform conversions'' e), mg, x)
                   | Inr tfstate \<Rightarrow>
                       (case set_observation_err ops tfstate of
                          Some e \<Rightarrow> (Inl (WithMsg ''cannot set observation'' e), mg, x)
                        | None \<Rightarrow> (Inr (), mg\<lparr>mg_observation := tfstate\<rparr>, x))))) () mg"

definition delete_resource ::
  "('p, 's, 'st, 'c) mr_ops \<Rightarrow> (files, 'st, 'n) tf_world \<Rightarrow> time \<Rightarrow> string \<Rightarrow> (bool \<times> gerror option) \<times> 'l external \<Rightarrow>
     ('p, 's) managed \<Rightarrow> (gerror + unit) \<times> ('p, 's) managed \<times> 'l external" where
  "delete_resource ops env now uid sch mg =
     scheduled ''delete'' uid sch (\<lambda>x.
       if use_async ops then
         let (e, w) = destroy_async env now (ex_workspace x) in
         (lift_err (wrap_err ''cannot start async destroy'' e) (), mg, x\<lparr>ex_workspace := w\<rparr>)
       else
         let (e, w) = destroy_sync env (ex_workspace x) in
         (lift_err (wrap_err ''cannot destroy'' e) (), mg, x\<lparr>ex_workspace := w\<rparr>)) () mg"

section \<open>A concrete client\<close>

text \<open>The parameters instantiated, for the witnesses below.\<close>

definition demo_env :: "(files, string, nat) tf_world" where
  "demo_env =
     \<lparr>run_cli = (\<lambda>_ _ d. ((change_summary_mark, None), d)), read_tfstate = (\<lambda>_. Inr ''vpc-1''),
      remove_tfstate = (\<lambda>d. (None, False, d)), unmarshal_state = (\<lambda>s. Inr s), has_attributes = (\<lambda>_. True),
      unmarshal_plan = (\<lambda>_. Inr (0, 1)), decode_log = (\<lambda>_. Inl (Plain ''no log'')), filter_output = (\<lambda>s. s),
      show_time = show_nat\<rparr>"

definition demo_ops :: "(unit, string \<rightharpoonup> condition, string, unit) mr_ops" where
  "demo_ops =
     \<lparr>cond_api = map_api, available = \<lparr>cond_type = ''Ready'', cond_status = ''True'', cond_reason = ''Available'', cond_message = ''''\<rparr>,
      unmarshal_attrs = (\<lambda>s. Inr [(''id'', Str_v s)]), private_raw = (\<lambda>_. ''meta''), external_name_fn = (\<lambda>_. Inr ''vpc-1''),
      connection_details = (\<lambda>_. Inr ()), from_terraform = (\<lambda>m. Inr m), set_observation_err = (\<lambda>_. None),
      late_initialize = (\<lambda>_ p. (Inr False, p)), kube_update_err = None, is_test = False, use_async = True,
      policies = [''*'']\<rparr>"

definition demo_managed :: "(unit, string \<rightharpoonup> condition) managed" where
  "demo_managed =
     \<lparr>mg_annotations = [private_raw_key \<mapsto> ''meta'', external_name_key \<mapsto> ''vpc-1''],
      mg_conditions = [''Ready'' \<mapsto> available demo_ops], mg_observation = [], mg_params = ()\<rparr>"

definition demo_external :: "files workspace \<Rightarrow> (string \<times> string \<Rightarrow> nat) external" where
  "demo_external w =
     \<lparr>ex_scheduler = True, ex_has_handler = False, ex_handler = new_event_handler None (\<lambda>_ _. 0) 0, ex_workspace = w,
      ex_stops = 0\<rparr>"

lemmas demo_defs = demo_env_def demo_ops_def demo_managed_def demo_external_def

section \<open>Properties\<close>

lemma schedule_provider_workspace:
  "schedule_provider lops addr start nm x = (r, x') \<Longrightarrow>
     ws_op (ex_workspace x') = ws_op (ex_workspace x) \<and> cli_log (ex_workspace x') = cli_log (ex_workspace x) \<and>
     ws_tasks (ex_workspace x') = ws_tasks (ex_workspace x)"
  by (auto simp: schedule_provider_def use_provider_def Let_def split: prod.splits if_splits option.splits)

lemma stop_provider_keeps [simp]:
  "ex_workspace (stop_provider x) = ex_workspace x" "ex_scheduler (stop_provider x) = ex_scheduler x"
  by (simp_all add: stop_provider_def)

lemma refresh_running: "is_running (ws_op w) \<Longrightarrow> refresh env w = (Inr (running_result (ws_op w)), w)"
  by (simp add: refresh_def)

lemma import_running: "is_running (ws_op w) \<Longrightarrow> import_resource env rtype rname w = (Inr (running_result (ws_op w)), w)"
  by (simp add: import_resource_def)

lemma running_in_progress:
  "ws_reach env w \<Longrightarrow> is_running (ws_op w) \<Longrightarrow> in_progress (running_result (ws_op w))"
  using ws_reach_kind [of env w] by (auto simp: running_kind_ok_def running_result_def)

text \<open>
  C28. Observing during an asynchronous operation is harmless: in every reachable workspace with a
  running operation, and whatever the provider scheduler answers, \<open>Observe\<close> runs no CLI command,
  leaves the operation and its goroutine alone, and reports the resource as existing and up to
  date (so the reconciler neither creates nor updates it) unless the scheduler's error is returned.
\<close>

theorem observe_during_operation:
  assumes "ws_reach env (ex_workspace x)" and "is_running (ws_op (ex_workspace x))"
    and "observe ops lops env addr start uid rtype rname nm mg x = (r, mg', x')"
  shows "cli_log (ex_workspace x') = cli_log (ex_workspace x) \<and> ws_op (ex_workspace x') = ws_op (ex_workspace x) \<and>
    ws_tasks (ex_workspace x') = ws_tasks (ex_workspace x) \<and>
    (r = Inr noop_observation \<or>
     (\<exists>e. snd (fst (schedule_provider lops addr start nm x)) = Some e \<and>
        r = Inl (WithMsg (''cannot schedule a native provider during observe: '' @ uid) e)))"
proof -
  obtain rq err x1 where sch: "schedule_provider lops addr start nm x = ((rq, err), x1)" by (metis prod.collapse)
  note frame = schedule_provider_workspace [OF sch]
  have run: "is_running (ws_op (ex_workspace x1))" using assms(2) frame by simp
  show ?thesis
    using assms(3) sch frame running_in_progress [OF assms(1,2)] refresh_running [OF run, of env] import_running [OF run, of env rtype rname]
    by (auto simp: observe_def observe_refreshed_def then_stop_def import_observe_def Let_def split: option.splits if_splits)
qed

theorem observe_during_operation_witness:
  "fst (observe demo_ops counting_ops demo_env (\<lambda>_. 0) (Some NoopInUse, ''cfg'', None) ''u'' ''aws_vpc'' ''v'' (''ns'', ''v'')
      demo_managed (demo_external (snd (apply_async demo_env 3 (new_workspace 0 ''id'' Map.empty))))) = Inr noop_observation"
proof -
  let ?x = "demo_external (snd (apply_async demo_env 3 (new_workspace 0 ''id'' Map.empty)))"
  let ?r = "observe demo_ops counting_ops demo_env (\<lambda>_. 0) (Some NoopInUse, ''cfg'', None) ''u'' ''aws_vpc'' ''v'' (''ns'', ''v'') demo_managed ?x"
  have reach: "ws_reach demo_env (ex_workspace ?x)"
    by (simp add: demo_external_def) (intro ws_reach.stepped [OF ws_reach.created do_apply_async])
  have run: "is_running (ws_op (ex_workspace ?x))"
    by (simp add: demo_external_def apply_async_def new_workspace_def mark_start_def new_operation_def is_running_def Let_def)
  have r: "?r = (fst ?r, fst (snd ?r), snd (snd ?r))" by simp
  have s: "snd (fst (schedule_provider counting_ops (\<lambda>_. 0) (Some NoopInUse, ''cfg'', None) (''ns'', ''v'') ?x)) = None"
    by (simp add: schedule_provider_def demo_external_def)
  show ?thesis using observe_during_operation [OF reach run r] s by simp
qed

lemma set_critical_annotations_match:
  "set_critical_annotations f tfstate private mg = (Inr b, mg') \<Longrightarrow>
     \<exists>nm. f tfstate = Inr nm \<and> annotation_or_empty (mg_annotations mg') private_raw_key = private \<and>
       annotation_or_empty (mg_annotations mg') external_name_key = nm"
  by (auto simp: set_critical_annotations_def annotation_or_empty_def private_raw_key_def external_name_key_def
      split: sum.splits if_splits)

lemma set_conditions_annotations [simp]: "mg_annotations (set_conditions ops c mg) = mg_annotations mg"
  by (simp add: set_conditions_def)

text \<open>Every provider that an observation starts is stopped again, exactly once and only then.\<close>

lemma observe_stops:
  assumes "observe ops lops env addr start uid rtype rname nm mg x = (r, mg', x')"
  shows "ex_stops x' = ex_stops x +
    (if ex_scheduler x \<and> fst (schedule_provider lops addr start nm x) = (False, None) then 1 else 0)"
proof -
  obtain rq err x1 where sch: "schedule_provider lops addr start nm x = ((rq, err), x1)" by (metis prod.collapse)
  then have frame: "ex_stops x1 = ex_stops x" "ex_scheduler x1 = ex_scheduler x"
    by (auto simp: schedule_provider_def Let_def split: prod.splits if_splits option.splits)
  have imp: "ex_stops x2 = ex_stops x1 \<and> ex_scheduler x2 = ex_scheduler x1"
    if "import_observe ops env rtype rname mg x1 = (r, mg', x2)" for x2
    using that by (auto simp: import_observe_def Let_def split: prod.splits sum.splits option.splits if_splits)
  have dec: "ex_stops x2 = ex_stops y \<and> ex_scheduler x2 = ex_scheduler y"
    if "decide ops lops env nm sv mgd y = (r, mg', x2)" for sv mgd y x2
    using that by (auto simp: decide_def Let_def split: prod.splits sum.splits option.splits if_splits)
  have ref: "ex_stops x2 = ex_stops x1 \<and> ex_scheduler x2 = ex_scheduler x1"
    if "observe_refreshed ops lops env nm mg x1 = (r, mg', x2)" for x2
    using that by (auto simp: observe_refreshed_def Let_def dest!: dec split: prod.splits sum.splits if_splits)
  show ?thesis
    using assms sch frame
    by (auto simp: observe_def then_stop_def stop_provider_def Let_def dest!: imp ref split: option.splits if_splits prod.splits)
qed

text \<open>The annotations of a resource hold the external name and the private data of a state.\<close>

definition annotated :: "('p, 's, 'st, 'c) mr_ops \<Rightarrow> 'st \<Rightarrow> string \<Rightarrow> ('p, 's) managed \<Rightarrow> bool" where
  "annotated ops st nm mg \<longleftrightarrow>
     annotation_or_empty (mg_annotations mg) private_raw_key = private_raw ops st \<and>
     annotation_or_empty (mg_annotations mg) external_name_key = nm"

lemma annotated_conditions [simp]: "annotated ops st nm (mg\<lparr>mg_conditions := s\<rparr>) = annotated ops st nm mg"
  by (simp add: annotated_def)

lemma set_critical_annotations_effect:
  assumes "set_critical_annotations (external_name_fn ops) tfstate (private_raw ops st) mg = (Inr b, mg')"
  shows "\<exists>nm. external_name_fn ops tfstate = Inr nm \<and> annotated ops st nm mg' \<and> (b \<longleftrightarrow> \<not> annotated ops st nm mg)"
    and "mg_conditions mg' = mg_conditions mg" and "mg_params mg' = mg_params mg"
proof -
  show "\<exists>nm. external_name_fn ops tfstate = Inr nm \<and> annotated ops st nm mg' \<and> (b \<longleftrightarrow> \<not> annotated ops st nm mg)"
    using assms set_critical_annotations_match [OF assms]
    by (auto simp: set_critical_annotations_def annotated_def split: sum.splits if_splits)
  show "mg_conditions mg' = mg_conditions mg" "mg_params mg' = mg_params mg"
    using assms by (auto simp: set_critical_annotations_def split: sum.splits if_splits)
qed

abbreviation late_policy :: "('p, 's, 'st, 'c) mr_ops \<Rightarrow> bool" where
  "late_policy ops \<equiv> has_any (policies ops) [''LateInitialize'', ''*'']"

text \<open>
  What was recorded of a state: the name and the private data are in the annotations, which have been
  saved when a late initialization cannot do it; the state is the observation; and the parameters are
  what late initialization makes of those before, when the policies allow it.
\<close>

lemma consume_state_saved:
  assumes "consume_state ops st mg = (Inr sv, mg')"
  shows "\<exists>tfstate nm tf. unmarshal_attrs ops st = Inr tfstate \<and> external_name_fn ops tfstate = Inr nm \<and>
      annotated ops st nm mg' \<and> (sv_annotations sv \<longleftrightarrow> late_policy ops \<and> \<not> annotated ops st nm mg) \<and>
      (late_policy ops \<or> annotated ops st nm mg \<or> kube_update_err ops = None) \<and>
      from_terraform ops tfstate = Inr tf \<and> mg_observation mg' = tf \<and>
      (if late_policy ops then late_initialize ops tf (mg_params mg) = (Inr (sv_late_init sv), mg_params mg')
       else \<not> sv_late_init sv \<and> mg_params mg' = mg_params mg)"
    and "sv_available sv = (get_condition (cond_api ops) ''Ready'' (mg_conditions mg') = Some (available ops))"
    and "mg_conditions mg' = mg_conditions mg"
proof -
  obtain tfstate where u: "unmarshal_attrs ops st = Inr tfstate"
    using assms by (auto simp: consume_state_def split: sum.splits)
  obtain a mg1 where a: "set_critical_annotations (external_name_fn ops) tfstate (private_raw ops st) mg = (a, mg1)"
    by fastforce
  obtain b where b: "a = Inr b"
    using assms u a by (cases a) (auto simp: consume_state_def)
  note eff = set_critical_annotations_effect [OF a [unfolded b]]
  have rest: "(late_policy ops \<or> \<not> b \<or> kube_update_err ops = None) \<and>
    (\<exists>tf. from_terraform ops tfstate = Inr tf \<and> mg_observation mg' = tf \<and>
      (if late_policy ops then late_initialize ops tf (mg_params mg) = (Inr (sv_late_init sv), mg_params mg')
       else \<not> sv_late_init sv \<and> mg_params mg' = mg_params mg)) \<and>
    mg_annotations mg' = mg_annotations mg1 \<and> mg_conditions mg' = mg_conditions mg1 \<and>
    sv_annotations sv = (b \<and> late_policy ops) \<and>
    sv_available sv = (get_condition (cond_api ops) ''Ready'' (mg_conditions mg') = Some (available ops))"
    using assms u a b eff(3)
    by (auto simp: consume_state_def Let_def split: if_splits sum.splits option.splits prod.splits)
  then show "\<exists>tfstate nm tf. unmarshal_attrs ops st = Inr tfstate \<and> external_name_fn ops tfstate = Inr nm \<and>
      annotated ops st nm mg' \<and> (sv_annotations sv \<longleftrightarrow> late_policy ops \<and> \<not> annotated ops st nm mg) \<and>
      (late_policy ops \<or> annotated ops st nm mg \<or> kube_update_err ops = None) \<and>
      from_terraform ops tfstate = Inr tf \<and> mg_observation mg' = tf \<and>
      (if late_policy ops then late_initialize ops tf (mg_params mg) = (Inr (sv_late_init sv), mg_params mg')
       else \<not> sv_late_init sv \<and> mg_params mg' = mg_params mg)"
    using eff(1) u by (auto simp: annotated_def)
  show "sv_available sv = (get_condition (cond_api ops) ''Ready'' (mg_conditions mg') = Some (available ops))"
    "mg_conditions mg' = mg_conditions mg" using rest eff(2) by simp_all
qed

lemma decide_update:
  assumes "decide ops lops env nm sv mg x = (Inr o1, mg', x')" and "\<not> ob_up_to_date o1"
  shows "\<not> ob_late_init o1 \<and> \<not> sv_annotations sv \<and> sv_available sv \<and> \<not> sv_late_init sv \<and>
    mg_annotations mg' = mg_annotations mg \<and> mg_params mg' = mg_params mg \<and> mg_observation mg' = mg_observation mg \<and>
    (\<exists>p w. plan env (ex_workspace x) = (Inr p, w) \<and> \<not> plan_up_to_date p)"
  using assms by (auto simp: decide_def Let_def split: if_splits sum.splits prod.splits)

lemma observe_refreshed_update:
  assumes "observe_refreshed ops lops env nm mg x = (Inr o1, mg', x')" "ob_exists o1" "\<not> ob_up_to_date o1"
    and "refresh env (ex_workspace x) = (r, w)"
  shows "\<exists>res sv mg1. r = Inr res \<and> \<not> in_progress res \<and> res_exists res \<and>
    consume_state ops (the (res_state res))
      (if use_async ops then set_conditions ops async_operation_finished_condition mg else mg) = (Inr sv, mg1) \<and>
    decide ops lops env nm sv mg1 (x\<lparr>ex_workspace := w\<rparr>) = (Inr o1, mg', x')"
proof (cases r)
  case (Inr res)
  let ?mg = "if use_async ops then set_conditions ops async_operation_finished_condition mg else mg"
  obtain s mg1 where c: "consume_state ops (the (res_state res)) ?mg = (s, mg1)" by fastforce
  have "\<not> in_progress res \<and> res_exists res \<and>
      (case s of Inl e \<Rightarrow> (Inl e, mg1, x\<lparr>ex_workspace := w\<rparr>)
       | Inr sv \<Rightarrow> decide ops lops env nm sv mg1 (x\<lparr>ex_workspace := w\<rparr>)) = (Inr o1, mg', x')"
    using assms c Inr
    by (cases "use_async ops") (auto simp: observe_refreshed_def noop_observation_def absent_observation_def Let_def split: if_split_asm)
  with Inr c show ?thesis by (cases s) auto
qed (use assms in \<open>simp add: observe_refreshed_def\<close>)

text \<open>
  C27. An update is asked for only after everything observed has been recorded. When \<open>Observe\<close> of a
  resource that is not import-only reports it as existing but not up to date, it has refreshed the
  workspace, and with the refreshed state: before the call the resource was already marked available;
  its annotations already held the external name and the private data of that state, or, when the
  policies exclude late initialization, have been saved by an update in this call; late initialization
  with that state, when allowed, had nothing to fill in; the state is the observation of the resource;
  and the plan that was run on the refreshed workspace found changes.
\<close>

theorem update_after_recording:
  assumes "observe ops lops env addr start uid rtype rname nm mg x = (Inr o1, mg', x')"
    and "ob_exists o1" and "\<not> ob_up_to_date o1" and "condition_laws (cond_api ops)"
  shows "\<not> ob_late_init o1 \<and>
    (\<exists>x1 res w st tfstate name tf p w'. schedule_provider lops addr start nm x = ((False, None), x1) \<and>
       refresh env (ex_workspace x1) = (Inr res, w) \<and> \<not> in_progress res \<and> res_exists res \<and> st = the (res_state res) \<and>
       unmarshal_attrs ops st = Inr tfstate \<and> external_name_fn ops tfstate = Inr name \<and> from_terraform ops tfstate = Inr tf \<and>
       get_condition (cond_api ops) ''Ready'' (mg_conditions mg) = Some (available ops) \<and>
       annotated ops st name mg' \<and>
       (annotated ops st name mg \<or> \<not> late_policy ops \<and> kube_update_err ops = None) \<and>
       (if late_policy ops then late_initialize ops tf (mg_params mg) = (Inr False, mg_params mg')
        else mg_params mg' = mg_params mg) \<and>
       mg_observation mg' = tf \<and> plan env w = (Inr p, w') \<and> \<not> plan_up_to_date p)"
proof -
  obtain rq err x1 where sch: "schedule_provider lops addr start nm x = ((rq, err), x1)" by (metis prod.collapse)
  have not_import: "\<not> (\<exists>x2. import_observe ops env rtype rname mg x1 = (Inr o1, mg', x2))"
    using assms(2,3)
    by (auto simp: import_observe_def noop_observation_def absent_observation_def Let_def
        split: prod.splits sum.splits option.splits if_splits)
  have go: "\<not> rq" "err = None" "\<exists>x2. observe_refreshed ops lops env nm mg x1 = (Inr o1, mg', x2)"
    using assms(1,3) sch not_import
    by (auto simp: observe_def then_stop_def noop_observation_def Let_def split: option.splits if_splits prod.splits)
  obtain r w where ref: "refresh env (ex_workspace x1) = (r, w)" by fastforce
  let ?mg = "if use_async ops then set_conditions ops async_operation_finished_condition mg else mg"
  obtain res sv mg1 x2 where *: "r = Inr res" "\<not> in_progress res" "res_exists res"
    "consume_state ops (the (res_state res)) ?mg = (Inr sv, mg1)"
    "decide ops lops env nm sv mg1 (x1\<lparr>ex_workspace := w\<rparr>) = (Inr o1, mg', x2)"
    using observe_refreshed_update [OF _ assms(2,3) ref] go(3) by blast
  have "get_condition (cond_api ops) ''Ready'' (mg_conditions ?mg) = get_condition (cond_api ops) ''Ready'' (mg_conditions mg)"
    using assms(4) by (simp add: set_conditions_def condition_laws_def async_operation_finished_condition_def)
  moreover have "annotated ops st nm' ?mg = annotated ops st nm' mg" "mg_params ?mg = mg_params mg" for st nm'
    by (simp_all add: set_conditions_def)
  moreover note d = decide_update [OF *(5) assms(3)] and c = consume_state_saved [OF *(4)]
  moreover have "annotated ops st nm' mg' = annotated ops st nm' mg1" for st nm' using d by (simp add: annotated_def)
  ultimately show ?thesis using sch ref go(1,2) *(1-3) by (auto split: if_splits)
qed

theorem update_after_recording_witness:
  "\<exists>o1 mg'. observe demo_ops counting_ops demo_env (\<lambda>_. 0) (Some NoopInUse, ''cfg'', None) ''u'' ''aws_vpc'' ''v'' (''ns'', ''v'')
      demo_managed (demo_external (new_workspace 0 ''id'' Map.empty)) = (Inr o1, mg') \<and> \<not> ob_up_to_date o1 \<and>
    annotation_or_empty (mg_annotations (fst mg')) private_raw_key = ''meta''"
proof -
  let ?r = "observe demo_ops counting_ops demo_env (\<lambda>_. 0) (Some NoopInUse, ''cfg'', None) ''u'' ''aws_vpc'' ''v'' (''ns'', ''v'')
      demo_managed (demo_external (new_workspace 0 ''id'' Map.empty))"
  have laws: "condition_laws (cond_api demo_ops)" by (simp add: demo_ops_def map_api_laws)
  have "fst ?r = Inr \<lparr>ob_exists = True, ob_up_to_date = False, ob_late_init = False, ob_conn = Some ()\<rparr>"
    by code_simp
  then obtain mg' x' where r: "?r = (Inr \<lparr>ob_exists = True, ob_up_to_date = False, ob_late_init = False, ob_conn = Some ()\<rparr>, mg', x')"
    by (metis prod.collapse)
  from update_after_recording [OF r _ _ laws]
  have "annotation_or_empty (mg_annotations mg') private_raw_key = ''meta''" by (auto simp: demo_ops_def annotated_def)
  with r show ?thesis by auto
qed

end
