(* ===== verification/ListConversion.thy ===== *)
theory ListConversion
  imports GoValue GoErrors "HOL-Library.Multiset"
begin

text \<open>
  Conversion between embedded objects and singleton lists
  (\<open>pkg/config/conversion/list_conversion.go\<close>) and the Terraform conversion that uses it
  (\<open>pkg/config/tf_conversion.go\<close>). Field path expressions are parsed, expanded and read by the
  third-party package \<open>fieldpath\<close>: these operations are the parameter \<open>paved\<close>. The code updates
  the parent map it obtained in place, which is the update \<open>set_at\<close> of the value tree.
\<close>

section \<open>Updating a value in place\<close>

fun set_at :: "seg list \<Rightarrow> any \<Rightarrow> any \<Rightarrow> any" where
  "set_at [] v x = v"
| "set_at (Key_seg k # p) v (Map_v m) =
     (case map_of m k of
        Some w \<Rightarrow> Map_v (put_key k (set_at p v w) m)
      | None \<Rightarrow> if p = [] then Map_v (put_key k v m) else Map_v m)"
| "set_at (Idx_seg i # p) v (Slice_v xs) =
     (if i < length xs then Slice_v (xs[i := set_at p v (xs ! i)]) else Slice_v xs)"
| "set_at (s # p) v x = x"

text \<open>Neither path is a prefix of the other.\<close>

fun apart :: "seg list \<Rightarrow> seg list \<Rightarrow> bool" where
  "apart (s # p) (t # q) = (s \<noteq> t \<or> apart p q)"
| "apart p q = False"

lemma put_key_twice [simp]: "put_key k w (put_key k v m) = put_key k w m"
  by (induction k v m rule: put_key.induct) auto

lemma put_key_same: "map_of m k = Some v \<Longrightarrow> put_key k v m = m"
  by (induction k v m rule: put_key.induct) (auto split: if_splits)

lemma put_key_commute:
  "j \<noteq> k \<Longrightarrow> map_of m j \<noteq> None \<Longrightarrow> map_of m k \<noteq> None \<Longrightarrow> put_key j v (put_key k w m) = put_key k w (put_key j v m)"
  by (induction m) auto

lemma child_set_at:
  assumes "child x s = Some w"
  shows "child (set_at (s # p) v x) s = Some (set_at p v w)"
    and "t \<noteq> s \<Longrightarrow> child (set_at (s # p) v x) t = child x t"
    and "set_at (s # p) v x = set_at [s] (set_at p v w) x"
  using assms by (cases x; cases s; cases t; auto split: if_splits option.splits)+

lemma set_at_same: "lookup_path x p = Some w \<Longrightarrow> set_at p w x = x"
proof (induction x p rule: lookup_path.induct)
  case (2 x s p)
  then obtain y where y: "child x s = Some y" "set_at p w y = y" by (auto split: option.splits)
  have "set_at [s] y x = x"
    using y(1) by (cases x; cases s) (auto simp: put_key_same split: if_splits)
  with y show ?case using child_set_at(3) [OF y(1), of p w] by simp
qed simp

lemma set_at_twice: "lookup_path x p \<noteq> None \<Longrightarrow> set_at p w (set_at p v x) = set_at p w x"
proof (induction x p rule: lookup_path.induct)
  case (2 x s p)
  then obtain y where y: "child x s = Some y" "set_at p w (set_at p v y) = set_at p w y"
    by (auto split: option.splits)
  then show ?case by (cases x; cases s) (auto split: if_splits)
qed simp

lemma lookup_set_at: "lookup_path x p \<noteq> None \<Longrightarrow> lookup_path (set_at p v x) p = Some v"
proof (induction x p rule: lookup_path.induct)
  case (2 x s p)
  then obtain y where y: "child x s = Some y" "lookup_path (set_at p v y) p = Some v"
    by (auto split: option.splits)
  then show ?case using child_set_at(1) [OF y(1), of p v] by simp
qed simp

lemma lookup_set_at_apart:
  "apart p q \<Longrightarrow> lookup_path x p \<noteq> None \<Longrightarrow> lookup_path (set_at p v x) q = lookup_path x q"
proof (induction p q arbitrary: x rule: apart.induct)
  case (1 s p t q)
  then obtain y where y: "child x s = Some y" "lookup_path y p \<noteq> None" by (auto split: option.splits)
  show ?case
  proof (cases "s = t")
    case True
    then show ?thesis using 1 y child_set_at(1) [OF y(1), of p v] by simp
  next
    case False
    then show ?thesis using child_set_at(2) [OF y(1), of t p v] by simp
  qed
qed auto

lemma set_at_commute:
  "apart p q \<Longrightarrow> lookup_path x p \<noteq> None \<Longrightarrow> lookup_path x q \<noteq> None \<Longrightarrow>
     set_at p v (set_at q w x) = set_at q w (set_at p v x)"
proof (induction p q arbitrary: x rule: apart.induct)
  case (1 s p t q)
  then obtain y z where y: "child x s = Some y" "lookup_path y p \<noteq> None"
    and z: "child x t = Some z" "lookup_path z q \<noteq> None" by (auto split: option.splits)
  show ?case
  proof (cases "s = t")
    case True
    then have "set_at p v (set_at q w y) = set_at q w (set_at p v y)" using 1 y z by auto
    then show ?thesis using y(1) True by (cases x; cases s) (auto split: if_splits)
  next
    case False
    then show ?thesis using y(1) z(1)
      by (cases x; cases s; cases t) (auto simp: put_key_commute list_update_swap split: if_splits)
  qed
qed auto

section \<open>The code\<close>

datatype list_mode = ToEmbeddedObject | ToSingletonList

fun mode_string :: "list_mode \<Rightarrow> string" where
  "mode_string ToSingletonList = ''toSingletonList''"
| "mode_string ToEmbeddedObject = ''toEmbeddedObject''"

text \<open>
  \<open>expand\<close> returns the expanded expressions or an error with the verdict of \<open>IsNotFound\<close>;
  \<open>type_name\<close> prints the dynamic type of a value.
\<close>

record paved =
  parse_path :: "string \<Rightarrow> seg list"
  expand :: "any_map \<Rightarrow> string \<Rightarrow> (bool \<times> gerror) + string list"
  get_error_at :: "any_map \<Rightarrow> string \<Rightarrow> gerror"
  type_name :: "any \<Rightarrow> string"

definition get_value :: "paved \<Rightarrow> any_map \<Rightarrow> string \<Rightarrow> gerror + any" where
  "get_value pv m e =
     (case lookup_path (Map_v m) (parse_path pv e) of Some v \<Rightarrow> Inr v | None \<Rightarrow> Inl (get_error_at pv m e))"

definition as_map :: "any \<Rightarrow> any_map" where
  "as_map v = (case v of Map_v m \<Rightarrow> m | _ \<Rightarrow> [])"

definition set_value :: "paved \<Rightarrow> any_map \<Rightarrow> any \<Rightarrow> string \<Rightarrow> gerror + any_map" where
  "set_value pv m v e =
     (let segments = split_on (CHR ''.'') e; p = join_with ''.'' (butlast segments) in
      case (if length segments > 1 then get_value pv m p else Inr (Map_v m)) of
        Inl err \<Rightarrow> Inl (WithMsg (''cannot get the parent value at field path '' @ p) err)
      | Inr (Map_v _) \<Rightarrow>
          Inr (as_map (set_at ((if length segments > 1 then parse_path pv p else []) @ [Key_seg (last segments)]) v (Map_v m)))
      | Inr _ \<Rightarrow>
          Inl (Plain (''parent at field path '' @ (if length segments > 1 then p else e) @ '' must be a map[string]any'')))"

record inject_key =
  inj_key :: string
  inj_value :: string

text \<open>\<open>strings.ReplaceAll(e, "0", "*")\<close>\<close>

definition star_zeros :: "string \<Rightarrow> string" where
  "star_zeros e = map (\<lambda>c. if c = CHR ''0'' then CHR ''*'' else c) e"

definition injection :: "(string \<rightharpoonup> inject_key) option \<Rightarrow> string \<Rightarrow> inject_key option" where
  "injection opts e =
     (case opts of
        None \<Rightarrow> None
      | Some keys \<Rightarrow>
          (case keys (star_zeros e) of
             None \<Rightarrow> None
           | Some ij \<Rightarrow> if inj_key ij \<noteq> '''' \<and> inj_value ij \<noteq> '''' then Some ij else None))"

definition at_msg :: "string \<Rightarrow> string \<Rightarrow> gerror + 'a \<Rightarrow> gerror + 'a" where
  "at_msg msg e r = (case r of Inl x \<Rightarrow> Inl (WithMsg (msg @ e) x) | Inr y \<Rightarrow> Inr y)"

text \<open>The body of the inner loop in the two modes; \<open>None\<close> is the panic of a failed type assertion.\<close>

definition to_singleton :: "paved \<Rightarrow> (string \<rightharpoonup> inject_key) option \<Rightarrow> string \<Rightarrow> any \<Rightarrow> any_map \<Rightarrow> gerror + any_map" where
  "to_singleton pv opts e v m =
     (let v = (case injection opts e of
                 None \<Rightarrow> v
               | Some ij \<Rightarrow> (case v of Map_v o1 \<Rightarrow> Map_v (put_key (inj_key ij) (Str_v (inj_value ij)) o1) | _ \<Rightarrow> v)) in
      at_msg ''cannot set the singleton list's value at the field path '' e (set_value pv m (Slice_v [v]) e))"

definition embedded_value :: "paved \<Rightarrow> string \<Rightarrow> any \<Rightarrow> gerror + any" where
  "embedded_value pv e v =
     (case v of
        Nil_v \<Rightarrow> Inr Nil_v
      | Slice_v s \<Rightarrow>
          if length s > 1 then
            Inl (Plain (''singleton list, at the field path '' @ e @ '', must have a length of at most 1 but it has a length of ''
              @ show_nat (length s)))
          else Inr (if s = [] then Map_v [] else hd s)
      | _ \<Rightarrow> Inl (Plain (''value at the field path '' @ e @ '' must be []any, not '' @ go_quote (type_name pv v))))"

definition to_embedded :: "paved \<Rightarrow> (string \<rightharpoonup> inject_key) option \<Rightarrow> string \<Rightarrow> any \<Rightarrow> any_map \<Rightarrow> (gerror + any_map) option" where
  "to_embedded pv opts e v m =
     (case embedded_value pv e v of
        Inl err \<Rightarrow> Some (Inl err)
      | Inr nv \<Rightarrow>
          map_option (\<lambda>nv. at_msg ''cannot set the embedded object's value at the field path '' e (set_value pv m nv e))
            (case injection opts e of
               None \<Rightarrow> Some nv
             | Some ij \<Rightarrow> (case nv of Map_v o1 \<Rightarrow> Some (Map_v (del_key (inj_key ij) o1)) | _ \<Rightarrow> None)))"

fun convert_all :: "paved \<Rightarrow> list_mode \<Rightarrow> (string \<rightharpoonup> inject_key) option \<Rightarrow> string list \<Rightarrow> any_map \<Rightarrow> (gerror + any_map) option" where
  "convert_all pv mode opts [] m = Some (Inr m)"
| "convert_all pv mode opts (e # es) m =
     (case get_value pv m e of
        Inl err \<Rightarrow> Some (Inl (WithMsg (''cannot get the value at the field path '' @ e
          @ '' with the conversion mode set to '' @ go_quote (mode_string mode)) err))
      | Inr v \<Rightarrow>
          (case (case mode of ToSingletonList \<Rightarrow> Some (to_singleton pv opts e v m)
                 | ToEmbeddedObject \<Rightarrow> to_embedded pv opts e v m) of
             None \<Rightarrow> None
           | Some (Inl err) \<Rightarrow> Some (Inl err)
           | Some (Inr m) \<Rightarrow> convert_all pv mode opts es m))"

fun convert_paths :: "paved \<Rightarrow> list_mode \<Rightarrow> (string \<rightharpoonup> inject_key) option \<Rightarrow> string list \<Rightarrow> any_map \<Rightarrow> (gerror + any_map) option" where
  "convert_paths pv mode opts [] m = Some (Inr m)"
| "convert_paths pv mode opts (fp # fps) m =
     (case (case expand pv m fp of
              Inr es \<Rightarrow> convert_all pv mode opts es m
            | Inl (not_found, err) \<Rightarrow>
                if not_found then Some (Inr m)
                else Some (Inl (WithMsg (''cannot expand wildcards for the field path expression '' @ fp) err))) of
        None \<Rightarrow> None
      | Some (Inl err) \<Rightarrow> Some (Inl err)
      | Some (Inr m) \<Rightarrow> convert_paths pv mode opts fps m)"

definition convert :: "paved \<Rightarrow> any_map \<Rightarrow> string list \<Rightarrow> list_mode \<Rightarrow> (string \<rightharpoonup> inject_key) option \<Rightarrow> (gerror + any_map) option" where
  "convert pv m ps mode opts =
     convert_paths pv mode opts (case mode of ToSingletonList \<Rightarrow> sort ps | ToEmbeddedObject \<Rightarrow> rev (sort ps)) m"

text \<open>The Terraform conversion: \<open>FromTerraform\<close> and \<open>ToTerraform\<close> without injected keys.\<close>

datatype tf_mode = ToTerraform | FromTerraform

fun tf_mode_string :: "tf_mode \<Rightarrow> string" where
  "tf_mode_string ToTerraform = ''toTerraform''"
| "tf_mode_string FromTerraform = ''fromTerraform''"

definition singleton_list_convert :: "paved \<Rightarrow> string list \<Rightarrow> tf_mode \<Rightarrow> any_map \<Rightarrow> (gerror + any_map) option" where
  "singleton_list_convert pv ps mode m =
     map_option (at_msg ''failed to convert between Crossplane and Terraform layers in mode '' (go_quote (tf_mode_string mode)))
       (convert pv m ps (case mode of FromTerraform \<Rightarrow> ToEmbeddedObject | ToTerraform \<Rightarrow> ToSingletonList) None)"

fun apply_tf_conversions :: "(any_map \<Rightarrow> (gerror + any_map) option) list \<Rightarrow> any_map \<Rightarrow> (gerror + any_map) option" where
  "apply_tf_conversions [] m = Some (Inr m)"
| "apply_tf_conversions (c # cs) m =
     (case c m of None \<Rightarrow> None | Some (Inl e) \<Rightarrow> Some (Inl e) | Some (Inr m) \<Rightarrow> apply_tf_conversions cs m)"

section \<open>What the field path library promises\<close>

text \<open>
  The expansions of an expression that ends in a plain name, one that is printed after a dot as it is, in
  an object whose keys are printed in an expression as they are: each names an existing value and is
  parsed like its parent and its last name; two of them are apart; and they do not depend on the values found
  at them, except for their order. Expressions that end in a wildcard, an index or a bracketed key are
  not like this: the code would take the brackets for a part of the key.
\<close>

definition plain_name :: "string \<Rightarrow> bool" where
  "plain_name n \<longleftrightarrow> n \<noteq> [] \<and> \<not> list_all is_digit n \<and> list_all (\<lambda>c. c \<notin> {CHR ''['', CHR '']'', CHR ''*''}) n"

definition plain_end :: "string \<Rightarrow> bool" where
  "plain_end e \<longleftrightarrow> plain_name (last (split_on (CHR ''.'') e))"

definition printable_key :: "string \<Rightarrow> bool" where
  "printable_key k \<longleftrightarrow> k \<noteq> [] \<and> list_all (\<lambda>c. c \<notin> {CHR ''['', CHR '']'', CHR ''*''}) k"

definition printable :: "any \<Rightarrow> bool" where
  "printable x \<longleftrightarrow> wf_any x \<and> all_keys printable_key x"

lemma printable_Slice: "printable (Slice_v xs) \<longleftrightarrow> (\<forall>x \<in> set xs. printable x)"
  by (auto simp: printable_def list_all_iff)

lemma printable_Map: "printable (Map_v m) \<longleftrightarrow> distinct (map fst m) \<and> (\<forall>e \<in> set m. printable_key (fst e) \<and> printable (snd e))"
  by (auto simp: printable_def list_all_iff)

definition path_of :: "paved \<Rightarrow> string \<Rightarrow> seg list" where
  "path_of pv e =
     (let segments = split_on (CHR ''.'') e in
      (if length segments > 1 then parse_path pv (join_with ''.'' (butlast segments)) else []) @ [Key_seg (last segments)])"

definition overwritten :: "paved \<Rightarrow> string list \<Rightarrow> (string \<Rightarrow> any) \<Rightarrow> any \<Rightarrow> any" where
  "overwritten pv es f x = fold (\<lambda>e. set_at (parse_path pv e) (f e)) es x"

definition paved_laws :: "paved \<Rightarrow> bool" where
  "paved_laws pv \<longleftrightarrow>
     (\<forall>m fp es. printable (Map_v m) \<longrightarrow> plain_end fp \<longrightarrow> expand pv m fp = Inr es \<longrightarrow>
        (\<forall>e \<in> set es. parse_path pv e = path_of pv e \<and> lookup_path (Map_v m) (parse_path pv e) \<noteq> None) \<and>
        sorted_wrt (\<lambda>d e. apart (parse_path pv d) (parse_path pv e) \<and> apart (parse_path pv e) (parse_path pv d)) es \<and>
        (\<forall>f m'. overwritten pv es f (Map_v m) = Map_v m' \<longrightarrow> (\<exists>es'. expand pv m' fp = Inr es' \<and> mset es' = mset es)))"

section \<open>Round trip\<close>

abbreviation apart_paths :: "paved \<Rightarrow> string list \<Rightarrow> bool" where
  "apart_paths pv es \<equiv> sorted_wrt (\<lambda>d e. apart (parse_path pv d) (parse_path pv e) \<and> apart (parse_path pv e) (parse_path pv d)) es"

lemma map_set_at: "p \<noteq> [] \<Longrightarrow> Map_v (as_map (set_at p v (Map_v m))) = set_at p v (Map_v m)"
  by (cases p; cases "hd p") (auto simp: as_map_def split: option.splits)

lemma set_value_ok:
  assumes "lookup_path (Map_v m) (path_of pv e) \<noteq> None"
  shows "set_value pv m v e = Inr (as_map (set_at (path_of pv e) v (Map_v m)))"
proof (cases "length (split_on (CHR ''.'') e) > 1")
  case True
  let ?p = "join_with ''.'' (butlast (split_on (CHR ''.'') e))"
  obtain w where w: "lookup_path (Map_v m) (parse_path pv ?p) = Some w"
    and c: "child w (Key_seg (last (split_on (CHR ''.'') e))) \<noteq> None"
    using assms True by (auto simp: path_of_def lookup_path_append Let_def split: option.splits)
  from c obtain n where "w = Map_v n" by (cases w) auto
  then show ?thesis using True w by (simp add: set_value_def get_value_def path_of_def Let_def)
next
  case False
  then show ?thesis by (simp add: set_value_def path_of_def Let_def)
qed

lemma overwritten_simps [simp]:
  "overwritten pv [] f x = x"
  "overwritten pv (e # es) f x = overwritten pv es f (set_at (parse_path pv e) (f e) x)"
  by (simp_all add: overwritten_def)

lemma lookup_overwritten_apart:
  "\<forall>e \<in> set es. apart (parse_path pv e) p \<and> lookup_path x (parse_path pv e) \<noteq> None \<Longrightarrow> apart_paths pv es \<Longrightarrow>
     lookup_path (overwritten pv es f x) p = lookup_path x p"
proof (induction es arbitrary: x)
  case (Cons e es)
  then have "\<forall>d \<in> set es. lookup_path (set_at (parse_path pv e) (f e) x) (parse_path pv d) \<noteq> None"
    by (auto simp: lookup_set_at_apart)
  then show ?case using Cons by (simp add: lookup_set_at_apart)
qed simp

lemma lookup_overwritten:
  "e \<in> set es \<Longrightarrow> apart_paths pv es \<Longrightarrow> \<forall>d \<in> set es. lookup_path x (parse_path pv d) \<noteq> None \<Longrightarrow>
     lookup_path (overwritten pv es f x) (parse_path pv e) = Some (f e)"
proof (induction es arbitrary: x)
  case (Cons d es)
  let ?x = "set_at (parse_path pv d) (f d) x"
  have keep: "\<forall>c \<in> set es. lookup_path ?x (parse_path pv c) \<noteq> None"
    using Cons.prems by (auto simp: lookup_set_at_apart)
  show ?case
  proof (cases "e \<in> set es")
    case True
    then show ?thesis using Cons keep by simp
  next
    case False
    then have "e = d" using Cons.prems by simp
    moreover have "lookup_path (overwritten pv es f ?x) (parse_path pv d) = lookup_path ?x (parse_path pv d)"
      using Cons.prems keep by (intro lookup_overwritten_apart) auto
    ultimately show ?thesis using Cons.prems by (simp add: lookup_set_at)
  qed
qed simp

lemma set_at_overwritten:
  "\<forall>e \<in> set es. apart (parse_path pv e) p \<and> apart p (parse_path pv e) \<and> lookup_path x (parse_path pv e) \<noteq> None \<Longrightarrow>
     apart_paths pv es \<Longrightarrow> lookup_path x p \<noteq> None \<Longrightarrow>
     set_at p v (overwritten pv es f x) = overwritten pv es f (set_at p v x)"
proof (induction es arbitrary: x)
  case (Cons e es)
  let ?x = "set_at (parse_path pv e) (f e) x"
  have "\<forall>d \<in> set es. lookup_path ?x (parse_path pv d) \<noteq> None" "lookup_path ?x p \<noteq> None"
    using Cons.prems by (auto simp: lookup_set_at_apart)
  then have "set_at p v (overwritten pv es f ?x) = overwritten pv es f (set_at p v ?x)"
    using Cons by simp
  also have "set_at p v ?x = set_at (parse_path pv e) (f e) (set_at p v x)"
    using Cons.prems by (intro set_at_commute) auto
  finally show ?case by simp
qed simp

lemma overwritten_back:
  "apart_paths pv es \<Longrightarrow> \<forall>e \<in> set es. lookup_path x (parse_path pv e) = Some (g e) \<Longrightarrow>
     overwritten pv es g (overwritten pv es f x) = x"
proof (induction es arbitrary: x)
  case (Cons e es)
  let ?p = "parse_path pv e"
  have l: "lookup_path x ?p = Some (g e)" using Cons.prems by simp
  have "\<forall>d \<in> set es. lookup_path (set_at ?p (f e) x) (parse_path pv d) \<noteq> None"
    using Cons.prems by (auto simp: lookup_set_at_apart)
  then have "set_at ?p (g e) (overwritten pv es f (set_at ?p (f e) x)) =
      overwritten pv es f (set_at ?p (g e) (set_at ?p (f e) x))"
    using Cons.prems l by (intro set_at_overwritten) (auto simp: lookup_set_at)
  also have "\<dots> = overwritten pv es f x" using l by (simp add: set_at_twice set_at_same)
  finally show ?case using Cons by simp
qed simp

text \<open>The order of the expansions does not matter.\<close>

lemma overwritten_append: "overwritten pv (es @ ds) f x = overwritten pv ds f (overwritten pv es f x)"
  by (simp add: overwritten_def)

lemma apart_perm: "mset es' = mset es \<Longrightarrow> apart_paths pv es \<Longrightarrow> apart_paths pv es'"
proof (induction es' arbitrary: es)
  case (Cons e es')
  then have "e \<in> set es" by (metis list.set_intros(1) mset_eq_setD)
  then obtain as bs where es: "es = as @ e # bs" by (meson split_list)
  with Cons.prems have perm: "mset es' = mset (as @ bs)" by simp
  have "apart_paths pv (as @ bs)" using Cons.prems(2) es by (simp add: sorted_wrt_append)
  with Cons.IH [OF perm] have "apart_paths pv es'" by blast
  moreover have "set es' = set (as @ bs)" using perm by (rule mset_eq_setD)
  ultimately show ?case using Cons.prems(2) es by (auto simp: sorted_wrt_append)
qed simp

lemma overwritten_perm:
  "mset es' = mset es \<Longrightarrow> apart_paths pv es \<Longrightarrow> \<forall>e \<in> set es. lookup_path x (parse_path pv e) \<noteq> None \<Longrightarrow>
     overwritten pv es' f x = overwritten pv es f x"
proof (induction es' arbitrary: es x)
  case (Cons e es')
  then have "e \<in> set es" by (metis list.set_intros(1) mset_eq_setD)
  then obtain as bs where es: "es = as @ e # bs" by (meson split_list)
  let ?y = "set_at (parse_path pv e) (f e) x"
  have perm: "mset es' = mset (as @ bs)" using Cons.prems(1) es by simp
  have ap: "apart_paths pv (as @ bs)" using Cons.prems(2) es by (simp add: sorted_wrt_append)
  have keep: "\<forall>d \<in> set (as @ bs). lookup_path ?y (parse_path pv d) \<noteq> None"
    using Cons.prems(2,3) unfolding es by (auto simp: sorted_wrt_append lookup_set_at_apart)
  have "overwritten pv es f x = overwritten pv bs f (set_at (parse_path pv e) (f e) (overwritten pv as f x))"
    by (simp add: es overwritten_append)
  also have "set_at (parse_path pv e) (f e) (overwritten pv as f x) = overwritten pv as f ?y"
    using Cons.prems(2,3) unfolding es by (intro set_at_overwritten) (auto simp: sorted_wrt_append)
  also have "overwritten pv bs f (overwritten pv as f ?y) = overwritten pv es' f ?y"
    using Cons.IH [OF perm ap keep] by (simp add: overwritten_append)
  finally show ?case by simp
qed simp

lemma printable_child: "printable x \<Longrightarrow> child x s = Some v \<Longrightarrow> printable v"
  by (cases x; cases s) (auto simp: printable_Slice printable_Map dest!: map_of_SomeD split: if_splits)

lemma printable_lookup: "printable x \<Longrightarrow> lookup_path x p = Some v \<Longrightarrow> printable v"
  by (induction x p rule: lookup_path.induct) (auto dest: printable_child split: option.splits)

lemma set_put_key: "map_of m k = Some w \<Longrightarrow> e \<in> set (put_key k v m) \<Longrightarrow> e = (k, v) \<or> e \<in> set m"
  by (induction k v m rule: put_key.induct) (auto split: if_splits)

lemma printable_put:
  assumes "printable (Map_v m)" "map_of m k = Some w" "printable v"
  shows "printable (Map_v (put_key k v m))"
proof -
  have "(k, w) \<in> set m" using assms(2) by (rule map_of_SomeD)
  then have "printable_key k" using assms(1) by (auto simp: printable_Map)
  moreover have "e = (k, v) \<or> e \<in> set m" if "e \<in> set (put_key k v m)" for e
    using set_put_key [OF assms(2) that] .
  ultimately show ?thesis using assms(1,3) unfolding printable_Map
    by (metis distinct_put_key fst_conv snd_conv)
qed

lemma printable_set_at: "printable x \<Longrightarrow> lookup_path x p \<noteq> None \<Longrightarrow> printable v \<Longrightarrow> printable (set_at p v x)"
proof (induction x p rule: lookup_path.induct)
  case (2 x s p)
  then obtain y where y: "child x s = Some y" "lookup_path y p \<noteq> None" by (auto split: option.splits)
  have "printable (set_at p v y)" using 2 y printable_child [OF _ y(1)] by simp
  then show ?case using 2(2) y(1)
    by (cases x; cases s)
      (auto simp: printable_put printable_Slice dest: set_update_subset_insert [THEN subsetD] split: if_splits)
qed simp

lemma printable_overwritten:
  "apart_paths pv es \<Longrightarrow> \<forall>e \<in> set es. lookup_path x (parse_path pv e) \<noteq> None \<Longrightarrow> \<forall>e \<in> set es. printable (f e) \<Longrightarrow>
     printable x \<Longrightarrow> printable (overwritten pv es f x)"
proof (induction es arbitrary: x)
  case (Cons e es)
  have "\<forall>d \<in> set es. lookup_path (set_at (parse_path pv e) (f e) x) (parse_path pv d) \<noteq> None"
    using Cons.prems by (auto simp: lookup_set_at_apart)
  with Cons show ?case by (simp add: printable_set_at)
qed simp

text \<open>One expression's loop, in either mode, on values of the right shape.\<close>

definition shape :: "list_mode \<Rightarrow> any \<Rightarrow> any \<Rightarrow> bool" where
  "shape mode v nv \<longleftrightarrow> (case mode of ToSingletonList \<Rightarrow> nv = Slice_v [v] | ToEmbeddedObject \<Rightarrow> v = Slice_v [nv])"

lemma convert_all_ok:
  "apart_paths pv es \<Longrightarrow>
     \<forall>e \<in> set es. parse_path pv e = path_of pv e \<and>
       (\<exists>v. lookup_path (Map_v m) (parse_path pv e) = Some v \<and> shape mode v (f e)) \<Longrightarrow>
     \<exists>m'. convert_all pv mode None es m = Some (Inr m') \<and> Map_v m' = overwritten pv es f (Map_v m)"
proof (induction es arbitrary: m)
  case (Cons e es)
  let ?m = "as_map (set_at (path_of pv e) (f e) (Map_v m))"
  obtain v where v: "lookup_path (Map_v m) (path_of pv e) = Some v" "shape mode v (f e)"
    and p: "parse_path pv e = path_of pv e" using Cons.prems by auto
  have ne: "path_of pv e \<noteq> []" by (simp add: path_of_def Let_def)
  have sv: "set_value pv m (f e) e = Inr ?m" using v by (intro set_value_ok) simp
  have step: "convert_all pv mode None (e # es) m = convert_all pv mode None es ?m"
    using v p sv by (cases mode) (auto simp: get_value_def to_singleton_def to_embedded_def injection_def
        embedded_value_def shape_def at_msg_def)
  have mm: "Map_v ?m = set_at (parse_path pv e) (f e) (Map_v m)" using map_set_at [OF ne] p by simp
  have "\<forall>d \<in> set es. lookup_path (Map_v ?m) (parse_path pv d) = lookup_path (Map_v m) (parse_path pv d)"
    unfolding mm using Cons.prems v p by (auto simp: lookup_set_at_apart)
  then have "\<forall>d \<in> set es. parse_path pv d = path_of pv d \<and>
       (\<exists>v. lookup_path (Map_v ?m) (parse_path pv d) = Some v \<and> shape mode v (f d))"
    using Cons.prems(2) by (metis list.set_intros(2))
  moreover have "apart_paths pv es" using Cons.prems(1) by simp
  ultimately obtain m' where "convert_all pv mode None es ?m = Some (Inr m')" "Map_v m' = overwritten pv es f (Map_v ?m)"
    using Cons.IH [of ?m] by blast
  then show ?case using step mm by simp
qed simp

text \<open>The conversion of one path to singleton lists, undone.\<close>

lemma convert_path_back:
  assumes "paved_laws pv" "printable (Map_v m)" "plain_end fp" "expand pv m fp = Inr es"
    and "convert_all pv ToSingletonList None es m = Some (Inr m')"
  shows "printable (Map_v m')"
    and "\<exists>es'. expand pv m' fp = Inr es' \<and> convert_all pv ToEmbeddedObject None es' m' = Some (Inr m)"
proof -
  have leaf: "\<forall>e \<in> set es. parse_path pv e = path_of pv e \<and> lookup_path (Map_v m) (parse_path pv e) \<noteq> None"
    and ap: "apart_paths pv es"
    and stable: "\<And>f n. overwritten pv es f (Map_v m) = Map_v n \<Longrightarrow> \<exists>es'. expand pv n fp = Inr es' \<and> mset es' = mset es"
    using assms(1-4) unfolding paved_laws_def by blast+
  define g where "g e = the (lookup_path (Map_v m) (parse_path pv e))" for e
  define f where "f e = Slice_v [g e]" for e
  have g: "\<forall>e \<in> set es. lookup_path (Map_v m) (parse_path pv e) = Some (g e)" using leaf by (auto simp: g_def)
  have m': "Map_v m' = overwritten pv es f (Map_v m)"
    using convert_all_ok [OF ap, of m ToSingletonList f] leaf g assms(5) by (auto simp: shape_def f_def)
  have "\<forall>e \<in> set es. printable (f e)"
    using g printable_lookup [OF assms(2)] by (auto simp: f_def printable_def)
  then show "printable (Map_v m')" unfolding m' using ap leaf assms(2) by (intro printable_overwritten) auto
  have found: "\<forall>e \<in> set es. lookup_path (Map_v m') (parse_path pv e) = Some (f e)"
    unfolding m' using ap leaf by (intro ballI lookup_overwritten) blast+
  obtain es' where es': "expand pv m' fp = Inr es'" "mset es' = mset es" using stable [of f m'] m' by auto
  then have same: "set es' = set es" and ap': "apart_paths pv es'" using apart_perm [OF _ ap] by (auto dest: mset_eq_setD)
  from found obtain n where n: "convert_all pv ToEmbeddedObject None es' m' = Some (Inr n)"
    "Map_v n = overwritten pv es' g (Map_v m')"
    using convert_all_ok [OF ap', of m' ToEmbeddedObject g] leaf same by (auto simp: shape_def f_def)
  have "Map_v n = overwritten pv es g (Map_v m')"
    unfolding n(2) by (rule overwritten_perm [OF es'(2) ap]) (simp add: found)
  also have "\<dots> = Map_v m" unfolding m' by (rule overwritten_back [OF ap g])
  finally show "\<exists>es'. expand pv m' fp = Inr es' \<and> convert_all pv ToEmbeddedObject None es' m' = Some (Inr m)"
    using n(1) es'(1) by blast
qed

lemma convert_paths_append:
  "convert_paths pv mode opts (ps @ qs) m =
     (case convert_paths pv mode opts ps m of
        None \<Rightarrow> None | Some (Inl e) \<Rightarrow> Some (Inl e) | Some (Inr n) \<Rightarrow> convert_paths pv mode opts qs n)"
  by (induction ps arbitrary: m) (auto split: option.splits sum.splits)

lemma convert_paths_back:
  assumes "paved_laws pv"
  shows "printable (Map_v m) \<Longrightarrow> \<forall>fp \<in> set ps. plain_end fp \<Longrightarrow> convert_paths pv ToSingletonList None ps m = Some (Inr m') \<Longrightarrow>
    convert_paths pv ToEmbeddedObject None (rev ps) m' = Some (Inr m)"
proof (induction ps arbitrary: m)
  case (Cons fp ps)
  show ?case
  proof (cases "expand pv m fp")
    case (Inr es)
    then obtain n where n: "convert_all pv ToSingletonList None es m = Some (Inr n)"
      "convert_paths pv ToSingletonList None ps n = Some (Inr m')"
      using Cons.prems by (auto split: option.splits sum.splits)
    have fp: "plain_end fp" using Cons.prems by simp
    note undone = convert_path_back [OF assms Cons.prems(1) fp Inr n(1)]
    have "convert_paths pv ToEmbeddedObject None (rev ps) m' = Some (Inr n)"
      using Cons.IH [OF undone(1) _ n(2)] Cons.prems(2) by simp
    then show ?thesis using undone(2) by (auto simp: convert_paths_append)
  next
    case (Inl ne)
    obtain nf err where ne: "ne = (nf, err)" by fastforce
    then have "nf" using Cons.prems Inl by (auto split: if_splits)
    then have "convert_paths pv ToSingletonList None ps m = Some (Inr m')" using Cons.prems Inl ne by simp
    then show ?thesis using Cons.IH [of m] Cons.prems Inl ne \<open>nf\<close> by (simp add: convert_paths_append)
  qed
qed simp

text \<open>
  C30. Converting to singleton lists and back is the identity. For configured paths that end in a plain
  name, nested ones, ones with wildcards and repeated ones included, and parameters whose keys need no brackets
  in a path: if the conversion of embedded objects to singleton lists, without injected keys, succeeds then the
  reverse conversion of its result, in the reverse order of the paths, succeeds and gives back the original
  parameters. (With an injected key the reverse conversion can panic: \<open>null_list_panics\<close>.)
\<close>

theorem singleton_round_trip:
  assumes "paved_laws pv" and "\<forall>fp \<in> set ps. plain_end fp" and "printable (Map_v m)"
    and "convert pv m ps ToSingletonList None = Some (Inr m')"
  shows "convert pv m' ps ToEmbeddedObject None = Some (Inr m) \<and>
    singleton_list_convert pv ps FromTerraform m' = Some (Inr m)"
  using convert_paths_back [OF assms(1,3), of "sort ps" m'] assms(2,4)
  by (simp add: convert_def singleton_list_convert_def at_msg_def)

text \<open>Field paths without dots, to instantiate the parameter.\<close>

definition flat_paved :: paved where
  "flat_paved =
     \<lparr>parse_path = (\<lambda>e. [Key_seg e]),
      expand = (\<lambda>m fp. if CHR ''.'' \<notin> set fp \<and> map_of m fp \<noteq> None then Inr [fp] else Inl (True, Plain ''not found'')),
      get_error_at = (\<lambda>_ _. Plain ''not found''), type_name = (\<lambda>_. '''')\<rparr>"

lemma flat_paved_laws: "paved_laws flat_paved"
  by (auto simp: paved_laws_def flat_paved_def path_of_def overwritten_def Let_def split: if_splits option.splits)

theorem singleton_round_trip_witness:
  "convert flat_paved [(''name'', Str_v ''x''), (''vpc'', Slice_v [Map_v [(''cidr'', Str_v ''10.0.0.0/8'')]])] [''vpc'', ''logging'']
     ToEmbeddedObject None = Some (Inr [(''name'', Str_v ''x''), (''vpc'', Map_v [(''cidr'', Str_v ''10.0.0.0/8'')])])"
proof -
  have "convert flat_paved [(''name'', Str_v ''x''), (''vpc'', Map_v [(''cidr'', Str_v ''10.0.0.0/8'')])] [''vpc'', ''logging'']
      ToSingletonList None = Some (Inr [(''name'', Str_v ''x''), (''vpc'', Slice_v [Map_v [(''cidr'', Str_v ''10.0.0.0/8'')]])])"
    by code_simp
  moreover have "\<forall>fp \<in> set [''vpc'', ''logging'']. plain_end fp" by code_simp
  moreover have "printable (Map_v [(''name'', Str_v ''x''), (''vpc'', Map_v [(''cidr'', Str_v ''10.0.0.0/8'')])])" by code_simp
  ultimately show ?thesis using singleton_round_trip [OF flat_paved_laws] by blast
qed

text \<open>The injected key is only found for the first element of an outer list.\<close>

lemma injection_misses_later_elements:
  assumes "keys = [''rules[*].target'' \<mapsto> \<lparr>inj_key = ''index'', inj_value = ''0''\<rparr>]"
  shows "injection (Some keys) ''rules[0].target'' \<noteq> None" and "injection (Some keys) ''rules[1].target'' = None"
    and "injection (Some keys) ''rules[10].target'' = None"
  using assms by (simp_all add: injection_def star_zeros_def)

text \<open>Removing an injected key from a null list panics.\<close>

lemma null_list_panics: "injection opts e \<noteq> None \<Longrightarrow> to_embedded pv opts e Nil_v m = None"
  by (auto simp: to_embedded_def embedded_value_def)

end
