(* ===== verification/GoOutcome.thy ===== *)
theory GoOutcome
  imports GoErrors
begin

text \<open>
  The ways a Go call of type \<open>(T, error)\<close> ends, with a panic as a third one, and the sequencing of
  calls that stops at the first error and keeps the state mutated so far.
\<close>

datatype 'a outcome = Done 'a | Failed gerror | Crashed

fun wrap_outcome :: "string \<Rightarrow> 'a outcome \<Rightarrow> 'a outcome" where
  "wrap_outcome msg (Failed e) = Failed (WithMsg msg e)"
| "wrap_outcome msg r = r"

fun lift_sum :: "gerror + 'a \<Rightarrow> 'a outcome" where
  "lift_sum (Inl e) = Failed e"
| "lift_sum (Inr x) = Done x"

fun lift_panic :: "(gerror + 'a) option \<Rightarrow> 'a outcome" where
  "lift_panic None = Crashed"
| "lift_panic (Some r) = lift_sum r"

text \<open>\<open>x, err := ...; if err != nil { return ... }\<close>, without and with a mutated state.\<close>

fun and_then :: "'a outcome \<Rightarrow> ('a \<Rightarrow> 'b outcome) \<Rightarrow> 'b outcome" where
  "and_then (Done x) f = f x"
| "and_then (Failed e) f = Failed e"
| "and_then Crashed f = Crashed"

fun then_go :: "'a outcome \<times> 'm \<Rightarrow> ('a \<Rightarrow> 'm \<Rightarrow> 'b outcome \<times> 'm) \<Rightarrow> 'b outcome \<times> 'm" where
  "then_go (Done x, m) f = f x m"
| "then_go (Failed e, m) f = (Failed e, m)"
| "then_go (Crashed, m) f = (Crashed, m)"

lemma and_then_Done [simp]: "and_then r f = Done y \<longleftrightarrow> (\<exists>x. r = Done x \<and> f x = Done y)"
  by (cases r) auto

text \<open>As a case distinction it is evaluated step by step.\<close>

lemma then_go_case [code_unfold]:
  "then_go p f = (case p of (r, m) \<Rightarrow> (case r of Done x \<Rightarrow> f x m | Failed e \<Rightarrow> (Failed e, m) | Crashed \<Rightarrow> (Crashed, m)))"
  by (cases "(p, f)" rule: then_go.cases) simp_all

lemma wrap_Done [simp]: "wrap_outcome msg r = Done x \<longleftrightarrow> r = Done x"
  by (cases r) auto

lemma lift_sum_Done [simp]: "lift_sum s = Done x \<longleftrightarrow> s = Inr x"
  by (cases s) auto

lemma lift_panic_Done [simp]: "lift_panic s = Done x \<longleftrightarrow> s = Some (Inr x)"
  by (cases s) auto

text \<open>The error of a call that mutates state, wrapped.\<close>

fun wrap_go :: "string \<Rightarrow> 'a outcome \<times> 'm \<Rightarrow> 'a outcome \<times> 'm" where
  "wrap_go msg (r, m) = (wrap_outcome msg r, m)"

lemma wrap_go_Done [simp]: "wrap_go msg p = (Done x, m) \<longleftrightarrow> p = (Done x, m)"
  by (cases p) simp

lemma snd_wrap_go [simp]: "snd (wrap_go msg p) = snd p"
  by (cases p) simp

text \<open>What every step keeps, the sequence keeps.\<close>

lemma then_go_keeps: "h (snd p) = k \<Longrightarrow> (\<And>x m. h m = k \<Longrightarrow> h (snd (f x m)) = k) \<Longrightarrow> h (snd (then_go p f)) = k"
  by (cases "(p, f)" rule: then_go.cases) auto

lemma then_go_Done: "then_go p f = (Done y, m') \<longleftrightarrow> (\<exists>x m. p = (Done x, m) \<and> f x m = (Done y, m'))"
  by (cases "(p, f)" rule: then_go.cases) auto

end
