(* ===== verification/Names.thy ===== *)
theory Names
  imports Prelude
begin

text \<open>
  The variants of a name and the acronyms (\<open>pkg/types/name/name.go\<close>), and the names of reference
  and selector fields (\<open>pkg/types/name/reference.go\<close>). Splitting a camel case string and computing a
  camel case word are third-party functions: the parameter \<open>case_lib\<close>. Strings are ASCII.
\<close>

record case_lib =
  camel_split :: "string \<Rightarrow> string list"
  to_camel :: "string \<Rightarrow> string"

section \<open>Acronyms\<close>

type_synonym acronyms = "string \<rightharpoonup> string"

definition add_acronym :: "string \<Rightarrow> string \<Rightarrow> acronyms \<Rightarrow> acronyms" where
  "add_acronym lower camel m = m(lower \<mapsto> camel)"

definition acronym_list :: "(string \<times> string) list" where
  "acronym_list =
     [(''ipv6'', ''IPv6''), (''ipv4'', ''IPv4''), (''acl'', ''ACL''), (''adm'', ''ADM''), (''ai'', ''AI''),
      (''alb'', ''ALB''), (''ami'', ''AMI''), (''api'', ''API''), (''apns'', ''APNS''), (''ascii'', ''ASCII''),
      (''bgp'', ''BGP''), (''ca'', ''CA''), (''cloudformation'', ''CloudFormation''), (''cpu'', ''CPU''),
      (''css'', ''CSS''), (''dhcp'', ''DHCP''), (''dicom'', ''DICOM''), (''dkim'', ''DKIM''), (''dns'', ''DNS''),
      (''dnssec'', ''DNSSEC''), (''ebs'', ''EBS''), (''ec2'', ''EC2''), (''efs'', ''EFS''), (''eip'', ''EIP''),
      (''elb'', ''ELB''), (''eof'', ''EOF''), (''fhir'', ''FHIR''), (''fsx'', ''FSX''), (''gcp'', ''GCP''),
      (''gcm'', ''GCM''), (''graphql'', ''GraphQL''), (''grpc'', ''GRPC''), (''guid'', ''GUID''),
      (''haproxy'', ''HAProxy''), (''hsm'', ''HSM''), (''ipset'', ''IPSet''), (''iscsi'', ''ISCSI''),
      (''hl7'', ''HL7''), (''html'', ''HTML''), (''http'', ''HTTP''), (''https'', ''HTTPS''), (''hmac'', ''HMAC''),
      (''iam'', ''IAM''), (''id'', ''ID''), (''ip'', ''IP''), (''json'', ''JSON''), (''kms'', ''KMS''),
      (''lb'', ''LB''), (''ml'', ''ML''), (''mysql'', ''MySQL''), (''nat'', ''NAT''), (''nfs'', ''NFS''),
      (''nodejs'', ''NodeJS''), (''openid'', ''OpenID''), (''php'', ''PHP''), (''qps'', ''QPS''), (''ram'', ''RAM''),
      (''rds'', ''RDS''), (''rpc'', ''RPC''), (''saml'', ''SAML''), (''sla'', ''SLA''), (''slo'', ''SLO''),
      (''smb'', ''SMB''), (''sms'', ''SMS''), (''smtp'', ''SMTP''), (''sql'', ''SQL''), (''ssh'', ''SSH''),
      (''ssl'', ''SSL''), (''tcp'', ''TCP''), (''tls'', ''TLS''), (''ttl'', ''TTL''), (''udp'', ''UDP''),
      (''ui'', ''UI''), (''gid'', ''GID''), (''uid'', ''UID''), (''uuid'', ''UUID''), (''uri'', ''URI''),
      (''url'', ''URL''), (''utf8'', ''UTF8''), (''vm'', ''VM''), (''voip'', ''VoIP''), (''vpc'', ''VPC''),
      (''vpn'', ''VPN''), (''xml'', ''XML''), (''xmpp'', ''XMPP''), (''xsrf'', ''XSRF''), (''xss'', ''XSS''),
      (''sip'', ''SIP''), (''rtp'', ''RTP''), (''amqp'', ''AMQP''), (''db'', ''DB''), (''ts'', ''TS'')]"

definition lower_to_camel_acronyms :: acronyms where
  "lower_to_camel_acronyms = fold (\<lambda>(l, c). add_acronym l c) acronym_list [''id'' \<mapsto> ''ID'']"

text \<open>Every acronym is filed under its own lower case spelling.\<close>

definition acronyms_ok :: "acronyms \<Rightarrow> bool" where
  "acronyms_ok acr \<longleftrightarrow> (\<forall>l c. acr l = Some c \<longrightarrow> to_lower c = l)"

lemma acronyms_ok_add: "acronyms_ok acr \<Longrightarrow> to_lower c = l \<Longrightarrow> acronyms_ok (add_acronym l c acr)"
  by (simp add: acronyms_ok_def add_acronym_def)

lemma acronyms_ok_fold:
  "list_all (\<lambda>(l, c). to_lower c = l) xs \<Longrightarrow> acronyms_ok acr \<Longrightarrow> acronyms_ok (fold (\<lambda>(l, c). add_acronym l c) xs acr)"
  by (induction xs arbitrary: acr) (auto intro: acronyms_ok_add)

lemma default_acronyms_ok: "acronyms_ok lower_to_camel_acronyms"
proof -
  have "list_all (\<lambda>(l, c). to_lower c = l) acronym_list" by code_simp
  moreover have "to_lower ''ID'' = ''id''" by code_simp
  then have "acronyms_ok [''id'' \<mapsto> ''ID'']" by (simp add: acronyms_ok_def)
  ultimately show ?thesis unfolding lower_to_camel_acronyms_def by (rule acronyms_ok_fold)
qed

section \<open>Names\<close>

record name_variants =
  snake_name :: string
  camel_name :: string
  lower_camel :: string
  camel_computed :: string
  lower_camel_computed :: string

definition lower_first :: "string list \<Rightarrow> string" where
  "lower_first ws = concat (to_lower (hd ws) # tl ws)"

definition new_from_snake :: "case_lib \<Rightarrow> acronyms \<Rightarrow> string \<Rightarrow> name_variants" where
  "new_from_snake lib acr s =
     (let originals = split_on (CHR ''_'') s;
          computed_camels = map (to_camel lib) originals;
          camels = map (\<lambda>org. case acr (to_lower org) of Some known \<Rightarrow> known | None \<Rightarrow> to_camel lib org) originals in
      \<lparr>snake_name = s, camel_name = concat camels, lower_camel = lower_first camels,
       camel_computed = concat computed_camels, lower_camel_computed = lower_first computed_camels\<rparr>)"

definition new_from_camel :: "case_lib \<Rightarrow> acronyms \<Rightarrow> string \<Rightarrow> name_variants" where
  "new_from_camel lib acr s = new_from_snake lib acr (join_with ''_'' (map to_lower (camel_split lib s)))"

definition reference_field_name :: "case_lib \<Rightarrow> acronyms \<Rightarrow> name_variants \<Rightarrow> bool \<Rightarrow> string \<Rightarrow> name_variants" where
  "reference_field_name lib acr n plural camel_override =
     (if camel_override \<noteq> '''' then new_from_camel lib acr camel_override
      else
        let temp = snake_name n @ ''_ref'';
            temp = (if plural then temp @ ''s'' else temp) in
        new_from_snake lib acr temp)"

definition selector_field_name :: "case_lib \<Rightarrow> acronyms \<Rightarrow> name_variants \<Rightarrow> string \<Rightarrow> name_variants" where
  "selector_field_name lib acr n camel_override =
     (if camel_override \<noteq> '''' then new_from_camel lib acr camel_override
      else new_from_snake lib acr (snake_name n @ ''_selector''))"

section \<open>Agreement of the variants\<close>

text \<open>
  What the third-party functions do with letters and digits: \<open>to_camel\<close> only changes the case of
  such a word, and the parts of a split string make up the string.
\<close>

definition alnum :: "char \<Rightarrow> bool" where
  "alnum c \<longleftrightarrow> (let n = (of_char c :: nat) in 48 \<le> n \<and> n \<le> 57 \<or> 65 \<le> n \<and> n \<le> 90 \<or> 97 \<le> n \<and> n \<le> 122)"

definition case_laws :: "case_lib \<Rightarrow> bool" where
  "case_laws lib \<longleftrightarrow>
     (\<forall>w. list_all alnum w \<longrightarrow> to_lower (to_camel lib w) = to_lower w) \<and>
     (\<forall>s. concat (camel_split lib s) = s)"

text \<open>A name up to case and underscores.\<close>

definition squash :: "string \<Rightarrow> string" where
  "squash s = filter (\<lambda>c. c \<noteq> CHR ''_'') (to_lower s)"


lemma to_lower_concat: "to_lower (concat ws) = concat (map to_lower ws)"
  by (induction ws) (auto simp: to_lower_def)

lemma char_lower_idem [simp]: "char_lower (char_lower c) = char_lower c"
  by (simp add: char_lower_def Let_def)

lemma to_lower_idem [simp]: "to_lower (to_lower s) = to_lower s"
  by (simp add: to_lower_def)

lemma char_lower_underscore [simp]: "char_lower c = CHR ''_'' \<longleftrightarrow> c = CHR ''_''"
proof
  assume *: "char_lower c = CHR ''_''"
  show "c = CHR ''_''"
  proof (cases "65 \<le> (of_char c :: nat) \<and> (of_char c :: nat) \<le> 90")
    case True
    then have "char_of ((of_char c :: nat) + 32) = (CHR ''_'' :: char)" using * by (simp add: char_lower_def)
    then have "of_char (char_of ((of_char c :: nat) + 32) :: char) = (of_char (CHR ''_'') :: nat)" by simp
    moreover have "((of_char c :: nat) + 32) mod 256 = of_char c + 32" using True by simp
    ultimately have "(of_char c :: nat) + 32 = 95" by simp
    then show ?thesis using True by simp
  next
    case False
    then show ?thesis using * by (auto simp: char_lower_def Let_def split: if_splits)
  qed
qed (simp add: char_lower_def)

lemma set_split_on: "w \<in> set (split_on c s) \<Longrightarrow> set w \<subseteq> set s"
proof (induction s arbitrary: w)
  case (Cons x s)
  obtain v vs where "split_on c s = v # vs" by (cases "split_on c s") auto
  with Cons show ?case by (fastforce split: if_splits)
qed simp

lemma set_join_with: "c \<in> set (join_with sep ws) \<Longrightarrow> c \<in> set sep \<or> (\<exists>w \<in> set ws. c \<in> set w)"
  by (induction sep ws rule: join_with.induct) auto

lemma alnum_not_underscore: "alnum c \<Longrightarrow> c \<noteq> CHR ''_''"
  by (auto simp: alnum_def)

lemma alnum_char_lower: "alnum c \<Longrightarrow> alnum (char_lower c)"
  by (auto simp: alnum_def char_lower_def Let_def split: if_splits)

lemma squash_no_underscore: "CHR ''_'' \<notin> set w \<Longrightarrow> squash w = to_lower w"
  by (induction w) (auto simp: squash_def to_lower_def)

lemma squash_join: "(\<And>w. w \<in> set ws \<Longrightarrow> CHR ''_'' \<notin> set w) \<Longrightarrow> squash (join_with ''_'' ws) = concat (map to_lower ws)"
proof (induction ws)
  case (Cons w ws)
  have app: "squash (a @ b) = squash a @ squash b" for a b by (simp add: squash_def)
  have "squash (CHR ''_'' # a) = squash a" for a by (simp add: squash_def to_lower_def char_lower_def)
  then show ?case using Cons by (cases "ws = []") (auto simp: join_with_Cons app squash_no_underscore)
qed (simp add: squash_def to_lower_def)

lemma lower_first_lower: "ws \<noteq> [] \<Longrightarrow> to_lower (lower_first ws) = concat (map to_lower ws)"
  by (cases ws) (auto simp: lower_first_def to_lower_concat)

lemma new_from_snake_squash:
  assumes "case_laws lib" "acronyms_ok acr" "list_all (\<lambda>c. alnum c \<or> c = CHR ''_'') s"
  shows "to_lower (camel_name (new_from_snake lib acr s)) = squash s"
    and "to_lower (lower_camel (new_from_snake lib acr s)) = squash s"
    and "to_lower (camel_computed (new_from_snake lib acr s)) = squash s"
    and "to_lower (lower_camel_computed (new_from_snake lib acr s)) = squash s"
proof -
  let ?ws = "split_on (CHR ''_'') s"
  have words: "CHR ''_'' \<notin> set w" "list_all alnum w" if "w \<in> set ?ws" for w
    using that split_on_parts [OF that] assms(3) set_split_on [OF that] by (auto simp: list_all_iff)
  have sq: "squash s = concat (map to_lower ?ws)"
    using squash_join [of ?ws] words(1) by (simp add: join_split_on)
  have plain: "map (\<lambda>w. to_lower (to_camel lib w)) ?ws = map to_lower ?ws"
    using assms(1) words(2) by (simp add: case_laws_def)
  have known: "map (\<lambda>w. to_lower (case acr (to_lower w) of Some known \<Rightarrow> known | None \<Rightarrow> to_camel lib w)) ?ws = map to_lower ?ws"
    using assms(1,2) words(2) by (auto simp: case_laws_def acronyms_ok_def split: option.splits)
  show "to_lower (camel_name (new_from_snake lib acr s)) = squash s"
    and "to_lower (lower_camel (new_from_snake lib acr s)) = squash s"
    unfolding new_from_snake_def Let_def by (simp_all only: name_variants.simps to_lower_concat map_map comp_def known sq)
       (simp add: lower_first_lower comp_def known del: map_eq_conv)
  show "to_lower (camel_computed (new_from_snake lib acr s)) = squash s"
    and "to_lower (lower_camel_computed (new_from_snake lib acr s)) = squash s"
    unfolding new_from_snake_def Let_def by (simp_all only: name_variants.simps to_lower_concat map_map comp_def plain sq)
       (simp add: lower_first_lower comp_def plain del: map_eq_conv)
qed

text \<open>
  Agreement of the name variants: for a table built from acronyms filed under their lower case
  spelling, all five variants of a Terraform argument name are the same letters and digits up to
  case and underscores, and the snake case name computed from a CRD field name is that field name
  up to case and underscores again.
\<close>

lemma name_variants_agree:
  assumes "case_laws lib" "acronyms_ok acr"
    and "list_all (\<lambda>c. alnum c \<or> c = CHR ''_'') s" "list_all alnum f"
  shows "squash (snake_name (new_from_snake lib acr s)) = squash s
    \<and> (\<forall>v \<in> {camel_name, lower_camel, camel_computed, lower_camel_computed}. to_lower (v (new_from_snake lib acr s)) = squash s)
    \<and> (\<forall>v \<in> {camel_name, lower_camel, camel_computed, lower_camel_computed}. to_lower (v (new_from_camel lib acr f)) = to_lower f)
    \<and> squash (snake_name (new_from_camel lib acr f)) = to_lower f"
proof -
  let ?k = "join_with ''_'' (map to_lower (camel_split lib f))"
  have parts: "CHR ''_'' \<notin> set w" "list_all alnum w" if "w \<in> set (camel_split lib f)" for w
  proof -
    have "set w \<subseteq> set f" using that assms(1) by (metis (no_types) UN_upper case_laws_def set_concat)
    with assms(4) show "CHR ''_'' \<notin> set w" "list_all alnum w" by (auto simp: list_all_iff dest: alnum_not_underscore)
  qed
  have low: "CHR ''_'' \<notin> set (to_lower w)" if "w \<in> set (camel_split lib f)" for w
    using parts(1) [OF that] by (simp add: to_lower_def image_iff char_lower_underscore [THEN trans [OF eq_commute]])
  have "squash ?k = concat (map to_lower (camel_split lib f))"
    using squash_join [of "map to_lower (camel_split lib f)"] low by (auto simp: comp_def)
  then have k: "squash ?k = to_lower f"
    using assms(1) by (simp add: to_lower_concat [symmetric] case_laws_def)
  have "list_all (\<lambda>c. alnum c \<or> c = CHR ''_'') ?k"
    using parts(2) alnum_char_lower by (auto simp: list_all_iff to_lower_def dest!: set_join_with)
  then show ?thesis
    using new_from_snake_squash [OF assms(1,2)] assms(3) k by (auto simp: new_from_camel_def new_from_snake_def Let_def)
qed

text \<open>A library that splits before every upper case letter.\<close>

definition upper_at :: "char \<Rightarrow> bool" where
  "upper_at c \<longleftrightarrow> 65 \<le> (of_char c :: nat) \<and> (of_char c :: nat) \<le> 90"

fun split_upper :: "string \<Rightarrow> string list" where
  "split_upper [] = []"
| "split_upper (c # cs) =
     (case split_upper cs of
        [] \<Rightarrow> [[c]]
      | w # ws \<Rightarrow> if upper_at (hd w) then [c] # w # ws else (c # w) # ws)"

definition char_upper :: "char \<Rightarrow> char" where
  "char_upper c = (let n = (of_char c :: nat) in if 97 \<le> n \<and> n \<le> 122 then char_of (n - 32) else c)"

definition simple_case_lib :: case_lib where
  "simple_case_lib = \<lparr>camel_split = split_upper, to_camel = (\<lambda>w. case w of [] \<Rightarrow> [] | c # cs \<Rightarrow> char_upper c # to_lower cs)\<rparr>"

lemma simple_case_laws: "case_laws simple_case_lib"
proof -
  have "concat (split_upper s) = s" for s
    by (induction s) (auto split: list.splits)
  moreover have "char_lower (char_upper c) = char_lower c" for c
    by (auto simp: char_lower_def char_upper_def Let_def)
  ultimately show ?thesis
    by (auto simp: case_laws_def simple_case_lib_def to_lower_def split: list.splits)
qed

end
