(* ===== verification/Annotations.thy ===== *)
theory Annotations
  imports GoOutcome ListConversion Names
begin

text \<open>
  Field values kept in an annotation while a controller reconciles an older API version
  (\<open>pkg/controller/annotation_conversions.go\<close>). Field paths, the JSON codec and the merge of
  \<open>mergo\<close> are third-party: the parameter \<open>field_lib\<close>. A nil annotations map is \<open>None\<close>. The entries
  of the unmarshalled map come in any order.
\<close>

record field_lib =
  parse_field :: "string \<Rightarrow> seg list"
  get_field_error :: "any_map \<Rightarrow> string \<Rightarrow> bool \<times> gerror"
  set_field :: "any_map \<Rightarrow> string \<Rightarrow> any \<Rightarrow> gerror + any_map"
  json_any :: "any \<Rightarrow> gerror + string"
  unjson_map :: "string \<Rightarrow> gerror + any_map"
  mergo_merge :: "any_map \<Rightarrow> any_map \<Rightarrow> gerror + any_map"
  snake :: "string \<Rightarrow> string"

text \<open>\<open>GetValue\<close>: the error comes with the verdict of \<open>IsNotFound\<close>.\<close>

definition get_field :: "field_lib \<Rightarrow> any_map \<Rightarrow> string \<Rightarrow> (bool \<times> gerror) + any" where
  "get_field lib m p =
     (case lookup_path (Map_v m) (parse_field lib p) of Some v \<Rightarrow> Inr v | None \<Rightarrow> Inl (get_field_error lib m p))"

definition annotation_key :: string where
  "annotation_key = ''internal.upjet.crossplane.io/field-conversions''"

definition are_values_equal :: "field_lib \<Rightarrow> any \<Rightarrow> any \<Rightarrow> bool" where
  "are_values_equal lib v1 v2 =
     (if v1 = Nil_v \<and> v2 = Nil_v then True
      else if v1 = Nil_v \<or> v2 = Nil_v then False
      else (case (json_any lib v1, json_any lib v2) of (Inr j1, Inr j2) \<Rightarrow> j1 = j2 | _ \<Rightarrow> False))"

text \<open>\<open>annotations[AnnotationKey]\<close>, when there is one and it is not empty.\<close>

definition stored_fields :: "(string \<rightharpoonup> string) option \<Rightarrow> string option" where
  "stored_fields ann =
     (case ann of
        None \<Rightarrow> None
      | Some a \<Rightarrow> (case a annotation_key of None \<Rightarrow> None | Some s \<Rightarrow> if s = '''' then None else Some s))"

section \<open>From the annotation back to the parameters and the status\<close>

text \<open>One field of the annotation, set unless it exists with the same value.\<close>

definition restore_field :: "field_lib \<Rightarrow> string \<Rightarrow> any \<Rightarrow> any_map \<Rightarrow> gerror + any_map" where
  "restore_field lib k v m =
     (let set = (case set_field lib m k v of
                   Inl e \<Rightarrow> Inl (WithMsg (''cannot set value for '' @ k) e) | Inr m \<Rightarrow> Inr m) in
      case get_field lib m k of
        Inl (not_found, e) \<Rightarrow>
          if not_found then set else Inl (WithMsg (''cannot get the current value for '' @ k) e)
      | Inr current \<Rightarrow> if \<not> are_values_equal lib current v then set else Inr m)"

definition status_prefix :: string where
  "status_prefix = ''status.atProvider.''"

text \<open>The key of a field: the path without its prefix, in snake case.\<close>

definition field_key :: "field_lib \<Rightarrow> string \<Rightarrow> string \<Rightarrow> string" where
  "field_key lib prefix path =
     snake lib (if has_prefix path prefix then drop (length prefix) path else path)"

fun merge_status :: "field_lib \<Rightarrow> any_map \<Rightarrow> any_map \<Rightarrow> gerror + any_map" where
  "merge_status lib [] at = Inr at"
| "merge_status lib ((path, v) # es) at =
     (if has_prefix path status_prefix then
        (case restore_field lib (field_key lib status_prefix path) v at of
           Inl e \<Rightarrow> Inl e
         | Inr at \<Rightarrow> merge_status lib es at)
      else merge_status lib es at)"

text \<open>\<open>same_version\<close>: the controller reconciles the version the resource is configured with.\<close>

definition merge_annotation_fields_with_status ::
  "field_lib \<Rightarrow> bool \<Rightarrow> (string \<rightharpoonup> string) option \<Rightarrow> any_map \<Rightarrow> gerror + any_map" where
  "merge_annotation_fields_with_status lib same_version ann at =
     (if same_version then Inr at
      else (case stored_fields ann of
        None \<Rightarrow> Inr at
      | Some s \<Rightarrow>
          (case unjson_map lib s of
             Inl e \<Rightarrow> Inl (WithMsg (''failed to unmarshal annotation '' @ go_quote annotation_key @ '' from JSON'') e)
           | Inr stored \<Rightarrow> merge_status lib stored at)))"

fun merge_spec :: "field_lib \<Rightarrow> bool \<Rightarrow> any_map \<Rightarrow> any_map \<Rightarrow> any_map \<Rightarrow> gerror + any_map \<times> any_map" where
  "merge_spec lib with_init [] ps ips = Inr (ps, ips)"
| "merge_spec lib with_init ((path, v) # es) ps ips =
     (if has_prefix path ''spec.forProvider.'' then
        (case restore_field lib (field_key lib ''spec.forProvider.'' path) v ps of
           Inl e \<Rightarrow> Inl e
         | Inr ps \<Rightarrow> merge_spec lib with_init es ps ips)
      else if has_prefix path ''spec.initProvider.'' \<and> with_init then
        (case restore_field lib (field_key lib ''spec.initProvider.'' path) v ips of
           Inl e \<Rightarrow> Inl e
         | Inr ips \<Rightarrow> merge_spec lib with_init es ps ips)
      else merge_spec lib with_init es ps ips)"

definition merge_annotation_fields_with_spec ::
  "field_lib \<Rightarrow> gerror + any_map \<Rightarrow> gerror + any_map \<Rightarrow> bool \<Rightarrow> (string \<rightharpoonup> string) option \<Rightarrow> gerror + any_map" where
  "merge_annotation_fields_with_spec lib parameters init_parameters with_init ann =
     (case parameters of Inl e \<Rightarrow> Inl (WithMsg ''cannot get parameters'' e)
      | Inr ps \<Rightarrow>
        (case init_parameters of Inl e \<Rightarrow> Inl (WithMsg ''cannot get init parameters'' e)
         | Inr ips \<Rightarrow>
           (case (case stored_fields ann of
                    None \<Rightarrow> Inr (ps, ips)
                  | Some s \<Rightarrow>
                      (case unjson_map lib s of
                         Inl e \<Rightarrow> Inl (WithMsg (''failed to unmarshal annotation '' @ go_quote annotation_key @ '' from JSON'') e)
                       | Inr stored \<Rightarrow> merge_spec lib with_init stored ps ips)) of
              Inl e \<Rightarrow> Inl e
            | Inr (fp, ip) \<Rightarrow>
                if with_init
                then (case mergo_merge lib fp ip of
                        Inl e \<Rightarrow> Inl (WithMsg ''cannot merge spec.initProvider and spec.forProvider parameters'' e)
                      | Inr fp \<Rightarrow> Inr fp)
                else Inr fp)))"

section \<open>From the state to the annotation\<close>

text \<open>The loop over the configured paths; the flag tells whether an entry changed.\<close>

fun move_fields ::
  "field_lib \<Rightarrow> any_map \<Rightarrow> any_map \<Rightarrow> string list \<Rightarrow> bool \<Rightarrow> any_map \<Rightarrow> gerror + bool \<times> any_map" where
  "move_fields lib tf at [] updated stored = Inr (updated, stored)"
| "move_fields lib tf at (path # paths) updated stored =
     (let k = field_key lib status_prefix path in
      case get_field lib tf k of
        Inl (_, e) \<Rightarrow> Inl (WithMsg (''cannot get value for '' @ k) e)
      | Inr v \<Rightarrow>
          (case get_field lib at k of
             Inr _ \<Rightarrow> move_fields lib tf at paths updated stored
           | Inl (not_found, e) \<Rightarrow>
               if not_found then
                 (if (case map_of stored path of None \<Rightarrow> True | Some w \<Rightarrow> \<not> are_values_equal lib w v)
                  then move_fields lib tf at paths True (put_key path v stored)
                  else move_fields lib tf at paths updated stored)
               else Inl (WithMsg (''cannot get the current value for '' @ k) e)))"

text \<open>The second component is the caller's map: a nil map stays nil, whatever is stored in its replacement.\<close>

definition move_tf_state_values_to_annotation ::
  "field_lib \<Rightarrow> bool \<Rightarrow> string list \<Rightarrow> any_map \<Rightarrow> any_map \<Rightarrow> (string \<rightharpoonup> string) option \<Rightarrow>
     (gerror + bool) \<times> (string \<rightharpoonup> string) option" where
  "move_tf_state_values_to_annotation lib same_version paths tf at ann =
     (if same_version \<or> paths = [] then (Inr False, ann)
      else (case (case stored_fields ann of None \<Rightarrow> Inr [] | Some s \<Rightarrow> unjson_map lib s) of
        Inl e \<Rightarrow> (Inl (WithMsg (''failed to unmarshal existing annotation '' @ go_quote annotation_key @ '' from JSON'') e), ann)
      | Inr stored \<Rightarrow>
          (case move_fields lib tf at paths False stored of
             Inl e \<Rightarrow> (Inl e, ann)
           | Inr (updated, stored) \<Rightarrow>
               if updated then
                 (case json_any lib (Map_v stored) of
                    Inl e \<Rightarrow> (Inl (WithMsg (''failed to marshal annotation '' @ go_quote annotation_key @ '' to JSON'') e), ann)
                  | Inr s \<Rightarrow> (Inr True, map_option (\<lambda>a. a(annotation_key \<mapsto> s)) ann))
               else (Inr False, ann))))"


section \<open>What the libraries promise\<close>

text \<open>
  The values the codec of \<open>encoding/json\<close> reproduces: integers and floats that a \<open>float64\<close> holds exactly,
  ASCII strings, and lists and maps of those. (A larger integer is decoded as the nearest \<open>float64\<close>, and an
  invalid UTF-8 sequence as the replacement character.)
\<close>

definition ascii :: "string \<Rightarrow> bool" where
  "ascii s \<longleftrightarrow> list_all (\<lambda>c. \<not> digit7 c) s"

fun json_exact :: "any \<Rightarrow> bool" where
  "json_exact (Num_v n) = (\<bar>n\<bar> \<le> 2 ^ 53)"
| "json_exact (Float_v m e) = (\<bar>m\<bar> < 2 ^ 53 \<and> - 1074 \<le> e \<and> e \<le> 971)"
| "json_exact (Str_v s) = ascii s"
| "json_exact (Slice_v xs) = list_all json_exact xs"
| "json_exact (Map_v m) = (distinct (map fst m) \<and> list_all (\<lambda>e. ascii (fst e) \<and> json_exact (snd e)) m)"
| "json_exact v = True"

text \<open>A value with the JSON form of such a value, as decoding one gives.\<close>

definition settled :: "field_lib \<Rightarrow> any \<Rightarrow> bool" where
  "settled lib v \<longleftrightarrow> (\<exists>u. json_exact u \<and> (v = u \<or> are_values_equal lib v u))"

text \<open>A path of names: no index, no wildcard and no brackets.\<close>

definition plain_field :: "string \<Rightarrow> bool" where
  "plain_field k \<longleftrightarrow> list_all plain_name (split_on (CHR ''.'') k)"

text \<open>
  Setting a path of names leaves the paths of names apart from it untouched, and a value the codec reproduces
  is read back up to its JSON form. A marshalled map can be unmarshalled, and the entries whose key and value the
  codec reproduces are found there up to their JSON form. Nothing is required of other paths (setting an
  index beyond the end of a list fills it with nils) and of other values.
\<close>

definition field_laws :: "field_lib \<Rightarrow> bool" where
  "field_laws lib \<longleftrightarrow>
     (\<forall>m k v m'. plain_field k \<longrightarrow> set_field lib m k v = Inr m' \<longrightarrow>
        (settled lib v \<longrightarrow> (\<exists>w. lookup_path (Map_v m') (parse_field lib k) = Some w \<and> are_values_equal lib w v)) \<and>
        (\<forall>j. plain_field j \<longrightarrow> apart (parse_field lib k) (parse_field lib j) \<longrightarrow>
           lookup_path (Map_v m') (parse_field lib j) = lookup_path (Map_v m) (parse_field lib j))) \<and>
     (\<forall>m s. distinct (map fst m) \<longrightarrow> json_any lib (Map_v m) = Inr s \<longrightarrow> s \<noteq> '''' \<and>
        (\<exists>m'. unjson_map lib s = Inr m' \<and> (\<forall>k v. map_of m k = Some v \<longrightarrow> ascii k \<longrightarrow> settled lib v \<longrightarrow>
           (\<exists>w. map_of m' k = Some w \<and> are_values_equal lib w v)))) \<and>
     (\<forall>s m. unjson_map lib s = Inr m \<longrightarrow> distinct (map fst m))"

text \<open>The status fields of the annotation have paths of names, and none is a part of another.\<close>

definition status_keys :: "field_lib \<Rightarrow> any_map \<Rightarrow> string list" where
  "status_keys lib m = map (\<lambda>e. field_key lib status_prefix (fst e)) (filter (\<lambda>e. has_prefix (fst e) status_prefix) m)"

definition keys_apart :: "field_lib \<Rightarrow> string list \<Rightarrow> bool" where
  "keys_apart lib ks \<longleftrightarrow> list_all plain_field ks \<and> sorted_wrt (\<lambda>j k. apart (parse_field lib j) (parse_field lib k)) ks"

definition stored_apart :: "field_lib \<Rightarrow> (string \<rightharpoonup> string) option \<Rightarrow> bool" where
  "stored_apart lib ann =
     (case stored_fields ann of None \<Rightarrow> True
      | Some s \<Rightarrow> (case unjson_map lib s of Inl _ \<Rightarrow> True | Inr m \<Rightarrow> keys_apart lib (status_keys lib m)))"

lemma get_field_Inr [simp]: "get_field lib m k = Inr v \<longleftrightarrow> lookup_path (Map_v m) (parse_field lib k) = Some v"
  by (auto simp: get_field_def split: option.splits)

lemma apart_sym: "apart p q \<longleftrightarrow> apart q p"
  by (induction p q rule: apart.induct) auto

lemma are_values_equal_sym: "are_values_equal lib v w \<Longrightarrow> are_values_equal lib w v"
  by (auto simp: are_values_equal_def split: if_splits sum.splits)

lemma are_values_equal_trans: "are_values_equal lib u v \<Longrightarrow> are_values_equal lib v w \<Longrightarrow> are_values_equal lib u w"
  by (auto simp: are_values_equal_def split: if_splits sum.splits)

lemma settled_trans: "are_values_equal lib v w \<Longrightarrow> settled lib w \<Longrightarrow> settled lib v"
  unfolding settled_def using are_values_equal_trans by blast

lemma restore_field_sets:
  assumes "field_laws lib" "plain_field k" "restore_field lib k v m = Inr m'"
  shows "settled lib v \<Longrightarrow> \<exists>w. lookup_path (Map_v m') (parse_field lib k) = Some w \<and> are_values_equal lib w v"
    and "plain_field j \<Longrightarrow> apart (parse_field lib k) (parse_field lib j) \<Longrightarrow>
      lookup_path (Map_v m') (parse_field lib j) = lookup_path (Map_v m) (parse_field lib j)"
  using assms by (auto simp: restore_field_def field_laws_def Let_def split: sum.splits if_splits prod.splits)

lemma merge_status_sets:
  "field_laws lib \<Longrightarrow> merge_status lib es at = Inr at' \<Longrightarrow> keys_apart lib (status_keys lib es) \<Longrightarrow>
      (\<forall>(path, v) \<in> set es. has_prefix path status_prefix \<longrightarrow> settled lib v \<longrightarrow>
        (\<exists>w. lookup_path (Map_v at') (parse_field lib (field_key lib status_prefix path)) = Some w \<and> are_values_equal lib w v))
      \<and> (\<forall>j. plain_field j \<longrightarrow> (\<forall>k \<in> set (status_keys lib es). apart (parse_field lib k) (parse_field lib j)) \<longrightarrow>
        lookup_path (Map_v at') (parse_field lib j) = lookup_path (Map_v at) (parse_field lib j))"
proof (induction lib es at rule: merge_status.induct)
  case (2 lib path v es at)
  let ?k = "field_key lib status_prefix path"
  show ?case
  proof (cases "has_prefix path status_prefix")
    case True
    then obtain m where m: "restore_field lib ?k v at = Inr m" "merge_status lib es m = Inr at'"
      using 2(4) by (auto split: sum.splits)
    have ap: "keys_apart lib (status_keys lib es)" and pl: "plain_field ?k"
      and k: "\<forall>j \<in> set (status_keys lib es). apart (parse_field lib j) (parse_field lib ?k)"
      using 2(5) True by (auto simp: keys_apart_def status_keys_def apart_sym [of "parse_field lib ?k"])
    note IH = 2(1) [OF True m(1) 2(3) m(2) ap]
    have same: "lookup_path (Map_v at') (parse_field lib ?k) = lookup_path (Map_v m) (parse_field lib ?k)"
      using IH k pl by blast
    note sets = restore_field_sets [OF 2(3) pl m(1)]
    have keys: "set (status_keys lib ((path, v) # es)) = insert ?k (set (status_keys lib es))"
      using True by (simp add: status_keys_def)
    show ?thesis
    proof (intro conjI)
      show "\<forall>(path', v') \<in> set ((path, v) # es). has_prefix path' status_prefix \<longrightarrow> settled lib v' \<longrightarrow>
        (\<exists>w. lookup_path (Map_v at') (parse_field lib (field_key lib status_prefix path')) = Some w \<and> are_values_equal lib w v')"
        using IH sets(1) same by auto
      show "\<forall>j. plain_field j \<longrightarrow> (\<forall>k \<in> set (status_keys lib ((path, v) # es)). apart (parse_field lib k) (parse_field lib j)) \<longrightarrow>
        lookup_path (Map_v at') (parse_field lib j) = lookup_path (Map_v at) (parse_field lib j)"
        unfolding keys using IH sets(2) by (metis insertCI)
    qed
  next
    case False
    then show ?thesis using 2(2) [OF False 2(3)] 2(4,5) by (auto simp: status_keys_def)
  qed
qed simp

lemma move_fields_distinct:
  "move_fields lib tf at paths u st = Inr (u', st') \<Longrightarrow> distinct (map fst st) \<Longrightarrow> distinct (map fst st')"
  by (induction lib tf at paths u st rule: move_fields.induct)
    (auto simp: Let_def distinct_put_key simp del: get_field_Inr split: sum.splits if_splits prod.splits)

lemma move_fields_stores:
  "move_fields lib tf at paths u st = Inr (u', st') \<Longrightarrow>
     (u \<longrightarrow> u') \<and> (\<not> u' \<longrightarrow> st' = st) \<and>
     (\<forall>p. p \<notin> set paths \<longrightarrow> map_of st' p = map_of st p) \<and>
     (\<forall>p \<in> set paths. \<forall>v. lookup_path (Map_v tf) (parse_field lib (field_key lib status_prefix p)) = Some v \<longrightarrow>
        lookup_path (Map_v at) (parse_field lib (field_key lib status_prefix p)) = None \<longrightarrow>
        (\<exists>w. map_of st' p = Some w \<and> (are_values_equal lib w v \<or> u' \<and> w = v)))"
proof (induction lib tf at paths u st rule: move_fields.induct)
  case (2 lib tf at path paths u st)
  let ?k = "field_key lib status_prefix path"
  obtain v where v: "get_field lib tf ?k = Inr v" using 2(4) by (auto simp: Let_def simp del: get_field_Inr split: sum.splits)
  show ?case
  proof (cases "get_field lib at ?k")
    case (Inr x)
    then have "move_fields lib tf at paths u st = Inr (u', st')" using 2(4) v by (simp add: Let_def del: get_field_Inr)
    from 2(3) [OF refl v Inr this] v Inr show ?thesis by auto
  next
    case (Inl ne)
    then obtain e where e: "get_field lib at ?k = Inl (True, e)" using 2(4) v by (auto simp: Let_def simp del: get_field_Inr split: if_splits prod.splits)
    let ?changed = "case map_of st path of None \<Rightarrow> True | Some w \<Rightarrow> \<not> are_values_equal lib w v"
    show ?thesis
    proof (cases ?changed)
      case True
      with 2(4) v e have "move_fields lib tf at paths True (put_key path v st) = Inr (u', st')"
        by (simp add: Let_def del: get_field_Inr)
      from 2(1) [OF refl v e refl TrueI True this] v show ?thesis
        by (cases "path \<in> set paths") auto
    next
      case False
      with 2(4) v e have "move_fields lib tf at paths u st = Inr (u', st')"
        by (simp add: Let_def del: get_field_Inr)
      from 2(2) [OF refl v e refl TrueI False this] v False show ?thesis
        by (cases "path \<in> set paths") (auto split: option.splits)
    qed
  qed
qed auto

text \<open>
  C38. Status fields survive on an older API version. The state values of the configured paths were moved to the annotation of
  a resource that has annotations (a resource whose annotations map is nil loses them: \<open>nil_annotations_lose_values\<close>),
  and a later connection, which did not fail, rebuilt the state from the same status and annotation. The configured
  paths start with \<open>status.atProvider.\<close>, and the status keys of the annotation are paths of names of which none is a
  part of another. Then each configured field of the Terraform state that the status has no room for, with an ASCII path
  and a value the JSON codec reproduces (numbers exact as \<open>float64\<close>, ASCII strings), is back with that value up to
  its JSON form.
\<close>

theorem status_fields_survive:
  assumes laws: "field_laws lib"
    and move: "move_tf_state_values_to_annotation lib False paths tf at (Some a) = (Inr updated, ann)"
    and merge: "merge_annotation_fields_with_status lib False ann at = Inr at'"
    and apart: "stored_apart lib ann" and prefixed: "list_all (\<lambda>p. has_prefix p status_prefix) paths"
    and p: "p \<in> set paths" "get_field lib tf (field_key lib status_prefix p) = Inr v"
      "\<not> (\<exists>w. get_field lib at (field_key lib status_prefix p) = Inr w)"
    and exact: "ascii p" "json_exact v"
  shows "\<exists>w. get_field lib at' (field_key lib status_prefix p) = Inr w \<and> are_values_equal lib w v"
proof -
  from move p obtain st st' where
      st: "(case stored_fields (Some a) of None \<Rightarrow> Inr [] | Some s \<Rightarrow> unjson_map lib s) = Inr st"
    and st': "move_fields lib tf at paths False st = Inr (updated, st')"
    by (auto simp: move_tf_state_values_to_annotation_def split: sum.splits if_splits)
  have "distinct (map fst st)" using laws st by (auto simp: field_laws_def split: option.splits)
  then have dist: "distinct (map fst st')" by (rule move_fields_distinct [OF st'])
  from move_fields_stores [OF st'] p obtain w where
      w: "map_of st' p = Some w" "are_values_equal lib w v \<or> updated \<and> w = v" and same: "\<not> updated \<longrightarrow> st' = st"
    unfolding get_field_Inr by (metis not_Some_eq)
  then have settled: "settled lib w" using exact(2) by (auto simp: settled_def)
  have "\<exists>m s x. stored_fields ann = Some s \<and> unjson_map lib s = Inr m \<and> map_of m p = Some x \<and> are_values_equal lib x v"
  proof (cases updated)
    case True
    then obtain s where s: "json_any lib (Map_v st') = Inr s" "ann = Some (a(annotation_key \<mapsto> s))"
      using move st st' p(1) by (auto simp: move_tf_state_values_to_annotation_def split: sum.splits if_splits option.splits)
    with laws dist obtain m' where m': "s \<noteq> ''''" "unjson_map lib s = Inr m'"
        "\<forall>k v. map_of st' k = Some v \<longrightarrow> ascii k \<longrightarrow> settled lib v \<longrightarrow> (\<exists>w. map_of m' k = Some w \<and> are_values_equal lib w v)"
      unfolding field_laws_def by blast
    from m'(3) w(1) exact(1) settled obtain x where "map_of m' p = Some x" "are_values_equal lib x w" by blast
    with m'(1,2) s w(2) show ?thesis by (auto simp: stored_fields_def intro: are_values_equal_trans)
  next
    case False
    then have "ann = Some a" "map_of st p = Some w" "are_values_equal lib w v"
      using move st st' p(1) w same by (auto simp: move_tf_state_values_to_annotation_def split: sum.splits if_splits)
    with st show ?thesis by (auto split: option.splits)
  qed
  then obtain m s x where m: "stored_fields ann = Some s" "unjson_map lib s = Inr m" "map_of m p = Some x"
      "are_values_equal lib x v" by blast
  then have "merge_status lib m at = Inr at'" "keys_apart lib (status_keys lib m)"
    using merge apart by (auto simp: merge_annotation_fields_with_status_def stored_apart_def)
  moreover have "settled lib x" using m(4) exact(2) by (auto simp: settled_def)
  ultimately obtain y where
    "lookup_path (Map_v at') (parse_field lib (field_key lib status_prefix p)) = Some y" "are_values_equal lib y x"
    using merge_status_sets [OF laws, of m at at'] map_of_SomeD [OF m(3)] prefixed p(1)
    by (fastforce simp: list_all_iff)
  with m(4) show ?thesis by (auto intro: are_values_equal_trans)
qed

text \<open>On a resource without annotations the values are reported as stored, and lost.\<close>

lemma nil_annotations_lose_values:
  "move_tf_state_values_to_annotation lib False paths tf at None = (Inr updated, ann) \<Longrightarrow> ann = None"
  by (auto simp: move_tf_state_values_to_annotation_def stored_fields_def split: if_splits sum.splits)


text \<open>A library for flat fields with string values, to instantiate the parameter.\<close>

definition flat_lib :: field_lib where
  "flat_lib =
     \<lparr>parse_field = (\<lambda>k. [Key_seg k]), get_field_error = (\<lambda>_ _. (True, Plain ''not found'')),
      set_field = (\<lambda>m k v. case v of Str_v t \<Rightarrow> Inr (put_key k v m) | _ \<Rightarrow> Inl (Plain ''unsupported value'')),
      json_any = (\<lambda>v. case v of Str_v t \<Rightarrow> Inr t
        | Map_v [(k, Str_v t)] \<Rightarrow> if CHR ''='' \<in> set k then Inl (Plain ''unsupported key'') else Inr (k @ ''='' @ t)
        | _ \<Rightarrow> Inl (Plain ''unsupported value'')),
      unjson_map = (\<lambda>s. Inr [(takeWhile (\<lambda>c. c \<noteq> CHR ''='') s, Str_v (tl (dropWhile (\<lambda>c. c \<noteq> CHR ''='') s)))]),
      mergo_merge = (\<lambda>m1 m2. Inr (put_all m1 m2)), snake = (\<lambda>s. s)\<rparr>"

lemma flat_lib_laws: "field_laws flat_lib"
proof -
  have key: "takeWhile (\<lambda>c. c \<noteq> CHR ''='') (k @ CHR ''='' # t) = k"
    "dropWhile (\<lambda>c. c \<noteq> CHR ''='') (k @ CHR ''='' # t) = CHR ''='' # t" if "CHR ''='' \<notin> set k" for k t
    using that by (induction k) auto
  have "json_any flat_lib (Map_v m) = Inr s \<Longrightarrow>
      s \<noteq> '''' \<and> (\<exists>m'. unjson_map flat_lib s = Inr m' \<and> (\<forall>k v. map_of m k = Some v \<longrightarrow>
        (\<exists>w. map_of m' k = Some w \<and> are_values_equal flat_lib w v)))" for m s
    by (auto simp: flat_lib_def are_values_equal_def key split: list.splits prod.splits any.splits if_splits)
  then show ?thesis
    by (auto simp: field_laws_def flat_lib_def are_values_equal_def split: any.splits)
qed

theorem status_fields_survive_witness:
  "\<exists>w. get_field flat_lib [(''id'', Str_v ''i-1''), (''arn'', Str_v ''x'')] ''arn'' = Inr w \<and> are_values_equal flat_lib w (Str_v ''x'')"
proof -
  have key: "field_key flat_lib status_prefix ''status.atProvider.arn'' = ''arn''" by code_simp
  have move: "move_tf_state_values_to_annotation flat_lib False [''status.atProvider.arn'']
      [(''id'', Str_v ''i-1''), (''arn'', Str_v ''x'')] [(''id'', Str_v ''i-1'')] (Some Map.empty)
      = (Inr True, Some [annotation_key \<mapsto> ''status.atProvider.arn=x''])"
  proof -
    have "move_fields flat_lib [(''id'', Str_v ''i-1''), (''arn'', Str_v ''x'')] [(''id'', Str_v ''i-1'')]
        [''status.atProvider.arn''] False [] = Inr (True, [(''status.atProvider.arn'', Str_v ''x'')])"
      and "json_any flat_lib (Map_v [(''status.atProvider.arn'', Str_v ''x'')]) = Inr ''status.atProvider.arn=x''"
      by code_simp+
    then show ?thesis by (simp add: move_tf_state_values_to_annotation_def stored_fields_def del: move_fields.simps)
  qed
  have merge: "merge_annotation_fields_with_status flat_lib False (Some [annotation_key \<mapsto> ''status.atProvider.arn=x''])
      [(''id'', Str_v ''i-1'')] = Inr [(''id'', Str_v ''i-1''), (''arn'', Str_v ''x'')]"
    by code_simp
  have apart: "stored_apart flat_lib (Some [annotation_key \<mapsto> ''status.atProvider.arn=x''])" by code_simp
  have prefixed: "list_all (\<lambda>p. has_prefix p status_prefix) [''status.atProvider.arn'']" by code_simp
  have exact: "ascii ''status.atProvider.arn''" "json_exact (Str_v ''x'')" by code_simp+
  show ?thesis
    using status_fields_survive [OF flat_lib_laws move merge apart prefixed, of "''status.atProvider.arn''" "Str_v ''x''"] key exact
    by (simp add: get_field_def flat_lib_def)
qed

end
