(* ===== verification/SdkClient.thy ===== *)
theory SdkClient
  imports AsyncTracker ExternalClient IgnoreChanges Annotations
begin

text \<open>
  The synchronous no-fork client of the Terraform plugin SDK
  (\<open>pkg/controller/external_tfpluginsdk.go\<close>): the parameters and the reconstructed state of
  \<open>Connect\<close>, the instance diff and its filter, and \<open>Observe\<close>, \<open>Create\<close>, \<open>Update\<close> and \<open>Delete\<close> over an
  asynchronous tracker. The SDK, the generated methods of the managed resource and the functions
  of its configuration are the parameter \<open>sdk_ops\<close>; what a call of the provider returns is an
  argument of the operation that makes the call. A state the provider returns is a new object.
\<close>

section \<open>Data\<close>

record attr_diff =
  ad_old :: string
  ad_new :: string
  ad_requires_new :: bool
  ad_sensitive :: bool

type_synonym attr_diffs = "(string \<times> attr_diff option) list"

record 'v instance_diff =
  di_attributes :: attr_diffs
  di_destroy :: bool
  di_tainted :: bool
  di_identity :: "(string \<times> string) list option"
  di_raw_config :: 'v
  di_raw_plan :: 'v
  di_timeouts :: "(string \<times> int) list option"

record ('at, 'v) sdk_rest =
  st_attributes :: "'at option"
  st_raw_plan :: 'v
  st_raw_config :: 'v
  st_timeouts :: "(string \<times> int) list option"

type_synonym ('at, 'v) sdk_state = "('at, 'v) sdk_rest instance_state"

record schema_timeouts =
  sc_create :: "int option"
  sc_update :: "int option"
  sc_delete :: "int option"
  sc_read :: "int option"

record ('at, 'v, 'p) sdk_ops =
  sk_name :: string
  sk_object :: string
  sk_params :: any_map
  sk_raw_config :: 'v
  sk_same_version :: bool
  sk_status_paths :: "string list"
  sk_fields :: field_lib
  sk_policies_enabled :: bool
  sk_schema_timeouts :: "schema_timeouts option"
  sk_timeouts :: op_timeouts
  attrs_as_value :: "('at, 'v) sdk_state option \<Rightarrow> gerror + 'v"
  value_to_json :: "'v \<Rightarrow> gerror + any_map"
  value_is_null :: "'v \<Rightarrow> bool"
  apply_to_value :: "'v instance_diff \<Rightarrow> gerror + 'v"
  diff_empty :: "'v instance_diff \<Rightarrow> bool"
  new_instance_diff :: "'v instance_diff"
  schema_diff :: "any_map \<Rightarrow> ('at, 'v) sdk_state option \<Rightarrow> gerror + 'v instance_diff option"
  custom_diff :: "('v instance_diff option \<Rightarrow> ('at, 'v) sdk_state option \<Rightarrow> gerror + 'v instance_diff option) option"
  get_parameters :: "'p \<Rightarrow> gerror + any_map"
  get_init_parameters :: "'p \<Rightarrow> gerror + any_map"
  to_terraform :: "any_map \<Rightarrow> gerror + any_map"
  get_observation :: "any_map \<Rightarrow> gerror + any_map"
  marshal_state_err :: "any_map \<Rightarrow> gerror option"
  loop_prevention :: "('v instance_diff option \<Rightarrow> gerror + string option) option"

datatype ('at, 'v) sdk_call =
    RefreshCall "('at, 'v) sdk_state option"
  | ApplyCall "('at, 'v) sdk_state option" "'v instance_diff option"

text \<open>The client of one reconciliation with the tracker it shares with later ones, and the provider calls made.\<close>

record ('at, 'v) sdk_client =
  sc_tracker :: "(('at, 'v) sdk_rest, unit, unit) async_tracker"
  sc_diff :: "'v instance_diff option"
  sc_calls :: "('at, 'v) sdk_call list"

section \<open>Timeouts\<close>

definition unless_zero :: "string \<Rightarrow> int option \<Rightarrow> (string \<times> int) list \<Rightarrow> (string \<times> int) list" where
  "unless_zero k d m = (case d of None \<Rightarrow> m | Some n \<Rightarrow> if n \<noteq> 0 then put_key k n m else m)"

definition get_timeout_parameters :: "schema_timeouts option \<Rightarrow> op_timeouts \<Rightarrow> (string \<times> int) list" where
  "get_timeout_parameters schema ts =
     (let m = (case schema of
                 None \<Rightarrow> []
               | Some s \<Rightarrow>
                   unless_zero ''read'' (sc_read s) (unless_zero ''delete'' (sc_delete s)
                     (unless_zero ''update'' (sc_update s) (unless_zero ''create'' (sc_create s) [])))) in
      unless_zero ''read'' (Some (t_read ts)) (unless_zero ''delete'' (Some (t_delete ts))
        (unless_zero ''update'' (Some (t_update ts)) (unless_zero ''create'' (Some (t_create ts)) m))))"

section \<open>The diff without the fields exclusive to spec.initProvider\<close>

definition under_key :: "string \<Rightarrow> string \<Rightarrow> bool" where
  "under_key key a \<longleftrightarrow> a = key \<or> has_prefix a (key @ ''.'')"

definition with_top :: "string \<Rightarrow> string \<Rightarrow> string" where
  "with_top t a = join_with ''.'' (t # tl (split_on (CHR ''.'') a))"

definition top_of :: "string \<Rightarrow> string" where
  "top_of a = hd (split_on (CHR ''.'') a)"

text \<open>The range over the attributes: a key deleted before it is reached is not visited.\<close>

fun ignore_under :: "string \<Rightarrow> string list \<Rightarrow> attr_diffs \<Rightarrow> attr_diffs" where
  "ignore_under key [] as = as"
| "ignore_under key (a # ks) as =
     (if map_of as a = None \<or> \<not> under_key key a then ignore_under key ks as
      else
        let as = del_key a as in
        ignore_under key ks (if top_of a \<noteq> ''tags'' then as else del_key (with_top ''tags_all'' a) as))"

definition last_as :: "string \<Rightarrow> string list \<Rightarrow> string" where
  "last_as c cs = join_with ''.'' (butlast cs @ [c])"

definition drop_length_keys :: "string \<Rightarrow> attr_diffs \<Rightarrow> attr_diffs" where
  "drop_length_keys key as =
     (let cs = split_on (CHR ''.'') key in
      if length cs < 2 then as
      else
        let as = del_key (last_as ''#'' cs) (del_key (last_as ''%'' cs) as) in
        if hd cs = ''tags'' then del_key (last_as ''%'' (''tags_all'' # tl cs)) as else as)"

definition drop_ignored :: "string list \<Rightarrow> attr_diffs \<Rightarrow> attr_diffs" where
  "drop_ignored keys as =
     fold drop_length_keys keys (fold (\<lambda>key as. ignore_under key (map fst as) as) keys as)"

definition init_exclusive_keys :: "('at, 'v, 'p) sdk_ops \<Rightarrow> 'p \<Rightarrow> string list outcome" where
  "init_exclusive_keys ops p =
     and_then (wrap_outcome ''cannot get spec.forProvider parameters'' (lift_sum (get_parameters ops p)))
       (\<lambda>fp. and_then (wrap_outcome ''cannot apply tf conversions to spec.forProvider parameters'' (lift_sum (to_terraform ops fp)))
       (\<lambda>fp. and_then (wrap_outcome ''cannot get spec.initProvider parameters'' (lift_sum (get_init_parameters ops p)))
       (\<lambda>ip. and_then (wrap_outcome ''cannot apply tf conversions to spec.initProvider parameters'' (lift_sum (to_terraform ops ip)))
       (\<lambda>ip. case ctl_get_terraform_ignore_changes fp ip of None \<Rightarrow> Crashed | Some keys \<Rightarrow> Done keys))))"

definition filter_init_exclusive_diffs ::
  "('at, 'v, 'p) sdk_ops \<Rightarrow> 'p \<Rightarrow> 'v instance_diff option \<Rightarrow> 'v instance_diff option outcome" where
  "filter_init_exclusive_diffs ops p d =
     (case d of
        None \<Rightarrow> Done None
      | Some d \<Rightarrow>
          if diff_empty ops d then Done (Some d)
          else and_then (init_exclusive_keys ops p)
            (\<lambda>keys. Done (Some (d\<lparr>di_attributes := drop_ignored keys (di_attributes d)\<rparr>))))"

section \<open>The instance diff\<close>

definition with_timeouts ::
  "('at, 'v, 'p) sdk_ops \<Rightarrow> 'v instance_diff option \<Rightarrow> 'v instance_diff option" where
  "with_timeouts ops d =
     (let ts = get_timeout_parameters (sk_schema_timeouts ops) (sk_timeouts ops) in
      if ts = [] then d
      else Some ((case d of None \<Rightarrow> new_instance_diff ops | Some d \<Rightarrow> d)\<lparr>di_timeouts := Some ts\<rparr>))"

definition computed_diff ::
  "('at, 'v, 'p) sdk_ops \<Rightarrow> ('at, 'v) sdk_state option \<Rightarrow> 'v instance_diff option outcome" where
  "computed_diff ops s =
     and_then (wrap_outcome ''failed to get *terraform.InstanceDiff'' (lift_sum (schema_diff ops (sk_params ops) s)))
       (\<lambda>d. let d = map_option (\<lambda>d. d\<lparr>di_identity := None\<rparr>) d in
        case custom_diff ops of
          None \<Rightarrow> Done d
        | Some f \<Rightarrow> wrap_outcome ''failed to compute the customized terraform.InstanceDiff'' (lift_sum (f d s)))"

text \<open>The raw plan, the raw configuration and the timeouts of the diff.\<close>

definition finish_diff :: "('at, 'v, 'p) sdk_ops \<Rightarrow> 'v instance_diff option \<Rightarrow> 'v instance_diff option outcome" where
  "finish_diff ops d =
     and_then (case d of
         None \<Rightarrow> Done None
       | Some d \<Rightarrow>
           (case apply_to_value ops d of
              Inl e \<Rightarrow> Failed (WithMsg ''cannot apply Terraform instance diff to an empty value'' e)
            | Inr v \<Rightarrow> Done (Some (d\<lparr>di_raw_plan := v\<rparr>))))
       (\<lambda>d. Done (with_timeouts ops (case d of None \<Rightarrow> None
                 | Some d \<Rightarrow> Some (if \<not> diff_empty ops d then d\<lparr>di_raw_config := sk_raw_config ops\<rparr> else d))))"

definition get_resource_data_diff ::
  "('at, 'v, 'p) sdk_ops \<Rightarrow> 'p \<Rightarrow> ('at, 'v) sdk_state option \<Rightarrow> bool \<Rightarrow> 'v instance_diff option outcome" where
  "get_resource_data_diff ops p s resource_exists =
     and_then (computed_diff ops s)
       (\<lambda>d. and_then (if resource_exists
             then wrap_outcome ''failed to filter the diffs exclusive to spec.initProvider in the terraform.InstanceDiff''
               (filter_init_exclusive_diffs ops p d)
             else Done d)
       (finish_diff ops))"

section \<open>The state as a JSON map, and the external name\<close>

definition from_instance_state_to_json_map ::
  "('at, 'v, 'p) sdk_ops \<Rightarrow> ('at, 'v) sdk_state option \<Rightarrow> (any_map \<times> 'v) outcome" where
  "from_instance_state_to_json_map ops s =
     and_then (wrap_outcome ''could not convert attrs to cty value'' (lift_sum (attrs_as_value ops s)))
       (\<lambda>v. and_then (wrap_outcome ''could not convert instance state value to JSON'' (lift_sum (value_to_json ops v)))
       (\<lambda>m. Done (m, v)))"

definition set_external_name ::
  "('p, 's, 'st, 'c) mr_ops \<Rightarrow> any_map \<Rightarrow> ('p, 's) managed \<Rightarrow> bool outcome \<times> ('p, 's) managed" where
  "set_external_name mr m mg =
     (case map_of m ''id'' of
        None \<Rightarrow> (Done False, mg)
      | Some (Str_v tid) \<Rightarrow>
          if tid = '''' then (Done False, mg)
          else (case external_name_fn mr m of
              Inl e \<Rightarrow> (Failed (WithMsg (''failed to compute the external-name from the state map of the resource with the ID '' @ tid) e), mg)
            | Inr nm \<Rightarrow>
                (Done (annotation_or_empty (mg_annotations mg) external_name_key \<noteq> nm),
                 mg\<lparr>mg_annotations := (mg_annotations mg)(external_name_key \<mapsto> nm)\<rparr>))
      | Some _ \<Rightarrow> (Crashed, mg))"

text \<open>
  \<open>nil_ann\<close>: the object has no annotations map. The end of \<open>Observe\<close>, \<open>Create\<close> and \<open>Update\<close>
  stores the observation and moves values to the annotation.
\<close>

definition update_annotations ::
  "('at, 'v, 'p) sdk_ops \<Rightarrow> bool \<Rightarrow> any_map \<Rightarrow> any_map \<Rightarrow> ('p, 's) managed \<Rightarrow> bool outcome \<times> ('p, 's) managed" where
  "update_annotations ops nil_ann m obs mg =
     (let (r, ann) = move_tf_state_values_to_annotation (sk_fields ops) (sk_same_version ops) (sk_status_paths ops) m obs
                       (if nil_ann then None else Some (mg_annotations mg)) in
      (wrap_outcome ''cannot move status values to annotation'' (lift_sum r),
       case ann of None \<Rightarrow> mg | Some a \<Rightarrow> mg\<lparr>mg_annotations := a\<rparr>))"

definition store_observation ::
  "('at, 'v, 'p) sdk_ops \<Rightarrow> ('p, 's, 'st, 'c) mr_ops \<Rightarrow> string \<Rightarrow> bool \<Rightarrow> any_map \<Rightarrow> ('p, 's) managed \<Rightarrow>
     bool outcome \<times> ('p, 's) managed" where
  "store_observation ops mr msg nil_ann m mg =
     (case set_observation_err mr m of
        Some e \<Rightarrow> (Failed (Plain (msg @ error_string e)), mg)
      | None \<Rightarrow>
          let mg = mg\<lparr>mg_observation := m\<rparr> in
          (case get_observation ops m of
             Inl e \<Rightarrow> (Failed (WithMsg ''could not get observation'' e), mg)
           | Inr obs \<Rightarrow> update_annotations ops nil_ann m obs mg))"

section \<open>Observe\<close>

text \<open>The refresh: the state for the diff, whether the resource exists, and its JSON map if it does.\<close>

definition emptied_state :: "('at, 'v, 'p) sdk_ops \<Rightarrow> ('at, 'v) sdk_state \<Rightarrow> ('at, 'v) sdk_state" where
  "emptied_state ops s =
     (let r = state_rest s; r = r\<lparr>st_attributes := None\<rparr>;
          r = (if value_is_null ops (st_raw_plan r) then r\<lparr>st_raw_plan := sk_raw_config ops\<rparr> else r);
          r = (if value_is_null ops (st_raw_config r) then r\<lparr>st_raw_config := sk_raw_config ops\<rparr> else r) in
      s\<lparr>state_id := '''', state_rest := r\<rparr>)"

definition observe_refresh ::
  "('at, 'v, 'p) sdk_ops \<Rightarrow> ('at, 'v) sdk_state option \<times> string option \<Rightarrow> ('at, 'v) sdk_client \<Rightarrow>
     (('at, 'v) sdk_state option \<times> any_map option) outcome \<times> ('at, 'v) sdk_client" where
  "observe_refresh ops ret c =
     (let (new, diag) = ret;
          c = c\<lparr>sc_calls := sc_calls c @ [RefreshCall (get_tf_state (sc_tracker c))]\<rparr> in
      case diag of
        Some d \<Rightarrow>
          (Failed (Plain (''failed to observe the resource: '' @ d)),
           c\<lparr>sc_tracker := reset_reconstructed_tf_state (sc_tracker c)\<rparr>)
      | None \<Rightarrow>
          let old = get_tf_state (sc_tracker c);
              c = c\<lparr>sc_tracker := set_tf_state new (sc_tracker c)\<rparr> in
          if has_state (sc_tracker c) then
            (case from_instance_state_to_json_map ops new of
               Failed e \<Rightarrow> (Failed (WithMsg ''cannot convert instance state to JSON map'' e), c)
             | Crashed \<Rightarrow> (Crashed, c)
             | Done (m, v) \<Rightarrow>
                 let s = map_option (\<lambda>s. s\<lparr>state_rest := (state_rest s)\<lparr>st_raw_plan := v, st_raw_config := sk_raw_config ops\<rparr>\<rparr>) new in
                 (Done (s, Some m), c\<lparr>sc_tracker := (sc_tracker c)\<lparr>tf_state := s\<rparr>\<rparr>))
          else (Done (map_option (emptied_state ops) old, None), c))"

text \<open>What is stored in the managed resource when the resource exists.\<close>

definition observe_existing ::
  "('at, 'v, 'p) sdk_ops \<Rightarrow> ('p, 's, 'st, 'c) mr_ops \<Rightarrow> bool \<Rightarrow> bool \<Rightarrow> any_map \<Rightarrow> ('p, 's) managed \<Rightarrow>
     ('c \<times> bool) outcome \<times> ('p, 's) managed" where
  "observe_existing ops mr nil_ann has_diff m mg =
     (let mg = set_conditions mr (available mr) mg in
      case connection_details mr m of
        Inl e \<Rightarrow> (Failed (WithMsg ''cannot get connection details'' e), mg)
      | Inr conn \<Rightarrow>
          (case from_terraform mr m of
             Inl e \<Rightarrow> (Failed (WithMsg ''cannot convert the singleton lists in the observed state value map into embedded objects'' e), mg)
           | Inr m \<Rightarrow>
               (case marshal_state_err ops m of
                  Some e \<Rightarrow> (Failed (WithMsg ''cannot marshal the attributes of the new state for late-initialization'' e), mg)
                | None \<Rightarrow>
                    let (li, ps) = (if has_any (policies mr) [''LateInitialize'', ''*''] then late_initialize mr m (mg_params mg)
                                    else (Inr False, mg_params mg)) in
                    then_go (wrap_outcome ''cannot late-initialize the managed resource'' (lift_sum li), mg\<lparr>mg_params := ps\<rparr>)
                      (\<lambda>late mg. then_go (store_observation ops mr ''could not set observation: '' nil_ann m mg)
                      (\<lambda>ann_updated mg.
                         let mg = (if \<not> (late \<or> ann_updated)
                                   then mg\<lparr>mg_conditions := set_up_to_date_condition (cond_api mr) (is_test mr) (\<not> has_diff) (mg_conditions mg)\<rparr>
                                   else mg);
                             (r, mg) = set_external_name mr m mg in
                         then_go (wrap_outcome ''failed to set the external-name of the managed resource during observe'' r, mg)
                           (\<lambda>renamed mg. (Done (conn, late \<or> ann_updated \<or> renamed), mg)))))))"

definition observe_only :: "('at, 'v, 'p) sdk_ops \<Rightarrow> ('p, 's, 'st, 'c) mr_ops \<Rightarrow> bool" where
  "observe_only ops mr \<longleftrightarrow> set (policies mr) = {''Observe''} \<and> sk_policies_enabled ops"

definition observe_diff ::
  "('at, 'v, 'p) sdk_ops \<Rightarrow> ('p, 's, 'st, 'c) mr_ops \<Rightarrow> 'p \<Rightarrow> ('at, 'v) sdk_state option \<Rightarrow> bool \<Rightarrow> 'v instance_diff option outcome" where
  "observe_diff ops mr p s resource_exists =
     (if observe_only ops mr then Done None
      else wrap_outcome ''cannot compute the instance diff'' (get_resource_data_diff ops p s resource_exists))"

definition sdk_observe ::
  "('at, 'v, 'p) sdk_ops \<Rightarrow> ('p, 's, 'st, 'c) mr_ops \<Rightarrow> bool \<Rightarrow> bool \<Rightarrow> ('at, 'v) sdk_state option \<times> string option \<Rightarrow>
     ('p, 's) managed \<Rightarrow> ('at, 'v) sdk_client \<Rightarrow> 'c observation outcome \<times> ('p, 's) managed \<times> ('at, 'v) sdk_client" where
  "sdk_observe ops mr was_deleted nil_ann ret mg c =
     (if was_deleted \<and> get_deleted (sc_tracker c) then (Done absent_observation, mg, c)
      else
        let (r, c) = observe_refresh ops ret c in
        case r of
          Failed e \<Rightarrow> (Failed e, mg, c)
        | Crashed \<Rightarrow> (Crashed, mg, c)
        | Done (diff_state, js) \<Rightarrow>
            let c = c\<lparr>sc_diff := None\<rparr> in
            (case observe_diff ops mr (mg_params mg) diff_state (js \<noteq> None) of
               Failed e \<Rightarrow> (Failed e, mg, c)
             | Crashed \<Rightarrow> (Crashed, mg, c)
             | Done d \<Rightarrow>
                 let d = (case d of None \<Rightarrow> new_instance_diff ops | Some d \<Rightarrow> d);
                     c = c\<lparr>sc_diff := Some d\<rparr>;
                     has_diff = (\<not> diff_empty ops d) in
                 (case js of
                    None \<Rightarrow> (Done \<lparr>ob_exists = False, ob_up_to_date = \<not> has_diff, ob_late_init = False, ob_conn = None\<rparr>, mg, c)
                  | Some m \<Rightarrow>
                      let (r, mg) = observe_existing ops mr nil_ann has_diff m mg in
                      (and_then r (\<lambda>(conn, late). Done \<lparr>ob_exists = True, ob_up_to_date = \<not> has_diff, ob_late_init = late, ob_conn = Some conn\<rparr>),
                       mg, c))))"


section \<open>Create, Update and Delete\<close>

definition call_apply :: "('at, 'v) sdk_client \<Rightarrow> ('at, 'v) sdk_client" where
  "call_apply c = c\<lparr>sc_calls := sc_calls c @ [ApplyCall (get_tf_state (sc_tracker c)) (sc_diff c)]\<rparr>"

definition create_report ::
  "('at, 'v, 'p) sdk_ops \<Rightarrow> ('p, 's, 'st, 'c) mr_ops \<Rightarrow> bool \<Rightarrow> ('at, 'v) sdk_state option \<Rightarrow> ('p, 's) managed \<Rightarrow>
     'c outcome \<times> ('p, 's) managed" where
  "create_report ops mr nil_ann new mg =
     then_go (wrap_outcome ''failed to convert instance state to map'' (from_instance_state_to_json_map ops new), mg)
       (\<lambda>(m, v) mg. let (r, mg) = set_external_name mr m mg in
        then_go (wrap_outcome ''failed to set the external-name of the managed resource during create'' r, mg)
       (\<lambda>renamed mg. then_go (wrap_outcome ''cannot get connection details'' (lift_sum (connection_details mr m)), mg)
       (\<lambda>conn mg. then_go (wrap_outcome ''cannot convert the singleton lists in the state value map of the newly created resource into embedded objects''
           (lift_sum (from_terraform mr m)), mg)
       (\<lambda>m mg. then_go (store_observation ops mr ''could not set observation: '' nil_ann m mg)
       (\<lambda>_ mg. (Done conn, mg))))))"

definition sdk_create ::
  "('at, 'v, 'p) sdk_ops \<Rightarrow> ('p, 's, 'st, 'c) mr_ops \<Rightarrow> bool \<Rightarrow> ('at, 'v) sdk_state option \<times> string option \<Rightarrow>
     ('p, 's) managed \<Rightarrow> ('at, 'v) sdk_client \<Rightarrow> 'c outcome \<times> ('p, 's) managed \<times> ('at, 'v) sdk_client" where
  "sdk_create ops mr nil_ann ret mg c =
     (let (new, diag) = ret; c = call_apply c in
      case diag of
        Some d \<Rightarrow>
          (Failed (Plain (''failed to create the resource: '' @ d)), mg,
           if \<not> has_state (sc_tracker c) then c\<lparr>sc_tracker := set_tf_state new (sc_tracker c)\<rparr> else c)
      | None \<Rightarrow>
          if (case new of None \<Rightarrow> True | Some s \<Rightarrow> state_id s = '''')
          then (Failed (Plain ''failed to read the ID of the new resource''), mg, c)
          else
            let c = c\<lparr>sc_tracker := set_tf_state new (sc_tracker c)\<rparr>;
                (r, mg) = create_report ops mr nil_ann new mg in
            (r, mg, c))"

fun first_force_new :: "attr_diffs \<Rightarrow> (string \<times> attr_diff) option" where
  "first_force_new [] = None"
| "first_force_new ((k, ad) # as) =
     (case ad of
        None \<Rightarrow> first_force_new as
      | Some ad \<Rightarrow> if ad_requires_new ad then Some (k, ad) else first_force_new as)"

definition assert_no_force_new :: "'v instance_diff option \<Rightarrow> gerror option" where
  "assert_no_force_new d =
     (case d of
        None \<Rightarrow> None
      | Some d \<Rightarrow>
          (case first_force_new (di_attributes d) of
             None \<Rightarrow> None
           | Some (k, ad) \<Rightarrow>
               Some (Plain (if ad_sensitive ad then ''cannot change the value of the argument '' @ go_quote k
                            else ''cannot change the value of the argument '' @ go_quote k @ '' from '' @ go_quote (ad_old ad)
                              @ '' to '' @ go_quote (ad_new ad)))))"

definition prevent_loop :: "('at, 'v, 'p) sdk_ops \<Rightarrow> 'v instance_diff option \<Rightarrow> gerror option" where
  "prevent_loop ops d =
     (case loop_prevention ops of
        None \<Rightarrow> None
      | Some f \<Rightarrow>
          (case f d of
             Inl e \<Rightarrow> Some (WithMsg (''failed to apply the update loop prevention function for '' @ sk_name ops) e)
           | Inr None \<Rightarrow> None
           | Inr (Some reason) \<Rightarrow>
               Some (Plain (''update operation was blocked because of a possible update loop: '' @ reason))))"

definition update_report ::
  "('at, 'v, 'p) sdk_ops \<Rightarrow> ('p, 's, 'st, 'c) mr_ops \<Rightarrow> bool \<Rightarrow> ('at, 'v) sdk_state option \<Rightarrow> ('p, 's) managed \<Rightarrow>
     unit outcome \<times> ('p, 's) managed" where
  "update_report ops mr nil_ann new mg =
     then_go (from_instance_state_to_json_map ops new, mg)
       (\<lambda>(m, v) mg. then_go (wrap_outcome ''cannot convert the singleton lists for the updated resource state value map into embedded objects''
           (lift_sum (from_terraform mr m)), mg)
       (\<lambda>m mg. then_go (store_observation ops mr ''failed to set observation: '' nil_ann m mg)
       (\<lambda>_ mg. (Done (), mg))))"

definition sdk_update ::
  "('at, 'v, 'p) sdk_ops \<Rightarrow> ('p, 's, 'st, 'c) mr_ops \<Rightarrow> bool \<Rightarrow> ('at, 'v) sdk_state option \<times> string option \<Rightarrow>
     ('p, 's) managed \<Rightarrow> ('at, 'v) sdk_client \<Rightarrow> unit outcome \<times> ('p, 's) managed \<times> ('at, 'v) sdk_client" where
  "sdk_update ops mr nil_ann ret mg c =
     (case prevent_loop ops (sc_diff c) of
        Some e \<Rightarrow> (Failed e, mg, c)
      | None \<Rightarrow>
          (case assert_no_force_new (sc_diff c) of
             Some e \<Rightarrow> (Failed (WithMsg ''refuse to update the external resource because the following update requires replacing it'' e), mg, c)
           | None \<Rightarrow>
               let (new, diag) = ret; c = call_apply c in
               (case diag of
                  Some d \<Rightarrow> (Failed (Plain (''failed to update the resource: '' @ d)), mg, c)
                | None \<Rightarrow>
                    let c = c\<lparr>sc_tracker := set_tf_state new (sc_tracker c)\<rparr>;
                        (r, mg) = update_report ops mr nil_ann new mg in
                    (r, mg, c))))"

definition sdk_delete ::
  "('at, 'v, 'p) sdk_ops \<Rightarrow> ('at, 'v) sdk_state option \<times> string option \<Rightarrow> ('at, 'v) sdk_client \<Rightarrow>
     unit outcome \<times> ('at, 'v) sdk_client" where
  "sdk_delete ops ret c =
     (let (new, diag) = ret;
          d = (case sc_diff c of None \<Rightarrow> new_instance_diff ops | Some d \<Rightarrow> d);
          c = call_apply (c\<lparr>sc_diff := Some (d\<lparr>di_destroy := True\<rparr>)\<rparr>) in
      case diag of
        Some e \<Rightarrow> (Failed (Plain (''failed to delete the resource: '' @ e)), c)
      | None \<Rightarrow> (Done (), c\<lparr>sc_tracker := set_deleted (new = None) (set_tf_state new (sc_tracker c))\<rparr>))"

section \<open>Connect\<close>

text \<open>\<open>copyParameters\<close>: the state wins over the parameters.\<close>

definition copy_parameters :: "any_map \<Rightarrow> any_map \<Rightarrow> any_map" where
  "copy_parameters tf_state0 params = put_all tf_state0 (put_all params [])"

text \<open>What \<open>Connect\<close> uses of the resource, its configuration and the SDK.\<close>

record ('at, 'v) connect_ops =
  co_merged_parameters :: "bool \<Rightarrow> gerror + any_map"
  co_parameters :: "gerror + any_map"
  co_init_parameters :: "gerror + any_map"
  co_observation :: "gerror + any_map"
  co_for_provider :: "gerror + any_map"
  co_sensitive :: "any_map \<Rightarrow> gerror + any_map"
  co_set_identifier :: "any_map \<Rightarrow> any_map"
  co_injector :: "(any_map \<Rightarrow> any_map \<Rightarrow> gerror + any_map) option"
  co_get_id :: "any_map \<Rightarrow> gerror + string"
  co_has_tags_all :: bool
  co_state_value :: "any_map \<Rightarrow> gerror + 'v"
  co_shim_state :: "'v \<Rightarrow> gerror + ('at, 'v) sdk_state"

definition index_any :: "any_map \<Rightarrow> string \<Rightarrow> any" where
  "index_any m k = (case map_of m k of None \<Rightarrow> Nil_v | Some v \<Rightarrow> v)"

definition get_extended_parameters ::
  "('at, 'v, 'p) sdk_ops \<Rightarrow> ('at, 'v) connect_ops \<Rightarrow> (string \<rightharpoonup> string) option \<Rightarrow> any_map outcome" where
  "get_extended_parameters ops co ann =
     and_then (if sk_same_version ops
         then wrap_outcome ''cannot get merged parameters'' (lift_sum (co_merged_parameters co (sk_policies_enabled ops)))
         else wrap_outcome ''cannot merge annotation fields''
           (lift_sum (merge_annotation_fields_with_spec (sk_fields ops) (co_parameters co) (co_init_parameters co)
              (sk_policies_enabled ops) ann)))
       (\<lambda>ps. and_then (wrap_outcome ''cannot apply tf conversions'' (lift_sum (to_terraform ops ps)))
       (\<lambda>ps. and_then (wrap_outcome ''cannot store sensitive parameters into params'' (lift_sum (co_sensitive co ps)))
       (\<lambda>ps. let ps = co_set_identifier co ps in
        and_then (case co_injector co of
             None \<Rightarrow> Done ps
           | Some inject \<Rightarrow>
               and_then (wrap_outcome ''cannot get JSON map for the managed resource's spec.forProvider value'' (lift_sum (co_for_provider co)))
                 (\<lambda>fp. wrap_outcome ''cannot invoke the configured TerraformConfigurationInjector'' (lift_sum (inject fp ps))))
       (\<lambda>ps. and_then (wrap_outcome ''cannot get ID'' (lift_sum (co_get_id co ps)))
       (\<lambda>tf_id. let ps = put_key ''id'' (Str_v tf_id) ps in
        Done (if co_has_tags_all co then put_key ''tags_all'' (index_any ps ''tags'') ps else ps))))))"

definition reconstructed_state ::
  "('at, 'v, 'p) sdk_ops \<Rightarrow> ('at, 'v) connect_ops \<Rightarrow> (string \<rightharpoonup> string) option \<Rightarrow> any_map \<Rightarrow> ('at, 'v) sdk_state outcome" where
  "reconstructed_state ops co ann params =
     and_then (wrap_outcome ''failed to get the observation'' (lift_sum (co_observation co)))
       (\<lambda>tf. and_then (wrap_outcome (''failed to merge annotations on resource '' @ go_quote (sk_object ops))
           (lift_sum (merge_annotation_fields_with_status (sk_fields ops) (sk_same_version ops) ann tf)))
       (\<lambda>tf. and_then (wrap_outcome ''failed to run the API converters on the Terraform state'' (lift_sum (to_terraform ops tf)))
       (\<lambda>tf. let copy_params = (tf = []) in
        and_then (wrap_outcome ''cannot store sensitive parameters into tfState'' (lift_sum (co_sensitive co tf)))
       (\<lambda>tf. let tf = put_key ''id'' (index_any params ''id'') (co_set_identifier co tf);
                 tf = (if copy_params then copy_parameters tf params else tf) in
        and_then (wrap_outcome ''cannot convert JSON map to state cty.Value'' (lift_sum (co_state_value co tf)))
       (\<lambda>v. and_then (wrap_outcome ''failed to convert cty.Value to terraform.InstanceState'' (lift_sum (co_shim_state co v)))
       (\<lambda>s. let ts = get_timeout_parameters (sk_schema_timeouts ops) (sk_timeouts ops);
                 r = (state_rest s)\<lparr>st_raw_plan := v, st_raw_config := sk_raw_config ops\<rparr> in
        Done (s\<lparr>state_rest := if ts = [] then r else r\<lparr>st_timeouts := Some ts\<rparr>\<rparr>)))))))"

text \<open>The part of \<open>Connect\<close> that works on the tracker.\<close>

definition connect_tracker ::
  "('at, 'v, 'p) sdk_ops \<Rightarrow> ('at, 'v) connect_ops \<Rightarrow> (string \<rightharpoonup> string) option \<Rightarrow>
     (('at, 'v) sdk_rest, unit, unit) async_tracker \<Rightarrow> ('at, 'v) sdk_client outcome \<times> (('at, 'v) sdk_rest, unit, unit) async_tracker" where
  "connect_tracker ops co ann t =
     (if has_state t then (Done \<lparr>sc_tracker = t, sc_diff = None, sc_calls = []\<rparr>, t)
      else (case reconstructed_state ops co ann (sk_params ops) of
              Failed e \<Rightarrow> (Failed e, t)
            | Crashed \<Rightarrow> (Crashed, t)
            | Done s \<Rightarrow>
                let t = set_reconstructed_tf_state (Some s) t in
                (Done \<lparr>sc_tracker = t, sc_diff = None, sc_calls = []\<rparr>, t)))"


section \<open>The filter in one pass\<close>

definition length_keys :: "string \<Rightarrow> string list" where
  "length_keys key =
     (let cs = split_on (CHR ''.'') key in
      if length cs < 2 then []
      else [last_as ''%'' cs, last_as ''#'' cs] @ (if hd cs = ''tags'' then [last_as ''%'' (''tags_all'' # tl cs)] else []))"

text \<open>An attribute an ignored key takes with it: itself, and for a tag its copy in \<open>tags_all\<close>.\<close>

definition taken_by :: "string \<Rightarrow> attr_diffs \<Rightarrow> string \<Rightarrow> bool" where
  "taken_by key as k \<longleftrightarrow>
     list_ex (\<lambda>e. under_key key (fst e) \<and> (k = fst e \<or> top_of (fst e) = ''tags'' \<and> k = with_top ''tags_all'' (fst e))) as"

definition excluded :: "string list \<Rightarrow> attr_diffs \<Rightarrow> string \<Rightarrow> bool" where
  "excluded keys as k \<longleftrightarrow> list_ex (\<lambda>key. taken_by key as k \<or> k \<in> set (length_keys key)) keys"

lemma top_of_with_top [simp]: "CHR ''.'' \<notin> set t \<Longrightarrow> top_of (with_top t a) = t"
  unfolding top_of_def with_top_def
  by (subst split_on_join) (auto dest: split_on_parts list.set_sel(2) [rotated])

definition visited :: "string \<Rightarrow> string list \<Rightarrow> attr_diffs \<Rightarrow> string \<Rightarrow> bool" where
  "visited key ks as k \<longleftrightarrow> (\<exists>a \<in> set ks \<inter> fst ` set as. under_key key a \<and> (k = a \<or> top_of a = ''tags'' \<and> k = with_top ''tags_all'' a))"

lemma ignore_under_filter: "ignore_under key ks as = filter (\<lambda>e. \<not> visited key ks as (fst e)) as"
proof (induction key ks as rule: ignore_under.induct)
  case (2 key a ks as)
  show ?case
  proof (cases "map_of as a = None \<or> \<not> under_key key a")
    case True
    then have "visited key (a # ks) as k = visited key ks as k" for k
      by (auto simp: visited_def map_of_eq_None_iff)
    with 2(1) [OF True] True show ?thesis by simp
  next
    case False
    let ?b = "with_top ''tags_all'' a"
    let ?as = "if top_of a \<noteq> ''tags'' then del_key a as else del_key ?b (del_key a as)"
    have b: "top_of ?b \<noteq> ''tags''" by simp
    have a: "a \<in> fst ` set as" using False by (simp add: map_of_eq_None_iff)
    have "ignore_under key (a # ks) as = ignore_under key ks ?as"
      by (simp only: ignore_under.simps(2) Let_def False if_False)
    also have "\<dots> = filter (\<lambda>e. \<not> visited key ks ?as (fst e)) ?as" using 2(2) [OF False refl] by simp
    also have "\<dots> = filter (\<lambda>e. \<not> visited key (a # ks) as (fst e)) as"
    proof -
      have as: "?as = filter (\<lambda>e. fst e \<noteq> a \<and> \<not> (top_of a = ''tags'' \<and> fst e = ?b)) as"
        by (auto simp: del_key_def conj_commute)
      then have keys: "fst ` set ?as = {k \<in> fst ` set as. k \<noteq> a \<and> \<not> (top_of a = ''tags'' \<and> k = ?b)}" by auto
      have "k \<noteq> a \<and> \<not> (top_of a = ''tags'' \<and> k = ?b) \<and> \<not> visited key ks ?as k \<longleftrightarrow> \<not> visited key (a # ks) as k"
        for k
      proof
        assume L: "k \<noteq> a \<and> \<not> (top_of a = ''tags'' \<and> k = ?b) \<and> \<not> visited key ks ?as k"
        show "\<not> visited key (a # ks) as k"
        proof
          assume "visited key (a # ks) as k"
          then obtain x where x: "x \<in> set (a # ks)" "x \<in> fst ` set as" "under_key key x"
            "k = x \<or> top_of x = ''tags'' \<and> k = with_top ''tags_all'' x" unfolding visited_def by blast
          then have "x \<noteq> a" "\<not> (top_of a = ''tags'' \<and> x = ?b)" using L b by metis+
          with x(1,2) have "x \<in> set ks \<inter> fst ` set ?as" unfolding keys by simp
          with x(3,4) L show False unfolding visited_def by blast
        qed
      next
        assume N: "\<not> visited key (a # ks) as k"
        have "\<not> visited key ks ?as k" using N unfolding visited_def keys by auto
        moreover have "k \<noteq> a" "\<not> (top_of a = ''tags'' \<and> k = ?b)"
          using N a False unfolding visited_def by auto
        ultimately show "k \<noteq> a \<and> \<not> (top_of a = ''tags'' \<and> k = ?b) \<and> \<not> visited key ks ?as k" by blast
      qed
      then show ?thesis by (subst (2) as) (auto intro!: filter_cong)
    qed
    finally show ?thesis .
  qed
qed (simp add: visited_def)

lemma visited_all: "visited key (map fst as) as k \<longleftrightarrow> taken_by key as k"
  by (auto simp: visited_def taken_by_def list_ex_iff)

lemma fold_ignore_under:
  "fold (\<lambda>key as. ignore_under key (map fst as) as) keys as = filter (\<lambda>e. \<not> list_ex (\<lambda>key. taken_by key as (fst e)) keys) as"
proof (induction keys arbitrary: as)
  case (Cons key keys)
  have step: "taken_by key' as k \<longleftrightarrow> taken_by key' (filter (\<lambda>e. \<not> taken_by key as (fst e)) as) k"
    if k: "k \<in> fst ` set as" "\<not> taken_by key as k" for key' k
  proof
    assume "taken_by key' as k"
    then obtain e where e: "e \<in> set as" "under_key key' (fst e)"
      "k = fst e \<or> top_of (fst e) = ''tags'' \<and> k = with_top ''tags_all'' (fst e)"
      by (auto simp: taken_by_def list_ex_iff)
    have "\<not> taken_by key as (fst e)"
    proof
      assume t: "taken_by key as (fst e)"
      then have "k \<noteq> fst e" using k by auto
      then have tags: "top_of (fst e) = ''tags''" "k = with_top ''tags_all'' (fst e)" using e by auto
      from t tags(1) have "under_key key (fst e)"
        by (auto simp: taken_by_def list_ex_iff)
      then show False using k(2) tags e(1) by (auto simp: taken_by_def list_ex_iff)
    qed
    with e(1) have "e \<in> set (filter (\<lambda>e. \<not> taken_by key as (fst e)) as)" by simp
    then show "taken_by key' (filter (\<lambda>e. \<not> taken_by key as (fst e)) as) k"
      using e(2,3) unfolding taken_by_def [of key'] list_ex_iff by blast
  next
    assume "taken_by key' (filter (\<lambda>e. \<not> taken_by key as (fst e)) as) k"
    then obtain e where "e \<in> set (filter (\<lambda>e. \<not> taken_by key as (fst e)) as)" "under_key key' (fst e)"
      "k = fst e \<or> top_of (fst e) = ''tags'' \<and> k = with_top ''tags_all'' (fst e)"
      unfolding taken_by_def [of key'] list_ex_iff by blast
    then show "taken_by key' as k" unfolding taken_by_def [of key'] list_ex_iff by auto
  qed
  let ?as = "filter (\<lambda>e. \<not> taken_by key as (fst e)) as"
  have "\<not> taken_by key as k \<and> \<not> list_ex (\<lambda>key. taken_by key ?as k) keys \<longleftrightarrow> \<not> list_ex (\<lambda>key. taken_by key as k) (key # keys)"
    if "k \<in> fst ` set as" for k
    using step [OF that] by (cases "taken_by key as k") simp_all
  then have "filter (\<lambda>e. \<not> list_ex (\<lambda>key. taken_by key ?as (fst e)) keys) ?as =
      filter (\<lambda>e. \<not> list_ex (\<lambda>key. taken_by key as (fst e)) (key # keys)) as"
    unfolding filter_filter by (intro filter_cong refl) (meson imageI)
  then show ?case unfolding fold_simps Cons.IH unfolding ignore_under_filter visited_all .
qed simp

lemma fold_drop_length_keys:
  "fold drop_length_keys keys as = filter (\<lambda>e. \<not> list_ex (\<lambda>key. fst e \<in> set (length_keys key)) keys) as"
proof (induction keys arbitrary: as)
  case (Cons key keys)
  have "drop_length_keys key as = filter (\<lambda>e. fst e \<notin> set (length_keys key)) as"
    by (auto simp: drop_length_keys_def length_keys_def del_key_def Let_def intro!: filter_cong)
  then show ?case by (auto simp: Cons.IH list_ex_iff intro!: filter_cong)
qed simp

lemma drop_ignored_filter: "drop_ignored keys as = filter (\<lambda>e. \<not> excluded keys as (fst e)) as"
  by (simp add: drop_ignored_def fold_ignore_under fold_drop_length_keys)
    (auto simp: excluded_def list_ex_iff intro!: filter_cong)

text \<open>
  Filtering the diff is one pass over it: whatever the order in which the ignored keys and
  the attributes are visited and although attributes are deleted while the map is ranged over, an
  attribute survives exactly when it is not under an ignored key, not the \<open>tags_all\<close> copy of such a
  tag, and not the length key of the collection an ignored key is in.
\<close>

lemma filter_is_one_pass:
  "drop_ignored keys as = filter (\<lambda>e. \<not> excluded keys as (fst e)) as"
  by (rule drop_ignored_filter)


section \<open>What Observe reports\<close>

text \<open>
  \<open>Empty\<close> tells whether a diff encapsulates no change; a new diff has none, and no attributes.
\<close>

definition sdk_laws :: "('at, 'v, 'p) sdk_ops \<Rightarrow> bool" where
  "sdk_laws ops \<longleftrightarrow>
     (\<forall>d. diff_empty ops d \<longleftrightarrow> di_attributes d = [] \<and> \<not> di_destroy d \<and> \<not> di_tainted d) \<and>
     diff_empty ops (new_instance_diff ops)"

definition no_change :: "('at, 'v, 'p) sdk_ops \<Rightarrow> 'v instance_diff option \<Rightarrow> bool" where
  "no_change ops d = (case d of None \<Rightarrow> True | Some d \<Rightarrow> diff_empty ops d)"

text \<open>Every change of the diff is one the filter removes.\<close>

definition only_excluded :: "('at, 'v, 'p) sdk_ops \<Rightarrow> 'p \<Rightarrow> 'v instance_diff option \<Rightarrow> bool" where
  "only_excluded ops p d =
     (case d of
        None \<Rightarrow> False
      | Some d \<Rightarrow>
          \<not> di_destroy d \<and> \<not> di_tainted d \<and>
          (case init_exclusive_keys ops p of
             Done keys \<Rightarrow> list_all (\<lambda>e. excluded keys (di_attributes d) (fst e)) (di_attributes d)
           | _ \<Rightarrow> False))"

lemma diff_empty_iff:
  "sdk_laws ops \<Longrightarrow> diff_empty ops d \<longleftrightarrow> di_attributes d = [] \<and> \<not> di_destroy d \<and> \<not> di_tainted d"
  by (simp add: sdk_laws_def)

lemma new_diff_empty: "sdk_laws ops \<Longrightarrow> diff_empty ops (new_instance_diff ops)"
  unfolding sdk_laws_def by (rule conjunct2)

lemma no_change_simps: "no_change ops None" "no_change ops (Some d) = diff_empty ops d"
  by (simp_all add: no_change_def)

lemma no_change_timeouts: "sdk_laws ops \<Longrightarrow> no_change ops (with_timeouts ops d) = no_change ops d"
  using new_diff_empty [of ops]
  by (auto simp: no_change_def with_timeouts_def diff_empty_iff Let_def split: option.splits)

lemma drop_ignored_Nil: "drop_ignored keys as = [] \<longleftrightarrow> list_all (\<lambda>e. excluded keys as (fst e)) as"
  by (simp add: drop_ignored_filter filter_empty_conv list_all_iff)

lemma filtered_no_change:
  "sdk_laws ops \<Longrightarrow> filter_init_exclusive_diffs ops p d = Done d' \<Longrightarrow>
     no_change ops d' \<longleftrightarrow> no_change ops d \<or> only_excluded ops p d"
  by (cases d) (auto simp: filter_init_exclusive_diffs_def no_change_def only_excluded_def diff_empty_iff drop_ignored_Nil split: if_splits)

lemma finished_no_change: "sdk_laws ops \<Longrightarrow> finish_diff ops d = Done d' \<Longrightarrow> no_change ops d' \<longleftrightarrow> no_change ops d"
  by (cases d) (auto simp: finish_diff_def no_change_timeouts no_change_simps diff_empty_iff split: sum.splits if_splits)

lemma data_diff_no_change:
  assumes "sdk_laws ops" "get_resource_data_diff ops p s True = Done d"
  shows "\<exists>d0. computed_diff ops s = Done d0 \<and> (no_change ops d \<longleftrightarrow> no_change ops d0 \<or> only_excluded ops p d0)"
proof -
  obtain d0 d1 where d: "computed_diff ops s = Done d0" "filter_init_exclusive_diffs ops p d0 = Done d1"
    "finish_diff ops d1 = Done d"
    using assms(2) by (auto simp: get_resource_data_diff_def)
  with filtered_no_change [OF assms(1) d(2)] finished_no_change [OF assms(1) d(3)] show ?thesis by blast
qed

text \<open>What an observation of an existing resource went through.\<close>

lemma observe_refresh_state:
  "observe_refresh ops ret c = (Done (s, Some m), c1) \<Longrightarrow> get_tf_state (sc_tracker c1) = s"
  by (auto simp: observe_refresh_def get_tf_state_def Let_def split: option.splits outcome.splits prod.splits if_splits)

lemma observe_existing_Done:
  assumes "sdk_observe ops mr wd na ret mg c = (Done ob, mg', c')" and "ob_exists ob"
  shows "\<exists>d. (if observe_only ops mr then d = None
      else get_resource_data_diff ops (mg_params mg) (get_tf_state (sc_tracker c')) True = Done d) \<and>
    sc_diff c' = Some (case d of None \<Rightarrow> new_instance_diff ops | Some d \<Rightarrow> d) \<and>
    ob_up_to_date ob = diff_empty ops (the (sc_diff c'))"
proof -
  have run: "\<not> (wd \<and> get_deleted (sc_tracker c))" using assms by (auto simp: sdk_observe_def absent_observation_def)
  obtain r c1 where r: "observe_refresh ops ret c = (r, c1)" by fastforce
  with run assms obtain s js where s: "r = Done (s, js)"
    by (cases r) (auto simp: sdk_observe_def)
  with run assms r obtain d where d: "observe_diff ops mr (mg_params mg) s (js \<noteq> None) = Done d"
    by (cases "observe_diff ops mr (mg_params mg) s (js \<noteq> None)") (auto simp: sdk_observe_def)
  obtain m where m: "js = Some m"
    using run assms r s d by (cases js) (auto simp: sdk_observe_def Let_def)
  have "c' = c1\<lparr>sc_diff := Some (case d of None \<Rightarrow> new_instance_diff ops | Some d \<Rightarrow> d)\<rparr>"
    and "ob_up_to_date ob = diff_empty ops (case d of None \<Rightarrow> new_instance_diff ops | Some d \<Rightarrow> d)"
    using run assms r s d m by (auto simp: sdk_observe_def Let_def split: prod.splits)
  with observe_refresh_state [OF r [unfolded s m]] d m show ?thesis
    by (auto simp: observe_diff_def split: if_splits)
qed

text \<open>
  C17. No update loop: when Observe reports an existing resource, outside an observe-only policy, it is
  up to date exactly when the provider's diff, customized, encapsulates no change or only changes
  of fields exclusive to spec.initProvider; and the diff kept for Update then holds no change.
\<close>

theorem up_to_date_iff_only_init:
  assumes "sdk_laws ops" and "sdk_observe ops mr wd na ret mg c = (Done ob, mg', c')"
    and "ob_exists ob" and "\<not> observe_only ops mr"
  shows "\<exists>d. computed_diff ops (get_tf_state (sc_tracker c')) = Done d \<and>
    (ob_up_to_date ob \<longleftrightarrow> no_change ops d \<or> only_excluded ops (mg_params mg) d) \<and>
    ob_up_to_date ob = no_change ops (sc_diff c')"
proof -
  from observe_existing_Done [OF assms(2,3)] assms(4) obtain d where
    d: "get_resource_data_diff ops (mg_params mg) (get_tf_state (sc_tracker c')) True = Done d"
      "sc_diff c' = Some (case d of None \<Rightarrow> new_instance_diff ops | Some d \<Rightarrow> d)"
      "ob_up_to_date ob = diff_empty ops (the (sc_diff c'))" by auto
  have "ob_up_to_date ob = no_change ops d"
    using d(2,3) new_diff_empty [OF assms(1)] by (cases d) (simp_all add: no_change_simps)
  moreover have "ob_up_to_date ob = no_change ops (sc_diff c')" using d(2,3) by (simp add: no_change_simps)
  ultimately show ?thesis using data_diff_no_change [OF assms(1) d(1)] by auto
qed

section \<open>What reaches the provider\<close>

lemma first_force_new_None: "first_force_new as = None \<longleftrightarrow> (\<forall>ad. ad_requires_new ad \<longrightarrow> Some ad \<notin> snd ` set as)"
  by (induction as rule: first_force_new.induct) (auto split: option.splits)

text \<open>
  C18. An update never replaces the resource: Update reaches the provider exactly when the loop
  prevention lets it and no changed attribute requires a new resource, then with the state of the
  tracker and the observed diff; otherwise it fails and changes neither the resource nor the tracker.
\<close>

theorem update_never_replaces:
  assumes "sdk_update ops mr na ret mg c = (r, mg', c')"
  shows "if prevent_loop ops (sc_diff c) = None \<and>
       (\<forall>d ad. sc_diff c = Some d \<longrightarrow> ad_requires_new ad \<longrightarrow> Some ad \<notin> snd ` set (di_attributes d))
     then sc_calls c' = sc_calls c @ [ApplyCall (get_tf_state (sc_tracker c)) (sc_diff c)]
     else (\<exists>e. r = Failed e) \<and> mg' = mg \<and> c' = c"
proof -
  have "assert_no_force_new (sc_diff c) = None \<longleftrightarrow>
      (\<forall>d ad. sc_diff c = Some d \<longrightarrow> ad_requires_new ad \<longrightarrow> Some ad \<notin> snd ` set (di_attributes d))"
    by (cases "sc_diff c")
      (auto simp: assert_no_force_new_def first_force_new_None [symmetric] split: option.splits)
  with assms show ?thesis
    by (auto simp: sdk_update_def call_apply_def Let_def split: option.splits prod.splits)
qed

text \<open>
  C26. A resource whose creation failed half way is not orphaned: when the provider returns a state
  with an ID along with its errors and no state was known before, Create fails, the next connection
  does not reconstruct a state, and its Observe refreshes exactly the returned one.
\<close>

theorem failed_create_remembered:
  assumes "sdk_create ops mr na (Some s, Some d) mg c = (r, mg1, c1)"
    and "\<not> has_state (sc_tracker c)" "state_id s \<noteq> ''''"
    and "connect_tracker ops co ann (sc_tracker c1) = (r2, t2)"
  shows "(\<exists>e. r = Failed e) \<and> mg1 = mg \<and> t2 = sc_tracker c1 \<and>
    (\<exists>c2. r2 = Done c2 \<and>
      (\<forall>wd ret r3 mg3 c3. get_deleted (sc_tracker c) = False \<longrightarrow> sdk_observe ops mr wd na ret mg c2 = (r3, mg3, c3) \<longrightarrow>
         sc_calls c3 = [RefreshCall (Some s)]))"
proof -
  have c1: "sc_tracker c1 = set_tf_state (Some s) (sc_tracker c)" and r: "\<exists>e. r = Failed e" "mg1 = mg"
    using assms(1,2) by (auto simp: sdk_create_def call_apply_def Let_def)
  have known: "has_state (sc_tracker c1)" using assms(3) c1 by (simp add: tracker_defs)
  have calls: "sc_calls c3 = sc_calls c2 @ [RefreshCall (get_tf_state (sc_tracker c2))]"
    if "\<not> get_deleted (sc_tracker c2)" "sdk_observe ops mr wd na ret mg c2 = (r3, mg3, c3)" for wd ret r3 mg3 c3 c2
    using that by (auto simp: sdk_observe_def observe_refresh_def Let_def
        split: if_splits option.splits outcome.splits prod.splits)
  let ?c2 = "\<lparr>sc_tracker = sc_tracker c1, sc_diff = None, sc_calls = []\<rparr>"
  have c2: "r2 = Done ?c2" "t2 = sc_tracker c1" using assms(4) known by (auto simp: connect_tracker_def)
  have "sc_calls c3 = [RefreshCall (Some s)]"
    if "get_deleted (sc_tracker c) = False" "sdk_observe ops mr wd na ret mg ?c2 = (r3, mg3, c3)" for wd ret r3 mg3 c3
    using calls [OF _ that(2)] that(1) by (simp add: c1 tracker_defs)
  with r c2 show ?thesis by blast
qed

text \<open>
  Logical deletion: after a Delete whose provider call cleared the state, every later connection
  and Observe of the deleted managed resource reports it as not existing without calling the provider.
\<close>

lemma deleted_stays_deleted:
  assumes "sdk_delete ops (None, None) c = (r, c1)"
    and "connect_tracker ops co ann (sc_tracker c1) = (Done c2, t2)"
  shows "r = Done () \<and> sdk_observe ops mr True na ret mg c2 = (Done absent_observation, mg, c2) \<and>
    sc_calls c2 = [] \<and> get_deleted t2"
proof -
  have c1: "r = Done ()" "get_deleted (sc_tracker c1)"
    using assms(1) by (auto simp: sdk_delete_def call_apply_def tracker_defs Let_def)
  have c2: "sc_tracker c2 = t2" "sc_calls c2 = []" "get_deleted t2"
    using assms(2) c1(2) by (auto simp: connect_tracker_def tracker_defs Let_def split: if_splits outcome.splits)
  with c1 show ?thesis by (simp add: sdk_observe_def)
qed


section \<open>A concrete client\<close>

definition demo_diff :: "unit instance_diff" where
  "demo_diff =
     \<lparr>di_attributes = [(''size'', Some \<lparr>ad_old = ''1'', ad_new = ''3'', ad_requires_new = True, ad_sensitive = False\<rparr>)],
      di_destroy = False, di_tainted = False, di_identity = None, di_raw_config = (), di_raw_plan = (), di_timeouts = None\<rparr>"

definition demo_sdk :: "(unit, unit, unit) sdk_ops" where
  "demo_sdk =
     \<lparr>sk_name = ''aws_vpc'', sk_object = ''ns/v'', sk_params = [], sk_raw_config = (), sk_same_version = True,
      sk_status_paths = [], sk_fields = flat_lib, sk_policies_enabled = True, sk_schema_timeouts = None,
      sk_timeouts = \<lparr>t_read = 0, t_create = 30, t_update = 0, t_delete = 0\<rparr>,
      attrs_as_value = (\<lambda>_. Inr ()), value_to_json = (\<lambda>_. Inr [(''id'', Str_v ''i-1'')]), value_is_null = (\<lambda>_. True),
      apply_to_value = (\<lambda>_. Inr ()),
      diff_empty = (\<lambda>d. di_attributes d = [] \<and> \<not> di_destroy d \<and> \<not> di_tainted d),
      new_instance_diff = demo_diff\<lparr>di_attributes := []\<rparr>, schema_diff = (\<lambda>_ _. Inr (Some demo_diff)), custom_diff = None,
      get_parameters = (\<lambda>_. Inr []), get_init_parameters = (\<lambda>_. Inr [(''size'', Num_v 3)]), to_terraform = Inr,
      get_observation = Inr, marshal_state_err = (\<lambda>_. None), loop_prevention = None\<rparr>"

definition demo_state :: "(unit, unit) sdk_state" where
  "demo_state = \<lparr>state_id = ''i-1'', state_rest = \<lparr>st_attributes = Some (), st_raw_plan = (), st_raw_config = (), st_timeouts = None\<rparr>\<rparr>"

definition demo_client :: "(unit, unit) sdk_client" where
  "demo_client = \<lparr>sc_tracker = new_async_tracker, sc_diff = Some demo_diff, sc_calls = []\<rparr>"

definition demo_connect :: "(unit, unit) connect_ops" where
  "demo_connect =
     \<lparr>co_merged_parameters = (\<lambda>_. Inr []), co_parameters = Inr [], co_init_parameters = Inr [], co_observation = Inr [],
      co_for_provider = Inr [], co_sensitive = Inr, co_set_identifier = (\<lambda>m. m), co_injector = None,
      co_get_id = (\<lambda>_. Inr ''''), co_has_tags_all = False, co_state_value = (\<lambda>_. Inr ()), co_shim_state = (\<lambda>_. Inr demo_state)\<rparr>"

lemma demo_sdk_laws: "sdk_laws demo_sdk"
  by (simp add: sdk_laws_def demo_sdk_def demo_diff_def)

theorem up_to_date_iff_only_init_witness:
  "\<exists>ob mg' c'. sdk_observe demo_sdk demo_ops False False (Some demo_state, None) demo_managed demo_client = (Done ob, mg', c') \<and>
     ob_up_to_date ob \<and> no_change demo_sdk (sc_diff c')"
proof -
  let ?r = "sdk_observe demo_sdk demo_ops False False (Some demo_state, None) demo_managed demo_client"
  let ?ob = "\<lparr>ob_exists = True, ob_up_to_date = True, ob_late_init = False, ob_conn = Some ()\<rparr>"
  have "fst ?r = Done ?ob" by code_simp
  then obtain mg' c' where r: "?r = (Done ?ob, mg', c')" by (metis prod.collapse)
  have "\<not> observe_only demo_sdk demo_ops" by code_simp
  from up_to_date_iff_only_init [OF demo_sdk_laws r _ this] r show ?thesis by auto
qed

theorem update_never_replaces_witness:
  "\<exists>e mg' c'. sdk_update demo_sdk demo_ops False (None, None) demo_managed demo_client = (Failed e, mg', c') \<and> c' = demo_client"
proof -
  obtain r mg' c' where r: "sdk_update demo_sdk demo_ops False (None, None) demo_managed demo_client = (r, mg', c')"
    by (metis prod.collapse)
  have "\<exists>d ad. sc_diff demo_client = Some d \<and> ad_requires_new ad \<and> Some ad \<in> snd ` set (di_attributes d)"
    by (simp add: demo_diff_def demo_client_def)
  with update_never_replaces [OF r] have "(\<exists>e. r = Failed e) \<and> c' = demo_client" by (meson if_P if_not_P)
  with r show ?thesis by auto
qed

theorem failed_create_remembered_witness:
  "\<exists>c1 c2 e mg1. sdk_create demo_sdk demo_ops False (Some demo_state, Some ''timeout'') demo_managed demo_client = (Failed e, mg1, c1) \<and>
     connect_tracker demo_sdk demo_connect None (sc_tracker c1) = (Done c2, sc_tracker c1)"
proof -
  obtain r mg1 c1 where r: "sdk_create demo_sdk demo_ops False (Some demo_state, Some ''timeout'') demo_managed demo_client = (r, mg1, c1)"
    by (metis prod.collapse)
  obtain r2 t2 where c: "connect_tracker demo_sdk demo_connect None (sc_tracker c1) = (r2, t2)" by (metis prod.collapse)
  have "\<not> has_state (sc_tracker demo_client)" "state_id demo_state \<noteq> ''''"
    by (simp_all add: demo_client_def demo_state_def tracker_defs new_async_tracker_def)
  from failed_create_remembered [OF r this c] r c show ?thesis by auto
qed

end
