(* ===== verification/HclParams.thy ===== *)
theory HclParams
  imports GoValue
begin

text \<open>
  HCL snippets in string parameters (\<open>applyHCLParserToParam\<close> and \<open>processParamsWithHCLParser\<close> of
  \<open>pkg/controller/external_tfpluginsdk.go\<close>, the pattern and \<open>processHCLParam\<close> of
  \<open>pkg/controller/hcl.go\<close>). The HCL parser is the parameter \<open>parse_hcl\<close>: the decoded parameter of a
  document, or \<open>None\<close> with diagnostics.
\<close>

section \<open>Snippets\<close>

definition is_word_char :: "char \<Rightarrow> bool" where
  "is_word_char c \<longleftrightarrow> (let n = (of_char c :: nat) in
     48 \<le> n \<and> n \<le> 57 \<or> 65 \<le> n \<and> n \<le> 90 \<or> 97 \<le> n \<and> n \<le> 122 \<or> n = 95)"

text \<open>\<open>\s\<close> of package regexp does not match a vertical tab.\<close>

definition is_regexp_space :: "char \<Rightarrow> bool" where
  "is_regexp_space c \<longleftrightarrow> (let n = (of_char c :: nat) in n = 32 \<or> n = 9 \<or> n = 10 \<or> n = 12 \<or> n = 13)"

text \<open>A function name, a parenthesis and, later on, a closing brace; then the whole pattern, anywhere.\<close>

definition snippet_body :: "string \<Rightarrow> bool" where
  "snippet_body s =
     (let r = dropWhile is_word_char s in
      r \<noteq> s \<and> (case dropWhile is_regexp_space r of [] \<Rightarrow> False | c # t \<Rightarrow> c = CHR ''('' \<and> CHR ''}'' \<in> set t))"

fun is_hcl_snippet :: "string \<Rightarrow> bool" where
  "is_hcl_snippet [] = False"
| "is_hcl_snippet (c # s) =
     ((c = CHR ''$'' \<and> has_prefix s ''{'' \<and> snippet_body (tl s)) \<or> is_hcl_snippet s)"

definition process_hcl_param :: "(string \<Rightarrow> string option) \<Rightarrow> string \<Rightarrow> string option" where
  "process_hcl_param parse_hcl p = parse_hcl (''parameter = '' @ [CHR 0x22] @ p @ [CHR 0x22, CHR 0x0A])"

section \<open>Walking the parameters along the schema\<close>

datatype tf_schema =
    String_s
  | Map_s schema_elem
  | Collection_s schema_elem
  | Other_s
and schema_elem = No_elem | Schema_elem tf_schema | Resource_elem "(string \<times> tf_schema) list"

lemma elem_size: "x \<in> set xs \<Longrightarrow> f x \<le> size_list f xs"
  by (rule size_list_estimation') auto

lemma entry_size: "(k, v) \<in> set m \<Longrightarrow> size v < size_list (size_prod (\<lambda>_. 0) size) m"
  using elem_size [of "(k, v)" m "size_prod (\<lambda>_. 0) size"] by simp

function (sequential) apply_hcl_parser_to_param :: "(string \<Rightarrow> string option) \<Rightarrow> tf_schema \<Rightarrow> any \<Rightarrow> any"
  and process_params_with_hcl_parser :: "(string \<Rightarrow> string option) \<Rightarrow> (string \<times> tf_schema) list \<Rightarrow> any_map \<Rightarrow> any_map" where
  "apply_hcl_parser_to_param parse sc Nil_v = Nil_v"
| "apply_hcl_parser_to_param parse (Map_s (Schema_elem sc)) (Map_v m) =
     Map_v (map (\<lambda>e. (fst e, apply_hcl_parser_to_param parse sc (snd e))) m)"
| "apply_hcl_parser_to_param parse (Collection_s (Schema_elem sc)) (Slice_v xs) =
     Slice_v (map (apply_hcl_parser_to_param parse sc) xs)"
| "apply_hcl_parser_to_param parse (Collection_s (Resource_elem scs)) (Slice_v xs) =
     Slice_v (map (\<lambda>x. case x of Map_v m \<Rightarrow> Map_v (process_params_with_hcl_parser parse scs m) | _ \<Rightarrow> x) xs)"
| "apply_hcl_parser_to_param parse String_s (Str_v s) =
     (if is_hcl_snippet s then (case process_hcl_param parse s of None \<Rightarrow> Str_v s | Some t \<Rightarrow> Str_v t) else Str_v s)"
| "apply_hcl_parser_to_param parse sc x = x"
| "process_params_with_hcl_parser parse scs m =
     map (\<lambda>e. (fst e,
        case map_of scs (fst e) of Some sc \<Rightarrow> apply_hcl_parser_to_param parse sc (snd e) | None \<Rightarrow> snd e)) m"
  by pat_completeness auto
termination
proof (relation "measure (\<lambda>x. case x of Inl (_, _, v) \<Rightarrow> 2 * size v
    | Inr (_, _, m) \<Rightarrow> 2 * size_list (size_prod (\<lambda>_. 0) size) m + 1)", goal_cases)
  case (2 parse sc m e)
  then show ?case using entry_size [of "fst e" "snd e" m] by simp
next
  case (3 parse sc xs x)
  then show ?case using elem_size [of x xs size] by simp
next
  case (4 parse scs xs x m)
  then show ?case using elem_size [of x xs size] by simp
next
  case (5 parse scs m e sc)
  then show ?case using entry_size [of "fst e" "snd e" m] by simp
qed simp


section \<open>Plain parameters\<close>

fun no_snippet :: "any \<Rightarrow> bool" where
  "no_snippet (Str_v s) = (\<not> is_hcl_snippet s)"
| "no_snippet (Slice_v xs) = list_all no_snippet xs"
| "no_snippet (Map_v m) = list_all (\<lambda>e. no_snippet (snd e)) m"
| "no_snippet v = True"

text \<open>Parameters without a snippet reach Terraform as they are, whatever the schema and the parser.\<close>

lemma plain_params_unchanged:
  "no_snippet v \<Longrightarrow> apply_hcl_parser_to_param parse sc v = v"
  "list_all (\<lambda>e. no_snippet (snd e)) m \<Longrightarrow> process_params_with_hcl_parser parse scs m = m"
proof (induction parse sc v and parse scs m rule: apply_hcl_parser_to_param_process_params_with_hcl_parser.induct)
  case (2 parse sc m)
  then have "map (\<lambda>e. (fst e, apply_hcl_parser_to_param parse sc (snd e))) m = map (\<lambda>e. e) m"
    by (intro map_cong) (auto simp: list_all_iff)
  then show ?case by simp
next
  case (3 parse sc xs)
  then show ?case by (simp add: list_all_iff map_idI)
next
  case (4 parse scs xs)
  have "(case x of Map_v m \<Rightarrow> Map_v (process_params_with_hcl_parser parse scs m) | _ \<Rightarrow> x) = x" if "x \<in> set xs" for x
    using 4 that by (auto simp: list_all_iff split: any.splits)
  then show ?case by (simp add: map_idI)
next
  case (7 parse scs m)
  have "(case map_of scs (fst e) of Some sc \<Rightarrow> apply_hcl_parser_to_param parse sc (snd e) | None \<Rightarrow> snd e) = snd e"
    if "e \<in> set m" for e
    using 7 that by (auto simp: list_all_iff split: option.splits)
  then show ?case by (simp add: map_idI)
qed simp_all

end
