(* ===== verification/TfValue.thy ===== *)
theory TfValue
  imports Prelude
begin

text \<open>
  Values and types of the Terraform type system (\<open>tftypes\<close>), as the Plugin Framework client
  (\<open>pkg/controller/external_tfpluginfw.go\<close>, \<open>pkg/controller/proposed_state.go\<close>) uses them. An object
  value lists its attributes in the order of its type, a map value in the order of a range.
\<close>

section \<open>Types and values\<close>

datatype prim_type = Bool_pt | Number_pt | String_pt | Dynamic_pt

text \<open>\<open>Number_p m e\<close> is the \<open>big.Float\<close> with the value \<open>m * 2 ^ e\<close>; infinities do not occur.\<close>

datatype prim = Bool_p bool | Number_p int int | String_p string

datatype tf_type =
    Prim_t prim_type
  | List_t tf_type
  | Set_t tf_type
  | Map_t tf_type
  | Tuple_t "tf_type list"
  | Object_t "(string \<times> tf_type) list"

text \<open>\<open>Zero_tv\<close> is the zero value \<open>tftypes.Value{}\<close>, which is null and has no type.\<close>

datatype tf_value =
    Zero_tv
  | Null_tv tf_type
  | Unknown_tv tf_type
  | Prim_tv tf_type prim
  | Seq_tv tf_type "tf_value list"
  | Rec_tv tf_type "(string \<times> tf_value) list"

definition is_null :: "tf_value \<Rightarrow> bool" where
  "is_null v = (case v of Zero_tv \<Rightarrow> True | Null_tv t \<Rightarrow> True | _ \<Rightarrow> False)"

definition is_known :: "tf_value \<Rightarrow> bool" where
  "is_known v = (case v of Unknown_tv t \<Rightarrow> False | _ \<Rightarrow> True)"

definition value_type :: "tf_value \<Rightarrow> tf_type option" where
  "value_type v =
     (case v of Zero_tv \<Rightarrow> None | Null_tv t \<Rightarrow> Some t | Unknown_tv t \<Rightarrow> Some t | Prim_tv t s \<Rightarrow> Some t
      | Seq_tv t vs \<Rightarrow> Some t | Rec_tv t es \<Rightarrow> Some t)"

text \<open>\<open>As\<close> leaves its target empty when the value is null, unknown or of another type.\<close>

definition as_elements :: "tf_value \<Rightarrow> tf_value list" where
  "as_elements v = (case v of Seq_tv t vs \<Rightarrow> vs | _ \<Rightarrow> [])"

definition as_fields :: "tf_value \<Rightarrow> (string \<times> tf_value) list" where
  "as_fields v = (case v of Rec_tv t es \<Rightarrow> es | _ \<Rightarrow> [])"

definition field_of :: "tf_value \<Rightarrow> string \<Rightarrow> tf_value" where
  "field_of v n = (case map_of (as_fields v) n of None \<Rightarrow> Zero_tv | Some w \<Rightarrow> w)"

definition is_object :: "tf_value \<Rightarrow> bool" where
  "is_object v = (case value_type v of Some (Object_t ats) \<Rightarrow> True | _ \<Rightarrow> False)"

lemmas value_defs = is_null_def is_known_def value_type_def as_elements_def as_fields_def field_of_def is_object_def

end
