(* ===== verification/ProposedState.thy ===== *)
theory ProposedState
  imports TfValue
begin

text \<open>
  The proposed new state of the Plugin Framework client (\<open>pkg/controller/proposed_state.go\<close>): the
  merge of the configuration with the prior state along the schema. Walking values and schemas by
  path is the parameter \<open>path_lib\<close>. \<open>None\<close> is a panic. \<open>NewValue\<close> refuses content that is not of
  its type; that the merge never builds such content from conforming values is proved below.
\<close>

section \<open>Schemas\<close>

datatype nesting_mode = Nesting_single | Nesting_list | Nesting_set | Nesting_map

datatype block_mode = Block_single | Block_list | Block_set

record attr_flags =
  computed :: bool
  optional :: bool

datatype attribute =
    Leaf attr_flags tf_type
  | Nested attr_flags nesting_mode "(string \<times> attribute) list"

datatype block = Block block_mode "(string \<times> attribute) list" "(string \<times> block) list"

definition flags_of :: "attribute \<Rightarrow> attr_flags" where
  "flags_of a = (case a of Leaf fl t \<Rightarrow> fl | Nested fl mode as \<Rightarrow> fl)"

fun nesting_type :: "nesting_mode \<Rightarrow> tf_type \<Rightarrow> tf_type" where
  "nesting_type Nesting_single t = t"
| "nesting_type Nesting_list t = List_t t"
| "nesting_type Nesting_set t = Set_t t"
| "nesting_type Nesting_map t = Map_t t"

fun attr_type :: "attribute \<Rightarrow> tf_type" where
  "attr_type (Leaf fl t) = t"
| "attr_type (Nested fl mode as) = nesting_type mode (Object_t (map (\<lambda>e. (fst e, attr_type (snd e))) as))"

definition attrs_type :: "(string \<times> attribute) list \<Rightarrow> (string \<times> tf_type) list" where
  "attrs_type as = map (\<lambda>e. (fst e, attr_type (snd e))) as"

fun block_nesting :: "block_mode \<Rightarrow> nesting_mode" where
  "block_nesting Block_single = Nesting_single"
| "block_nesting Block_list = Nesting_list"
| "block_nesting Block_set = Nesting_set"

fun block_type :: "block \<Rightarrow> tf_type" where
  "block_type (Block mode as bs) =
     nesting_type (block_nesting mode) (Object_t (attrs_type as @ map (\<lambda>e. (fst e, block_type (snd e))) bs))"

definition schema_type :: "(string \<times> attribute) list \<Rightarrow> (string \<times> block) list \<Rightarrow> tf_type" where
  "schema_type as bs = Object_t (attrs_type as @ map (\<lambda>e. (fst e, block_type (snd e))) bs)"

text \<open>The schemas the merge works with: a resource schema, also built for a block, or a nested attribute.\<close>

datatype nested_schema = Schema "(string \<times> attribute) list" "(string \<times> block) list" | Nested_attribute attribute

section \<open>Walking by path\<close>

datatype path_step = Attribute_name string | Element_string string | Element_int nat | Element_value tf_value

text \<open>
  What a path leads to in a schema: an attribute, a block or the schema, or the nested object
  under a collection, which is none of them.
\<close>

datatype schema_node = At_attribute attribute | At_block_or_schema | At_nested_object

text \<open>The nodes \<open>Walk\<close> visits, with their paths, in its order.\<close>

datatype walk_tree = Visit "path_step list" tf_value "walk_tree list"

record path_lib =
  walk :: "tf_value \<Rightarrow> walk_tree"
  value_at :: "tf_value \<Rightarrow> path_step list \<Rightarrow> tf_value option"
  schema_at :: "nested_schema \<Rightarrow> path_step list \<Rightarrow> schema_node option"
  nested_object_at :: "attribute \<Rightarrow> path_step list \<Rightarrow> schema_node option"
  value_equal :: "tf_value \<Rightarrow> tf_value \<Rightarrow> bool"

text \<open>The visit of one node decides whether it is found, its children are visited, or neither.\<close>

fun found_non_computed :: "path_lib \<Rightarrow> attribute \<Rightarrow> walk_tree \<Rightarrow> bool" where
  "found_non_computed lib a (Visit p v ts) =
     (let inside = list_ex (found_non_computed lib a) ts in
      if is_null v then inside
      else (case nested_object_at lib a p of
              Some (At_attribute r) \<Rightarrow> if \<not> computed (flags_of r) then True else inside
            | _ \<Rightarrow> inside))"

definition optional_value_not_computable :: "path_lib \<Rightarrow> attribute \<Rightarrow> tf_value \<Rightarrow> bool" where
  "optional_value_not_computable lib a v =
     (if \<not> optional (flags_of a) then False
      else (case a of Leaf fl t \<Rightarrow> False | Nested fl mode as \<Rightarrow> found_non_computed lib a (walk lib v)))"

text \<open>
  The walk over the prior value stops as soon as \<open>valid\<close> is cleared; a schema node that is not an
  attribute fails the type assertion.
\<close>

fun valid_walk :: "path_lib \<Rightarrow> nested_schema \<Rightarrow> tf_value \<Rightarrow> walk_tree \<Rightarrow> bool option"
  and valid_walks :: "path_lib \<Rightarrow> nested_schema \<Rightarrow> tf_value \<Rightarrow> walk_tree list \<Rightarrow> bool option" where
  "valid_walk lib sc config (Visit p prior ts) =
     (case value_at lib config p of
        None \<Rightarrow> Some False
      | Some c \<Rightarrow>
          if value_equal lib c prior then Some True
          else if (case value_type c of Some (Set_t t) \<Rightarrow> True | _ \<Rightarrow> False) then Some False
          else (case schema_at lib sc p of
                  Some (At_attribute (Leaf fl t)) \<Rightarrow> Some (computed fl \<and> is_null c)
                | Some At_nested_object \<Rightarrow> None
                | _ \<Rightarrow> valid_walks lib sc config ts))"
| "valid_walks lib sc config [] = Some True"
| "valid_walks lib sc config (t # ts) =
     (case valid_walk lib sc config t of
        None \<Rightarrow> None
      | Some valid \<Rightarrow> if valid then valid_walks lib sc config ts else Some False)"

definition valid_prior_from_config :: "path_lib \<Rightarrow> nested_schema \<Rightarrow> tf_value \<Rightarrow> tf_value \<Rightarrow> bool option" where
  "valid_prior_from_config lib sc prior config =
     (if value_equal lib config prior then Some True else valid_walk lib sc config (walk lib prior))"

section \<open>Empty values\<close>

fun empty_attribute :: "attribute \<Rightarrow> tf_value" where
  "empty_attribute (Leaf fl t) = Null_tv t"
| "empty_attribute (Nested fl mode as) =
     (case mode of
        Nesting_single \<Rightarrow> Rec_tv (attr_type (Nested fl mode as)) (map (\<lambda>e. (fst e, empty_attribute (snd e))) as)
      | Nesting_map \<Rightarrow> Rec_tv (attr_type (Nested fl mode as)) []
      | _ \<Rightarrow> Seq_tv (attr_type (Nested fl mode as)) [])"

definition empty_block :: "block \<Rightarrow> tf_value" where
  "empty_block b =
     (case b of Block mode as bs \<Rightarrow> if mode = Block_single then Null_tv (block_type b) else Seq_tv (block_type b) [])"

definition empty_value :: "(string \<times> attribute) list \<Rightarrow> (string \<times> block) list \<Rightarrow> tf_value" where
  "empty_value as bs =
     Rec_tv (schema_type as bs)
       (map (\<lambda>e. (fst e, empty_attribute (snd e))) as @ map (\<lambda>e. (fst e, empty_block (snd e))) bs)"

section \<open>Nested collections\<close>

text \<open>\<open>el\<close> merges one element, \<open>ty\<close> is the type of the new collection.\<close>

fun list_elements :: "(tf_value \<Rightarrow> tf_value \<Rightarrow> tf_value option) \<Rightarrow> tf_value \<Rightarrow> nat \<Rightarrow> tf_value list \<Rightarrow> tf_value list option" where
  "list_elements el prior i [] = Some []"
| "list_elements el prior i (c # cs) =
     (let ps = as_elements prior in
      case (if is_known prior \<and> (is_null prior \<or> length ps \<le> i) then Some c
            else if length ps \<le> i then None else el (ps ! i) c) of
        None \<Rightarrow> None
      | Some v \<Rightarrow> map_option (Cons v) (list_elements el prior (Suc i) cs))"

definition proposed_new_nesting_list ::
  "(tf_value \<Rightarrow> tf_value \<Rightarrow> tf_value option) \<Rightarrow> (tf_value list \<Rightarrow> tf_type) \<Rightarrow> tf_value \<Rightarrow> tf_value \<Rightarrow> tf_value option" where
  "proposed_new_nesting_list el ty prior config =
     (if is_null config \<or> as_elements config = [] then Some config
      else map_option (\<lambda>vs. Seq_tv (ty vs) vs) (list_elements el prior 0 (as_elements config)))"

fun map_elements ::
  "(tf_value \<Rightarrow> tf_value \<Rightarrow> tf_value option) \<Rightarrow> tf_value \<Rightarrow> (string \<times> tf_value) list \<Rightarrow> (string \<times> tf_value) list option" where
  "map_elements el prior [] = Some []"
| "map_elements el prior ((n, c) # cs) =
     (case (case map_of (as_fields prior) n of None \<Rightarrow> Some c | Some p \<Rightarrow> el p c) of
        None \<Rightarrow> None
      | Some v \<Rightarrow> map_option (Cons (n, v)) (map_elements el prior cs))"

definition proposed_new_nesting_map ::
  "(tf_value \<Rightarrow> tf_value \<Rightarrow> tf_value option) \<Rightarrow> tf_type \<Rightarrow> tf_value \<Rightarrow> tf_value \<Rightarrow> tf_value option" where
  "proposed_new_nesting_map el ty prior config =
     (if is_null config \<or> \<not> is_known config \<or> as_fields config = [] then Some config
      else map_option (Rec_tv ty) (map_elements el prior (as_fields config)))"

text \<open>The first unused prior element that is valid, and the others: \<open>used\<close> elements leave the list.\<close>

fun take_valid :: "(tf_value \<Rightarrow> bool option) \<Rightarrow> tf_value list \<Rightarrow> (tf_value option \<times> tf_value list) option" where
  "take_valid P [] = Some (None, [])"
| "take_valid P (p # ps) =
     (case P p of
        None \<Rightarrow> None
      | Some valid \<Rightarrow>
          if valid then Some (Some p, ps)
          else map_option (\<lambda>(r, qs). (r, p # qs)) (take_valid P ps))"

fun set_elements ::
  "(tf_value \<Rightarrow> tf_value \<Rightarrow> bool option) \<Rightarrow> (tf_value \<Rightarrow> tf_value \<Rightarrow> tf_value option) \<Rightarrow> tf_type \<Rightarrow> tf_value list \<Rightarrow>
     tf_value list \<Rightarrow> tf_value list option" where
  "set_elements valid el t ps [] = Some []"
| "set_elements valid el t ps (c # cs) =
     (case take_valid (\<lambda>p. valid p c) ps of
        None \<Rightarrow> None
      | Some (r, ps) \<Rightarrow>
          let p = (case r of None \<Rightarrow> Null_tv t | Some p \<Rightarrow> if is_null p then Null_tv t else p) in
          case el p c of
            None \<Rightarrow> None
          | Some v \<Rightarrow> map_option (Cons v) (set_elements valid el t ps cs))"

definition proposed_new_nesting_set ::
  "(tf_value \<Rightarrow> tf_value \<Rightarrow> bool option) \<Rightarrow> (tf_value \<Rightarrow> tf_value \<Rightarrow> tf_value option) \<Rightarrow> tf_type \<Rightarrow> tf_value \<Rightarrow> tf_value \<Rightarrow>
     tf_value option" where
  "proposed_new_nesting_set valid el ty prior config =
     (case value_type config of
        Some (Set_t t) \<Rightarrow>
          if \<not> is_known config \<or> is_null config \<or> as_elements config = [] then Some config
          else map_option (Seq_tv ty)
            (set_elements valid el t (if is_known prior \<and> \<not> is_null prior then as_elements prior else []) (as_elements config))
      | _ \<Rightarrow> None)"

section \<open>The merge\<close>

fun proposed_new_attribute :: "path_lib \<Rightarrow> attribute \<Rightarrow> tf_value \<Rightarrow> tf_value \<Rightarrow> tf_value option"
  and proposed_new_object_attributes :: "path_lib \<Rightarrow> (string \<times> attribute) list \<Rightarrow> tf_value \<Rightarrow> tf_value \<Rightarrow> tf_value option"
  and proposed_new_attributes :: "path_lib \<Rightarrow> (string \<times> attribute) list \<Rightarrow> tf_value \<Rightarrow> tf_value \<Rightarrow> (string \<times> tf_value) list option" where
  "proposed_new_attribute lib (Leaf fl t) prior config =
     Some (if computed fl \<and> is_null config then
             (if optional_value_not_computable lib (Leaf fl t) prior then config else prior)
           else config)"
| "proposed_new_attribute lib (Nested fl mode as) prior config =
     (let a = Nested fl mode as; el = (\<lambda>p c. proposed_new_object_attributes lib as p c) in
      if computed fl \<and> is_null config then Some (if optional_value_not_computable lib a prior then config else prior)
      else if \<not> is_known config then Some config
      else (case mode of
              Nesting_single \<Rightarrow> if is_null config then Some config else el prior config
            | Nesting_list \<Rightarrow> proposed_new_nesting_list el (\<lambda>_. attr_type a) prior config
            | Nesting_map \<Rightarrow> proposed_new_nesting_map el (attr_type a) prior config
            | Nesting_set \<Rightarrow>
                proposed_new_nesting_set (valid_prior_from_config lib (Nested_attribute a)) el (attr_type a) prior config))"
| "proposed_new_object_attributes lib as prior config =
     (if is_null config then Some config
      else map_option (Rec_tv (Object_t (attrs_type as))) (proposed_new_attributes lib as prior config))"
| "proposed_new_attributes lib [] prior config = Some []"
| "proposed_new_attributes lib ((n, a) # as) prior config =
     (case proposed_new_attribute lib a (if is_null prior then Null_tv (attr_type a) else field_of prior n) (field_of config n) of
        None \<Rightarrow> None
      | Some v \<Rightarrow> map_option (Cons (n, v)) (proposed_new_attributes lib as prior config))"

fun proposed_new :: "path_lib \<Rightarrow> (string \<times> attribute) list \<Rightarrow> (string \<times> block) list \<Rightarrow> tf_value \<Rightarrow> tf_value \<Rightarrow> tf_value option"
  and proposed_new_blocks :: "path_lib \<Rightarrow> (string \<times> block) list \<Rightarrow> tf_value \<Rightarrow> tf_value \<Rightarrow> (string \<times> tf_value) list option"
  and proposed_new_nested_block :: "path_lib \<Rightarrow> block \<Rightarrow> tf_value \<Rightarrow> tf_value \<Rightarrow> tf_value option" where
  "proposed_new lib as bs prior config =
     (if is_null config \<and> is_null prior then Some prior
      else
        let prior = (if is_null prior then empty_value as bs else prior) in
        if is_null config \<or> \<not> is_known config then Some prior
        else if \<not> is_object prior \<or> \<not> is_object config then None
        else (case proposed_new_attributes lib as prior config of
                None \<Rightarrow> None
              | Some xs \<Rightarrow> map_option (\<lambda>ys. Rec_tv (schema_type as bs) (xs @ ys)) (proposed_new_blocks lib bs prior config)))"
| "proposed_new_blocks lib [] prior config = Some []"
| "proposed_new_blocks lib ((n, b) # bs) prior config =
     (case proposed_new_nested_block lib b (field_of prior n) (field_of config n) of
        None \<Rightarrow> None
      | Some v \<Rightarrow> map_option (Cons (n, v)) (proposed_new_blocks lib bs prior config))"
| "proposed_new_nested_block lib (Block mode as bs) prior config =
     (let el = (\<lambda>p c. proposed_new lib as bs p c); t = schema_type as bs in
      if \<not> is_known config then Some config
      else (case mode of
              Block_single \<Rightarrow> if is_null config then Some config else el prior config
            | Block_list \<Rightarrow>
                proposed_new_nesting_list el
                  (\<lambda>vs. case value_type config of Some (Tuple_t ts) \<Rightarrow> Tuple_t (map (\<lambda>v. the (value_type v)) vs) | _ \<Rightarrow> List_t t)
                  prior config
            | Block_set \<Rightarrow>
                proposed_new_nesting_set (valid_prior_from_config lib (Schema as bs)) el (Set_t t) prior config))"

definition proposed_state :: "path_lib \<Rightarrow> (string \<times> attribute) list \<Rightarrow> (string \<times> block) list \<Rightarrow> tf_value \<Rightarrow> tf_value \<Rightarrow> tf_value option" where
  "proposed_state lib as bs prior config = proposed_new lib as bs prior config"


section \<open>Conforming values\<close>

text \<open>A value of a type. Tuples do not occur in schemas.\<close>

fun has_type :: "tf_value \<Rightarrow> tf_type \<Rightarrow> bool" where
  "has_type Zero_tv t = False"
| "has_type (Null_tv u) t = (u = t)"
| "has_type (Unknown_tv u) t = (u = t)"
| "has_type (Prim_tv u s) t = (u = t \<and> (case t of Prim_t p \<Rightarrow> True | _ \<Rightarrow> False))"
| "has_type (Seq_tv u vs) t =
     (u = t \<and> (case t of List_t e \<Rightarrow> list_all (\<lambda>v. has_type v e) vs | Set_t e \<Rightarrow> list_all (\<lambda>v. has_type v e) vs | _ \<Rightarrow> False))"
| "has_type (Rec_tv u es) t =
     (u = t \<and>
      (case t of
         Map_t e \<Rightarrow> distinct (map fst es) \<and> list_all (\<lambda>x. has_type (snd x) e) es
       | Object_t ats \<Rightarrow>
           map fst es = map fst ats \<and>
           list_all (\<lambda>x. case map_of ats (fst x) of None \<Rightarrow> False | Some e \<Rightarrow> has_type (snd x) e) es
       | _ \<Rightarrow> False))"

text \<open>No element of a list, set or map is unknown; attributes of objects may be.\<close>

fun elements_known :: "tf_value \<Rightarrow> bool" where
  "elements_known (Seq_tv t vs) = list_all (\<lambda>v. is_known v \<and> elements_known v) vs"
| "elements_known (Rec_tv t es) =
     list_all (\<lambda>x. (case t of Map_t e \<Rightarrow> is_known (snd x) | _ \<Rightarrow> True) \<and> elements_known (snd x)) es"
| "elements_known v = True"

fun wholly_known :: "tf_value \<Rightarrow> bool" where
  "wholly_known (Seq_tv t vs) = list_all wholly_known vs"
| "wholly_known (Rec_tv t es) = list_all (\<lambda>x. wholly_known (snd x)) es"
| "wholly_known (Unknown_tv t) = False"
| "wholly_known v = True"

text \<open>Attributes and blocks have distinct names; and schemas without sets.\<close>

fun wf_attribute :: "attribute \<Rightarrow> bool" where
  "wf_attribute (Leaf fl t) = True"
| "wf_attribute (Nested fl mode as) = (distinct (map fst as) \<and> list_all (\<lambda>e. wf_attribute (snd e)) as)"

fun wf_block :: "block \<Rightarrow> bool" where
  "wf_block (Block mode as bs) =
     (distinct (map fst as @ map fst bs) \<and> list_all (\<lambda>e. wf_attribute (snd e)) as \<and> list_all (\<lambda>e. wf_block (snd e)) bs)"

fun attribute_without_sets :: "attribute \<Rightarrow> bool" where
  "attribute_without_sets (Leaf fl t) = True"
| "attribute_without_sets (Nested fl mode as) = (mode \<noteq> Nesting_set \<and> list_all (\<lambda>e. attribute_without_sets (snd e)) as)"

fun block_without_sets :: "block \<Rightarrow> bool" where
  "block_without_sets (Block mode as bs) =
     (mode \<noteq> Block_set \<and> list_all (\<lambda>e. attribute_without_sets (snd e)) as \<and> list_all (\<lambda>e. block_without_sets (snd e)) bs)"

section \<open>Merging a value with itself, and with the result of a merge\<close>

lemma list_elements_self:
  "(\<And>c. c \<in> set cs \<Longrightarrow> el c c = Some c) \<Longrightarrow> list_elements el (Seq_tv t (pre @ cs)) (length pre) cs = Some cs"
proof (induction cs arbitrary: pre)
  case (Cons c cs)
  from Cons.IH [of "pre @ [c]"] Cons.prems show ?case by (simp add: value_defs)
qed simp

lemma list_elements_again:
  "list_elements el prior i cs = Some vs \<Longrightarrow> length pre = i \<Longrightarrow>
     (\<And>c p v. c \<in> set cs \<Longrightarrow> el p c = Some v \<Longrightarrow> el v c = Some v) \<Longrightarrow> (\<And>c. c \<in> set cs \<Longrightarrow> el c c = Some c) \<Longrightarrow>
     list_elements el (Seq_tv t (pre @ vs)) i cs = Some vs \<and> length vs = length cs"
proof (induction cs arbitrary: pre i vs)
  case (Cons c cs)
  from Cons.prems(1) obtain v ws where v: "vs = v # ws" "list_elements el prior (Suc i) cs = Some ws"
      "v = c \<or> (\<exists>p. el p c = Some v)"
    by (auto simp: Let_def split: option.splits if_splits)
  have "list_elements el (Seq_tv t ((pre @ [v]) @ ws)) (Suc i) cs = Some ws \<and> length ws = length cs"
    using Cons.prems v by (intro Cons.IH) auto
  moreover have "el v c = Some v" using v(3) Cons.prems(3,4) by auto
  ultimately show ?case using v(1) Cons.prems(2) by (simp add: value_defs nth_append)
qed simp

lemma map_elements_self:
  "(\<And>x. x \<in> set cs \<Longrightarrow> el (snd x) (snd x) = Some (snd x) \<and> map_of es (fst x) = Some (snd x)) \<Longrightarrow>
     map_elements el (Rec_tv t es) cs = Some cs"
proof (induction cs)
  case (Cons x cs)
  then show ?case using Cons.prems [of x] by (cases x) (simp add: value_defs)
qed simp

lemma map_elements_again:
  "map_elements el prior cs = Some vs \<Longrightarrow>
     (\<And>x p v. x \<in> set cs \<Longrightarrow> el p (snd x) = Some v \<Longrightarrow> el v (snd x) = Some v) \<Longrightarrow>
     (\<And>x. x \<in> set cs \<Longrightarrow> el (snd x) (snd x) = Some (snd x)) \<Longrightarrow>
     map fst vs = map fst cs \<and>
     ((\<forall>x \<in> set vs. map_of es (fst x) = Some (snd x)) \<longrightarrow> map_elements el (Rec_tv t es) cs = Some vs)"
proof (induction cs arbitrary: vs)
  case (Cons x cs)
  obtain n c where x: "x = (n, c)" by fastforce
  from Cons.prems(1) obtain v ws where v: "vs = (n, v) # ws" "map_elements el prior cs = Some ws"
      "v = c \<or> (\<exists>p. el p c = Some v)"
    by (auto simp: x split: option.splits if_splits)
  have "el v c = Some v" using v(3) Cons.prems(2,3) [of x] by (auto simp: x)
  moreover have "map fst ws = map fst cs \<and>
      ((\<forall>x \<in> set ws. map_of es (fst x) = Some (snd x)) \<longrightarrow> map_elements el (Rec_tv t es) cs = Some ws)"
    using Cons.prems(2,3) by (intro Cons.IH [OF v(2)]) simp_all
  ultimately show ?case by (simp add: x v(1) value_defs)
qed simp


text \<open>A known object value is made of its fields.\<close>

lemma object_fields:
  assumes "has_type c (Object_t ats)" "\<not> is_null c" "is_known c" "distinct (map fst ats)"
  shows "c = Rec_tv (Object_t ats) (map (\<lambda>x. (fst x, field_of c (fst x))) ats)"
    and "x \<in> set ats \<Longrightarrow> has_type (field_of c (fst x)) (snd x)"
    and "elements_known c \<Longrightarrow> x \<in> set ats \<Longrightarrow> elements_known (field_of c (fst x))"
    and "wholly_known c \<Longrightarrow> x \<in> set ats \<Longrightarrow> wholly_known (field_of c (fst x))"
proof -
  from assms(1-3) obtain es where c: "c = Rec_tv (Object_t ats) es" and keys: "map fst es = map fst ats"
    and ty: "\<And>x. x \<in> set es \<Longrightarrow> case map_of ats (fst x) of None \<Rightarrow> False | Some e \<Rightarrow> has_type (snd x) e"
    by (cases c) (auto simp: value_defs list_all_iff split: tf_type.splits)
  have dist: "distinct (map fst es)" using keys assms(4) by simp
  have field: "field_of c (fst y) = snd y" if "y \<in> set es" for y
    using that map_of_is_SomeI [OF dist, of "fst y" "snd y"] by (simp add: c value_defs)
  have "es = map (\<lambda>x. (fst x, field_of c (fst x))) es" by (rule sym, rule map_idI) (simp add: field)
  also have "\<dots> = map (\<lambda>n. (n, field_of c n)) (map fst es)" by simp
  also have "\<dots> = map (\<lambda>x. (fst x, field_of c (fst x))) ats" unfolding keys by simp
  finally have es: "es = map (\<lambda>x. (fst x, field_of c (fst x))) ats" .
  then show "c = Rec_tv (Object_t ats) (map (\<lambda>x. (fst x, field_of c (fst x))) ats)" using c by simp
  have mem: "(fst x, field_of c (fst x)) \<in> set es" if "x \<in> set ats" for x using that es by (metis (no_types, lifting) image_eqI set_map)
  show "has_type (field_of c (fst x)) (snd x)" if "x \<in> set ats"
    using ty [OF mem [OF that]] map_of_is_SomeI [OF assms(4), of "fst x" "snd x"] that by simp
  show "elements_known c \<Longrightarrow> x \<in> set ats \<Longrightarrow> elements_known (field_of c (fst x))"
    using mem by (fastforce simp: c list_all_iff)
  show "wholly_known c \<Longrightarrow> x \<in> set ats \<Longrightarrow> wholly_known (field_of c (fst x))"
    using mem by (fastforce simp: c list_all_iff)
qed

lemma fst_attrs_type [simp]: "map fst (attrs_type as) = map fst as"
  by (simp add: attrs_type_def)

lemma attr_type_Nested: "attr_type (Nested fl mode as) = nesting_type mode (Object_t (attrs_type as))"
  by (simp add: attrs_type_def)

lemma attributes_self:
  "(\<And>x. x \<in> set as \<Longrightarrow> proposed_new_attribute lib (snd x) (field_of c (fst x)) (field_of c (fst x)) = Some (field_of c (fst x))) \<Longrightarrow>
     \<not> is_null c \<Longrightarrow> proposed_new_attributes lib as c c = Some (map (\<lambda>x. (fst x, field_of c (fst x))) as)"
  by (induction as) auto

lemma attributes_again:
  "proposed_new_attributes lib as p c = Some xs \<Longrightarrow>
     (\<And>x q v. x \<in> set as \<Longrightarrow> proposed_new_attribute lib (snd x) q (field_of c (fst x)) = Some v \<Longrightarrow>
        proposed_new_attribute lib (snd x) v (field_of c (fst x)) = Some v) \<Longrightarrow>
     map fst xs = map fst as \<and>
     (\<not> is_null w \<longrightarrow> (\<forall>x \<in> set xs. field_of w (fst x) = snd x) \<longrightarrow> proposed_new_attributes lib as w c = Some xs)"
proof (induction as arbitrary: xs)
  case (Cons y as)
  obtain n a where y: "y = (n, a)" by fastforce
  from Cons.prems(1) obtain q v ys where v: "proposed_new_attribute lib a q (field_of c n) = Some v"
      "proposed_new_attributes lib as p c = Some ys" "xs = (n, v) # ys"
    by (auto simp: y split: option.splits)
  have "proposed_new_attribute lib a v (field_of c n) = Some v" using Cons.prems(2) [of y] v(1) by (simp add: y)
  moreover have "map fst ys = map fst as \<and>
      (\<not> is_null w \<longrightarrow> (\<forall>x \<in> set ys. field_of w (fst x) = snd x) \<longrightarrow> proposed_new_attributes lib as w c = Some ys)"
    using Cons.prems(2) by (intro Cons.IH [OF v(2)]) simp_all
  ultimately show ?case using v(3) by (auto simp: y)
qed simp

lemma object_attributes_self:
  assumes "\<And>x c. x \<in> set as \<Longrightarrow> has_type c (attr_type (snd x)) \<Longrightarrow> elements_known c \<Longrightarrow>
      proposed_new_attribute lib (snd x) c c = Some c"
    and "distinct (map fst as)" "has_type c (Object_t (attrs_type as))" "elements_known c" "is_known c"
  shows "proposed_new_object_attributes lib as c c = Some c"
proof (cases "is_null c")
  case False
  have d: "distinct (map fst (attrs_type as))" using assms(2) by simp
  note f = object_fields [OF assms(3) False assms(5) d]
  have x: "has_type (field_of c (fst x)) (attr_type (snd x)) \<and> elements_known (field_of c (fst x))" if "x \<in> set as" for x
    using f(2,3) [of "(fst x, attr_type (snd x))"] assms(4) that by (auto simp: attrs_type_def image_iff)
  have "proposed_new_attributes lib as c c = Some (map (\<lambda>x. (fst x, field_of c (fst x))) as)"
    using assms(1) x False by (intro attributes_self) blast+
  then show ?thesis using f(1) assms(2) False by (simp add: attrs_type_def comp_def)
qed simp

lemma object_attributes_again:
  assumes "\<And>x q c v. x \<in> set as \<Longrightarrow> has_type c (attr_type (snd x)) \<Longrightarrow> elements_known c \<Longrightarrow>
      proposed_new_attribute lib (snd x) q c = Some v \<Longrightarrow> proposed_new_attribute lib (snd x) v c = Some v"
    and "distinct (map fst as)" "has_type c (Object_t (attrs_type as))" "elements_known c" "is_known c"
    and "proposed_new_object_attributes lib as p c = Some v"
  shows "proposed_new_object_attributes lib as v c = Some v"
proof (cases "is_null c")
  case False
  then obtain xs where xs: "proposed_new_attributes lib as p c = Some xs" "v = Rec_tv (Object_t (attrs_type as)) xs"
    using assms(6) by auto
  have d: "distinct (map fst (attrs_type as))" using assms(2) by simp
  note f = object_fields [OF assms(3) False assms(5) d]
  have x: "has_type (field_of c (fst x)) (attr_type (snd x)) \<and> elements_known (field_of c (fst x))" if "x \<in> set as" for x
    using f(2,3) [of "(fst x, attr_type (snd x))"] assms(4) that by (auto simp: attrs_type_def image_iff)
  have "map fst xs = map fst as \<and>
      (\<not> is_null v \<longrightarrow> (\<forall>x \<in> set xs. field_of v (fst x) = snd x) \<longrightarrow> proposed_new_attributes lib as v c = Some xs)"
    using assms(1) x by (intro attributes_again [OF xs(1)]) blast
  moreover have "\<not> is_null v" by (simp add: xs(2) value_defs)
  moreover have "\<forall>x \<in> set xs. field_of v (fst x) = snd x" if "distinct (map fst xs)"
    using map_of_is_SomeI [OF that] by (auto simp: xs(2) value_defs)
  ultimately show ?thesis using assms(2) False xs(2) by simp
qed (use assms(6) in simp)


text \<open>The attribute-level facts, by induction on the schema.\<close>

lemma list_of_type:
  assumes "has_type c (List_t e)" "\<not> is_null c" "is_known c"
  shows "\<exists>cs. c = Seq_tv (List_t e) cs \<and> (\<forall>x \<in> set cs. has_type x e \<and> (elements_known c \<longrightarrow> is_known x \<and> elements_known x))"
  using assms by (cases c) (auto simp: value_defs list_all_iff)

lemma map_of_type:
  assumes "has_type c (Map_t e)" "\<not> is_null c" "is_known c"
  shows "\<exists>cs. c = Rec_tv (Map_t e) cs \<and> distinct (map fst cs) \<and>
    (\<forall>x \<in> set cs. has_type (snd x) e \<and> (elements_known c \<longrightarrow> is_known (snd x) \<and> elements_known (snd x)))"
  using assms by (cases c) (auto simp: value_defs list_all_iff)

lemma nesting_list_self:
  assumes "has_type c (List_t e)" "elements_known c" "\<And>vs. vs \<noteq> [] \<Longrightarrow> ty vs = List_t e"
    and "\<And>x. has_type x e \<Longrightarrow> elements_known x \<Longrightarrow> is_known x \<Longrightarrow> el x x = Some x"
  shows "proposed_new_nesting_list el ty c c = Some c"
proof (cases "is_null c \<or> as_elements c = []")
  case False
  then have "is_known c" by (auto simp: value_defs split: tf_value.splits)
  with list_of_type [OF assms(1)] False assms(2) obtain cs where
    c: "c = Seq_tv (List_t e) cs" "\<forall>x \<in> set cs. has_type x e \<and> is_known x \<and> elements_known x" by blast
  have "list_elements el (Seq_tv (List_t e) ([] @ cs)) (length ([] :: tf_value list)) cs = Some cs"
    using c(2) assms(4) by (intro list_elements_self) blast
  then show ?thesis using False assms(3) by (simp add: proposed_new_nesting_list_def c(1) value_defs)
qed (simp add: proposed_new_nesting_list_def)

lemma nesting_list_again:
  assumes "has_type c (List_t e)" "elements_known c"
    and "\<And>x p v. has_type x e \<Longrightarrow> elements_known x \<Longrightarrow> is_known x \<Longrightarrow> el p x = Some v \<Longrightarrow> el v x = Some v"
    and "\<And>x. has_type x e \<Longrightarrow> elements_known x \<Longrightarrow> is_known x \<Longrightarrow> el x x = Some x"
    and "proposed_new_nesting_list el ty p c = Some v"
  shows "proposed_new_nesting_list el ty v c = Some v"
proof (cases "is_null c \<or> as_elements c = []")
  case False
  then have "is_known c" by (auto simp: value_defs split: tf_value.splits)
  with list_of_type [OF assms(1)] False assms(2) obtain cs where
    c: "c = Seq_tv (List_t e) cs" "\<forall>x \<in> set cs. has_type x e \<and> is_known x \<and> elements_known x" by blast
  obtain vs where v: "list_elements el p 0 cs = Some vs" "v = Seq_tv (ty vs) vs"
    using assms(5) False by (auto simp: proposed_new_nesting_list_def c(1) value_defs)
  have "list_elements el (Seq_tv (ty vs) ([] @ vs)) 0 cs = Some vs \<and> length vs = length cs"
    using c(2) assms(3,4) by (intro list_elements_again [OF v(1)]) auto
  then show ?thesis using False v(2) by (simp add: proposed_new_nesting_list_def c(1) value_defs)
qed (use assms(5) in \<open>simp add: proposed_new_nesting_list_def\<close>)

lemma nesting_map_self:
  assumes "has_type c (Map_t e)" "elements_known c"
    and "\<And>x. has_type x e \<Longrightarrow> elements_known x \<Longrightarrow> is_known x \<Longrightarrow> el x x = Some x"
  shows "proposed_new_nesting_map el (Map_t e) c c = Some c"
proof (cases "is_null c \<or> \<not> is_known c \<or> as_fields c = []")
  case False
  with map_of_type [OF assms(1)] assms(2) obtain cs where
    c: "c = Rec_tv (Map_t e) cs" "distinct (map fst cs)"
      "\<forall>x \<in> set cs. has_type (snd x) e \<and> is_known (snd x) \<and> elements_known (snd x)" by blast
  have "map_elements el (Rec_tv (Map_t e) cs) cs = Some cs"
    using c(3) assms(3) map_of_is_SomeI [OF c(2)] by (intro map_elements_self) auto
  then show ?thesis using False by (simp add: proposed_new_nesting_map_def c(1) value_defs)
qed (auto simp: proposed_new_nesting_map_def)

lemma nesting_map_again:
  assumes "has_type c (Map_t e)" "elements_known c"
    and "\<And>x p v. has_type x e \<Longrightarrow> elements_known x \<Longrightarrow> is_known x \<Longrightarrow> el p x = Some v \<Longrightarrow> el v x = Some v"
    and "\<And>x. has_type x e \<Longrightarrow> elements_known x \<Longrightarrow> is_known x \<Longrightarrow> el x x = Some x"
    and "proposed_new_nesting_map el ty p c = Some v"
  shows "proposed_new_nesting_map el ty v c = Some v"
proof (cases "is_null c \<or> \<not> is_known c \<or> as_fields c = []")
  case False
  with map_of_type [OF assms(1)] assms(2) obtain cs where
    c: "c = Rec_tv (Map_t e) cs" "distinct (map fst cs)"
      "\<forall>x \<in> set cs. has_type (snd x) e \<and> is_known (snd x) \<and> elements_known (snd x)" by blast
  obtain vs where v: "map_elements el p cs = Some vs" "v = Rec_tv ty vs"
    using assms(5) False by (auto simp: proposed_new_nesting_map_def c(1) value_defs)
  have *: "map fst vs = map fst cs \<and>
      ((\<forall>x \<in> set vs. map_of vs (fst x) = Some (snd x)) \<longrightarrow> map_elements el (Rec_tv ty vs) cs = Some vs)"
    using c(3) assms(3,4) by (intro map_elements_again [OF v(1)]) auto
  then have "distinct (map fst vs)" using c(2) by simp
  then have "map_elements el (Rec_tv ty vs) cs = Some vs" using * map_of_is_SomeI by fastforce
  then show ?thesis using False v(2) by (simp add: proposed_new_nesting_map_def c(1) value_defs)
qed (use assms(5) in \<open>auto simp: proposed_new_nesting_map_def\<close>)

lemma attribute_self:
  "wf_attribute a \<Longrightarrow> attribute_without_sets a \<Longrightarrow> has_type c (attr_type a) \<Longrightarrow> elements_known c \<Longrightarrow>
     proposed_new_attribute lib a c c = Some c"
proof (induction a arbitrary: c)
  case (Nested fl mode as)
  have el: "proposed_new_object_attributes lib as x x = Some x"
    if "has_type x (Object_t (attrs_type as))" "elements_known x" "is_known x" for x
    using Nested that by (intro object_attributes_self) (force simp: list_all_iff)+
  show ?case
  proof (cases "computed fl \<and> is_null c \<or> \<not> is_known c")
    case False
    note c = Nested.prems(3,4) [unfolded attr_type_Nested]
    consider (single) "mode = Nesting_single" | (list) "mode = Nesting_list" | (map) "mode = Nesting_map"
      using Nested.prems(2) by (cases mode) auto
    then show ?thesis
    proof cases
      case single
      then show ?thesis using False c el [of c] by (auto simp: Let_def simp del: proposed_new_object_attributes.simps)
    next
      case list
      then show ?thesis using False c by (auto simp: Let_def attrs_type_def intro!: nesting_list_self el [unfolded attrs_type_def])
    next
      case map
      then show ?thesis using False c by (auto simp: Let_def attrs_type_def intro!: nesting_map_self el [unfolded attrs_type_def])
    qed
  qed (auto simp: Let_def)
qed simp

lemma attribute_again:
  "wf_attribute a \<Longrightarrow> attribute_without_sets a \<Longrightarrow> has_type c (attr_type a) \<Longrightarrow> elements_known c \<Longrightarrow>
     proposed_new_attribute lib a p c = Some v \<Longrightarrow> proposed_new_attribute lib a v c = Some v"
proof (induction a arbitrary: p c v)
  case (Nested fl mode as)
  have self: "proposed_new_object_attributes lib as x x = Some x"
    if "has_type x (Object_t (attrs_type as))" "elements_known x" "is_known x" for x
    using Nested.prems(1,2) that attribute_self by (intro object_attributes_self) (force simp: list_all_iff)+
  have again: "proposed_new_object_attributes lib as w x = Some w"
    if "has_type x (Object_t (attrs_type as))" "elements_known x" "is_known x" "proposed_new_object_attributes lib as q x = Some w"
    for q w x
    using Nested.IH Nested.prems(1,2) that by (intro object_attributes_again [where p = q]) (force simp: list_all_iff)+
  show ?case
  proof (cases "computed fl \<and> is_null c \<or> \<not> is_known c")
    case False
    note c = Nested.prems(3,4) [unfolded attr_type_Nested]
    consider (single) "mode = Nesting_single" | (list) "mode = Nesting_list" | (map) "mode = Nesting_map"
      using Nested.prems(2) by (cases mode) auto
    then show ?thesis
    proof cases
      case single
      then show ?thesis using False c Nested.prems(5) again [of c p v]
        by (auto simp: Let_def simp del: proposed_new_object_attributes.simps split: if_splits)
    next
      case list
      then show ?thesis using False c Nested.prems(5) again self
        by (auto simp: Let_def intro!: nesting_list_again [where p = p and e = "Object_t (attrs_type as)"])
    next
      case map
      then show ?thesis using False c Nested.prems(5) again self
        by (auto simp: Let_def intro!: nesting_map_again [where p = p and e = "Object_t (attrs_type as)"])
    qed
  qed (use Nested.prems(5) in \<open>auto simp: Let_def split: if_splits\<close>)
qed (auto split: if_splits)


lemma blocks_self:
  "(\<And>x. x \<in> set bs \<Longrightarrow> proposed_new_nested_block lib (snd x) (field_of c (fst x)) (field_of c (fst x)) = Some (field_of c (fst x))) \<Longrightarrow>
     proposed_new_blocks lib bs c c = Some (map (\<lambda>x. (fst x, field_of c (fst x))) bs)"
  by (induction bs) auto

lemma blocks_again:
  "proposed_new_blocks lib bs p c = Some xs \<Longrightarrow>
     (\<And>x q v. x \<in> set bs \<Longrightarrow> proposed_new_nested_block lib (snd x) q (field_of c (fst x)) = Some v \<Longrightarrow>
        proposed_new_nested_block lib (snd x) v (field_of c (fst x)) = Some v) \<Longrightarrow>
     map fst xs = map fst bs \<and>
     ((\<forall>x \<in> set xs. field_of w (fst x) = snd x) \<longrightarrow> proposed_new_blocks lib bs w c = Some xs)"
proof (induction bs arbitrary: xs)
  case (Cons y bs)
  obtain n b where y: "y = (n, b)" by fastforce
  from Cons.prems(1) obtain v ys where v: "proposed_new_nested_block lib b (field_of p n) (field_of c n) = Some v"
      "proposed_new_blocks lib bs p c = Some ys" "xs = (n, v) # ys"
    by (auto simp: y split: option.splits)
  have "proposed_new_nested_block lib b v (field_of c n) = Some v" using Cons.prems(2) [of y] v(1) by (simp add: y)
  moreover have "map fst ys = map fst bs \<and>
      ((\<forall>x \<in> set ys. field_of w (fst x) = snd x) \<longrightarrow> proposed_new_blocks lib bs w c = Some ys)"
    using Cons.prems(2) by (intro Cons.IH [OF v(2)]) simp_all
  ultimately show ?case using v(3) by (auto simp: y)
qed simp

definition schema_entries :: "(string \<times> attribute) list \<Rightarrow> (string \<times> block) list \<Rightarrow> (string \<times> tf_type) list" where
  "schema_entries as bs = attrs_type as @ map (\<lambda>e. (fst e, block_type (snd e))) bs"

lemma schema_type_entries: "schema_type as bs = Object_t (schema_entries as bs)"
  by (simp add: schema_type_def schema_entries_def)

lemma schema_fields:
  assumes "has_type c (schema_type as bs)" "\<not> is_null c" "is_known c" "distinct (map fst as @ map fst bs)"
  shows "c = Rec_tv (schema_type as bs) (map (\<lambda>x. (fst x, field_of c (fst x))) as @ map (\<lambda>x. (fst x, field_of c (fst x))) bs)"
    and "x \<in> set as \<Longrightarrow> has_type (field_of c (fst x)) (attr_type (snd x)) \<and>
      (elements_known c \<longrightarrow> elements_known (field_of c (fst x))) \<and> (wholly_known c \<longrightarrow> wholly_known (field_of c (fst x)))"
    and "y \<in> set bs \<Longrightarrow> has_type (field_of c (fst y)) (block_type (snd y)) \<and>
      (elements_known c \<longrightarrow> elements_known (field_of c (fst y))) \<and> (wholly_known c \<longrightarrow> wholly_known (field_of c (fst y)))"
proof -
  have d: "distinct (map fst (schema_entries as bs))" using assms(4) by (simp add: schema_entries_def comp_def)
  note f = object_fields [OF assms(1) [unfolded schema_type_entries] assms(2,3) d]
  show "c = Rec_tv (schema_type as bs) (map (\<lambda>x. (fst x, field_of c (fst x))) as @ map (\<lambda>x. (fst x, field_of c (fst x))) bs)"
    using f(1) by (simp add: schema_type_entries) (simp add: schema_entries_def attrs_type_def comp_def)
  show "x \<in> set as \<Longrightarrow> has_type (field_of c (fst x)) (attr_type (snd x)) \<and>
      (elements_known c \<longrightarrow> elements_known (field_of c (fst x))) \<and> (wholly_known c \<longrightarrow> wholly_known (field_of c (fst x)))"
    using f(2-4) [of "(fst x, attr_type (snd x))"] by (auto simp: schema_entries_def attrs_type_def image_iff)
  show "y \<in> set bs \<Longrightarrow> has_type (field_of c (fst y)) (block_type (snd y)) \<and>
      (elements_known c \<longrightarrow> elements_known (field_of c (fst y))) \<and> (wholly_known c \<longrightarrow> wholly_known (field_of c (fst y)))"
    using f(2-4) [of "(fst y, block_type (snd y))"] by (auto simp: schema_entries_def image_iff)
qed

text \<open>Well-formed schemas without sets.\<close>

definition plain_schema :: "(string \<times> attribute) list \<Rightarrow> (string \<times> block) list \<Rightarrow> bool" where
  "plain_schema as bs \<longleftrightarrow> wf_block (Block Block_single as bs) \<and> block_without_sets (Block Block_single as bs)"

lemma new_self:
  assumes "\<And>x c. x \<in> set bs \<Longrightarrow> has_type c (block_type (snd x)) \<Longrightarrow> elements_known c \<Longrightarrow>
      proposed_new_nested_block lib (snd x) c c = Some c"
    and "plain_schema as bs" "has_type c (schema_type as bs)" "elements_known c"
  shows "proposed_new lib as bs c c = Some c"
proof (cases "is_null c \<or> \<not> is_known c")
  case False
  have d: "distinct (map fst as @ map fst bs)" using assms(2) by (simp add: plain_schema_def)
  note f = schema_fields [OF assms(3) _ _ d]
  have "proposed_new_attributes lib as c c = Some (map (\<lambda>x. (fst x, field_of c (fst x))) as)"
    using False assms(2,4) f(2) by (intro attributes_self attribute_self) (auto simp: plain_schema_def list_all_iff)
  moreover have "proposed_new_blocks lib bs c c = Some (map (\<lambda>x. (fst x, field_of c (fst x))) bs)"
    using False assms(1,4) f(3) by (intro blocks_self) auto
  moreover have "c = Rec_tv (schema_type as bs) (map (\<lambda>x. (fst x, field_of c (fst x))) as @ map (\<lambda>x. (fst x, field_of c (fst x))) bs)"
    using f(1) False by blast
  then have "is_object c" by (rule ssubst [of c]) (simp add: is_object_def value_type_def schema_type_def)
  ultimately show ?thesis using False f(1) by simp
qed auto

lemma new_again:
  assumes "\<And>x q c v. x \<in> set bs \<Longrightarrow> has_type c (block_type (snd x)) \<Longrightarrow> elements_known c \<Longrightarrow>
      proposed_new_nested_block lib (snd x) q c = Some v \<Longrightarrow> proposed_new_nested_block lib (snd x) v c = Some v"
    and "plain_schema as bs" "has_type c (schema_type as bs)" "elements_known c"
    and "proposed_new lib as bs p c = Some v"
  shows "proposed_new lib as bs v c = Some v"
proof (cases "is_null c \<or> \<not> is_known c")
  case True
  then show ?thesis using assms(5) by (auto simp: Let_def empty_value_def value_defs split: if_splits)
next
  case False
  have d: "distinct (map fst as @ map fst bs)" using assms(2) by (simp add: plain_schema_def)
  note f = schema_fields [OF assms(3) _ _ d]
  let ?p = "if is_null p then empty_value as bs else p"
  obtain xs ys where v: "proposed_new_attributes lib as ?p c = Some xs" "proposed_new_blocks lib bs ?p c = Some ys"
      "v = Rec_tv (schema_type as bs) (xs @ ys)" "is_object c"
    using assms(5) False by (auto simp: Let_def split: if_splits option.splits)
  have nn: "\<not> is_null v" "is_object v" by (simp_all add: v(3) value_defs schema_type_def)
  have a: "map fst xs = map fst as \<and>
      (\<not> is_null v \<longrightarrow> (\<forall>x \<in> set xs. field_of v (fst x) = snd x) \<longrightarrow> proposed_new_attributes lib as v c = Some xs)"
    using False assms(2,4) f(2) by (intro attributes_again [OF v(1)] attribute_again) (auto simp: plain_schema_def list_all_iff)
  have b: "map fst ys = map fst bs \<and>
      ((\<forall>x \<in> set ys. field_of v (fst x) = snd x) \<longrightarrow> proposed_new_blocks lib bs v c = Some ys)"
    using False assms(1,4) f(3) by (intro blocks_again [OF v(2)]) blast
  have dist: "distinct (map fst (xs @ ys))" using a b d by simp
  have "\<forall>x \<in> set (xs @ ys). field_of v (fst x) = snd x"
  proof
    fix x
    assume "x \<in> set (xs @ ys)"
    then have "map_of (xs @ ys) (fst x) = Some (snd x)" by (intro map_of_is_SomeI [OF dist]) simp
    then show "field_of v (fst x) = snd x" by (simp add: v(3) field_of_def as_fields_def del: map_of_append)
  qed
  then show ?thesis using a b nn v(3,4) False by (simp add: Let_def)
qed


lemma block_self:
  "wf_block b \<Longrightarrow> block_without_sets b \<Longrightarrow> has_type c (block_type b) \<Longrightarrow> elements_known c \<Longrightarrow>
     proposed_new_nested_block lib b c c = Some c"
proof (induction b arbitrary: c)
  case (Block mode as bs)
  have plain: "plain_schema as bs" using Block.prems(1,2) by (simp add: plain_schema_def)
  have ty: "block_type (Block mode as bs) = nesting_type (block_nesting mode) (schema_type as bs)"
    by (simp add: schema_type_def)
  have el: "proposed_new lib as bs x x = Some x" if "has_type x (schema_type as bs)" "elements_known x" for x
    using Block that plain by (intro new_self) (force simp: list_all_iff)+
  have list: "proposed_new_nesting_list (\<lambda>p c. proposed_new lib as bs p c)
      (\<lambda>vs. case value_type c of Some (Tuple_t ts) \<Rightarrow> Tuple_t (map (\<lambda>v. the (value_type v)) vs) | _ \<Rightarrow> List_t (schema_type as bs))
      c c = Some c" if "has_type c (List_t (schema_type as bs))"
  proof -
    have "value_type c = Some (List_t (schema_type as bs))"
      using that by (cases c) (auto simp: value_type_def)
    then show ?thesis using that Block.prems(4) el by (intro nesting_list_self) (auto simp del: proposed_new.simps)
  qed
  show ?case using Block.prems(2-4) [unfolded ty] el list by (cases mode) (auto simp: Let_def simp del: proposed_new.simps)
qed

lemma block_again:
  "wf_block b \<Longrightarrow> block_without_sets b \<Longrightarrow> has_type c (block_type b) \<Longrightarrow> elements_known c \<Longrightarrow>
     proposed_new_nested_block lib b p c = Some v \<Longrightarrow> proposed_new_nested_block lib b v c = Some v"
proof (induction b arbitrary: p c v)
  case (Block mode as bs)
  have plain: "plain_schema as bs" using Block.prems(1,2) by (simp add: plain_schema_def)
  have ty: "block_type (Block mode as bs) = nesting_type (block_nesting mode) (schema_type as bs)"
    by (simp add: schema_type_def)
  have self: "proposed_new lib as bs x x = Some x" if "has_type x (schema_type as bs)" "elements_known x" for x
    using Block.prems(1,2) that plain block_self by (intro new_self) (force simp: list_all_iff)+
  have again: "proposed_new lib as bs w x = Some w"
    if "has_type x (schema_type as bs)" "elements_known x" "proposed_new lib as bs q x = Some w" for q w x
    using Block.IH Block.prems(1,2) that plain by (intro new_again [where p = q]) (force simp: list_all_iff)+
  let ?ty = "\<lambda>vs. case value_type c of Some (Tuple_t ts) \<Rightarrow> Tuple_t (map (\<lambda>v. the (value_type v)) vs) | _ \<Rightarrow> List_t (schema_type as bs)"
  have list: "proposed_new_nesting_list (\<lambda>p c. proposed_new lib as bs p c) ?ty v c = Some v"
    if "has_type c (List_t (schema_type as bs))"
      "proposed_new_nesting_list (\<lambda>p c. proposed_new lib as bs p c) ?ty p c = Some v"
    using that Block.prems(4) self again
    by (intro nesting_list_again [where p = p and e = "schema_type as bs"]) (auto simp del: proposed_new.simps)
  show ?case using Block.prems(2-5) [unfolded ty] again [of c p v] list
    by (cases mode) (auto simp: Let_def simp del: proposed_new.simps split: if_splits)
qed

lemma proposal_again:
  assumes "plain_schema as bs" "has_type c (schema_type as bs)" "elements_known c"
    and "proposed_state lib as bs p c = Some v"
  shows "proposed_state lib as bs v c = Some v"
proof -
  have wf: "wf_block (snd x)" "block_without_sets (snd x)" if "x \<in> set bs" for x
    using assms(1) that by (auto simp: plain_schema_def list_all_iff)
  have "proposed_new lib as bs v c = Some v"
    by (rule new_again [OF block_again [OF wf] assms(1-3) assms(4) [unfolded proposed_state_def]])
  then show ?thesis by (simp only: proposed_state_def)
qed

text \<open>
  C2. A plan is a fixed point: for a schema without sets and a configuration that conforms to it,
  whatever the prior state, proposing again with the proposed state as the prior state and the same
  configuration gives the same state, so an applied plan leaves no difference.
\<close>

theorem proposal_is_stable:
  assumes "plain_schema as bs" "has_type c (schema_type as bs)" "elements_known c"
    and "proposed_state lib as bs p c = Some v"
  shows "proposed_state lib as bs v c = Some v"
  using assms by (rule proposal_again)

section \<open>Types of the results\<close>

text \<open>The result is \<open>Q\<close>, and there is one when \<open>must\<close>.\<close>

definition result_ok :: "bool \<Rightarrow> ('a \<Rightarrow> bool) \<Rightarrow> 'a option \<Rightarrow> bool" where
  "result_ok must Q r = (case r of None \<Rightarrow> \<not> must | Some v \<Rightarrow> Q v)"

lemma result_ok_simps [simp]:
  "result_ok must Q (Some v) = Q v"
  "result_ok must Q None = (\<not> must)"
  "result_ok must Q (map_option f r) = result_ok must (\<lambda>x. Q (f x)) r"
  by (simp_all add: result_ok_def split: option.splits)

lemma result_ok_bind:
  "result_ok must R r \<Longrightarrow> (\<And>x. R x \<Longrightarrow> result_ok must Q (f x)) \<Longrightarrow>
     result_ok must Q (case r of None \<Rightarrow> None | Some x \<Rightarrow> f x)"
  by (cases r) simp_all

lemma result_ok_mono: "result_ok must Q r \<Longrightarrow> (\<And>x. Q x \<Longrightarrow> R x) \<Longrightarrow> result_ok must R r"
  by (simp add: result_ok_def split: option.splits)

lemma wholly_known_is_known: "wholly_known v \<Longrightarrow> is_known v"
  by (cases v) (simp_all add: value_defs)

lemma list_elements_typed:
  assumes "has_type p (List_t e)" "wholly_known p"
    and "\<And>x c. has_type x e \<Longrightarrow> wholly_known x \<Longrightarrow> c \<in> set cs \<Longrightarrow> result_ok must (\<lambda>v. has_type v e) (el x c)"
    and "\<And>c. c \<in> set cs \<Longrightarrow> has_type c e"
  shows "result_ok must (list_all (\<lambda>v. has_type v e)) (list_elements el p i cs)"
  using assms(3,4)
proof (induction cs arbitrary: i)
  case (Cons c cs)
  have prior: "has_type x e \<and> wholly_known x" if "x \<in> set (as_elements p)" for x
    using assms(1,2) that by (cases p) (auto simp: value_defs list_all_iff)
  have known: "is_known p" using assms(2) by (rule wholly_known_is_known)
  have null: "as_elements p = []" if "is_null p" using that by (cases p) (simp_all add: value_defs)
  have "result_ok must (\<lambda>v. has_type v e)
      (if is_known p \<and> (is_null p \<or> length (as_elements p) \<le> i) then Some c
       else if length (as_elements p) \<le> i then None else el (as_elements p ! i) c)"
    using Cons.prems prior [of "as_elements p ! i"] known null by auto
  then show ?case
    unfolding list_elements.simps Let_def
    by (rule result_ok_bind) (use Cons in \<open>auto intro: result_ok_mono\<close>)
qed simp

lemma map_elements_typed:
  assumes "has_type p (Map_t e)" "wholly_known p"
    and "\<And>x c. has_type x e \<Longrightarrow> wholly_known x \<Longrightarrow> c \<in> set cs \<Longrightarrow> result_ok must (\<lambda>v. has_type v e) (el x (snd c))"
    and "\<And>c. c \<in> set cs \<Longrightarrow> has_type (snd c) e"
  shows "result_ok must (\<lambda>es. map fst es = map fst cs \<and> list_all (\<lambda>x. has_type (snd x) e) es) (map_elements el p cs)"
  using assms(3,4)
proof (induction cs)
  case (Cons y cs)
  obtain n c where y: "y = (n, c)" by fastforce
  have prior: "has_type x e \<and> wholly_known x" if "map_of (as_fields p) n = Some x" for x
    using assms(1,2) map_of_SomeD [OF that] by (cases p) (auto simp: value_defs list_all_iff)
  have "result_ok must (\<lambda>v. has_type v e) (case map_of (as_fields p) n of None \<Rightarrow> Some c | Some x \<Rightarrow> el x c)"
    using Cons.prems(1) [of _ y] Cons.prems(2) [of y] prior by (auto simp: y split: option.splits)
  then show ?case
    unfolding y map_elements.simps
    by (rule result_ok_bind) (use Cons in \<open>auto simp: y intro: result_ok_mono\<close>)
qed simp

lemma take_valid_sub: "take_valid P ps = Some (r, qs) \<Longrightarrow> set qs \<subseteq> set ps \<and> (\<forall>p. r = Some p \<longrightarrow> p \<in> set ps)"
proof (induction ps arbitrary: r qs)
  case (Cons p ps)
  then show ?case by (fastforce split: option.splits if_splits)
qed simp

lemma set_elements_typed:
  assumes "\<And>x c. has_type x e \<Longrightarrow> wholly_known x \<Longrightarrow> c \<in> set cs \<Longrightarrow> result_ok False (\<lambda>v. has_type v e) (el x c)"
    and "\<And>x. x \<in> set ps \<Longrightarrow> has_type x e \<and> wholly_known x"
  shows "result_ok False (list_all (\<lambda>v. has_type v e)) (set_elements valid el e ps cs)"
  using assms
proof (induction cs arbitrary: ps)
  case (Cons c cs)
  show ?case
  proof (cases "take_valid (\<lambda>p. valid p c) ps")
    case (Some y)
    obtain r qs where y: "y = (r, qs)" by fastforce
    note sub = take_valid_sub [OF Some [unfolded y]]
    let ?p = "case r of None \<Rightarrow> Null_tv e | Some p \<Rightarrow> if is_null p then Null_tv e else p"
    have "has_type ?p e \<and> wholly_known ?p" using sub Cons.prems(2) by (auto split: option.splits)
    then have "result_ok False (\<lambda>v. has_type v e) (el ?p c)" using Cons.prems(1) by simp
    moreover have "result_ok False (list_all (\<lambda>v. has_type v e)) (set_elements valid el e qs cs)"
      using Cons.prems sub by (intro Cons.IH) auto
    ultimately show ?thesis
      by (simp add: Some y Let_def) (rule result_ok_bind, auto intro: result_ok_mono)
  qed simp
qed simp


definition typed :: "bool \<Rightarrow> tf_type \<Rightarrow> tf_value option \<Rightarrow> bool" where
  "typed must t = result_ok must (\<lambda>v. has_type v t)"

lemma typed_Some [simp]: "typed must t (Some v) = has_type v t"
  by (simp add: typed_def)

lemma typed_may: "typed must t r \<Longrightarrow> typed False t r"
  by (simp add: typed_def result_ok_def split: option.splits)

lemma nesting_list_typed:
  assumes "has_type p (List_t e)" "wholly_known p" "has_type c (List_t e)" "elements_known c"
    and "\<And>vs. ty vs = List_t e"
    and "\<And>x c. has_type x e \<Longrightarrow> wholly_known x \<Longrightarrow> has_type c e \<Longrightarrow> elements_known c \<Longrightarrow> is_known c \<Longrightarrow> typed must e (el x c)"
  shows "typed must (List_t e) (proposed_new_nesting_list el ty p c)"
proof (cases "is_null c \<or> as_elements c = []")
  case False
  then have "is_known c" by (auto simp: value_defs split: tf_value.splits)
  with list_of_type [OF assms(3)] False assms(4) obtain cs where
    c: "c = Seq_tv (List_t e) cs" "\<forall>x \<in> set cs. has_type x e \<and> is_known x \<and> elements_known x" by blast
  have "result_ok must (list_all (\<lambda>v. has_type v e)) (list_elements el p 0 cs)"
    using assms(1,2,6) c(2) by (intro list_elements_typed) (auto simp: typed_def)
  then show ?thesis using False
    by (simp add: proposed_new_nesting_list_def c(1) as_elements_def typed_def assms(5) result_ok_def split: option.splits)
qed (use assms(3) in \<open>simp add: proposed_new_nesting_list_def\<close>)

lemma nesting_map_typed:
  assumes "has_type p (Map_t e)" "wholly_known p" "has_type c (Map_t e)" "elements_known c"
    and "\<And>x c. has_type x e \<Longrightarrow> wholly_known x \<Longrightarrow> has_type c e \<Longrightarrow> elements_known c \<Longrightarrow> is_known c \<Longrightarrow> typed must e (el x c)"
  shows "typed must (Map_t e) (proposed_new_nesting_map el (Map_t e) p c)"
proof (cases "is_null c \<or> \<not> is_known c \<or> as_fields c = []")
  case False
  with map_of_type [OF assms(3)] assms(4) obtain cs where
    c: "c = Rec_tv (Map_t e) cs" "distinct (map fst cs)"
      "\<forall>x \<in> set cs. has_type (snd x) e \<and> is_known (snd x) \<and> elements_known (snd x)" by blast
  have "result_ok must (\<lambda>es. map fst es = map fst cs \<and> list_all (\<lambda>x. has_type (snd x) e) es) (map_elements el p cs)"
    using assms(1,2,5) c(3) by (intro map_elements_typed) (auto simp: typed_def)
  then show ?thesis using False c(2)
    by (simp add: proposed_new_nesting_map_def c(1) as_fields_def typed_def result_ok_def split: option.splits)
qed (use assms(3) in \<open>auto simp: proposed_new_nesting_map_def\<close>)

lemma nesting_set_typed:
  assumes "has_type p (Set_t e)" "wholly_known p" "has_type c (Set_t e)" "elements_known c"
    and "\<And>x c. has_type x e \<Longrightarrow> wholly_known x \<Longrightarrow> has_type c e \<Longrightarrow> elements_known c \<Longrightarrow> is_known c \<Longrightarrow> typed False e (el x c)"
  shows "typed False (Set_t e) (proposed_new_nesting_set valid el (Set_t e) p c)"
proof (cases "\<not> is_known c \<or> is_null c \<or> as_elements c = []")
  case False
  then obtain cs where c: "c = Seq_tv (Set_t e) cs" "\<forall>x \<in> set cs. has_type x e \<and> is_known x \<and> elements_known x"
    using assms(3,4) by (cases c) (auto simp: value_defs list_all_iff)
  let ?ps = "if is_known p \<and> \<not> is_null p then as_elements p else []"
  have "has_type x e \<and> wholly_known x" if "x \<in> set (as_elements p)" for x
    using assms(1,2) that by (cases p) (auto simp: value_defs list_all_iff)
  then have "result_ok False (list_all (\<lambda>v. has_type v e)) (set_elements valid el e ?ps cs)"
    using assms(5) c(2) by (intro set_elements_typed) (auto simp: typed_def split: if_splits)
  moreover have "proposed_new_nesting_set valid el (Set_t e) p c = map_option (Seq_tv (Set_t e)) (set_elements valid el e ?ps cs)"
    using False by (auto simp: proposed_new_nesting_set_def c(1) value_type_def is_known_def is_null_def as_elements_def [of "Seq_tv t vs" for t vs])
  ultimately show ?thesis by (simp add: typed_def)
next
  case True
  have "value_type c = Some (Set_t e)" using assms(3) by (cases c) (auto simp: value_type_def)
  then show ?thesis using True assms(3) by (simp add: proposed_new_nesting_set_def)
qed

lemma attributes_typed:
  assumes "\<And>x. x \<in> set as \<Longrightarrow> typed must (attr_type (snd x))
      (proposed_new_attribute lib (snd x) (if is_null p then Null_tv (attr_type (snd x)) else field_of p (fst x)) (field_of c (fst x)))"
  shows "result_ok must (\<lambda>xs. map fst xs = map fst as \<and> list_all2 (\<lambda>x y. has_type (snd x) (attr_type (snd y))) xs as)
    (proposed_new_attributes lib as p c)"
  using assms
proof (induction as)
  case (Cons y as)
  obtain n a where y: "y = (n, a)" by fastforce
  have "result_ok must (\<lambda>v. has_type v (attr_type a))
      (proposed_new_attribute lib a (if is_null p then Null_tv (attr_type a) else field_of p n) (field_of c n))"
    using Cons.prems [of "(n, a)"] unfolding y typed_def by auto
  then show ?case unfolding y proposed_new_attributes.simps
    by (rule result_ok_bind) (use Cons in \<open>auto simp: y intro: result_ok_mono\<close>)
qed simp

lemma blocks_typed:
  assumes "\<And>x. x \<in> set bs \<Longrightarrow> typed must (block_type (snd x))
      (proposed_new_nested_block lib (snd x) (field_of p (fst x)) (field_of c (fst x)))"
  shows "result_ok must (\<lambda>xs. map fst xs = map fst bs \<and> list_all2 (\<lambda>x y. has_type (snd x) (block_type (snd y))) xs bs)
    (proposed_new_blocks lib bs p c)"
  using assms
proof (induction bs)
  case (Cons y bs)
  obtain n b where y: "y = (n, b)" by fastforce
  have "result_ok must (\<lambda>v. has_type v (block_type b)) (proposed_new_nested_block lib b (field_of p n) (field_of c n))"
    using Cons.prems [of y] by (simp add: typed_def y)
  then show ?case unfolding y proposed_new_blocks.simps
    by (rule result_ok_bind) (use Cons in \<open>auto simp: y intro: result_ok_mono\<close>)
qed simp

text \<open>An object built of typed fields has the object type.\<close>

lemma object_typed:
  "distinct (map fst ats) \<Longrightarrow> map fst xs = map fst ats \<Longrightarrow> list_all2 (\<lambda>x y. has_type (snd x) (snd y)) xs ats \<Longrightarrow>
     has_type (Rec_tv (Object_t ats) xs) (Object_t ats)"
proof -
  assume d: "distinct (map fst ats)" and k: "map fst xs = map fst ats"
    and l: "list_all2 (\<lambda>x y. has_type (snd x) (snd y)) xs ats"
  have "case map_of ats (fst x) of None \<Rightarrow> False | Some e \<Rightarrow> has_type (snd x) e" if "x \<in> set xs" for x
  proof -
    from that obtain i where i: "i < length xs" "x = xs ! i" by (auto simp: in_set_conv_nth)
    have len: "length xs = length ats" using l by (rule list_all2_lengthD)
    have "fst x = fst (ats ! i)" using k i len by (metis nth_map)
    moreover have "map_of ats (fst (ats ! i)) = Some (snd (ats ! i))"
      using map_of_is_SomeI [OF d, of "fst (ats ! i)" "snd (ats ! i)"] i len by simp
    moreover have "has_type (snd x) (snd (ats ! i))" using list_all2_nthD [OF l i(1)] i(2) by simp
    ultimately show ?thesis by simp
  qed
  then show ?thesis using k by (simp add: list_all_iff)
qed


text \<open>The values the merge substitutes for a missing prior value conform.\<close>

lemma null_conforms [simp]: "has_type (Null_tv t) t" "wholly_known (Null_tv t)"
  by simp_all

lemma empty_attribute_conforms:
  "wf_attribute a \<Longrightarrow> has_type (empty_attribute a) (attr_type a) \<and> wholly_known (empty_attribute a)"
proof (induction a)
  case (Nested fl mode as)
  have each: "has_type (empty_attribute (snd x)) (attr_type (snd x))" "wholly_known (empty_attribute (snd x))"
    if "x \<in> set as" for x
    using Nested.IH [of x "snd x"] Nested.prems that by (cases x, force simp: list_all_iff)+
  have "has_type (Rec_tv (Object_t (attrs_type as)) (map (\<lambda>e. (fst e, empty_attribute (snd e))) as)) (Object_t (attrs_type as))"
    using Nested.prems each(1)
    by (intro object_typed) (auto simp: attrs_type_def comp_def list_all2_map1 list_all2_map2 list.rel_refl_strong)
  then show ?case using each(2) by (cases mode) (auto simp: attrs_type_def list_all_iff)
qed simp

lemma empty_block_conforms: "has_type (empty_block b) (block_type b) \<and> wholly_known (empty_block b)"
proof (cases b)
  case (Block mode as bs)
  then show ?thesis by (cases mode) (simp_all add: empty_block_def)
qed

lemma empty_value_conforms:
  assumes "wf_block (Block mode as bs)"
  shows "has_type (empty_value as bs) (schema_type as bs) \<and> wholly_known (empty_value as bs)"
proof -
  have a: "has_type (empty_attribute (snd x)) (attr_type (snd x)) \<and> wholly_known (empty_attribute (snd x))"
    if "x \<in> set as" for x
    using assms that by (intro empty_attribute_conforms) (auto simp: list_all_iff)
  have "has_type (empty_value as bs) (schema_type as bs)"
    unfolding empty_value_def schema_type_def attrs_type_def using assms a empty_block_conforms
    by (intro object_typed)
      (auto simp: comp_def list_all2_map1 list_all2_map2 intro!: list_all2_appendI list.rel_refl_strong)
  moreover have "wholly_known (empty_value as bs)"
    using a empty_block_conforms by (auto simp: empty_value_def list_all_iff)
  ultimately show ?thesis by simp
qed

text \<open>The merge of typed values, at attributes.\<close>

lemma object_attributes_typed:
  assumes "\<And>x p c. x \<in> set as \<Longrightarrow> has_type p (attr_type (snd x)) \<Longrightarrow> wholly_known p \<Longrightarrow> has_type c (attr_type (snd x)) \<Longrightarrow>
      elements_known c \<Longrightarrow> typed must (attr_type (snd x)) (proposed_new_attribute lib (snd x) p c)"
    and "distinct (map fst as)" "has_type p (Object_t (attrs_type as))" "wholly_known p"
    and "has_type c (Object_t (attrs_type as))" "elements_known c" "is_known c"
  shows "typed must (Object_t (attrs_type as)) (proposed_new_object_attributes lib as p c)"
proof (cases "is_null c")
  case False
  have d: "distinct (map fst (attrs_type as))" using assms(2) by simp
  note cf = object_fields [OF assms(5) False assms(7) d]
  note pf = object_fields [OF assms(3) _ wholly_known_is_known [OF assms(4)] d]
  have mem: "(fst x, attr_type (snd x)) \<in> set (attrs_type as)" if "x \<in> set as" for x
    using that by (auto simp: attrs_type_def image_iff)
  have "result_ok must (\<lambda>xs. map fst xs = map fst as \<and> list_all2 (\<lambda>x y. has_type (snd x) (attr_type (snd y))) xs as)
      (proposed_new_attributes lib as p c)"
  proof (rule attributes_typed)
    fix x
    assume x: "x \<in> set as"
    let ?p = "if is_null p then Null_tv (attr_type (snd x)) else field_of p (fst x)"
    have "has_type ?p (attr_type (snd x)) \<and> wholly_known ?p"
      using pf(2) [OF _ mem [OF x]] pf(4) [OF _ assms(4) mem [OF x]] by auto
    moreover have "has_type (field_of c (fst x)) (attr_type (snd x))" "elements_known (field_of c (fst x))"
      using cf(2) [OF mem [OF x]] cf(3) [OF assms(6) mem [OF x]] by simp_all
    ultimately show "typed must (attr_type (snd x)) (proposed_new_attribute lib (snd x) ?p (field_of c (fst x)))"
      using assms(1) x by blast
  qed
  then have "result_ok must (\<lambda>xs. has_type (Rec_tv (Object_t (attrs_type as)) xs) (Object_t (attrs_type as)))
      (proposed_new_attributes lib as p c)"
    by (rule result_ok_mono) (use d in \<open>auto intro!: object_typed simp: attrs_type_def list_all2_map2 simp del: has_type.simps\<close>)
  then show ?thesis using False by (simp add: typed_def del: has_type.simps)
qed (use assms(5) in simp)


lemma attribute_typed:
  "wf_attribute a \<Longrightarrow> must \<longrightarrow> attribute_without_sets a \<Longrightarrow> has_type p (attr_type a) \<Longrightarrow> wholly_known p \<Longrightarrow>
     has_type c (attr_type a) \<Longrightarrow> elements_known c \<Longrightarrow> typed must (attr_type a) (proposed_new_attribute lib a p c)"
proof (induction a arbitrary: p c)
  case (Nested fl mode as)
  let ?t = "Object_t (attrs_type as)"
  have el: "typed must ?t (proposed_new_object_attributes lib as q x)"
    if "has_type q ?t" "wholly_known q" "has_type x ?t" "elements_known x" "is_known x" for q x
    using Nested.IH Nested.prems(1,2) that by (intro object_attributes_typed) (force simp: list_all_iff)+
  note pc = Nested.prems(3-6) [unfolded attr_type_Nested]
  show ?case
  proof (cases "computed fl \<and> is_null c \<or> \<not> is_known c")
    case True
    then show ?thesis using Nested.prems(3,5) by (auto simp: Let_def simp del: attr_type.simps)
  next
    case False
    show ?thesis
    proof (cases mode)
      case Nesting_single
      have "typed must ?t (proposed_new_object_attributes lib as p c)"
        using el pc False by (simp add: Nesting_single del: proposed_new_object_attributes.simps)
      then show ?thesis using False pc(3)
        by (auto simp: Nesting_single attr_type_Nested Let_def simp del: attr_type.simps proposed_new_object_attributes.simps)
    next
      case Nesting_list
      have "typed must (List_t ?t)
          (proposed_new_nesting_list (\<lambda>p c. proposed_new_object_attributes lib as p c) (\<lambda>_. List_t ?t) p c)"
        using pc el by (intro nesting_list_typed) (simp_all add: Nesting_list del: proposed_new_object_attributes.simps)
      then show ?thesis using False
        by (auto simp: Nesting_list attr_type_Nested Let_def simp del: attr_type.simps proposed_new_object_attributes.simps)
    next
      case Nesting_set
      have "typed False (Set_t ?t)
          (proposed_new_nesting_set (valid_prior_from_config lib (Nested_attribute (Nested fl mode as)))
            (\<lambda>p c. proposed_new_object_attributes lib as p c) (Set_t ?t) p c)"
        using pc typed_may [OF el]
        by (intro nesting_set_typed) (simp_all add: Nesting_set del: proposed_new_object_attributes.simps)
      then show ?thesis using False Nested.prems(2)
        by (auto simp: Nesting_set attr_type_Nested Let_def simp del: attr_type.simps proposed_new_object_attributes.simps)
    next
      case Nesting_map
      have "typed must (Map_t ?t) (proposed_new_nesting_map (\<lambda>p c. proposed_new_object_attributes lib as p c) (Map_t ?t) p c)"
        using pc el by (intro nesting_map_typed) (simp_all add: Nesting_map del: proposed_new_object_attributes.simps)
      then show ?thesis using False
        by (auto simp: Nesting_map attr_type_Nested Let_def simp del: attr_type.simps proposed_new_object_attributes.simps)
    qed
  qed
qed simp

lemma new_typed:
  assumes "\<And>x p c. x \<in> set bs \<Longrightarrow> has_type p (block_type (snd x)) \<Longrightarrow> wholly_known p \<Longrightarrow> has_type c (block_type (snd x)) \<Longrightarrow>
      elements_known c \<Longrightarrow> typed must (block_type (snd x)) (proposed_new_nested_block lib (snd x) p c)"
    and wf: "wf_block (Block mode as bs)" "must \<longrightarrow> list_all (\<lambda>e. attribute_without_sets (snd e)) as"
    and "has_type p (schema_type as bs)" "wholly_known p" "has_type c (schema_type as bs)" "elements_known c"
  shows "typed must (schema_type as bs) (proposed_new lib as bs p c)"
proof -
  obtain q where q: "q = (if is_null p then empty_value as bs else p)" by simp
  have p: "has_type q (schema_type as bs)" "wholly_known q"
    using assms(4,5) empty_value_conforms [OF wf(1)] by (simp_all add: q)
  moreover have "\<not> is_null q" by (simp add: q empty_value_def is_null_def)
  moreover have "is_object q" using p(1) by (cases q) (auto simp: is_object_def value_type_def schema_type_def)
  ultimately have p: "has_type q (schema_type as bs)" "wholly_known q" "\<not> is_null q" "is_object q" by blast+
  show ?thesis
  proof (cases "is_null c \<or> \<not> is_known c")
    case True
    then show ?thesis using p(1) assms(4) by (auto simp: Let_def q)
  next
    case False
    have d: "distinct (map fst as @ map fst bs)" using wf(1) by simp
    note pf = schema_fields [OF p(1,3) wholly_known_is_known [OF p(2)] d]
    note cf = schema_fields [OF assms(6) _ _ d]
    have "result_ok must (\<lambda>xs. map fst xs = map fst as \<and> list_all2 (\<lambda>x y. has_type (snd x) (attr_type (snd y))) xs as)
        (proposed_new_attributes lib as q c)"
      using p False pf(2) cf(2) assms(7) wf
      by (intro attributes_typed) (auto intro!: attribute_typed simp: list_all_iff simp del: has_type.simps)
    moreover have "result_ok must (\<lambda>xs. map fst xs = map fst bs \<and> list_all2 (\<lambda>x y. has_type (snd x) (block_type (snd y))) xs bs)
        (proposed_new_blocks lib bs q c)"
      using p(2) False pf(3) cf(3) assms(1,7) by (intro blocks_typed) blast
    moreover have "has_type (Rec_tv (schema_type as bs) (xs @ ys)) (schema_type as bs)"
      if "map fst xs = map fst as" "list_all2 (\<lambda>x y. has_type (snd x) (attr_type (snd y))) xs as"
        "map fst ys = map fst bs" "list_all2 (\<lambda>x y. has_type (snd x) (block_type (snd y))) ys bs" for xs ys
      unfolding schema_type_def using that d
      by (intro object_typed list_all2_appendI) (simp_all add: attrs_type_def list_all2_map2 comp_def)
    ultimately have "typed must (schema_type as bs)
        (case proposed_new_attributes lib as q c of None \<Rightarrow> None
         | Some xs \<Rightarrow> map_option (\<lambda>ys. Rec_tv (schema_type as bs) (xs @ ys)) (proposed_new_blocks lib bs q c))"
      unfolding typed_def by (auto simp: result_ok_def simp del: has_type.simps split: option.splits)
    moreover have "is_object c" using assms(6) by (cases c) (auto simp: is_object_def value_type_def schema_type_def)
    ultimately show ?thesis using False p(4) by (simp add: Let_def q [symmetric])
  qed
qed


lemma proposal_not_null: "proposed_state lib as bs p c = Some v \<Longrightarrow> \<not> is_null c \<Longrightarrow> \<not> is_null v"
  by (auto simp: proposed_state_def empty_value_def is_null_def Let_def split: if_splits option.splits tf_value.splits)

text \<open>From here the merge of a schema is unfolded by hand.\<close>

declare proposed_new.simps [simp del]

lemma block_typed:
  "wf_block b \<Longrightarrow> must \<longrightarrow> block_without_sets b \<Longrightarrow> has_type p (block_type b) \<Longrightarrow> wholly_known p \<Longrightarrow>
     has_type c (block_type b) \<Longrightarrow> elements_known c \<Longrightarrow> typed must (block_type b) (proposed_new_nested_block lib b p c)"
proof (induction b arbitrary: p c)
  case (Block mode as bs)
  let ?t = "schema_type as bs"
  have ty: "block_type (Block mode as bs) = nesting_type (block_nesting mode) ?t" by (simp add: schema_type_def)
  have el: "typed must ?t (proposed_new lib as bs q x)"
    if "has_type q ?t" "wholly_known q" "has_type x ?t" "elements_known x" for q x
    using Block.IH Block.prems(1,2) that by (intro new_typed [where mode = mode]) (force simp: list_all_iff)+
  note pc = Block.prems(3-6) [unfolded ty]
  show ?case
  proof (cases "is_known c")
    case True
    show ?thesis
    proof (cases mode)
      case Block_single
      then show ?thesis using True pc el [of p c] unfolding ty by (auto simp: Let_def simp del: proposed_new.simps)
    next
      case Block_list
      have "value_type c = Some (List_t ?t)" using pc(3) Block_list by (cases c) (auto simp: value_type_def)
      then have "typed must (List_t ?t) (proposed_new_nesting_list (\<lambda>p c. proposed_new lib as bs p c)
          (\<lambda>vs. case value_type c of Some (Tuple_t ts) \<Rightarrow> Tuple_t (map (\<lambda>v. the (value_type v)) vs) | _ \<Rightarrow> List_t ?t) p c)"
        using pc el Block_list by (intro nesting_list_typed) (simp_all del: proposed_new.simps)
      then show ?thesis unfolding ty using True by (simp add: Block_list Let_def)
    next
      case Block_set
      have "typed False (Set_t ?t) (proposed_new_nesting_set (valid_prior_from_config lib (Schema as bs))
          (\<lambda>p c. proposed_new lib as bs p c) (Set_t ?t) p c)"
        using pc typed_may [OF el] Block_set by (intro nesting_set_typed) (simp_all del: proposed_new.simps)
      then show ?thesis unfolding ty using True Block.prems(2) by (simp add: Block_set Let_def)
    qed
  qed (use Block.prems(5) in simp)
qed

lemma wf_parts:
  "wf_block (Block mode as bs) \<Longrightarrow> x \<in> set bs \<Longrightarrow> wf_block (snd x)"
  "block_without_sets (Block mode as bs) \<Longrightarrow> x \<in> set bs \<Longrightarrow> block_without_sets (snd x)"
  by (auto simp: list_all_iff)

text \<open>
  C3. The plan has the type of the schema: with a known prior state and a configuration without
  unknown collection elements, both of the schema's type, every result is of that type again, at
  every depth; and a schema without sets always gives a result, so no merge step panics.
\<close>

theorem proposal_has_schema_type:
  assumes "wf_block (Block mode as bs)" "has_type p (schema_type as bs)" "wholly_known p"
    and "has_type c (schema_type as bs)" "elements_known c"
  shows "(\<forall>v. proposed_state lib as bs p c = Some v \<longrightarrow> has_type v (schema_type as bs)) \<and>
    (block_without_sets (Block mode as bs) \<longrightarrow> (\<exists>v. proposed_state lib as bs p c = Some v))"
proof -
  have "typed must (schema_type as bs) (proposed_new lib as bs p c)"
    if "must \<longrightarrow> block_without_sets (Block mode as bs)" for must
    by (rule new_typed [OF block_typed [OF wf_parts(1) [OF assms(1)]] assms(1)])
      (use that assms wf_parts(2) [of mode as bs] in auto)
  from this [of False] this [of True] show ?thesis
    by (cases "proposed_new lib as bs p c") (auto simp: proposed_state_def typed_def simp del: block_without_sets.simps)
qed


section \<open>An example\<close>

text \<open>
  A schema with a computed attribute, a nested list attribute and a list block, each with a computed
  field; it has neither sets nor optional computed nested attributes, so no path is walked.
\<close>

definition demo_paths :: path_lib where
  "demo_paths = \<lparr>walk = \<lambda>v. Visit [] v [], value_at = \<lambda>v p. if p = [] then Some v else None, schema_at = \<lambda>s p. None,
     nested_object_at = \<lambda>a p. None, value_equal = (=)\<rparr>"

definition demo_given :: attribute where "demo_given = Leaf \<lparr>computed = False, optional = True\<rparr> (Prim_t String_pt)"

definition demo_computed :: attribute where "demo_computed = Leaf \<lparr>computed = True, optional = False\<rparr> (Prim_t String_pt)"

definition demo_attrs :: "(string \<times> attribute) list" where
  "demo_attrs = [(''name'', demo_given), (''arn'', demo_computed),
     (''tags'', Nested \<lparr>computed = False, optional = True\<rparr> Nesting_list [(''key'', demo_given), (''uid'', demo_computed)])]"

definition demo_blocks :: "(string \<times> block) list" where
  "demo_blocks = [(''rule'', Block Block_list [(''port'', demo_given), (''uid'', demo_computed)] [])]"

definition demo_str :: "string option \<Rightarrow> tf_value" where
  "demo_str s = (case s of None \<Rightarrow> Null_tv (Prim_t String_pt) | Some x \<Rightarrow> Prim_tv (Prim_t String_pt) (String_p x))"

definition demo_pair :: "string \<Rightarrow> string \<times> string option \<Rightarrow> tf_value" where
  "demo_pair n x = Rec_tv (Object_t [(n, Prim_t String_pt), (''uid'', Prim_t String_pt)])
     [(n, demo_str (Some (fst x))), (''uid'', demo_str (snd x))]"

definition demo_list :: "string \<Rightarrow> (string \<times> string option) list \<Rightarrow> tf_value" where
  "demo_list n xs = Seq_tv (List_t (Object_t [(n, Prim_t String_pt), (''uid'', Prim_t String_pt)])) (map (demo_pair n) xs)"

definition demo_object :: "string \<Rightarrow> string option \<Rightarrow> (string \<times> string option) list \<Rightarrow> (string \<times> string option) list \<Rightarrow> tf_value" where
  "demo_object name arn tags rules = Rec_tv (schema_type demo_attrs demo_blocks)
     [(''name'', demo_str (Some name)), (''arn'', demo_str arn), (''tags'', demo_list ''key'' tags), (''rule'', demo_list ''port'' rules)]"

definition demo_prior :: tf_value where
  "demo_prior = demo_object ''a'' (Some ''arn1'') [(''k1'', Some ''u1'')] [(''80'', Some ''r1'')]"

definition demo_config :: tf_value where
  "demo_config = demo_object ''b'' None [(''k1'', None), (''k2'', None)] [(''81'', None)]"

definition demo_plan :: tf_value where
  "demo_plan = demo_object ''b'' (Some ''arn1'') [(''k1'', Some ''u1''), (''k2'', None)] [(''81'', Some ''r1'')]"

lemma demo_conforms:
  "plain_schema demo_attrs demo_blocks" "has_type demo_prior (schema_type demo_attrs demo_blocks)" "wholly_known demo_prior"
  "has_type demo_config (schema_type demo_attrs demo_blocks)" "elements_known demo_config"
  by code_simp+

lemma demo_merge: "proposed_state demo_paths demo_attrs demo_blocks demo_prior demo_config = Some demo_plan"
  by code_simp


theorem proposal_is_stable_witness:
  "proposed_state demo_paths demo_attrs demo_blocks demo_plan demo_config = Some demo_plan \<and>
   demo_plan \<noteq> demo_prior \<and> demo_plan \<noteq> demo_config"
proof -
  have "demo_plan \<noteq> demo_prior \<and> demo_plan \<noteq> demo_config" by code_simp
  then show ?thesis using proposal_is_stable [OF demo_conforms(1,4,5) demo_merge] by simp
qed

theorem proposal_has_schema_type_witness:
  "\<exists>v. proposed_state demo_paths demo_attrs demo_blocks demo_prior demo_config = Some v \<and>
     has_type v (schema_type demo_attrs demo_blocks)"
proof -
  have "wf_block (Block Block_single demo_attrs demo_blocks)" "block_without_sets (Block Block_single demo_attrs demo_blocks)"
    by code_simp+
  then show ?thesis using proposal_has_schema_type [OF _ demo_conforms(2-5)] by blast
qed

section \<open>Correlating the elements of sets\<close>

text \<open>The prior value has the configuration's shape: every path the walk visits leads somewhere.\<close>

fun same_shape :: "path_lib \<Rightarrow> tf_value \<Rightarrow> walk_tree \<Rightarrow> bool" where
  "same_shape lib config (Visit p prior ts) =
     (case value_at lib config p of
        None \<Rightarrow> False
      | Some c \<Rightarrow> value_equal lib c prior \<or>
          \<not> (case value_type c of Some (Set_t t) \<Rightarrow> True | _ \<Rightarrow> False) \<and> list_all (same_shape lib config) ts)"

text \<open>
  The elements of a nested set attribute are walked from the attribute itself, which has no
  attribute under a name: then no leaf is compared, and every prior element of the right shape is
  taken to come from the configured one, also one that differs in what the configuration sets.
\<close>

lemma valid_walks_all:
  "(\<And>t. t \<in> set ts \<Longrightarrow> valid_walk lib sc c t = Some (Q t)) \<Longrightarrow> valid_walks lib sc c ts = Some (list_all Q ts)"
  by (induction ts) auto

lemma set_attribute_priors_by_shape:
  assumes "\<And>p fl t. schema_at lib sc p \<noteq> Some (At_attribute (Leaf fl t))"
    and "\<And>p. schema_at lib sc p \<noteq> Some At_nested_object"
  shows "valid_walk lib sc c t = Some (same_shape lib c t)"
proof (induction t)
  case (Visit p v ts)
  have "valid_walks lib sc c ts = Some (list_all (same_shape lib c) ts)" by (rule valid_walks_all) (rule Visit.IH)
  then show ?case using assms(1) [of p] assms(2) [of p]
    by (auto split: option.splits schema_node.splits attribute.splits)
qed

end
