(* ===== verification/TfConversion.thy ===== *)
theory TfConversion
  imports TfValue GoValue GoOutcome
begin

text \<open>
  Terraform values as Go values (\<open>tfValueToGoValue\<close> of \<open>pkg/controller/external_tfpluginfw.go\<close>), with
  the narrowing of \<open>big.Float\<close> numbers to \<open>int64\<close> and \<open>float64\<close> as \<open>math/big\<close> does it.
\<close>

section \<open>Numbers\<close>

text \<open>The value \<open>m * 2 ^ e\<close> is integral, and which integer it is.\<close>

definition is_integral :: "int \<Rightarrow> int \<Rightarrow> bool" where
  "is_integral m e \<longleftrightarrow> 0 \<le> e \<or> m mod 2 ^ nat (- e) = 0"

definition integral_value :: "int \<Rightarrow> int \<Rightarrow> int" where
  "integral_value m e = (if 0 \<le> e then m * 2 ^ nat e else m div 2 ^ nat (- e))"

definition fits_int64 :: "int \<Rightarrow> bool" where
  "fits_int64 n \<longleftrightarrow> - (2 ^ 63) \<le> n \<and> n < 2 ^ 63"

text \<open>The number of binary digits.\<close>

fun bit_count :: "nat \<Rightarrow> nat" where
  "bit_count n = (if n = 0 then 0 else Suc (bit_count (n div 2)))"

declare bit_count.simps [simp del]

text \<open>\<open>a / 2 ^ k\<close> rounded to the nearest integer, ties to even.\<close>

definition round_half_even :: "nat \<Rightarrow> nat \<Rightarrow> nat" where
  "round_half_even a k =
     (let q = a div 2 ^ k; r = a mod 2 ^ k in
      if 2 * r < 2 ^ k \<or> 2 * r = 2 ^ k \<and> even q then q else Suc q)"

datatype float64 = Finite int int | Infinite

text \<open>
  \<open>Float64\<close>: 53 significant bits, the least exponent of a denormal is -1074, and what rounds to
  \<open>2 ^ 1024\<close> or more is infinite. The flag tells whether the result is exact.
\<close>

definition to_float64 :: "int \<Rightarrow> int \<Rightarrow> float64 \<times> bool" where
  "to_float64 m e =
     (let a = nat \<bar>m\<bar>;
          f = max (e + int (bit_count a) - 53) (-1074);
          k = nat (f - e);
          q = (if f \<le> e then a else round_half_even a k);
          f' = (if f \<le> e then e else f) in
      if q \<noteq> 0 \<and> 1024 < f' + int (bit_count q) then (Infinite, False)
      else (Finite (sgn m * int q) f', f \<le> e \<or> a mod 2 ^ k = 0))"

definition number_to_go :: "int \<Rightarrow> int \<Rightarrow> any outcome" where
  "number_to_go m e =
     (if is_integral m e then
        (if fits_int64 (integral_value m e) then Done (Num_v (integral_value m e))
         else Failed (Plain ''value cannot be represented as a 64-bit integer''))
      else (case to_float64 m e of
              (Infinite, exact) \<Rightarrow> Failed (Plain ''value cannot be represented as a 64-bit floating point'')
            | (Finite n f, exact) \<Rightarrow>
                if n = 0 \<and> \<not> exact then Failed (Plain ''value cannot be represented as a 64-bit floating point'')
                else Done (Float_v n f)))"

section \<open>Values\<close>

text \<open>
  The content of a value is of the kind its type says; otherwise \<open>As\<close> refuses it. The printed value
  in an error is left out.
\<close>

definition as_error :: gerror where
  "as_error = Plain ''can't unmarshal value''"

fun tf_value_to_go_value :: "tf_value \<Rightarrow> any outcome"
  and tf_fields_to_go :: "(string \<times> tf_value) list \<Rightarrow> any_map outcome"
  and tf_elements_to_go :: "tf_value list \<Rightarrow> any list outcome" where
  "tf_value_to_go_value Zero_tv = Done Nil_v"
| "tf_value_to_go_value (Unknown_tv t) = Failed (Plain ''cannot convert unknown value'')"
| "tf_value_to_go_value (Null_tv t) = Done Nil_v"
| "tf_value_to_go_value (Rec_tv t es) =
     (case t of
        Object_t ats \<Rightarrow> and_then (tf_fields_to_go es) (\<lambda>m. Done (Map_v m))
      | Map_t u \<Rightarrow> and_then (tf_fields_to_go es) (\<lambda>m. Done (Map_v m))
      | _ \<Rightarrow> Failed as_error)"
| "tf_value_to_go_value (Seq_tv t vs) =
     (case t of
        Set_t u \<Rightarrow> and_then (tf_elements_to_go vs) (\<lambda>xs. Done (Slice_v xs))
      | List_t u \<Rightarrow> and_then (tf_elements_to_go vs) (\<lambda>xs. Done (Slice_v xs))
      | Tuple_t us \<Rightarrow> and_then (tf_elements_to_go vs) (\<lambda>xs. Done (Slice_v xs))
      | _ \<Rightarrow> Failed as_error)"
| "tf_value_to_go_value (Prim_tv t p) =
     (case t of
        Prim_t Dynamic_pt \<Rightarrow> Failed (Plain ''DynamicPseudoType conversion is not supported'')
      | Prim_t Bool_pt \<Rightarrow> (case p of Bool_p b \<Rightarrow> Done (Bool_v b) | _ \<Rightarrow> Failed as_error)
      | Prim_t Number_pt \<Rightarrow> (case p of Number_p m e \<Rightarrow> number_to_go m e | _ \<Rightarrow> Failed as_error)
      | Prim_t String_pt \<Rightarrow> (case p of String_p s \<Rightarrow> Done (Str_v s) | _ \<Rightarrow> Failed as_error)
      | _ \<Rightarrow> Failed as_error)"
| "tf_fields_to_go [] = Done []"
| "tf_fields_to_go ((n, v) # es) =
     and_then (tf_value_to_go_value v) (\<lambda>x. and_then (tf_fields_to_go es) (\<lambda>m. Done ((n, x) # m)))"
| "tf_elements_to_go [] = Done []"
| "tf_elements_to_go (v # vs) =
     and_then (tf_value_to_go_value v) (\<lambda>x. and_then (tf_elements_to_go vs) (\<lambda>xs. Done (x # xs)))"

text \<open>An object or map becomes a map with the same keys, unless an element is refused.\<close>

lemma tf_fields_keys: "tf_fields_to_go es = Done m \<Longrightarrow> map fst m = map fst es"
proof (induction es arbitrary: m)
  case (Cons x es)
  then show ?case by (cases x) auto
qed simp

end
