(* ===== verification/FrameworkClient.thy ===== *)
theory FrameworkClient
  imports SdkClient ProposedState TfConversion
begin

text \<open>
  The synchronous client of the Terraform Plugin Framework (\<open>pkg/controller/external_tfpluginfw.go\<close>):
  \<open>Connect\<close>, \<open>Observe\<close>, \<open>Create\<close>, \<open>Update\<close> and \<open>Delete\<close> over an asynchronous tracker and a provider
  server, with the requests made. The server answers a request by \<open>fw_server\<close>; encoded values
  (\<open>'d\<close>), identities (\<open>'i\<close>), walks by path and the functions of the configuration are the parameters
  \<open>fw_ops\<close> and \<open>fw_connect_ops\<close>. Logs and metrics are left out.
\<close>

section \<open>Data\<close>

type_synonym tf_path = "path_step list"

datatype severity = Severity_invalid | Severity_error | Severity_warning

record diagnostic =
  dg_severity :: severity
  dg_summary :: string
  dg_detail :: string

text \<open>What \<open>WalkAttributePath\<close> returns: an error, a value, or something else that is not nil.\<close>

datatype walked = Walk_failed | Walked tf_value | Walked_other

record value_diff =
  vd_path :: tf_path
  vd_planned :: "tf_value option"
  vd_prior :: "tf_value option"

record ('d, 'i) read_response =
  rd_state :: "'d option"
  rd_identity :: "'i option"
  rd_diags :: "diagnostic list"

record ('d, 'i) plan_response =
  pl_state :: "'d option"
  pl_identity :: "'i option"
  pl_replace :: "tf_path list"
  pl_diags :: "diagnostic list"

record ('d, 'i) apply_response =
  ap_state :: "'d option"
  ap_identity :: "'i option"
  ap_diags :: "diagnostic list"

text \<open>The requests: prior state, then planned or proposed state and configuration, then identity.\<close>

datatype ('d, 'i) fw_call =
    Read_call "'d option" "'i option"
  | Plan_call "'d option" 'd 'd "'i option"
  | Apply_call "'d option" "'d option" 'd "'i option"

record ('d, 'i) fw_server =
  sv_read :: "('d, 'i) fw_call \<Rightarrow> gerror + ('d, 'i) read_response"
  sv_plan :: "('d, 'i) fw_call \<Rightarrow> gerror + ('d, 'i) plan_response"
  sv_apply :: "('d, 'i) fw_call \<Rightarrow> gerror + ('d, 'i) apply_response"

record 'd fw_ops =
  fo_object :: string
  fo_identity :: bool
  fo_attrs :: "(string \<times> attribute) list"
  fo_blocks :: "(string \<times> block) list"
  fo_paths :: path_lib
  fo_new_dynamic :: "tf_type \<Rightarrow> tf_value \<Rightarrow> gerror + 'd"
  fo_unmarshal :: "tf_type \<Rightarrow> 'd \<Rightarrow> gerror + tf_value"
  fo_value_diffs :: "tf_value \<Rightarrow> tf_value \<Rightarrow> gerror + value_diff list"
  fo_attribute_at :: "tf_path \<Rightarrow> attribute option"
  fo_type_at :: "tf_path \<Rightarrow> gerror + tf_type"
  fo_walk_to :: "tf_value \<Rightarrow> tf_path \<Rightarrow> walked"
  fo_show_path :: "tf_path \<Rightarrow> string"
  fo_not_found :: "(diagnostic list \<Rightarrow> bool) option"
  fo_state_empty :: "(tf_value \<Rightarrow> gerror + bool) option"
  fo_same_version :: bool
  fo_status_paths :: "string list"
  fo_fields :: field_lib
  fo_observation :: "any_map \<Rightarrow> gerror + any_map"
  fo_marshal_err :: "any_map \<Rightarrow> gerror option"

text \<open>The client of one reconciliation with the tracker it shares with later ones, and the requests made.\<close>

record ('d, 'i) fw_client =
  fc_tracker :: "(unit, 'd, 'i) async_tracker"
  fc_config :: tf_value
  fc_plan :: "('d, 'i) plan_response option"
  fc_planned_identity :: "'i option"
  fc_calls :: "('d, 'i) fw_call list"

definition resource_type :: "'d fw_ops \<Rightarrow> tf_type" where
  "resource_type ops = schema_type (fo_attrs ops) (fo_blocks ops)"

definition log_call :: "('d, 'i) fw_call \<Rightarrow> ('d, 'i) fw_client \<Rightarrow> ('d, 'i) fw_client" where
  "log_call call c = c\<lparr>fc_calls := fc_calls c @ [call]\<rparr>"

definition with_tracker ::
  "((unit, 'd, 'i) async_tracker \<Rightarrow> (unit, 'd, 'i) async_tracker) \<Rightarrow> ('d, 'i) fw_client \<Rightarrow> ('d, 'i) fw_client" where
  "with_tracker f c = c\<lparr>fc_tracker := f (fc_tracker c)\<rparr>"

text \<open>Sends a nil identity unless the resource supports identities; stores one only if it does.\<close>

definition sent_identity :: "'d fw_ops \<Rightarrow> 'i option \<Rightarrow> 'i option" where
  "sent_identity ops i = (if fo_identity ops then i else None)"

definition store_identity :: "'d fw_ops \<Rightarrow> 'i option \<Rightarrow> ('d, 'i) fw_client \<Rightarrow> ('d, 'i) fw_client" where
  "store_identity ops i c = (if fo_identity ops then with_tracker (set_framework_identity i) c else c)"

text \<open>\<open>Unmarshal\<close> through a nil pointer panics.\<close>

definition unmarshal_ptr :: "'d fw_ops \<Rightarrow> 'd option \<Rightarrow> tf_value outcome" where
  "unmarshal_ptr ops d =
     (case d of None \<Rightarrow> Crashed | Some d \<Rightarrow> lift_sum (fo_unmarshal ops (resource_type ops) d))"

section \<open>Diagnostics\<close>

definition is_fatal :: "diagnostic \<Rightarrow> bool" where
  "is_fatal d \<longleftrightarrow> dg_severity d = Severity_invalid \<or> dg_severity d = Severity_error"

definition get_fatal_diagnostics :: "diagnostic list \<Rightarrow> gerror option" where
  "get_fatal_diagnostics ds =
     (let errs = map (\<lambda>d. dg_summary d @ '': '' @ dg_detail d) (filter is_fatal ds) in
      if errs = [] then None else Some (Plain (join_with [CHR 0x0A] errs)))"

definition missing_identity_summary :: string where
  "missing_identity_summary = ''Missing Resource Identity After Read''"

definition has_missing_resource_identity_diagnostic :: "diagnostic list \<Rightarrow> bool" where
  "has_missing_resource_identity_diagnostic ds =
     list_ex (\<lambda>d. dg_severity d = Severity_error \<and> dg_summary d = missing_identity_summary) ds"

definition has_resource_not_found_diagnostic :: "'d fw_ops \<Rightarrow> diagnostic list \<Rightarrow> bool" where
  "has_resource_not_found_diagnostic ops ds = (case fo_not_found ops of None \<Rightarrow> False | Some f \<Rightarrow> f ds)"

section \<open>The diff\<close>

definition computed_only :: "attribute \<Rightarrow> bool" where
  "computed_only a \<longleftrightarrow> computed (flags_of a) \<and> \<not> optional (flags_of a)"

fun is_under_computed_only_attribute :: "'d fw_ops \<Rightarrow> tf_path \<Rightarrow> bool" where
  "is_under_computed_only_attribute ops p =
     (if p = [] then False
      else (case fo_attribute_at ops p of
              None \<Rightarrow> is_under_computed_only_attribute ops (butlast p)
            | Some a \<Rightarrow> if computed_only a then True else is_under_computed_only_attribute ops (butlast p)))"

declare is_under_computed_only_attribute.simps [simp del]

definition kept_diff :: "'d fw_ops \<Rightarrow> value_diff \<Rightarrow> bool" where
  "kept_diff ops d =
     (if (case vd_planned d of None \<Rightarrow> False | Some v \<Rightarrow> is_known v \<and> \<not> is_null v) then True
      else if (case vd_planned d of None \<Rightarrow> True | Some v \<Rightarrow> \<not> is_null v) \<or>
              (case vd_prior d of None \<Rightarrow> True | Some v \<Rightarrow> is_null v) then False
      else \<not> is_under_computed_only_attribute ops (vd_path d))"

definition filtered_diff_exists :: "'d fw_ops \<Rightarrow> value_diff list \<Rightarrow> bool" where
  "filtered_diff_exists ops ds = (filter (kept_diff ops) ds \<noteq> [])"

text \<open>A walk that found nothing stands for the null value of the type.\<close>

definition walked_value :: "tf_type \<Rightarrow> walked \<Rightarrow> tf_value option" where
  "walked_value t w = (case w of Walk_failed \<Rightarrow> Some (Null_tv t) | Walked v \<Rightarrow> Some v | Walked_other \<Rightarrow> None)"

fun filter_requires_replace :: "'d fw_ops \<Rightarrow> tf_value \<Rightarrow> tf_value \<Rightarrow> tf_path list \<Rightarrow> gerror + tf_path list" where
  "filter_requires_replace ops state planned [] = Inr []"
| "filter_requires_replace ops state planned (p # ps) =
     (let w = fo_walk_to ops state p; u = fo_walk_to ops planned p in
      if w = Walk_failed \<and> u = Walk_failed then filter_requires_replace ops state planned ps
      else (case fo_type_at ops p of
              Inl e \<Rightarrow> Inl (Plain ''cannot get the type at path from resource schema: %v'')
            | Inr t \<Rightarrow>
                (case (walked_value t w, walked_value t u) of
                   (None, _) \<Rightarrow> Inl (Plain ''cannot convert prior value to tftypes.Value'')
                 | (_, None) \<Rightarrow> Inl (Plain ''cannot convert planned value to tftypes.Value'')
                 | (Some prior, Some new) \<Rightarrow>
                     (case filter_requires_replace ops state planned ps of
                        Inl e \<Rightarrow> Inl e
                      | Inr qs \<Rightarrow> Inr (if value_equal (fo_paths ops) new prior then qs else p # qs)))))"

definition get_diff_plan_response ::
  "'d fw_ops \<Rightarrow> ('d, 'i) fw_server \<Rightarrow> tf_value \<Rightarrow> ('d, 'i) fw_client \<Rightarrow>
     (('d, 'i) plan_response \<times> bool) outcome \<times> ('d, 'i) fw_client" where
  "get_diff_plan_response ops srv state c =
     then_go (wrap_outcome ''cannot construct dynamic value for TF Config''
         (lift_sum (fo_new_dynamic ops (resource_type ops) (fc_config c))), c)
       (\<lambda>cfg c. case proposed_state (fo_paths ops) (fo_attrs ops) (fo_blocks ops) state (fc_config c) of
          None \<Rightarrow> (Crashed, c)
        | Some pv \<Rightarrow>
       then_go (wrap_outcome ''cannot construct dynamic value for TF Planned State''
         (lift_sum (fo_new_dynamic ops (resource_type ops) pv)), c)
       (\<lambda>proposed c.
          let call = Plan_call (get_framework_tf_state (fc_tracker c)) cfg proposed
                       (sent_identity ops (get_framework_identity (fc_tracker c))) in
       then_go (wrap_outcome ''cannot plan change'' (lift_sum (sv_plan srv call)), log_call call c)
       (\<lambda>resp c. case get_fatal_diagnostics (pl_diags resp) of
          Some e \<Rightarrow> (Failed (WithMsg ''plan resource change request failed'' e), c)
        | None \<Rightarrow>
       then_go (wrap_outcome ''cannot unmarshal planned state'' (unmarshal_ptr ops (pl_state resp)), c)
       (\<lambda>planned c. then_go (wrap_outcome ''cannot compare prior state and plan'' (lift_sum (fo_value_diffs ops planned state)), c)
       (\<lambda>diffs c. then_go (wrap_outcome ''failed to check for required replacement fields''
           (lift_sum (filter_requires_replace ops state planned (pl_replace resp))), c)
       (\<lambda>ps c. (Done (resp\<lparr>pl_replace := ps\<rparr>, filtered_diff_exists ops diffs),
                if fo_identity ops then c\<lparr>fc_planned_identity := pl_identity resp\<rparr> else c)))))))"

section \<open>Observe\<close>

definition fw_set_external_name ::
  "('p, 's, 'st, 'c) mr_ops \<Rightarrow> any_map \<Rightarrow> ('p, 's) managed \<Rightarrow> bool outcome \<times> ('p, 's) managed" where
  "fw_set_external_name mr m mg =
     (case external_name_fn mr m of
        Inl e \<Rightarrow> (Failed (WithMsg ''failed to compute the external-name from the state map'' e), mg)
      | Inr nm \<Rightarrow>
          (Done (annotation_or_empty (mg_annotations mg) external_name_key \<noteq> nm),
           mg\<lparr>mg_annotations := (mg_annotations mg)(external_name_key \<mapsto> nm)\<rparr>))"

definition recover_external_name ::
  "'d fw_ops \<Rightarrow> ('p, 's, 'st, 'c) mr_ops \<Rightarrow> ('d, 'i) fw_client \<Rightarrow> ('p, 's) managed \<Rightarrow> bool \<times> ('p, 's) managed" where
  "recover_external_name ops mr c mg =
     (case get_framework_tf_state (fc_tracker c) of
        None \<Rightarrow> (False, mg)
      | Some d \<Rightarrow>
          if annotation_or_empty (mg_annotations mg) external_name_key \<noteq> '''' then (False, mg)
          else (case fo_unmarshal ops (resource_type ops) d of
                  Inl e \<Rightarrow> (False, mg)
                | Inr v \<Rightarrow>
                    if is_null v then (False, mg)
                    else (case tf_value_to_go_value v of
                            Done (Map_v m) \<Rightarrow>
                              (case fw_set_external_name mr m mg of (Done changed, mg) \<Rightarrow> (changed, mg) | (_, mg) \<Rightarrow> (False, mg))
                          | _ \<Rightarrow> (False, mg))))"

text \<open>The tracker gets the null state and no identity.\<close>

definition forget_state :: "'d fw_ops \<Rightarrow> ('d, 'i) fw_client \<Rightarrow> unit outcome \<times> ('d, 'i) fw_client" where
  "forget_state ops c =
     then_go (wrap_outcome ''cannot create nil dynamic value''
         (lift_sum (fo_new_dynamic ops (resource_type ops) (Null_tv (resource_type ops)))), c)
       (\<lambda>d c. (Done (), store_identity ops None (with_tracker (set_framework_tf_state (Some d)) c)))"

definition fw_refresh ::
  "'d fw_ops \<Rightarrow> ('d, 'i) fw_server \<Rightarrow> ('d, 'i) fw_client \<Rightarrow> tf_value outcome \<times> ('d, 'i) fw_client" where
  "fw_refresh ops srv c =
     (let call = Read_call (get_framework_tf_state (fc_tracker c)) (sent_identity ops (get_framework_identity (fc_tracker c)));
          c = log_call call c in
      case sv_read srv call of
        Inl e \<Rightarrow> (Failed (WithMsg ''cannot read resource'' e), with_tracker reset_reconstructed_framework_tf_state c)
      | Inr resp \<Rightarrow>
          let not_found = has_resource_not_found_diagnostic ops (rd_diags resp);
              fatal = get_fatal_diagnostics (rd_diags resp);
              missing = (fatal \<noteq> None \<and> fo_identity ops \<and> has_missing_resource_identity_diagnostic (rd_diags resp)) in
          case fatal of
            Some e \<Rightarrow>
              if \<not> not_found \<and> \<not> missing
              then (Failed (WithMsg ''read resource request failed'' e), with_tracker reset_reconstructed_framework_tf_state c)
              else then_go (forget_state ops c) (\<lambda>_ c. (Done (Null_tv (resource_type ops)), c))
          | None \<Rightarrow>
              if not_found then then_go (forget_state ops c) (\<lambda>_ c. (Done (Null_tv (resource_type ops)), c))
              else then_go (wrap_outcome ''cannot unmarshal state value'' (unmarshal_ptr ops (rd_state resp)), c)
                (\<lambda>v c. (Done v, store_identity ops (rd_identity resp) (with_tracker (set_framework_tf_state (rd_state resp)) c))))"

text \<open>Whether the refreshed state is that of an existing resource.\<close>

definition fw_exists :: "'d fw_ops \<Rightarrow> tf_value \<Rightarrow> ('d, 'i) fw_client \<Rightarrow> bool outcome \<times> ('d, 'i) fw_client" where
  "fw_exists ops v c =
     (if is_null v then (Done False, c)
      else (case fo_state_empty ops of
              None \<Rightarrow> (Done True, c)
            | Some f \<Rightarrow>
                then_go (wrap_outcome ''cannot check if TF State is empty'' (lift_sum (f v)), c)
                  (\<lambda>empty c. if empty then then_go (forget_state ops c) (\<lambda>_ c. (Done False, c)) else (Done True, c))))"

text \<open>The observed state as a map, when the resource exists; no identity is kept when it does not.\<close>

definition fw_state_map ::
  "'d fw_ops \<Rightarrow> tf_value \<Rightarrow> bool \<Rightarrow> ('d, 'i) fw_client \<Rightarrow> any_map option outcome \<times> ('d, 'i) fw_client" where
  "fw_state_map ops v resource_exists c =
     (if resource_exists then
        (case tf_value_to_go_value v of
           Failed e \<Rightarrow> (Failed (WithMsg ''cannot convert instance state to JSON map'' e), c)
         | Done (Map_v m) \<Rightarrow> (Done (Some m), c)
         | _ \<Rightarrow> (Crashed, c))
      else (Done None, store_identity ops None c))"

definition fw_store_observation ::
  "'d fw_ops \<Rightarrow> ('p, 's, 'st, 'c) mr_ops \<Rightarrow> bool \<Rightarrow> any_map \<Rightarrow> ('p, 's) managed \<Rightarrow> bool outcome \<times> ('p, 's) managed" where
  "fw_store_observation ops mr nil_ann m mg =
     (case set_observation_err mr m of
        Some e \<Rightarrow> (Failed (Plain (''could not set observation: '' @ error_string e)), mg)
      | None \<Rightarrow>
          let mg = mg\<lparr>mg_observation := m\<rparr> in
          then_go (wrap_outcome ''could not get observation'' (lift_sum (fo_observation ops m)), mg)
            (\<lambda>obs mg.
               let (r, ann) = move_tf_state_values_to_annotation (fo_fields ops) (fo_same_version ops) (fo_status_paths ops) m obs
                                (if nil_ann then None else Some (mg_annotations mg)) in
               (wrap_outcome ''cannot move status values to annotation'' (lift_sum r),
                case ann of None \<Rightarrow> mg | Some a \<Rightarrow> mg\<lparr>mg_annotations := a\<rparr>)))"

definition fw_observe_existing ::
  "'d fw_ops \<Rightarrow> ('p, 's, 'st, 'c) mr_ops \<Rightarrow> bool \<Rightarrow> bool \<Rightarrow> any_map \<Rightarrow> ('p, 's) managed \<Rightarrow>
     ('c \<times> bool) outcome \<times> ('p, 's) managed" where
  "fw_observe_existing ops mr nil_ann has_diff m mg =
     then_go (wrap_outcome ''cannot get connection details'' (lift_sum (connection_details mr m)), set_conditions mr (available mr) mg)
       (\<lambda>conn mg. then_go (wrap_outcome ''cannot convert the singleton lists in the observed state value map into embedded objects''
           (lift_sum (from_terraform mr m)), mg)
       (\<lambda>m mg. then_go (case fo_marshal_err ops m of
            None \<Rightarrow> Done ()
          | Some e \<Rightarrow> Failed (WithMsg ''cannot marshal the attributes of the new state for late-initialization'' e), mg)
       (\<lambda>_ mg.
          let (li, ps) = (if has_any (policies mr) [''LateInitialize'', ''*''] then late_initialize mr m (mg_params mg)
                          else (Inr False, mg_params mg)) in
        then_go (wrap_outcome ''cannot late-initialize the managed resource'' (lift_sum li), mg\<lparr>mg_params := ps\<rparr>)
       (\<lambda>late mg. then_go (fw_store_observation ops mr nil_ann m mg)
       (\<lambda>ann_updated mg.
          let mg = (if \<not> (late \<or> ann_updated)
                    then mg\<lparr>mg_conditions := set_up_to_date_condition (cond_api mr) (is_test mr) (\<not> has_diff) (mg_conditions mg)\<rparr>
                    else mg);
              (r, mg) = fw_set_external_name mr m mg in
        then_go (wrap_outcome ''failed to set the external-name of the managed resource during observe'' r, mg)
       (\<lambda>renamed mg. (Done (conn, late \<or> ann_updated \<or> renamed), mg)))))))"

text \<open>The part of \<open>Observe\<close> that works on the tracker: the state map, if any, and whether there is a diff.\<close>

definition fw_observe_state ::
  "'d fw_ops \<Rightarrow> ('d, 'i) fw_server \<Rightarrow> ('d, 'i) fw_client \<Rightarrow> (any_map option \<times> bool) outcome \<times> ('d, 'i) fw_client" where
  "fw_observe_state ops srv c =
     then_go (fw_refresh ops srv c)
       (\<lambda>v c. then_go (fw_exists ops v c)
       (\<lambda>resource_exists c. then_go (fw_state_map ops v resource_exists c)
       (\<lambda>js c. then_go (wrap_go ''cannot calculate diff'' (get_diff_plan_response ops srv v c))
       (\<lambda>(pl, has_diff) c. (Done (js, has_diff), c\<lparr>fc_plan := Some pl\<rparr>)))))"

definition fw_observe ::
  "'d fw_ops \<Rightarrow> ('p, 's, 'st, 'c) mr_ops \<Rightarrow> ('d, 'i) fw_server \<Rightarrow> bool \<Rightarrow> bool \<Rightarrow> ('p, 's) managed \<Rightarrow> ('d, 'i) fw_client \<Rightarrow>
     'c observation outcome \<times> ('p, 's) managed \<times> ('d, 'i) fw_client" where
  "fw_observe ops mr srv was_deleted nil_ann mg c =
     (if was_deleted \<and> get_deleted (fc_tracker c) then (Done absent_observation, mg, c)
      else (case fw_observe_state ops srv c of
              (Failed e, c) \<Rightarrow> (Failed e, mg, c)
            | (Crashed, c) \<Rightarrow> (Crashed, mg, c)
            | (Done (None, has_diff), c) \<Rightarrow>
                (Done \<lparr>ob_exists = False, ob_up_to_date = \<not> has_diff, ob_late_init = False, ob_conn = None\<rparr>, mg, c)
            | (Done (Some m, has_diff), c) \<Rightarrow>
                let (r, mg) = fw_observe_existing ops mr nil_ann has_diff m mg in
                (and_then r (\<lambda>(conn, late). Done \<lparr>ob_exists = True, ob_up_to_date = \<not> has_diff, ob_late_init = late, ob_conn = Some conn\<rparr>),
                 mg, c)))"

section \<open>Create, Update and Delete\<close>

text \<open>The apply call of \<open>Create\<close> and \<open>Update\<close>; reading the plan of a client that has none panics.\<close>

definition apply_plan ::
  "'d fw_ops \<Rightarrow> ('d, 'i) fw_server \<Rightarrow> string \<Rightarrow> ('d, 'i) fw_client \<Rightarrow> ('d, 'i) apply_response outcome \<times> ('d, 'i) fw_client" where
  "apply_plan ops srv msg c =
     then_go (wrap_outcome ''cannot construct dynamic value for TF Config''
         (lift_sum (fo_new_dynamic ops (resource_type ops) (fc_config c))), c)
       (\<lambda>cfg c. case fc_plan c of
          None \<Rightarrow> (Crashed, c)
        | Some pl \<Rightarrow>
            let call = Apply_call (get_framework_tf_state (fc_tracker c)) (pl_state pl) cfg
                         (sent_identity ops (fc_planned_identity c)) in
            (wrap_outcome msg (lift_sum (sv_apply srv call)), log_call call c))"

definition native_state_map :: "tf_value \<Rightarrow> any_map outcome" where
  "native_state_map v =
     (case tf_value_to_go_value v of
        Failed e \<Rightarrow> Failed (Plain ''cannot convert native state to go map'')
      | Done (Map_v m) \<Rightarrow> Done m
      | _ \<Rightarrow> Crashed)"

definition create_apply :: "'d fw_ops \<Rightarrow> ('d, 'i) fw_server \<Rightarrow> ('d, 'i) fw_client \<Rightarrow> any_map outcome \<times> ('d, 'i) fw_client" where
  "create_apply ops srv c =
     then_go (apply_plan ops srv ''cannot create resource'' c)
       (\<lambda>resp c. case get_fatal_diagnostics (ap_diags resp) of
          Some e \<Rightarrow>
            (Failed (WithMsg ''resource creation call returned error diags'' e), with_tracker (set_framework_tf_state (ap_state resp)) c)
        | None \<Rightarrow>
            then_go (wrap_outcome ''cannot unmarshal planned state'' (unmarshal_ptr ops (ap_state resp)), c)
              (\<lambda>v c. if is_null v then (Failed (Plain ''new state is empty after creation''), c)
                else then_go (native_state_map v, c)
                  (\<lambda>m c. (Done m, store_identity ops (ap_identity resp) (with_tracker (set_framework_tf_state (ap_state resp)) c)))))"

definition fw_create_report ::
  "'d fw_ops \<Rightarrow> ('p, 's, 'st, 'c) mr_ops \<Rightarrow> bool \<Rightarrow> any_map \<Rightarrow> ('p, 's) managed \<Rightarrow> 'c outcome \<times> ('p, 's) managed" where
  "fw_create_report ops mr nil_ann m mg =
     (let (r, mg) = fw_set_external_name mr m mg in
      then_go (wrap_outcome ''failed to set the external-name of the managed resource during create'' r, mg)
       (\<lambda>_ mg. then_go (wrap_outcome ''cannot get connection details'' (lift_sum (connection_details mr m)), mg)
       (\<lambda>conn mg. then_go (wrap_outcome ''cannot apply TF conversions to state value map after create''
           (lift_sum (from_terraform mr m)), mg)
       (\<lambda>m mg. then_go (fw_store_observation ops mr nil_ann m mg)
       (\<lambda>_ mg. (Done conn, mg))))))"

definition fw_create ::
  "'d fw_ops \<Rightarrow> ('p, 's, 'st, 'c) mr_ops \<Rightarrow> ('d, 'i) fw_server \<Rightarrow> bool \<Rightarrow> ('p, 's) managed \<Rightarrow> ('d, 'i) fw_client \<Rightarrow>
     'c outcome \<times> ('p, 's) managed \<times> ('d, 'i) fw_client" where
  "fw_create ops mr srv nil_ann mg c =
     (case create_apply ops srv c of
        (Failed e, c) \<Rightarrow> (Failed e, mg, c)
      | (Crashed, c) \<Rightarrow> (Crashed, mg, c)
      | (Done m, c) \<Rightarrow> let (r, mg) = fw_create_report ops mr nil_ann m mg in (r, mg, c))"

definition plan_requires_replace :: "'d fw_ops \<Rightarrow> ('d, 'i) fw_client \<Rightarrow> string option" where
  "plan_requires_replace ops c =
     (case fc_plan c of
        None \<Rightarrow> None
      | Some pl \<Rightarrow>
          if pl_replace pl = [] then None
          else Some (''diff contains fields that require resource replacement: ''
            @ concat (map (\<lambda>p. fo_show_path ops p @ '', '') (pl_replace pl))))"

definition update_apply :: "'d fw_ops \<Rightarrow> ('d, 'i) fw_server \<Rightarrow> ('d, 'i) fw_client \<Rightarrow> any_map outcome \<times> ('d, 'i) fw_client" where
  "update_apply ops srv c =
     then_go (apply_plan ops srv ''cannot update resource'' c)
       (\<lambda>resp c. case get_fatal_diagnostics (ap_diags resp) of
          Some e \<Rightarrow> (Failed (WithMsg ''resource update call returned error diags'' e), c)
        | None \<Rightarrow>
            let c = store_identity ops (ap_identity resp) (with_tracker (set_framework_tf_state (ap_state resp)) c) in
            then_go (wrap_outcome ''cannot unmarshal updated state'' (unmarshal_ptr ops (ap_state resp)), c)
              (\<lambda>v c. if is_null v then (Failed (Plain ''new state is empty after update''), c) else (native_state_map v, c)))"

definition fw_update_report ::
  "'d fw_ops \<Rightarrow> ('p, 's, 'st, 'c) mr_ops \<Rightarrow> bool \<Rightarrow> any_map \<Rightarrow> ('p, 's) managed \<Rightarrow> unit outcome \<times> ('p, 's) managed" where
  "fw_update_report ops mr nil_ann m mg =
     then_go (wrap_outcome ''cannot apply TF conversions to state value map after update'' (lift_sum (from_terraform mr m)), mg)
       (\<lambda>m mg. then_go (fw_store_observation ops mr nil_ann m mg)
       (\<lambda>_ mg. (Done (), mg)))"

definition fw_update ::
  "'d fw_ops \<Rightarrow> ('p, 's, 'st, 'c) mr_ops \<Rightarrow> ('d, 'i) fw_server \<Rightarrow> bool \<Rightarrow> ('p, 's) managed \<Rightarrow> ('d, 'i) fw_client \<Rightarrow>
     unit outcome \<times> ('p, 's) managed \<times> ('d, 'i) fw_client" where
  "fw_update ops mr srv nil_ann mg c =
     (case plan_requires_replace ops c of
        Some s \<Rightarrow> (Failed (Plain (''diff contains fields that require resource replacement: '' @ s)), mg, c)
      | None \<Rightarrow>
          (case update_apply ops srv c of
             (Failed e, c) \<Rightarrow> (Failed e, mg, c)
           | (Crashed, c) \<Rightarrow> (Crashed, mg, c)
           | (Done m, c) \<Rightarrow> let (r, mg) = fw_update_report ops mr nil_ann m mg in (r, mg, c)))"

text \<open>The planned state of a deletion is null, and no planned identity goes with it.\<close>

definition fw_delete :: "'d fw_ops \<Rightarrow> ('d, 'i) fw_server \<Rightarrow> ('d, 'i) fw_client \<Rightarrow> unit outcome \<times> ('d, 'i) fw_client" where
  "fw_delete ops srv c =
     then_go (wrap_outcome ''cannot construct dynamic value for TF Config''
         (lift_sum (fo_new_dynamic ops (resource_type ops) (fc_config c))), c)
       (\<lambda>cfg c. then_go (wrap_outcome ''cannot set the planned state for deletion''
           (lift_sum (fo_new_dynamic ops (resource_type ops) (Null_tv (resource_type ops)))), c)
       (\<lambda>planned c.
          let call = Apply_call (get_framework_tf_state (fc_tracker c)) (Some planned) cfg None in
       then_go (wrap_outcome ''cannot delete resource'' (lift_sum (sv_apply srv call)), log_call call c)
       (\<lambda>resp c. case get_fatal_diagnostics (ap_diags resp) of
          Some e \<Rightarrow> (Failed (WithMsg ''resource deletion call returned error diags'' e), c)
        | None \<Rightarrow>
            let c = store_identity ops (ap_identity resp) (with_tracker (set_framework_tf_state (ap_state resp)) c) in
            then_go (wrap_outcome ''cannot unmarshal state after deletion'' (unmarshal_ptr ops (ap_state resp)), c)
              (\<lambda>v c. (Done (), with_tracker (set_deleted (is_null v)) c)))))"

section \<open>Connect\<close>

text \<open>
  What \<open>Connect\<close> uses of the resource, its configuration and the provider. \<open>fk_provider_schema\<close> is
  \<open>None\<close> when the setup has no framework provider.
\<close>

record 'd fw_connect_ops =
  fk_setup_err :: "gerror option"
  fk_schema_err :: "gerror option"
  fk_policies_enabled :: bool
  fk_merged_parameters :: "bool \<Rightarrow> gerror + any_map"
  fk_parameters :: "gerror + any_map"
  fk_init_parameters :: "gerror + any_map"
  fk_observation :: "gerror + any_map"
  fk_for_provider :: "gerror + any_map"
  fk_to_terraform :: "any_map \<Rightarrow> gerror + any_map"
  fk_sensitive :: "any_map \<Rightarrow> gerror + any_map"
  fk_set_identifier :: "any_map \<Rightarrow> any_map"
  fk_injector :: "(any_map \<Rightarrow> any_map \<Rightarrow> gerror + any_map) option"
  fk_get_id :: "any_map \<Rightarrow> gerror + string"
  fk_computed_identifiers :: "string list"
  fk_json_marshal :: "any_map \<Rightarrow> gerror + string"
  fk_value_from_json :: "string \<Rightarrow> tf_type \<Rightarrow> gerror + tf_value"
  fk_transform :: "(tf_path \<Rightarrow> tf_value \<Rightarrow> tf_value) \<Rightarrow> tf_value \<Rightarrow> gerror + tf_value"
  fk_provider_schema :: "(gerror + tf_type) option"
  fk_provider_config :: any_map
  fk_configure :: "'d \<Rightarrow> gerror + diagnostic list"

definition has_id_attribute :: "'d fw_ops \<Rightarrow> bool" where
  "has_id_attribute ops \<longleftrightarrow> map_of (fo_attrs ops) ''id'' \<noteq> None"

definition get_framework_extended_parameters ::
  "'d fw_ops \<Rightarrow> 'd fw_connect_ops \<Rightarrow> (string \<rightharpoonup> string) option \<Rightarrow> any_map outcome" where
  "get_framework_extended_parameters ops fk ann =
     and_then (if fo_same_version ops
         then wrap_outcome ''cannot get merged parameters'' (lift_sum (fk_merged_parameters fk (fk_policies_enabled fk)))
         else wrap_outcome ''cannot merge annotation fields''
           (lift_sum (merge_annotation_fields_with_spec (fo_fields ops) (fk_parameters fk) (fk_init_parameters fk)
              (fk_policies_enabled fk) ann)))
       (\<lambda>ps. and_then (wrap_outcome ''cannot apply tf conversions'' (lift_sum (fk_to_terraform fk ps)))
       (\<lambda>ps. and_then (wrap_outcome ''cannot store sensitive parameters into params'' (lift_sum (fk_sensitive fk ps)))
       (\<lambda>ps. let ps = fk_set_identifier fk ps in
        and_then (case fk_injector fk of
             None \<Rightarrow> Done ps
           | Some inject \<Rightarrow>
               and_then (wrap_outcome ''cannot get JSON map for the managed resource's spec.forProvider value'' (lift_sum (fk_for_provider fk)))
                 (\<lambda>fp. wrap_outcome ''cannot invoke the configured TerraformConfigurationInjector'' (lift_sum (inject fp ps))))
       (\<lambda>ps. if has_id_attribute ops
             then and_then (wrap_outcome ''cannot get ID'' (lift_sum (fk_get_id fk ps))) (\<lambda>tf_id. Done (put_key ''id'' (Str_v tf_id) ps))
             else Done ps))))"

definition tf_value_from_map :: "'d fw_connect_ops \<Rightarrow> any_map \<Rightarrow> tf_type \<Rightarrow> tf_value outcome" where
  "tf_value_from_map fk m t =
     and_then (wrap_outcome ''cannot marshal json'' (lift_sum (fk_json_marshal fk m)))
       (\<lambda>js. wrap_outcome ''cannot construct tf value from json'' (lift_sum (fk_value_from_json fk js t)))"

definition protov6_dynamic_value_from_map :: "'d fw_ops \<Rightarrow> 'd fw_connect_ops \<Rightarrow> any_map \<Rightarrow> tf_type \<Rightarrow> 'd outcome" where
  "protov6_dynamic_value_from_map ops fk m t =
     and_then (wrap_outcome ''cannot construct TF value from raw map'' (tf_value_from_map fk m t))
       (\<lambda>v. wrap_outcome ''cannot construct dynamic value from tf value'' (lift_sum (fo_new_dynamic ops t v)))"

text \<open>Read-only attributes are not configured.\<close>

definition without_read_only :: "'d fw_ops \<Rightarrow> tf_path \<Rightarrow> tf_value \<Rightarrow> tf_value" where
  "without_read_only ops p v =
     (if \<not> is_known v \<or> is_null v then v
      else (case fo_attribute_at ops p of
              None \<Rightarrow> v
            | Some a \<Rightarrow> if computed_only a then (case value_type v of None \<Rightarrow> v | Some t \<Rightarrow> Null_tv t) else v))"

definition get_resource_config_terraform_value :: "'d fw_ops \<Rightarrow> 'd fw_connect_ops \<Rightarrow> any_map \<Rightarrow> tf_value outcome" where
  "get_resource_config_terraform_value ops fk params =
     and_then (wrap_outcome ''cannot construct TF value for resource config''
         (tf_value_from_map fk (fold del_key (fk_computed_identifiers fk) params) (resource_type ops)))
       (\<lambda>v. wrap_outcome ''cannot remove read-only attributes from resource config''
         (lift_sum (fk_transform fk (without_read_only ops) v)))"

definition has_known_state :: "'d fw_ops \<Rightarrow> (unit, 'd, 'i) async_tracker \<Rightarrow> bool outcome" where
  "has_known_state ops t =
     (if has_framework_tf_state t
      then and_then (wrap_outcome ''cannot unmarshal TF state dynamic value during state existence check''
             (unmarshal_ptr ops (get_framework_tf_state t))) (\<lambda>v. Done (\<not> is_null v))
      else Done False)"

definition fw_reconstructed_state ::
  "'d fw_ops \<Rightarrow> 'd fw_connect_ops \<Rightarrow> (string \<rightharpoonup> string) option \<Rightarrow> any_map \<Rightarrow> 'd outcome" where
  "fw_reconstructed_state ops fk ann params =
     and_then (wrap_outcome ''failed to get the observation'' (lift_sum (fk_observation fk)))
       (\<lambda>tf. and_then (wrap_outcome (''failed to merge annotations on resource '' @ go_quote (fo_object ops))
           (lift_sum (merge_annotation_fields_with_status (fo_fields ops) (fo_same_version ops) ann tf)))
       (\<lambda>tf. and_then (wrap_outcome ''failed to run the API converters on the Terraform state'' (lift_sum (fk_to_terraform fk tf)))
       (\<lambda>tf. let copy_params = (tf = []) in
        and_then (wrap_outcome ''cannot store sensitive parameters into tfState'' (lift_sum (fk_sensitive fk tf)))
       (\<lambda>tf. let tf = fk_set_identifier fk tf in
        and_then (case map_of params ''id'' of
             None \<Rightarrow> Done tf
           | Some Nil_v \<Rightarrow> Done tf
           | Some (Str_v s) \<Rightarrow> Done (if s \<noteq> '''' \<and> has_id_attribute ops then put_key ''id'' (Str_v s) tf else tf)
           | Some _ \<Rightarrow> Crashed)
       (\<lambda>tf. wrap_outcome ''cannot construct dynamic value for TF state''
           (protov6_dynamic_value_from_map ops fk (if copy_params then copy_parameters tf params else tf) (resource_type ops)))))))"

definition configure_provider :: "'d fw_ops \<Rightarrow> 'd fw_connect_ops \<Rightarrow> unit outcome" where
  "configure_provider ops fk =
     (case fk_provider_schema fk of
        None \<Rightarrow> Failed (Plain ''cannot retrieve framework provider'')
      | Some sch \<Rightarrow>
          and_then (lift_sum sch)
            (\<lambda>t. and_then (wrap_outcome ''cannot construct dynamic value for TF provider config''
                (protov6_dynamic_value_from_map ops fk (fk_provider_config fk) t))
            (\<lambda>cfg. and_then (wrap_outcome ''cannot configure framework provider'' (lift_sum (fk_configure fk cfg)))
            (\<lambda>ds. case get_fatal_diagnostics ds of
               Some e \<Rightarrow> Failed (WithMsg ''provider configure request failed'' e) | None \<Rightarrow> Done ()))))"

text \<open>The tracker keeps a reconstructed state even if the provider cannot be configured.\<close>

definition fw_connect ::
  "'d fw_ops \<Rightarrow> 'd fw_connect_ops \<Rightarrow> (string \<rightharpoonup> string) option \<Rightarrow> (unit, 'd, 'i) async_tracker \<Rightarrow>
     ('d, 'i) fw_client outcome \<times> (unit, 'd, 'i) async_tracker" where
  "fw_connect ops fk ann t =
     then_go (case fk_setup_err fk of Some e \<Rightarrow> Failed (WithMsg ''cannot get terraform setup'' e) | None \<Rightarrow> Done (), t)
       (\<lambda>_ t. then_go (case fk_schema_err fk of Some e \<Rightarrow> Failed (WithMsg ''could not retrieve resource schema'' e) | None \<Rightarrow> Done (), t)
       (\<lambda>_ t. then_go (wrap_outcome (''failed to get the extended parameters for resource '' @ go_quote (fo_object ops))
           (get_framework_extended_parameters ops fk ann), t)
       (\<lambda>params t. then_go (wrap_outcome ''could not get resource config TF value'' (get_resource_config_terraform_value ops fk params), t)
       (\<lambda>cfg t. then_go (has_known_state ops t, t)
       (\<lambda>known t. then_go (if known then (Done (), t)
            else then_go (fw_reconstructed_state ops fk ann params, t)
              (\<lambda>d t. (Done (), set_reconstructed_framework_tf_state (Some d) t)))
       (\<lambda>_ t. then_go (wrap_outcome ''could not configure provider server'' (configure_provider ops fk), t)
       (\<lambda>_ t. (Done \<lparr>fc_tracker = t, fc_config = cfg, fc_plan = None, fc_planned_identity = None, fc_calls = []\<rparr>, t))))))))"

end
