(* ===== verification/FrameworkLifecycle.thy ===== *)
theory FrameworkLifecycle
  imports FrameworkClient
begin

text \<open>
  What the Plugin Framework client guarantees over its life: which differences count, that an update
  never replaces, that a failed creation is remembered and a deletion final, that nothing is kept of
  an absent resource, and that one update of a plain provider brings the resource up to date.
\<close>

section \<open>The filters of the diff and of the replaced paths\<close>

definition computed_only_at :: "'d fw_ops \<Rightarrow> tf_path \<Rightarrow> bool" where
  "computed_only_at ops p \<longleftrightarrow> (case fo_attribute_at ops p of None \<Rightarrow> False | Some a \<Rightarrow> computed_only a)"

lemma under_computed_only_iff:
  "is_under_computed_only_attribute ops p \<longleftrightarrow> (\<exists>k < length p. computed_only_at ops (take (Suc k) p))"
proof (induction p rule: rev_induct)
  case Nil
  then show ?case by (simp add: is_under_computed_only_attribute.simps)
next
  case (snoc s p)
  have "is_under_computed_only_attribute ops (p @ [s]) \<longleftrightarrow>
      computed_only_at ops (p @ [s]) \<or> is_under_computed_only_attribute ops p"
    by (subst is_under_computed_only_attribute.simps) (auto simp: computed_only_at_def split: option.splits)
  also have "\<dots> \<longleftrightarrow> computed_only_at ops (p @ [s]) \<or> (\<exists>k < length p. computed_only_at ops (take (Suc k) (p @ [s])))"
    by (simp add: snoc cong: conj_cong)
  also have "\<dots> \<longleftrightarrow> (\<exists>k < Suc (length p). computed_only_at ops (take (Suc k) (p @ [s])))"
    unfolding Ex_less_Suc by auto
  finally show ?case by simp
qed

text \<open>A difference that asks for an update: a value that is set, or one that is unset and not the provider's to compute.\<close>

definition asks_for_update :: "'d fw_ops \<Rightarrow> value_diff \<Rightarrow> bool" where
  "asks_for_update ops d \<longleftrightarrow>
     (\<exists>v. vd_planned d = Some v \<and> is_known v \<and> \<not> is_null v) \<or>
     (\<exists>v w. vd_planned d = Some v \<and> is_null v \<and> vd_prior d = Some w \<and> \<not> is_null w \<and>
       (\<forall>k < length (vd_path d). \<not> computed_only_at ops (take (Suc k) (vd_path d))))"

lemma kept_diff_iff: "kept_diff ops d \<longleftrightarrow> asks_for_update ops d"
  by (auto simp: kept_diff_def asks_for_update_def under_computed_only_iff split: option.splits if_splits)

text \<open>A reported path whose planned value differs from the prior one.\<close>

definition replaced_at :: "'d fw_ops \<Rightarrow> tf_value \<Rightarrow> tf_value \<Rightarrow> tf_path \<Rightarrow> bool" where
  "replaced_at ops state planned p \<longleftrightarrow>
     (let w = fo_walk_to ops state p; u = fo_walk_to ops planned p in
      \<not> (w = Walk_failed \<and> u = Walk_failed) \<and>
      (\<forall>t v x. fo_type_at ops p = Inr t \<longrightarrow> walked_value t w = Some v \<longrightarrow> walked_value t u = Some x \<longrightarrow>
         \<not> value_equal (fo_paths ops) x v))"

lemma filter_requires_replace_filter:
  "filter_requires_replace ops state planned ps = Inr qs \<Longrightarrow> qs = filter (replaced_at ops state planned) ps"
proof (induction ps arbitrary: qs)
  case (Cons p ps)
  then show ?case
    by (auto simp: replaced_at_def Let_def split: if_splits sum.splits option.splits)
qed simp

lemma get_diff_Done:
  assumes "get_diff_plan_response ops srv v c = (Done (pl, has_diff), c')"
  shows "\<exists>pv cfg proposed resp planned diffs.
    fc_calls c' = fc_calls c @ [Plan_call (get_framework_tf_state (fc_tracker c)) cfg proposed
      (sent_identity ops (get_framework_identity (fc_tracker c)))] \<and>
    proposed_state (fo_paths ops) (fo_attrs ops) (fo_blocks ops) v (fc_config c) = Some pv \<and>
    fo_new_dynamic ops (resource_type ops) pv = Inr proposed \<and> fo_new_dynamic ops (resource_type ops) (fc_config c) = Inr cfg \<and>
    sv_plan srv (Plan_call (get_framework_tf_state (fc_tracker c)) cfg proposed
      (sent_identity ops (get_framework_identity (fc_tracker c)))) = Inr resp \<and>
    unmarshal_ptr ops (pl_state resp) = Done planned \<and> fo_value_diffs ops planned v = Inr diffs \<and>
    pl = resp\<lparr>pl_replace := filter (replaced_at ops v planned) (pl_replace resp)\<rparr> \<and>
    has_diff = (\<exists>d \<in> set diffs. asks_for_update ops d) \<and>
    fc_tracker c' = fc_tracker c \<and> fc_config c' = fc_config c"
proof -
  obtain pv cfg proposed resp planned diffs ps where *:
    "fc_calls c' = fc_calls c @ [Plan_call (get_framework_tf_state (fc_tracker c)) cfg proposed
      (sent_identity ops (get_framework_identity (fc_tracker c)))]"
    "proposed_state (fo_paths ops) (fo_attrs ops) (fo_blocks ops) v (fc_config c) = Some pv"
    "fo_new_dynamic ops (resource_type ops) pv = Inr proposed" "fo_new_dynamic ops (resource_type ops) (fc_config c) = Inr cfg"
    "sv_plan srv (Plan_call (get_framework_tf_state (fc_tracker c)) cfg proposed
      (sent_identity ops (get_framework_identity (fc_tracker c)))) = Inr resp"
    "unmarshal_ptr ops (pl_state resp) = Done planned" "fo_value_diffs ops planned v = Inr diffs"
    "filter_requires_replace ops v planned (pl_replace resp) = Inr ps"
    "pl = resp\<lparr>pl_replace := ps\<rparr>" "has_diff = filtered_diff_exists ops diffs"
    "fc_tracker c' = fc_tracker c" "fc_config c' = fc_config c"
    using assms unfolding get_diff_plan_response_def
    by (auto simp: then_go_Done Let_def log_call_def split: option.splits if_splits)
  moreover have "filtered_diff_exists ops diffs \<longleftrightarrow> (\<exists>d \<in> set diffs. asks_for_update ops d)"
    by (auto simp: filtered_diff_exists_def kept_diff_iff filter_empty_conv)
  ultimately show ?thesis using filter_requires_replace_filter [OF *(8)] by blast
qed

section \<open>The steps of an observation\<close>

lemma observe_steps:
  assumes "fw_observe ops mr srv wd na mg c = (Done ob, mg', c')" "\<not> (wd \<and> get_deleted (fc_tracker c))"
  shows "\<exists>v c1 c2 js c3 pl has_diff c4.
    fw_refresh ops srv c = (Done v, c1) \<and> fw_exists ops v c1 = (Done (ob_exists ob), c2) \<and>
    fw_state_map ops v (ob_exists ob) c2 = (Done js, c3) \<and>
    get_diff_plan_response ops srv v c3 = (Done (pl, has_diff), c4) \<and> c' = c4\<lparr>fc_plan := Some pl\<rparr> \<and>
    ob_up_to_date ob = (\<not> has_diff) \<and> (\<not> ob_exists ob \<longrightarrow> mg' = mg)"
proof -
  obtain x c4 where x: "fw_observe_state ops srv c = (x, c4)" by fastforce
  from assms x obtain js has_diff where d: "x = Done (js, has_diff)" "c' = c4"
    by (cases x) (auto simp: fw_observe_def split: option.splits prod.splits)
  have up: "ob_up_to_date ob = (\<not> has_diff)" "ob_exists ob = (js \<noteq> None)" "\<not> ob_exists ob \<longrightarrow> mg' = mg"
    using assms x d by (auto simp: fw_observe_def split: option.splits prod.splits)
  from x [unfolded d] obtain v c1 ex c2 c3 pl c4' where s:
    "fw_refresh ops srv c = (Done v, c1)" "fw_exists ops v c1 = (Done ex, c2)" "fw_state_map ops v ex c2 = (Done js, c3)"
    "get_diff_plan_response ops srv v c3 = (Done (pl, has_diff), c4')" "c4 = c4'\<lparr>fc_plan := Some pl\<rparr>"
    unfolding fw_observe_state_def
    by (auto simp: then_go_Done)
  have "ex = (js \<noteq> None)"
    using s(3) by (auto simp: fw_state_map_def split: if_splits outcome.splits any.splits)
  then have e: "ex = ob_exists ob" using up(2) by simp
  have c': "c' = c4'\<lparr>fc_plan := Some pl\<rparr>" using d(2) s(5) by simp
  from s(1) s(2,3) [unfolded e] s(4) c' up(1,3) show ?thesis by blast
qed

lemma store_keeps [simp]:
  "fc_config (store_identity ops i c) = fc_config c" "fc_config (with_tracker f c) = fc_config c"
  "fc_config (log_call call c) = fc_config c"
  "fc_calls (store_identity ops i c) = fc_calls c" "fc_calls (with_tracker f c) = fc_calls c"
  by (simp_all add: store_identity_def with_tracker_def log_call_def)

lemma forget_keeps [simp]: "fc_config (snd (forget_state ops c)) = fc_config c"
  unfolding forget_state_def by (rule then_go_keeps) simp_all

lemma refresh_keeps:
  "fc_config (snd (fw_refresh ops srv c)) = fc_config c" "fc_config (snd (fw_exists ops v c)) = fc_config c"
  "fc_config (snd (fw_state_map ops v ex c)) = fc_config c"
proof -
  let ?call = "Read_call (get_framework_tf_state (fc_tracker c)) (sent_identity ops (get_framework_identity (fc_tracker c)))"
  have forget: "fc_config (snd (then_go (forget_state ops d) (\<lambda>_ c. (Done n, c)))) = fc_config d"
    for d :: "('a, 'b) fw_client" and n :: tf_value
    by (rule then_go_keeps) simp_all
  show "fc_config (snd (fw_refresh ops srv c)) = fc_config c"
  proof (cases "sv_read srv ?call")
    case (Inr resp)
    have got: "fc_config (snd (then_go (wrap_outcome m (unmarshal_ptr ops (rd_state resp)), log_call ?call c)
        (\<lambda>v c. (Done v, store_identity ops (rd_identity resp) (with_tracker (set_framework_tf_state (rd_state resp)) c))))) = fc_config c"
      for m by (rule then_go_keeps) simp_all
    show ?thesis
      by (cases "get_fatal_diagnostics (rd_diags resp)") (simp_all add: fw_refresh_def Let_def Inr forget got)
  qed (simp add: fw_refresh_def Let_def)
  show "fc_config (snd (fw_exists ops v c)) = fc_config c"
    by (simp add: fw_exists_def split: option.split) (auto intro!: then_go_keeps [where h = fc_config] forget_keeps)
  show "fc_config (snd (fw_state_map ops v ex c)) = fc_config c"
    by (simp add: fw_state_map_def split: outcome.split any.split)
qed

text \<open>The refreshed state of an existing resource is the tracker's.\<close>

lemma refreshed_state:
  assumes "fw_refresh ops srv c = (Done v, c1)" "fw_exists ops v c1 = (Done True, c2)"
    and "fw_state_map ops v True c2 = (Done js, c3)"
  shows "unmarshal_ptr ops (get_framework_tf_state (fc_tracker c3)) = Done v"
proof -
  have c: "c2 = c1" "c3 = c2" "\<not> is_null v"
    using assms(2,3) by (auto simp: fw_exists_def fw_state_map_def then_go_Done split: if_splits option.splits outcome.splits any.splits)
  show ?thesis
    using assms(1) c(3) unfolding c(1,2)
    by (auto simp: fw_refresh_def then_go_Done Let_def store_identity_def with_tracker_def tracker_defs is_null_def
        split: sum.splits option.splits if_splits)
qed

text \<open>
  C20. No update loop in the Framework client: Observe of an existing resource reports it up to date
  exactly when no difference between the planned state and the state kept in the tracker asks for an
  update; values not known before the apply, values that were not set, and unset values below an
  attribute only the provider computes do not count.
\<close>

theorem fw_up_to_date_iff:
  assumes "fw_observe ops mr srv wd na mg c = (Done ob, mg', c')" and "ob_exists ob"
  shows "\<exists>pl v planned diffs. fc_plan c' = Some pl \<and>
    unmarshal_ptr ops (get_framework_tf_state (fc_tracker c')) = Done v \<and> unmarshal_ptr ops (pl_state pl) = Done planned \<and>
    fo_value_diffs ops planned v = Inr diffs \<and> ob_up_to_date ob = (\<forall>d \<in> set diffs. \<not> asks_for_update ops d)"
proof -
  have run: "\<not> (wd \<and> get_deleted (fc_tracker c))" using assms by (auto simp: fw_observe_def absent_observation_def)
  have ex: "ob_exists ob = True" using assms(2) by simp
  from observe_steps [OF assms(1) run, unfolded ex] obtain v c1 c2 js c3 pl has_diff c4 where s:
    "fw_refresh ops srv c = (Done v, c1)" "fw_exists ops v c1 = (Done True, c2)" "fw_state_map ops v True c2 = (Done js, c3)"
    "get_diff_plan_response ops srv v c3 = (Done (pl, has_diff), c4)" "c' = c4\<lparr>fc_plan := Some pl\<rparr>"
    "ob_up_to_date ob = (\<not> has_diff)" by blast
  from get_diff_Done [OF s(4)] refreshed_state [OF s(1-3)] s(5,6) show ?thesis by fastforce
qed

section \<open>What reaches the provider\<close>

text \<open>
  C19. A Framework update never replaces the resource. An observation makes one plan request; with the
  plan it keeps, Update fails without a request and changes nothing when some path that the provider's
  response requires to be replaced has different values in the observed state and in the planned state
  of that response; otherwise exactly one apply request is made, for that planned state, from the state
  in the tracker and with the configuration and the planned identity.
\<close>

theorem fw_update_never_replaces:
  assumes "get_diff_plan_response ops srv v c0 = (Done (pl, has_diff), c1)"
    and "fw_update ops mr srv' na mg (c1\<lparr>fc_plan := Some pl\<rparr>) = (r, mg', c')"
    and "fo_new_dynamic ops (resource_type ops) (fc_config c0) = Inr cfg"
  shows "\<exists>proposed resp planned.
    (let call = Plan_call (get_framework_tf_state (fc_tracker c0)) cfg proposed
                  (sent_identity ops (get_framework_identity (fc_tracker c0)))
     in fc_calls c1 = fc_calls c0 @ [call] \<and> sv_plan srv call = Inr resp) \<and>
    unmarshal_ptr ops (pl_state resp) = Done planned \<and>
    pl = resp\<lparr>pl_replace := filter (replaced_at ops v planned) (pl_replace resp)\<rparr> \<and>
    (if \<exists>p \<in> set (pl_replace resp). replaced_at ops v planned p
     then (\<exists>e. r = Failed e) \<and> mg' = mg \<and> c' = c1\<lparr>fc_plan := Some pl\<rparr>
     else fc_calls c' = fc_calls c1 @ [Apply_call (get_framework_tf_state (fc_tracker c0)) (pl_state resp) cfg
            (sent_identity ops (fc_planned_identity c1))])"
proof -
  from get_diff_Done [OF assms(1)] assms(3) obtain proposed resp planned where pl:
    "unmarshal_ptr ops (pl_state resp) = Done planned"
    "pl = resp\<lparr>pl_replace := filter (replaced_at ops v planned) (pl_replace resp)\<rparr>" "fc_config c1 = fc_config c0"
    "fc_tracker c1 = fc_tracker c0"
    "fc_calls c1 = fc_calls c0 @ [Plan_call (get_framework_tf_state (fc_tracker c0)) cfg proposed
      (sent_identity ops (get_framework_identity (fc_tracker c0)))]"
    "sv_plan srv (Plan_call (get_framework_tf_state (fc_tracker c0)) cfg proposed
      (sent_identity ops (get_framework_identity (fc_tracker c0)))) = Inr resp" by fastforce
  have none: "pl_replace pl = [] \<longleftrightarrow> (\<forall>p \<in> set (pl_replace resp). \<not> replaced_at ops v planned p)"
    by (simp add: pl(2) filter_empty_conv)
  let ?c = "c1\<lparr>fc_plan := Some pl\<rparr>"
  have calls: "fc_calls (snd (update_apply ops srv' ?c)) =
      fc_calls c1 @ [Apply_call (get_framework_tf_state (fc_tracker c1)) (pl_state pl) cfg (sent_identity ops (fc_planned_identity c1))]"
    unfolding update_apply_def
  proof (rule then_go_keeps)
    show "fc_calls (snd (apply_plan ops srv' ''cannot update resource'' ?c)) =
        fc_calls c1 @ [Apply_call (get_framework_tf_state (fc_tracker c1)) (pl_state pl) cfg (sent_identity ops (fc_planned_identity c1))]"
      using assms(3) pl(3) by (simp add: apply_plan_def log_call_def Let_def)
  qed (auto simp: Let_def split: option.split intro!: then_go_keeps [where h = fc_calls])
  show ?thesis
  proof (cases "pl_replace pl = []")
    case True
    then have "c' = snd (update_apply ops srv' ?c)"
      using assms(2) by (auto simp: fw_update_def plan_requires_replace_def split: prod.splits outcome.splits)
    with calls none True pl show ?thesis
      by (intro exI [of _ proposed] exI [of _ resp] exI [of _ planned]) (simp add: Let_def)
  next
    case False
    then have "(\<exists>e. r = Failed e) \<and> mg' = mg \<and> c' = c1\<lparr>fc_plan := Some pl\<rparr>"
      using assms(2) by (auto simp: fw_update_def plan_requires_replace_def)
    moreover have "\<exists>p \<in> set (pl_replace resp). replaced_at ops v planned p" using False none by simp
    ultimately show ?thesis using pl
      by (intro exI [of _ proposed] exI [of _ resp] exI [of _ planned]) (simp add: Let_def)
  qed
qed

section \<open>Creation, deletion and absence\<close>

text \<open>The library decodes the null value it encoded.\<close>

definition null_law :: "'d fw_ops \<Rightarrow> bool" where
  "null_law ops \<longleftrightarrow>
     (\<forall>d. fo_new_dynamic ops (resource_type ops) (Null_tv (resource_type ops)) = Inr d \<longrightarrow>
        fo_unmarshal ops (resource_type ops) d = Inr (Null_tv (resource_type ops)))"

lemma known_store [simp]:
  "has_known_state ops (fc_tracker (store_identity ops i c)) = has_known_state ops (fc_tracker c)"
  by (cases "fw_state (fc_tracker c)") (simp_all add: store_identity_def with_tracker_def has_known_state_def tracker_defs)

lemma forgotten:
  assumes "null_law ops" "forget_state ops c = (Done (), c')"
  shows "has_known_state ops (fc_tracker c') = Done False"
  using assms
  by (auto simp: forget_state_def then_go_Done null_law_def)
    (auto simp: has_known_state_def unmarshal_ptr_def with_tracker_def tracker_defs is_null_def)

lemma refreshed_null:
  assumes "null_law ops" "fw_refresh ops srv c = (Done v, c1)" "is_null v"
  shows "has_known_state ops (fc_tracker c1) = Done False"
proof -
  let ?call = "Read_call (get_framework_tf_state (fc_tracker c)) (sent_identity ops (get_framework_identity (fc_tracker c)))"
  from assms(2) obtain resp where r: "sv_read srv ?call = Inr resp"
    by (cases "sv_read srv ?call") (simp_all add: fw_refresh_def Let_def)
  consider "forget_state ops (log_call ?call c) = (Done (), c1)"
    | "unmarshal_ptr ops (rd_state resp) = Done v"
      "c1 = store_identity ops (rd_identity resp) (with_tracker (set_framework_tf_state (rd_state resp)) (log_call ?call c))"
    using assms(2) by (auto simp: fw_refresh_def Let_def r then_go_Done split: option.splits if_splits)
  then show ?thesis
  proof cases
    case 1
    then show ?thesis by (rule forgotten [OF assms(1)])
  next
    case 2
    then show ?thesis using assms(3)
      by (simp split: option.splits) (simp add: has_known_state_def with_tracker_def tracker_defs unmarshal_ptr_def split: option.splits)
  qed
qed

text \<open>
  Nothing is kept of an absent resource: after an Observe that found no resource, be it a null state,
  a diagnostic configured as not found, a missing identity or a state the configured check calls empty,
  the managed resource is untouched, the tracker holds no known state, so that the next connection
  reconstructs one, and no identity.
\<close>

lemma absent_keeps_nothing:
  assumes "null_law ops" and "fw_observe ops mr srv wd na mg c = (Done ob, mg', c')"
    and "\<not> ob_exists ob" "\<not> (wd \<and> get_deleted (fc_tracker c))"
  shows "mg' = mg \<and> has_known_state ops (fc_tracker c') = Done False \<and>
    sent_identity ops (get_framework_identity (fc_tracker c')) = None"
proof -
  have ex: "ob_exists ob = False" using assms(3) by simp
  from observe_steps [OF assms(2,4), unfolded ex] obtain v c1 c2 js c3 pl has_diff c4 where s:
    "fw_refresh ops srv c = (Done v, c1)" "fw_exists ops v c1 = (Done False, c2)" "fw_state_map ops v False c2 = (Done js, c3)"
    "get_diff_plan_response ops srv v c3 = (Done (pl, has_diff), c4)" "c' = c4\<lparr>fc_plan := Some pl\<rparr>" "mg' = mg" by blast
  have "has_known_state ops (fc_tracker c2) = Done False"
  proof (cases "is_null v")
    case True
    then show ?thesis using refreshed_null [OF assms(1) s(1)] s(2) by (simp add: fw_exists_def)
  next
    case False
    then have "forget_state ops c1 = (Done (), c2)"
      using s(2) by (auto simp: fw_exists_def then_go_Done split: option.splits if_splits)
    then show ?thesis by (rule forgotten [OF assms(1)])
  qed
  moreover have "c3 = store_identity ops None c2" using s(3) by (simp add: fw_state_map_def)
  moreover have "fc_tracker c' = fc_tracker c3" using get_diff_Done [OF s(4)] s(5) by auto
  ultimately show ?thesis using s(6)
    by (simp add: sent_identity_def) (simp add: store_identity_def with_tracker_def tracker_defs)
qed

text \<open>The first request of a new client's observation is the read of the tracker's state.\<close>

definition first_call :: "('d, 'i) fw_client \<Rightarrow> ('d, 'i) fw_call option" where
  "first_call c = (case fc_calls c of [] \<Rightarrow> None | x # xs \<Rightarrow> Some x)"

lemma first_call_store [simp]:
  "first_call (store_identity ops i c) = first_call c" "first_call (with_tracker f c) = first_call c"
  "first_call (c\<lparr>fc_plan := p\<rparr>) = first_call c" "first_call (c\<lparr>fc_planned_identity := i\<rparr>) = first_call c"
  by (simp_all add: first_call_def)

lemma first_call_kept: "first_call c = Some x \<Longrightarrow> first_call (log_call y c) = Some x"
  by (auto simp: first_call_def log_call_def split: list.splits)

lemma first_call_kept_by:
  assumes "first_call c = Some x"
  shows "first_call (snd (forget_state ops c)) = Some x" "first_call (snd (fw_exists ops v c)) = Some x"
    "first_call (snd (fw_state_map ops v ex c)) = Some x" "first_call (snd (get_diff_plan_response ops srv v c)) = Some x"
proof -
  note keeps = then_go_keeps [where h = "\<lambda>c. first_call c" and k = "Some x"]
  have forget: "first_call (snd (forget_state ops d)) = Some x" if "first_call d = Some x" for d
    unfolding forget_state_def using that by (auto intro!: keeps)
  then show "first_call (snd (forget_state ops c)) = Some x" using assms .
  show "first_call (snd (fw_exists ops v c)) = Some x"
    unfolding fw_exists_def using assms by (auto split: option.split intro!: keeps forget)
  show "first_call (snd (fw_state_map ops v ex c)) = Some x"
    using assms by (simp add: fw_state_map_def split: outcome.split any.split)
  show "first_call (snd (get_diff_plan_response ops srv v c)) = Some x"
    unfolding get_diff_plan_response_def using assms
    by (auto simp: Let_def split: option.split intro!: keeps first_call_kept)
qed

lemma observe_reads_first:
  assumes "fc_calls c = []"
  shows "first_call (snd (fw_observe_state ops srv c)) =
    Some (Read_call (get_framework_tf_state (fc_tracker c)) (sent_identity ops (get_framework_identity (fc_tracker c))))"
    (is "_ = Some ?call")
proof -
  note keeps = then_go_keeps [where h = "\<lambda>c. first_call c" and k = "Some ?call"]
  have log: "first_call (log_call ?call c) = Some ?call" using assms by (simp add: first_call_def log_call_def)
  then have "first_call (snd (fw_refresh ops srv c)) = Some ?call"
    unfolding fw_refresh_def Let_def
    by (auto split: sum.split option.split intro!: keeps first_call_kept_by(1))
  then show ?thesis
    unfolding fw_observe_state_def by (auto intro!: keeps first_call_kept_by)
qed

text \<open>
  C21. A failed creation is not forgotten: when the provider answers an apply with errors and a state
  that is not null, Create fails, the tracker keeps that state and the identity it had, the next
  connection does not reconstruct a state, and its Observe reads exactly the state returned.
\<close>

theorem fw_failed_create_remembered:
  assumes "fw_create ops mr srv na mg c = (r, mg1, c1)" and "fc_plan c = Some pl"
    and "fo_new_dynamic ops (resource_type ops) (fc_config c) = Inr cfg"
    and "sv_apply srv (Apply_call (get_framework_tf_state (fc_tracker c)) (pl_state pl) cfg
      (sent_identity ops (fc_planned_identity c))) = Inr resp"
    and "get_fatal_diagnostics (ap_diags resp) \<noteq> None" "ap_state resp = Some d"
    and "fo_unmarshal ops (resource_type ops) d = Inr v" "\<not> is_null v"
    and "fw_connect ops fk ann (fc_tracker c1) = (Done c2, t2)" "\<not> get_deleted (fc_tracker c)"
  shows "(\<exists>e. r = Failed e) \<and> mg1 = mg \<and> t2 = fc_tracker c1 \<and>
    (\<exists>more. fc_calls (snd (snd (fw_observe ops mr srv2 wd na mg c2))) =
      Read_call (Some d) (sent_identity ops (get_framework_identity (fc_tracker c))) # more)"
proof -
  have r: "\<exists>e. r = Failed e" "mg1 = mg" and c1: "fc_tracker c1 = set_framework_tf_state (Some d) (fc_tracker c)"
    using assms(1-6)
    by (auto simp: fw_create_def create_apply_def apply_plan_def Let_def log_call_def with_tracker_def split: option.splits)
  have known: "has_known_state ops (fc_tracker c1) = Done True"
    using assms(7,8) by (simp add: has_known_state_def c1 tracker_defs unmarshal_ptr_def)
  have t2: "t2 = fc_tracker c1" "fc_tracker c2 = t2" "fc_calls c2 = []"
    using assms(9) by (auto simp: fw_connect_def then_go_Done known split: option.splits)
  have calls: "\<exists>more. fc_calls (snd (fw_observe_state ops srv2 c2)) =
      Read_call (Some d) (sent_identity ops (get_framework_identity (fc_tracker c))) # more"
  proof -
    have "get_framework_tf_state (fc_tracker c2) = Some d" "get_framework_identity (fc_tracker c2) = get_framework_identity (fc_tracker c)"
      by (simp_all add: t2 c1 tracker_defs)
    then show ?thesis using observe_reads_first [OF t2(3), of ops srv2] by (auto simp: first_call_def split: list.splits)
  qed
  have "\<not> get_deleted (fc_tracker c2)" using assms(10) by (simp add: t2 c1 tracker_defs)
  then have "snd (snd (fw_observe ops mr srv2 wd na mg c2)) = snd (fw_observe_state ops srv2 c2)"
    by (auto simp: fw_observe_def split: prod.splits outcome.splits option.splits)
  with r t2 calls show ?thesis by simp
qed

text \<open>
  A deletion is final: after a Delete whose response has no error and a null state, a later connection
  keeps the mark and every Observe of the deleted resource reports it absent without a request.
\<close>

lemma fw_deleted_stays_deleted:
  assumes "fw_delete ops srv c = (Done (), c1)" and "unmarshal_ptr ops (get_framework_tf_state (fc_tracker c1)) = Done v" "is_null v"
    and "fw_connect ops fk ann (fc_tracker c1) = (Done c2, t2)"
  shows "fw_observe ops mr srv2 True na mg c2 = (Done absent_observation, mg, c2) \<and> fc_calls c2 = []"
proof -
  have "get_deleted (fc_tracker c1)"
    using assms(1-3)
    by (auto simp: fw_delete_def then_go_Done Let_def split: option.splits)
      (auto simp: store_identity_def with_tracker_def tracker_defs log_call_def split: if_splits)
  then have "get_deleted (fc_tracker c2)" "fc_calls c2 = []"
    using assms(4) by (auto simp: fw_connect_def then_go_Done tracker_defs split: if_splits)
  then show ?thesis by (simp add: fw_observe_def)
qed

section \<open>One update brings a resource up to date\<close>

text \<open>
  A provider that plans what is proposed, stores what is planned and reads back what is stored, and
  a library that decodes what it encoded and finds no difference between equal values.
\<close>

definition plain_server :: "('d, 'i) fw_server \<Rightarrow> bool" where
  "plain_server srv \<longleftrightarrow>
     (\<forall>st cfg proposed i. \<exists>j. sv_plan srv (Plan_call st cfg proposed i) =
        Inr \<lparr>pl_state = Some proposed, pl_identity = j, pl_replace = [], pl_diags = []\<rparr>) \<and>
     (\<forall>st planned cfg i. \<exists>j. sv_apply srv (Apply_call st planned cfg i) =
        Inr \<lparr>ap_state = planned, ap_identity = j, ap_diags = []\<rparr>) \<and>
     (\<forall>st i. \<exists>j. sv_read srv (Read_call st i) = Inr \<lparr>rd_state = st, rd_identity = j, rd_diags = []\<rparr>)"

definition codec_law :: "'d fw_ops \<Rightarrow> bool" where
  "codec_law ops \<longleftrightarrow>
     (\<forall>v d. fo_new_dynamic ops (resource_type ops) v = Inr d \<longrightarrow> fo_unmarshal ops (resource_type ops) d = Inr v) \<and>
     (\<forall>v. fo_value_diffs ops v v = Inr [])"

lemma plan_of_plain_server:
  assumes "plain_server srv" "codec_law ops" "get_diff_plan_response ops srv v c = (Done (pl, has_diff), c')"
  shows "\<exists>pv d. proposed_state (fo_paths ops) (fo_attrs ops) (fo_blocks ops) v (fc_config c) = Some pv \<and>
    pl_state pl = Some d \<and> fo_unmarshal ops (resource_type ops) d = Inr pv \<and> (pv = v \<longrightarrow> \<not> has_diff)"
proof -
  from get_diff_Done [OF assms(3)] obtain pv cfg d resp planned diffs where g:
    "proposed_state (fo_paths ops) (fo_attrs ops) (fo_blocks ops) v (fc_config c) = Some pv"
    "fo_new_dynamic ops (resource_type ops) pv = Inr d"
    "sv_plan srv (Plan_call (get_framework_tf_state (fc_tracker c)) cfg d
      (sent_identity ops (get_framework_identity (fc_tracker c)))) = Inr resp"
    "unmarshal_ptr ops (pl_state resp) = Done planned" "fo_value_diffs ops planned v = Inr diffs"
    "pl = resp\<lparr>pl_replace := filter (replaced_at ops v planned) (pl_replace resp)\<rparr>"
    "has_diff = (\<exists>d \<in> set diffs. asks_for_update ops d)" by blast
  have d: "pl_state resp = Some d"
    using assms(1) g(3) unfolding plain_server_def by (metis Inr_inject plan_response.select_convs(1))
  have u: "fo_unmarshal ops (resource_type ops) d = Inr pv" using assms(2) g(2) by (simp add: codec_law_def)
  with g(4) d have "planned = pv" by (simp add: unmarshal_ptr_def)
  with g(1,5-7) d u assms(2) show ?thesis by (auto simp: codec_law_def)
qed

lemma update_stores_plan:
  assumes "plain_server srv" "fc_plan c = Some pl" "fw_update ops mr srv na mg c = (Done (), mg', c')"
  shows "get_framework_tf_state (fc_tracker c') = pl_state pl"
proof -
  from assms(3) obtain m where u: "update_apply ops srv c = (Done m, c')"
    by (auto simp: fw_update_def split: option.splits prod.splits outcome.splits)
  then obtain cfg i resp c1 where a: "sv_apply srv (Apply_call (get_framework_tf_state (fc_tracker c)) (pl_state pl) cfg i) = Inr resp"
      "c' = store_identity ops (ap_identity resp) (with_tracker (set_framework_tf_state (ap_state resp)) c1)"
    using assms(2)
    by (auto simp: update_apply_def apply_plan_def then_go_Done Let_def split: option.splits if_splits)
  have "ap_state resp = pl_state pl"
    using assms(1) a(1) unfolding plain_server_def by (metis Inr_inject apply_response.select_convs(1))
  then show ?thesis by (simp add: a(2)) (simp add: store_identity_def with_tracker_def tracker_defs)
qed

lemma refresh_of_plain_server:
  assumes "plain_server srv" "fw_refresh ops srv c = (Done v, c1)" "has_resource_not_found_diagnostic ops [] = False"
  shows "unmarshal_ptr ops (get_framework_tf_state (fc_tracker c)) = Done v"
proof -
  obtain j where "sv_read srv (Read_call (get_framework_tf_state (fc_tracker c)) (sent_identity ops (get_framework_identity (fc_tracker c))))
      = Inr \<lparr>rd_state = get_framework_tf_state (fc_tracker c), rd_identity = j, rd_diags = []\<rparr>"
    using assms(1) unfolding plain_server_def by blast
  with assms(2,3) show ?thesis
    by (auto simp: fw_refresh_def Let_def then_go_Done get_fatal_diagnostics_def has_missing_resource_identity_diagnostic_def)
qed

text \<open>
  C1. Updates converge: for a schema without sets, a conforming configuration and a plain provider,
  whatever state the resource is in, once an observed difference was updated the next reconciliation
  with the same configuration observes the resource as up to date.
\<close>

theorem update_converges:
  assumes "plain_server srv" "codec_law ops" "has_resource_not_found_diagnostic ops [] = False"
    and "plain_schema (fo_attrs ops) (fo_blocks ops)" "has_type (fc_config c) (resource_type ops)" "elements_known (fc_config c)"
    and "\<not> is_null (fc_config c)"
    and "fw_observe ops mr srv wd na mg c = (Done ob1, mg1, c1)" "\<not> (wd \<and> get_deleted (fc_tracker c))"
    and "fw_update ops mr srv na mg1 c1 = (Done (), mg2, c2)"
    and "fw_connect ops fk ann (fc_tracker c2) = (Done c3, t3)" "fc_config c3 = fc_config c"
    and "fw_observe ops mr srv wd na mg2 c3 = (Done ob3, mg3, c4)" "\<not> (wd \<and> get_deleted (fc_tracker c3))"
  shows "ob_up_to_date ob3"
proof -
  from observe_steps [OF assms(8,9)] obtain v a1 a2 js a3 pl has_diff a4 where s:
    "fw_refresh ops srv c = (Done v, a1)" "fw_exists ops v a1 = (Done (ob_exists ob1), a2)"
    "fw_state_map ops v (ob_exists ob1) a2 = (Done js, a3)"
    "get_diff_plan_response ops srv v a3 = (Done (pl, has_diff), a4)" "c1 = a4\<lparr>fc_plan := Some pl\<rparr>" by blast
  have cfg: "fc_config a3 = fc_config c"
    using refresh_keeps(1) [of ops srv c] refresh_keeps(2) [of ops v a1] refresh_keeps(3) [of ops v "ob_exists ob1" a2] s(1-3)
    by simp
  from plan_of_plain_server [OF assms(1,2) s(4)] obtain pv d where p:
    "proposed_state (fo_paths ops) (fo_attrs ops) (fo_blocks ops) v (fc_config c) = Some pv"
    "pl_state pl = Some d" "fo_unmarshal ops (resource_type ops) d = Inr pv" unfolding cfg by blast
  have d: "get_framework_tf_state (fc_tracker c2) = Some d"
    using update_stores_plan [OF assms(1) _ assms(10), of pl] s(5) p(2) by simp
  then have "has_known_state ops (fc_tracker c2) = Done True"
    using proposal_not_null [OF p(1) assms(7)] p(3) by (simp add: has_known_state_def tracker_defs unmarshal_ptr_def)
  then have "fc_tracker c3 = fc_tracker c2"
    using assms(11) by (auto simp: fw_connect_def then_go_Done split: option.splits)
  with d have "get_framework_tf_state (fc_tracker c3) = Some d" by simp
  moreover from observe_steps [OF assms(13,14)] obtain w b1 b2 ks b3 pl3 has_diff3 b4 where t:
    "fw_refresh ops srv c3 = (Done w, b1)" "fw_exists ops w b1 = (Done (ob_exists ob3), b2)"
    "fw_state_map ops w (ob_exists ob3) b2 = (Done ks, b3)"
    "get_diff_plan_response ops srv w b3 = (Done (pl3, has_diff3), b4)" "ob_up_to_date ob3 = (\<not> has_diff3)" by blast
  ultimately have w: "w = pv" using refresh_of_plain_server [OF assms(1) t(1) assms(3)] p(3) by (simp add: unmarshal_ptr_def)
  have cfg3: "fc_config b3 = fc_config c"
    using refresh_keeps(1) [of ops srv c3] refresh_keeps(2) [of ops w b1] refresh_keeps(3) [of ops w "ob_exists ob3" b2] t(1-3) assms(12)
    by simp
  have "proposed_state (fo_paths ops) (fo_attrs ops) (fo_blocks ops) pv (fc_config c) = Some pv"
    by (rule proposal_again [OF assms(4) assms(5) [unfolded resource_type_def] assms(6) p(1)])
  with plan_of_plain_server [OF assms(1,2) t(4)] cfg3 w have "\<not> has_diff3" by auto
  with t(5) show ?thesis by simp
qed

section \<open>A concrete client\<close>

definition demo_fw :: "tf_value fw_ops" where
  "demo_fw =
     \<lparr>fo_object = ''ns/v'', fo_identity = True, fo_attrs = demo_attrs, fo_blocks = demo_blocks, fo_paths = demo_paths,
      fo_new_dynamic = (\<lambda>_ v. Inr v), fo_unmarshal = (\<lambda>_ v. Inr v),
      fo_value_diffs = (\<lambda>v w. Inr (if v = w then [] else [\<lparr>vd_path = [], vd_planned = Some v, vd_prior = Some w\<rparr>])),
      fo_attribute_at = (\<lambda>_. None), fo_type_at = (\<lambda>_. Inr (Prim_t String_pt)),
      fo_walk_to = (\<lambda>v p. if p = [] then Walked v else Walk_failed), fo_show_path = (\<lambda>_. ''name''), fo_not_found = None,
      fo_state_empty = None, fo_same_version = True, fo_status_paths = [], fo_fields = flat_lib, fo_observation = Inr,
      fo_marshal_err = (\<lambda>_. None)\<rparr>"

definition demo_server :: "tf_path list \<Rightarrow> diagnostic list \<Rightarrow> (tf_value, unit) fw_server" where
  "demo_server replaced errs =
     \<lparr>sv_read = (\<lambda>q. case q of Read_call st i \<Rightarrow> Inr \<lparr>rd_state = st, rd_identity = i, rd_diags = []\<rparr> | _ \<Rightarrow> Inl (Plain '''')),
      sv_plan = (\<lambda>q. case q of Plan_call st cfg proposed i \<Rightarrow>
          Inr \<lparr>pl_state = Some proposed, pl_identity = i, pl_replace = replaced, pl_diags = []\<rparr> | _ \<Rightarrow> Inl (Plain '''')),
      sv_apply = (\<lambda>q. case q of Apply_call st planned cfg i \<Rightarrow> Inr \<lparr>ap_state = planned, ap_identity = i, ap_diags = errs\<rparr>
          | _ \<Rightarrow> Inl (Plain ''''))\<rparr>"

definition demo_fw_client :: "tf_value \<Rightarrow> (tf_value, unit) fw_client" where
  "demo_fw_client v =
     \<lparr>fc_tracker = set_framework_tf_state (Some v) new_async_tracker, fc_config = demo_config, fc_plan = None,
      fc_planned_identity = None, fc_calls = []\<rparr>"

definition demo_fk :: "tf_value fw_connect_ops" where
  "demo_fk =
     \<lparr>fk_setup_err = None, fk_schema_err = None, fk_policies_enabled = True, fk_merged_parameters = (\<lambda>_. Inr []),
      fk_parameters = Inr [], fk_init_parameters = Inr [], fk_observation = Inr [], fk_for_provider = Inr [],
      fk_to_terraform = Inr, fk_sensitive = Inr, fk_set_identifier = (\<lambda>m. m), fk_injector = None, fk_get_id = (\<lambda>_. Inr ''''),
      fk_computed_identifiers = [], fk_json_marshal = (\<lambda>_. Inr ''''), fk_value_from_json = (\<lambda>_ _. Inr demo_config),
      fk_transform = (\<lambda>_. Inr), fk_provider_schema = Some (Inr (Object_t [])), fk_provider_config = [],
      fk_configure = (\<lambda>_. Inr [])\<rparr>"

lemma demo_fw_laws:
  "null_law demo_fw" "codec_law demo_fw" "plain_server (demo_server [] [])" "has_resource_not_found_diagnostic demo_fw [] = False"
  by (simp_all add: null_law_def codec_law_def plain_server_def demo_server_def demo_fw_def has_resource_not_found_diagnostic_def)

lemma demo_fw_schema:
  "plain_schema (fo_attrs demo_fw) (fo_blocks demo_fw)" "has_type (fc_config (demo_fw_client v)) (resource_type demo_fw)"
  "elements_known (fc_config (demo_fw_client v))" "\<not> is_null (fc_config (demo_fw_client v))"
  using demo_conforms by (simp_all add: demo_fw_def resource_type_def demo_fw_client_def)
    (simp add: demo_config_def demo_object_def is_null_def)

theorem fw_up_to_date_iff_witness:
  "\<exists>ob mg' c'. fw_observe demo_fw demo_ops (demo_server [] []) False False demo_managed (demo_fw_client demo_prior) = (Done ob, mg', c') \<and>
     \<not> ob_up_to_date ob \<and> (\<exists>planned v diffs. fo_value_diffs demo_fw planned v = Inr diffs \<and> (\<exists>d \<in> set diffs. asks_for_update demo_fw d))"
proof -
  let ?r = "fw_observe demo_fw demo_ops (demo_server [] []) False False demo_managed (demo_fw_client demo_prior)"
  let ?ob = "\<lparr>ob_exists = True, ob_up_to_date = False, ob_late_init = False, ob_conn = Some ()\<rparr>"
  have "fst ?r = Done ?ob" by code_simp
  then obtain mg' c' where r: "?r = (Done ?ob, mg', c')" by (metis prod.collapse)
  from fw_up_to_date_iff [OF r] r show ?thesis by fastforce
qed

theorem fw_update_never_replaces_witness:
  "\<exists>pl c1 e. get_diff_plan_response demo_fw (demo_server [[], []] []) demo_prior (demo_fw_client demo_prior) = (Done (pl, True), c1) \<and>
     fst (fw_update demo_fw demo_ops (demo_server [] []) False demo_managed (c1\<lparr>fc_plan := Some pl\<rparr>)) = Failed e"
proof -
  let ?g = "get_diff_plan_response demo_fw (demo_server [[], []] []) demo_prior (demo_fw_client demo_prior)"
  have "case fst ?g of Done (pl, d) \<Rightarrow> d \<and> pl_replace pl \<noteq> [] | _ \<Rightarrow> False" by code_simp
  then obtain pl c1 where g: "?g = (Done (pl, True), c1)" "pl_replace pl \<noteq> []"
    by (cases ?g) (auto split: outcome.splits)
  obtain r mg' c' where u: "fw_update demo_fw demo_ops (demo_server [] []) False demo_managed (c1\<lparr>fc_plan := Some pl\<rparr>) = (r, mg', c')"
    by (metis prod.collapse)
  have "fo_new_dynamic demo_fw (resource_type demo_fw) (fc_config (demo_fw_client demo_prior)) = Inr demo_config"
    by (simp add: demo_fw_def demo_fw_client_def)
  from fw_update_never_replaces [OF g(1) u this] g(2) have "\<exists>e. r = Failed e"
    by (auto simp: filter_empty_conv)
  with g(1) u show ?thesis by auto
qed

theorem fw_failed_create_remembered_witness:
  "\<exists>e c1. fw_create demo_fw demo_ops (demo_server [] [\<lparr>dg_severity = Severity_error, dg_summary = ''timeout'', dg_detail = ''''\<rparr>])
      False demo_managed ((demo_fw_client demo_prior)\<lparr>fc_plan := Some \<lparr>pl_state = Some demo_plan, pl_identity = None,
        pl_replace = [], pl_diags = []\<rparr>\<rparr>) = (Failed e, demo_managed, c1) \<and>
    snd (fw_connect demo_fw demo_fk None (fc_tracker c1)) = fc_tracker c1"
proof -
  let ?pl = "\<lparr>pl_state = Some demo_plan, pl_identity = None :: unit option, pl_replace = [], pl_diags = []\<rparr>"
  let ?c = "(demo_fw_client demo_prior)\<lparr>fc_plan := Some ?pl\<rparr>"
  let ?ds = "[\<lparr>dg_severity = Severity_error, dg_summary = ''timeout'', dg_detail = ''''\<rparr>]"
  let ?resp = "\<lparr>ap_state = Some demo_plan, ap_identity = None :: unit option, ap_diags = ?ds\<rparr>"
  obtain r mg1 c1 where r: "fw_create demo_fw demo_ops (demo_server [] ?ds) False demo_managed ?c = (r, mg1, c1)"
    by (metis prod.collapse)
  have fc: "fc_plan ?c = Some ?pl" by simp
  have cfg: "fo_new_dynamic demo_fw (resource_type demo_fw) (fc_config ?c) = Inr demo_config"
    by (simp add: demo_fw_def demo_fw_client_def)
  have resp: "sv_apply (demo_server [] ?ds) (Apply_call (get_framework_tf_state (fc_tracker ?c)) (pl_state ?pl) demo_config
      (sent_identity demo_fw (fc_planned_identity ?c))) = Inr ?resp"
    by (simp add: demo_server_def demo_fw_client_def sent_identity_def)
  have fatal: "get_fatal_diagnostics (ap_diags ?resp) \<noteq> None" by (simp add: get_fatal_diagnostics_def is_fatal_def)
  have state: "ap_state ?resp = Some demo_plan" "fo_unmarshal demo_fw (resource_type demo_fw) demo_plan = Inr demo_plan"
    "\<not> is_null demo_plan" by (simp_all add: demo_fw_def) code_simp
  have c1: "fc_tracker c1 = set_framework_tf_state (Some demo_plan) (fc_tracker ?c)"
    using r fc cfg resp fatal
    by (auto simp: fw_create_def create_apply_def apply_plan_def Let_def log_call_def with_tracker_def split: option.splits)
  have "case fst (fw_connect demo_fw demo_fk None (set_framework_tf_state (Some demo_plan) (fc_tracker ?c))) of Done c2 \<Rightarrow> True | _ \<Rightarrow> False"
    by code_simp
  then obtain c2 t2 where k: "fw_connect demo_fw demo_fk None (fc_tracker c1) = (Done c2, t2)"
    unfolding c1 [symmetric] by (cases "fw_connect demo_fw demo_fk None (fc_tracker c1)") (auto split: outcome.splits)
  have "\<not> get_deleted (fc_tracker ?c)" by (simp add: demo_fw_client_def tracker_defs new_async_tracker_def)
  from fw_failed_create_remembered [OF r fc cfg resp fatal state k this] r k show ?thesis by auto
qed

theorem update_converges_witness:
  "let r1 = fw_observe demo_fw demo_ops (demo_server [] []) False False demo_managed (demo_fw_client demo_prior);
       r2 = fw_update demo_fw demo_ops (demo_server [] []) False (fst (snd r1)) (snd (snd r1))
   in fst r2 = Done () \<and>
     (case fst (fw_connect demo_fw demo_fk None (fc_tracker (snd (snd r2)))) of
        Done c3 \<Rightarrow> (case fst (fw_observe demo_fw demo_ops (demo_server [] []) False False (fst (snd r2)) c3) of
                     Done ob \<Rightarrow> ob_up_to_date ob | _ \<Rightarrow> False)
      | _ \<Rightarrow> False)"
proof -
  obtain q1 mg1 c1 where r1: "fw_observe demo_fw demo_ops (demo_server [] []) False False demo_managed (demo_fw_client demo_prior) = (q1, mg1, c1)"
    by (metis prod.collapse)
  obtain q2 mg2 c2 where r2: "fw_update demo_fw demo_ops (demo_server [] []) False mg1 c1 = (q2, mg2, c2)"
    by (metis prod.collapse)
  let ?r1 = "fw_observe demo_fw demo_ops (demo_server [] []) False False demo_managed (demo_fw_client demo_prior)"
  let ?r2 = "fw_update demo_fw demo_ops (demo_server [] []) False (fst (snd ?r1)) (snd (snd ?r1))"
  have "case fst ?r1 of Done ob \<Rightarrow> True | _ \<Rightarrow> False" by code_simp
  then obtain ob1 where q1: "q1 = Done ob1" using r1 by (cases q1) auto
  have "fst ?r2 = Done ()" by code_simp
  then have q2: "q2 = Done ()" using r1 r2 by simp
  have "case fst (fw_connect demo_fw demo_fk None (fc_tracker (snd (snd ?r2)))) of
      Done c3 \<Rightarrow> fc_config c3 = demo_config \<and> \<not> get_deleted (fc_tracker c3) \<and>
        (case fst (fw_observe demo_fw demo_ops (demo_server [] []) False False (fst (snd ?r2)) c3) of Done ob \<Rightarrow> True | _ \<Rightarrow> False)
    | _ \<Rightarrow> False" by code_simp
  then obtain c3 t3 where k0: "fw_connect demo_fw demo_fk None (fc_tracker c2) = (Done c3, t3)" "fc_config c3 = demo_config"
      "case fst (fw_observe demo_fw demo_ops (demo_server [] []) False False mg2 c3) of Done ob \<Rightarrow> True | _ \<Rightarrow> False"
    using r1 r2 by (cases "fw_connect demo_fw demo_fk None (fc_tracker c2)") (simp split: outcome.splits)
  obtain q3 mg3 c4 where r3: "fw_observe demo_fw demo_ops (demo_server [] []) False False mg2 c3 = (q3, mg3, c4)"
    by (metis prod.collapse)
  with k0(3) obtain ob3 where k: "fw_connect demo_fw demo_fk None (fc_tracker c2) = (Done c3, t3)" "fc_config c3 = demo_config"
      "fw_observe demo_fw demo_ops (demo_server [] []) False False mg2 c3 = (Done ob3, mg3, c4)"
    using k0(1,2) by (cases q3) auto
  have "ob_up_to_date ob3"
    by (rule update_converges [OF demo_fw_laws(3,2,4) demo_fw_schema r1 [unfolded q1] _ r2 [unfolded q2] k(1) _ k(3)])
      (use k(2) in \<open>simp_all add: demo_fw_client_def\<close>)
  with r1 r2 q2 k show ?thesis by simp
qed

end
