(* ===== verification/NumberFacts.thy ===== *)
theory NumberFacts
  imports Complex_Main TfConversion
begin

text \<open>
  The numbers of a Terraform state as Go numbers: the narrowing of a \<open>big.Float\<close> in \<open>TfConversion\<close>
  is exact on integers and otherwise the rounding of IEEE 754, specified here over the reals.
\<close>

section \<open>Counting digits and rounding\<close>


lemma bit_count_less: "n < 2 ^ bit_count n"
proof (induction n rule: bit_count.induct)
  case (1 n)
  show ?case
  proof (cases "n = 0")
    case False
    then have "n div 2 < 2 ^ bit_count (n div 2)" by (rule 1)
    with False show ?thesis by (subst bit_count.simps) simp
  qed (simp add: bit_count.simps)
qed

lemma bit_count_le: "n < 2 ^ k \<Longrightarrow> bit_count n \<le> k"
proof (induction n arbitrary: k rule: bit_count.induct)
  case (1 n)
  show ?case
  proof (cases "n = 0")
    case False
    with 1(2) obtain j where k: "k = Suc j" by (cases k) auto
    with 1(2) have "n div 2 < 2 ^ j" by simp
    from 1(1) [OF False this] False k show ?thesis by (subst bit_count.simps) simp
  qed (simp add: bit_count.simps)
qed

lemma bit_count_ge: "n \<noteq> 0 \<Longrightarrow> 2 ^ (bit_count n - 1) \<le> n"
proof (rule ccontr)
  assume n: "n \<noteq> 0" and "\<not> 2 ^ (bit_count n - 1) \<le> n"
  then have "bit_count n \<le> bit_count n - 1" by (intro bit_count_le) simp
  with n show False by (subst (asm) (1 2) bit_count.simps) simp
qed

text \<open>Rounding is off by at most half a unit, and by exactly half a unit only at an even result.\<close>

lemma round_half_even_near:
  "2 * \<bar>int (round_half_even a k) * 2 ^ k - int a\<bar> \<le> 2 ^ k \<and>
   (2 * \<bar>int (round_half_even a k) * 2 ^ k - int a\<bar> = 2 ^ k \<longrightarrow> even (round_half_even a k))"
proof -
  obtain q r p where qr: "q = a div 2 ^ k" "r = a mod 2 ^ k" "p = (2 :: nat) ^ k" by simp
  have a: "a = q * p + r" unfolding qr by (rule div_mult_mod_eq [symmetric])
  have r: "r < p" unfolding qr by (rule mod_less_divisor) simp
  have p: "int p = 2 ^ k" by (simp add: qr(3))
  have res: "round_half_even a k = (if 2 * r < p \<or> 2 * r = p \<and> even q then q else Suc q)"
    by (simp add: round_half_even_def Let_def qr)
  consider "round_half_even a k = q" "2 * r \<le> p" "2 * r = p \<Longrightarrow> even q"
    | "round_half_even a k = Suc q" "p \<le> 2 * r" "2 * r = p \<Longrightarrow> odd q"
    using res by (cases "2 * r < p \<or> 2 * r = p \<and> even q") auto
  then have "2 * \<bar>int (round_half_even a k) * int p - int a\<bar> \<le> int p \<and>
    (2 * \<bar>int (round_half_even a k) * int p - int a\<bar> = int p \<longrightarrow> even (round_half_even a k))"
  proof cases
    case 1
    then show ?thesis by (auto simp: a)
  next
    case 2
    then show ?thesis using r by (auto simp: a algebra_simps)
  qed
  then show ?thesis by (simp add: p)
qed

lemma round_half_even_bound: "a < 2 ^ (k + b) \<Longrightarrow> round_half_even a k \<le> 2 ^ b"
proof -
  assume "a < 2 ^ (k + b)"
  then have "a div 2 ^ k < 2 ^ b" by (simp add: less_mult_imp_div_less power_add mult.commute)
  then show ?thesis by (auto simp: round_half_even_def Let_def)
qed

lemma round_half_even_ge: "2 ^ (k + b) \<le> a \<Longrightarrow> 2 ^ b \<le> round_half_even a k"
proof -
  assume "2 ^ (k + b) \<le> a"
  then have "2 ^ b \<le> a div 2 ^ k" by (simp add: power_add less_eq_div_iff_mult_less_eq mult.commute)
  then show ?thesis by (auto simp: round_half_even_def Let_def)
qed

text \<open>
  The parts of a rounding. The unit of the result is that of the number when it is representable,
  and otherwise the larger of that of a normal number of 53 bits and that of the denormals.
\<close>

lemma to_float64_parts:
  assumes "to_float64 m e = (Finite n g, exact)"
  shows "2 * \<bar>n * 2 ^ nat (g - e) - m\<bar> \<le> 2 ^ nat (g - e)"
    and "2 * \<bar>n * 2 ^ nat (g - e) - m\<bar> = 2 ^ nat (g - e) \<Longrightarrow> even n"
    and "e \<le> g" and "- 1074 \<le> g" and "\<bar>n\<bar> \<le> 2 ^ 53" and "\<bar>n\<bar> < 2 ^ nat (1024 - g)"
    and "g = e \<and> n = m \<and> \<bar>m\<bar> < 2 ^ 53 \<or> g = - 1074 \<or>
         e < g \<and> 2 ^ (52 + nat (g - e)) \<le> \<bar>m\<bar> \<and> 2 ^ 52 \<le> \<bar>n\<bar>"
proof -
  obtain a where a: "a = nat \<bar>m\<bar>" by simp
  obtain f where f: "f = max (e + int (bit_count a) - 53) (- 1074)" by simp
  obtain k where k: "k = nat (f - e)" by simp
  obtain q where q: "q = (if f \<le> e then a else round_half_even a k)" by simp
  have small: "a < 2 ^ (j + 53)" if "bit_count a \<le> j + 53" for j
  proof -
    from that have "(2 :: nat) ^ bit_count a \<le> 2 ^ (j + 53)" by (rule power_increasing) simp
    with bit_count_less [of a] show ?thesis by (rule less_le_trans)
  qed
  have res: "n = sgn m * int q" "g = (if f \<le> e then e else f)" "q = 0 \<or> g + int (bit_count q) \<le> 1024"
    using assms [unfolded to_float64_def Let_def, folded a, folded f, folded k, folded q]
    by (auto split: if_splits)
  have low: "- 1074 \<le> f" "e + int (bit_count a) - 53 \<le> f" by (simp_all add: f)
  have zero: "q = 0" if "m = 0" using that by (simp add: q a round_half_even_def)
  have n: "\<bar>n\<bar> = int q" using res(1) zero by (cases "m = 0") (simp_all add: abs_mult)
  have fits: "\<bar>n\<bar> < 2 ^ nat (1024 - g)"
  proof (cases "q = 0")
    case False
    with res(3) have "bit_count q \<le> nat (1024 - g)" by simp
    then have "(2 :: nat) ^ bit_count q \<le> 2 ^ nat (1024 - g)" by (rule power_increasing) simp
    with bit_count_less [of q] have "q < 2 ^ nat (1024 - g)" by (rule less_le_trans)
    then have "int q < int (2 ^ nat (1024 - g))" by (simp only: of_nat_less_iff)
    then show ?thesis by (simp add: n)
  qed (simp add: n)
  show "\<bar>n\<bar> < 2 ^ nat (1024 - g)" by (rule fits)
  show "- 1074 \<le> g" "e \<le> g" using res(2) low(1) by auto
  have "2 * \<bar>n * 2 ^ nat (g - e) - m\<bar> \<le> 2 ^ nat (g - e) \<and>
    (2 * \<bar>n * 2 ^ nat (g - e) - m\<bar> = 2 ^ nat (g - e) \<longrightarrow> even n) \<and> \<bar>n\<bar> \<le> 2 ^ 53 \<and>
    (g = e \<and> n = m \<and> \<bar>m\<bar> < 2 ^ 53 \<or> g = - 1074 \<or>
     e < g \<and> 2 ^ (52 + nat (g - e)) \<le> \<bar>m\<bar> \<and> 2 ^ 52 \<le> \<bar>n\<bar>)"
  proof (cases "f \<le> e")
    case True
    then have "bit_count a \<le> 0 + 53" using low(2) by simp
    then have "a < 2 ^ (0 + 53)" by (rule small)
    then have "\<bar>m\<bar> < 2 ^ 53" by (simp add: a nat_less_iff)
    moreover have "n = m" using True by (cases "0 \<le> m") (simp_all add: res(1) q a sgn_if)
    ultimately show ?thesis using res(2) True by simp
  next
    case False
    then have g: "g = f" and q': "q = round_half_even a k" using res(2) q by simp_all
    have dist: "\<bar>n * 2 ^ k - m\<bar> = \<bar>int q * 2 ^ k - int a\<bar>"
    proof (cases m "0 :: int" rule: linorder_cases)
      case less
      then have "n * 2 ^ k - m = - (int q * 2 ^ k - int a)" by (simp add: res(1) a)
      then show ?thesis by (simp only: abs_minus_cancel)
    next
      case equal
      then show ?thesis by (simp add: res(1) a zero)
    qed (simp add: res(1) a)
    have parity: "even n \<longleftrightarrow> even q" using n by (metis dvd_abs_iff even_of_nat)
    have "bit_count a \<le> k + 53" using False low(2) k by linarith
    then have "q \<le> 2 ^ 53" unfolding q' by (intro round_half_even_bound small)
    then have "int q \<le> int (2 ^ 53)" by (simp only: of_nat_le_iff)
    moreover have "g = - 1074 \<or> e < g \<and> 2 ^ (52 + nat (g - e)) \<le> \<bar>m\<bar> \<and> 2 ^ 52 \<le> \<bar>n\<bar>"
    proof (cases "f = - 1074")
      case normal: False
      then have bits: "bit_count a - 1 = 52 + k" "0 < bit_count a" using f False k by linarith+
      from bits(2) have "a \<noteq> 0" by (metis bit_count.simps less_irrefl)
      from bit_count_ge [OF this] have a_ge: "2 ^ (k + 52) \<le> a" by (simp only: bits(1) add.commute)
      from round_half_even_ge [OF a_ge] have "2 ^ 52 \<le> q" by (simp only: q')
      then have "int (2 ^ 52) \<le> int q" by (simp only: of_nat_le_iff)
      moreover from a_ge have "int (2 ^ (k + 52)) \<le> int a" by (simp only: of_nat_le_iff)
      moreover have "int a = \<bar>m\<bar>" by (simp add: a)
      ultimately show ?thesis using False by (simp add: g n k add.commute)
    qed (simp add: g)
    ultimately show ?thesis
      using round_half_even_near [of a k] parity unfolding g k [symmetric] dist n q' [symmetric] by simp
  qed
  then show "2 * \<bar>n * 2 ^ nat (g - e) - m\<bar> \<le> 2 ^ nat (g - e)"
    "2 * \<bar>n * 2 ^ nat (g - e) - m\<bar> = 2 ^ nat (g - e) \<Longrightarrow> even n" "\<bar>n\<bar> \<le> 2 ^ 53"
    "g = e \<and> n = m \<and> \<bar>m\<bar> < 2 ^ 53 \<or> g = - 1074 \<or>
     e < g \<and> 2 ^ (52 + nat (g - e)) \<le> \<bar>m\<bar> \<and> 2 ^ 52 \<le> \<bar>n\<bar>" by blast+
qed

section \<open>The specification\<close>

text \<open>
  The specification, over the reals: the number \<open>m * 2 ^ e\<close>, the finite values of IEEE 754 binary64,
  and the rounding to the nearest of them, to the even one of two equally near ones.
\<close>

definition binary_value :: "int \<Rightarrow> int \<Rightarrow> real" where
  "binary_value m e = of_int m * 2 powi e"

definition is_double :: "real \<Rightarrow> bool" where
  "is_double d \<longleftrightarrow> (\<exists>n f. d = binary_value n f \<and> \<bar>n\<bar> < 2 ^ 53 \<and> - 1074 \<le> f \<and> f \<le> 971)"

definition nearest_double :: "int \<Rightarrow> int \<Rightarrow> real \<Rightarrow> bool" where
  "nearest_double n f x \<longleftrightarrow> is_double (binary_value n f) \<and>
     (\<forall>d. is_double d \<longrightarrow> \<bar>binary_value n f - x\<bar> < \<bar>d - x\<bar> \<or>
        d = binary_value n f \<or> even n \<and> \<bar>binary_value n f - x\<bar> = \<bar>d - x\<bar>)"

lemma binary_value_scale: "f \<le> g \<Longrightarrow> binary_value n g = binary_value (n * 2 ^ nat (g - f)) f"
proof -
  assume "f \<le> g"
  then have "(2 :: real) powi g = 2 powi (f + int (nat (g - f)))" using \<open>f \<le> g\<close> by simp
  also have "\<dots> = 2 powi f * 2 powi int (nat (g - f))" by (rule power_int_add) simp
  also have "2 powi int (nat (g - f)) = (2 :: real) ^ nat (g - f)" by (rule power_int_of_nat)
  finally show ?thesis by (simp add: binary_value_def)
qed

lemma binary_value_diff: "\<bar>binary_value a e - binary_value b e\<bar> = of_int \<bar>a - b\<bar> * 2 powi e"
  by (simp add: binary_value_def left_diff_distrib [symmetric] abs_mult)

lemma binary_value_abs: "\<bar>binary_value a e\<bar> = of_int \<bar>a\<bar> * 2 powi e"
  by (simp add: binary_value_def abs_mult)

lemma binary_value_le [simp]: "binary_value a e \<le> binary_value b e \<longleftrightarrow> a \<le> b"
  by (simp add: binary_value_def)

lemma binary_value_abs': "\<bar>binary_value a e\<bar> = binary_value \<bar>a\<bar> e"
  by (simp add: binary_value_def abs_mult)

lemma closest_multiple:
  fixes n m p j :: int
  assumes near: "2 * \<bar>n * p - m\<bar> \<le> p" and tie: "2 * \<bar>n * p - m\<bar> = p \<Longrightarrow> even n" and p: "0 < p"
  shows "\<bar>n * p - m\<bar> < \<bar>j * p - m\<bar> \<or> j = n \<or> even n \<and> \<bar>n * p - m\<bar> = \<bar>j * p - m\<bar>"
proof (cases "j = n")
  case False
  then have "1 * p \<le> \<bar>j - n\<bar> * p" using p by (intro mult_right_mono) linarith+
  then have "p \<le> \<bar>j * p - n * p\<bar>" using p by (simp add: left_diff_distrib [symmetric] abs_mult)
  also have "\<dots> \<le> \<bar>j * p - m\<bar> + \<bar>n * p - m\<bar>" by linarith
  finally have "2 * \<bar>n * p - m\<bar> < p \<and> \<bar>n * p - m\<bar> < \<bar>j * p - m\<bar> \<or>
    2 * \<bar>n * p - m\<bar> = p \<and> \<bar>n * p - m\<bar> \<le> \<bar>j * p - m\<bar>"
    using near by (cases "2 * \<bar>n * p - m\<bar> = p") auto
  with tie show ?thesis by auto
qed simp

text \<open>What rounds to a finite double is the nearest one.\<close>

lemma to_float64_is_double:
  assumes "to_float64 m e = (Finite n g, exact)" and e: "e < 0"
  shows "is_double (binary_value n g)"
proof -
  note parts = to_float64_parts [OF assms(1)]
  show ?thesis
  proof (cases "\<bar>n\<bar> < 2 ^ 53 \<and> g \<le> 971")
    case True
    then show ?thesis using parts(4) by (auto simp: is_double_def)
  next
    case False
    then consider "\<bar>n\<bar> = 2 ^ 53" | "971 < g" using parts(5) by linarith
    then show ?thesis
    proof cases
      case 1
      then have "(2 :: int) ^ 53 < 2 ^ nat (1024 - g)" using parts(6) by simp
      then have "53 < nat (1024 - g)" by (rule power_less_imp_less_exp [rotated]) simp
      then have "g + 1 \<le> 971" by linarith
      moreover have "n = sgn n * 2 ^ 52 * 2 ^ nat (g + 1 - g)"
        using 1 by (auto simp: abs_if sgn_if split: if_splits)
      then have "binary_value n g = binary_value (sgn n * 2 ^ 52) (g + 1)"
        using binary_value_scale [of g "g + 1" "sgn n * 2 ^ 52"] by simp
      moreover have "\<bar>sgn n * 2 ^ 52\<bar> < (2 :: int) ^ 53" by (simp add: abs_mult sgn_if)
      ultimately show ?thesis using parts(4) unfolding is_double_def by fastforce
    next
      case 2
      then have "2 ^ 52 \<le> \<bar>n\<bar>" using parts(7) e by auto
      with parts(6) have "(2 :: int) ^ 52 < 2 ^ nat (1024 - g)" by linarith
      then have "52 < nat (1024 - g)" by (rule power_less_imp_less_exp [rotated]) simp
      with 2 show ?thesis by linarith
    qed
  qed
qed

lemma to_float64_nearest:
  assumes "to_float64 m e = (Finite n g, exact)" and e: "e < 0"
  shows "nearest_double n g (binary_value m e)"
  unfolding nearest_double_def
proof (intro conjI allI impI)
  note parts = to_float64_parts [OF assms(1)]
  show "is_double (binary_value n g)" by (rule to_float64_is_double [OF assms])
  obtain p where p: "p = (2 :: int) ^ nat (g - e)" by simp
  have u: "(0 :: real) < 2 powi e" by simp
  have mult: "\<bar>binary_value n g - binary_value m e\<bar> < \<bar>binary_value j g - binary_value m e\<bar> \<or> j = n \<or>
    even n \<and> \<bar>binary_value n g - binary_value m e\<bar> = \<bar>binary_value j g - binary_value m e\<bar>" for j
    using closest_multiple [OF parts(1,2), of j] u
    by (auto simp: binary_value_scale [OF parts(3)] binary_value_diff simp del: of_int_abs)
  fix d assume "is_double d"
  then obtain n' f where d: "d = binary_value n' f" "\<bar>n'\<bar> < 2 ^ 53" "- 1074 \<le> f" by (auto simp: is_double_def)
  show "\<bar>binary_value n g - binary_value m e\<bar> < \<bar>d - binary_value m e\<bar> \<or> d = binary_value n g \<or>
    even n \<and> \<bar>binary_value n g - binary_value m e\<bar> = \<bar>d - binary_value m e\<bar>"
  proof (cases "g \<le> f")
    case True
    from mult [of "n' * 2 ^ nat (f - g)"] show ?thesis by (auto simp: d(1) binary_value_scale [OF True])
  next
    case False
    then consider "g = e" "n = m" | "e < g" "2 ^ (52 + nat (g - e)) \<le> \<bar>m\<bar>" using parts(7) d(3) by linarith
    then show ?thesis
    proof cases
      case 2
      have "\<bar>d\<bar> < of_int (2 ^ 53) * 2 powi f"
        unfolding d(1) binary_value_abs using d(2) by (intro mult_strict_right_mono) (simp_all only: of_int_less_iff, simp)
      also have "\<dots> = binary_value (2 ^ 52) (f + 1)" by (simp add: binary_value_def power_int_add)
      also have "\<dots> \<le> binary_value (2 ^ 52) g"
        unfolding binary_value_def using False by (intro mult_left_mono power_int_increasing) simp_all
      also have "\<dots> = of_int (2 ^ 52 * p) * 2 powi e"
        unfolding binary_value_scale [OF parts(3), of "2 ^ 52"] p by (rule binary_value_def)
      finally have small: "\<bar>d\<bar> < of_int (2 ^ 52 * p) * 2 powi e" .
      have m: "2 ^ 52 * p \<le> \<bar>m\<bar>" using 2(2) by (simp only: p power_add)
      have "\<bar>sgn m * 2 ^ 52 * p - m\<bar> = \<bar>m\<bar> - 2 ^ 52 * p"
        using m by (cases m "0 :: int" rule: linorder_cases) (simp_all add: p)
      then have "\<bar>binary_value (sgn m * 2 ^ 52) g - binary_value m e\<bar> = of_int (\<bar>m\<bar> - 2 ^ 52 * p) * 2 powi e"
        by (simp only: binary_value_scale [OF parts(3)] binary_value_diff p)
      also have "\<dots> = \<bar>binary_value m e\<bar> - of_int (2 ^ 52 * p) * 2 powi e"
        by (simp only: of_int_diff left_diff_distrib binary_value_abs)
      also have "\<dots> < \<bar>binary_value m e\<bar> - \<bar>d\<bar>" using small by simp
      also have "\<dots> \<le> \<bar>d - binary_value m e\<bar>" by linarith
      finally have "\<bar>binary_value (sgn m * 2 ^ 52) g - binary_value m e\<bar> < \<bar>d - binary_value m e\<bar>" .
      with mult [of "sgn m * 2 ^ 52"] show ?thesis by auto
    qed simp
  qed
qed

text \<open>What overflows is at least halfway from the greatest double to \<open>2 ^ 1024\<close>.\<close>

definition overflow_threshold :: real where
  "overflow_threshold = binary_value (2 ^ 54 - 1) 970"

lemma round_half_even_reaches:
  assumes "even Q" "0 < Q"
  shows "Q \<le> round_half_even a k \<longleftrightarrow> (2 * Q - 1) * 2 ^ k \<le> 2 * a"
proof -
  obtain q r p where qr: "q = a div 2 ^ k" "r = a mod 2 ^ k" "p = (2 :: nat) ^ k" by simp
  have a: "a = q * p + r" unfolding qr by (rule div_mult_mod_eq [symmetric])
  have r: "r < p" unfolding qr by (rule mod_less_divisor) simp
  obtain w where w: "w = round_half_even a k" by simp
  have res: "w = (if 2 * r < p \<or> 2 * r = p \<and> even q then q else Suc q)"
    by (simp add: round_half_even_def Let_def qr w)
  consider "Q \<le> q" | "Q = Suc q" | "Q \<ge> q + 2" by linarith
  then have "Q \<le> w \<longleftrightarrow> (2 * Q - 1) * p \<le> 2 * a"
  proof cases
    case 1
    then have "(2 * Q - 1) * p \<le> (2 * q) * p" by (intro mult_right_mono) simp_all
    also have "\<dots> \<le> 2 * a" by (simp add: a)
    finally have "(2 * Q - 1) * p \<le> 2 * a" .
    with 1 show ?thesis by (simp add: res)
  next
    case 2
    with assms(1) have "odd q" by simp
    have "(2 * Q - 1) * p = 2 * (q * p) + p" using 2 by (simp add: algebra_simps)
    with 2 \<open>odd q\<close> show ?thesis by (auto simp: res a)
  next
    case 3
    then have "(2 * q + 3) * p \<le> (2 * Q - 1) * p" by (intro mult_right_mono) simp_all
    moreover have "2 * a < (2 * q + 3) * p" using r by (simp add: a algebra_simps)
    ultimately have "\<not> (2 * Q - 1) * p \<le> 2 * a" by linarith
    with 3 show ?thesis by (simp add: res)
  qed
  then show ?thesis by (simp only: qr(3) w)
qed

lemma bit_count_le_iff: "bit_count n \<le> k \<longleftrightarrow> n < 2 ^ k"
proof
  assume "bit_count n \<le> k"
  then have "(2 :: nat) ^ bit_count n \<le> 2 ^ k" by (rule power_increasing) simp
  with bit_count_less [of n] show "n < 2 ^ k" by (rule less_le_trans)
qed (rule bit_count_le)

lemma to_float64_infinite:
  assumes e: "e < 0" and a: "a = nat \<bar>m\<bar>" and K: "K = nat (970 - e)"
  shows "fst (to_float64 m e) = Infinite \<longleftrightarrow> (2 ^ 54 - 1) * 2 ^ K \<le> a"
proof -
  obtain f where f: "f = max (e + int (bit_count a) - 53) (- 1074)" by simp
  obtain k where k: "k = nat (f - e)" by simp
  obtain q where q: "q = (if f \<le> e then a else round_half_even a k)" by simp
  have res: "fst (to_float64 m e) = Infinite \<longleftrightarrow> q \<noteq> 0 \<and> 1024 < (if f \<le> e then e else f) + int (bit_count q)"
    unfolding to_float64_def Let_def a [symmetric] f [symmetric] k [symmetric] q [symmetric] by simp
  have cancel: "(2 ^ 54 - 1) * 2 ^ K \<le> a \<longleftrightarrow> (2 * 2 ^ 53 - 1) * 2 ^ Suc K \<le> 2 * a" by simp
  consider "bit_count a \<le> K + 53" | "bit_count a = K + 54" | "K + 55 \<le> bit_count a" by linarith
  then show ?thesis
  proof cases
    case 1
    then have "a < 2 ^ 53 * 2 ^ K" by (simp only: bit_count_le_iff power_add mult.commute)
    moreover have "(2 :: nat) ^ 53 * 2 ^ K \<le> (2 ^ 54 - 1) * 2 ^ K" by simp
    ultimately have "\<not> (2 ^ 54 - 1) * 2 ^ K \<le> a" by linarith
    moreover have "\<not> 1024 < (if f \<le> e then e else f) + int (bit_count q)"
    proof (cases "f \<le> e")
      case True
      then show ?thesis using f e q by simp
    next
      case False
      then have "bit_count a \<le> k + 53" using k f by linarith
      then have "a < 2 ^ (k + 53)" by (simp only: bit_count_le_iff)
      then have "q \<le> 2 ^ 53" using False by (simp only: q if_False round_half_even_bound)
      then have "bit_count q \<le> 54" by (simp add: bit_count_le_iff)
      moreover have "f \<le> 970" using f 1 K e by simp
      ultimately show ?thesis using False by simp
    qed
    ultimately show ?thesis by (simp add: res)
  next
    case 2
    then have f': "f = 971" "\<not> f \<le> e" "k = Suc K" using f K e k by simp_all
    have "fst (to_float64 m e) = Infinite \<longleftrightarrow> \<not> bit_count q \<le> 53"
      using f' unfolding res by (cases "q = 0") (simp_all add: bit_count.simps [of 0], linarith)
    also have "\<dots> \<longleftrightarrow> 2 ^ 53 \<le> q" by (simp only: bit_count_le_iff not_less)
    also have "\<dots> \<longleftrightarrow> (2 * 2 ^ 53 - 1) * 2 ^ Suc K \<le> 2 * a"
      using f' by (simp only: q if_False round_half_even_reaches) (rule round_half_even_reaches, simp_all)
    finally show ?thesis by (simp only: cancel)
  next
    case 3
    then have "\<not> bit_count a \<le> K + 54" by linarith
    then have a_ge: "2 ^ (K + 54) \<le> a" by (simp only: bit_count_le_iff not_less)
    have "(2 ^ 54 - 1) * 2 ^ K \<le> (2 :: nat) ^ (K + 54)" by (simp add: power_add)
    moreover have "\<not> f \<le> e" "972 \<le> f" "k + 53 = bit_count a" using f K e k 3 by linarith+
    moreover from this have "\<not> bit_count a \<le> k + 52" by linarith
    then have "2 ^ (k + 52) \<le> a" by (simp only: bit_count_le_iff not_less)
    then have "2 ^ 52 \<le> q" using \<open>\<not> f \<le> e\<close> by (simp only: q if_False round_half_even_ge)
    then have "\<not> bit_count q \<le> 52" "q \<noteq> 0" by (auto simp: bit_count_le_iff)
    ultimately have "1024 < f + int (bit_count q)" "(2 ^ 54 - 1) * 2 ^ K \<le> a" using a_ge by linarith+
    with \<open>\<not> f \<le> e\<close> \<open>q \<noteq> 0\<close> show ?thesis by (simp only: res if_False) simp
  qed
qed

lemma to_float64_overflow:
  assumes e: "e < 0"
  shows "fst (to_float64 m e) = Infinite \<longleftrightarrow> overflow_threshold \<le> \<bar>binary_value m e\<bar>"
proof -
  obtain K where K: "K = nat (970 - e)" by simp
  have thr: "overflow_threshold = binary_value ((2 ^ 54 - 1) * 2 ^ K) e"
    unfolding overflow_threshold_def K using e by (intro binary_value_scale) simp
  have "overflow_threshold \<le> \<bar>binary_value m e\<bar> \<longleftrightarrow> (2 ^ 54 - 1) * 2 ^ K \<le> \<bar>m\<bar>"
    by (simp only: thr binary_value_abs' binary_value_le)
  also have "\<dots> \<longleftrightarrow> int ((2 ^ 54 - 1) * 2 ^ K) \<le> int (nat \<bar>m\<bar>)" by simp
  also have "\<dots> \<longleftrightarrow> fst (to_float64 m e) = Infinite"
    unfolding to_float64_infinite [OF e refl K] by (simp only: of_nat_le_iff)
  finally show ?thesis by simp
qed

text \<open>What becomes zero is at most half of the least denormal, and is not zero itself.\<close>

lemma to_float64_zero:
  assumes "m \<noteq> 0" "to_float64 m e = (Finite n g, exact)"
  shows "n = 0 \<longleftrightarrow> \<bar>binary_value m e\<bar> \<le> 2 powi (- 1075)"
proof -
  note parts = to_float64_parts [OF assms(2)]
  have half: "\<not> binary_value a f \<le> 2 powi (- 1075)" if "0 < a" "- 1074 \<le> f" for a f
  proof -
    have "(2 :: real) powi (- 1075) < 2 powi f" using that(2) by (intro power_int_strict_increasing) simp_all
    also have "\<dots> = 1 * 2 powi f" by simp
    also have "\<dots> \<le> binary_value a f" unfolding binary_value_def using that(1) by (intro mult_right_mono) simp_all
    finally show ?thesis by simp
  qed
  have far: "b - P \<le> \<bar>w - m\<bar>" if "\<bar>m\<bar> \<le> P" "b \<le> \<bar>w\<bar>" for b w P :: int
    using that by linarith
  have same: "n = m" if "g = e"
  proof -
    have "2 * \<bar>n - m\<bar> \<le> 1" using parts(1) that by simp
    then have "\<bar>n - m\<bar> < 1" by presburger
    then show ?thesis by simp
  qed
  consider "g = e" "n = m" | "e < g" "g = - 1074" | "e < g" "2 ^ (52 + nat (g - e)) \<le> \<bar>m\<bar>" "2 ^ 52 \<le> \<bar>n\<bar>"
    using parts(3,7) same by fastforce
  then show ?thesis
  proof cases
    case 1
    with assms(1) parts(4) half [of "\<bar>m\<bar>" e] show ?thesis
      by (simp add: binary_value_abs [symmetric] binary_value_def abs_mult)
  next
    case 2
    obtain P where P: "P = (2 :: int) ^ nat (- 1075 - e)" "0 < P" by simp
    have k: "nat (g - e) = Suc (nat (- 1075 - e))" using 2 by linarith
    note near = parts(1,2) [unfolded k power_Suc P(1) [symmetric]]
    have "n = 0 \<longleftrightarrow> \<bar>m\<bar> \<le> P"
    proof
      assume m: "\<bar>m\<bar> \<le> P"
      show "n = 0"
      proof (rule ccontr)
        assume n: "n \<noteq> 0"
        then have big: "c * (2 * P) \<le> \<bar>n * (2 * P)\<bar>" if "c \<le> \<bar>n\<bar>" for c
          using that P(2) by (simp add: abs_mult)
        have "1 * (2 * P) \<le> \<bar>n * (2 * P)\<bar>" using n by (intro big) linarith
        then have "2 * P \<le> 2 * \<bar>n * (2 * P) - m\<bar>" using far [OF m, of "2 * P"] by simp
        with near(1) have "2 * \<bar>n * (2 * P) - m\<bar> = 2 * P" by (rule antisym)
        then have "even n" by (rule near(2))
        then have "2 * (2 * P) \<le> \<bar>n * (2 * P)\<bar>" using n by (intro big) (auto elim!: evenE)
        then have "2 * (2 * P) - P \<le> \<bar>n * (2 * P) - m\<bar>" by (rule far [OF m])
        with near(1) P(2) show False by simp
      qed
    qed (use near(1) in simp)
    also have "\<dots> \<longleftrightarrow> \<bar>binary_value m e\<bar> \<le> binary_value P e"
      by (simp only: binary_value_abs' binary_value_le)
    also have "binary_value P e = binary_value 1 (- 1075)"
      using 2 binary_value_scale [of e "- 1075" 1] by (simp only: P(1)) simp
    finally show ?thesis by (simp add: binary_value_def)
  next
    case 3
    have "binary_value (2 ^ 52) g = binary_value (2 ^ (52 + nat (g - e))) e"
      by (simp only: binary_value_scale [OF parts(3)] power_add)
    also have "\<dots> \<le> \<bar>binary_value m e\<bar>" using 3(2) by (simp only: binary_value_abs' binary_value_le)
    finally have "binary_value (2 ^ 52) g \<le> \<bar>binary_value m e\<bar>" .
    moreover have "\<not> binary_value (2 ^ 52) g \<le> 2 powi (- 1075)" by (rule half [OF _ parts(4)]) simp
    ultimately have "\<not> \<bar>binary_value m e\<bar> \<le> 2 powi (- 1075)" by (meson order_trans)
    moreover have "n \<noteq> 0" using 3(3) by auto
    ultimately show ?thesis by (simp only: simp_thms)
  qed
qed

lemma to_float64_zero_inexact:
  assumes "m \<noteq> 0" "to_float64 m e = (Finite 0 g, exact)"
  shows "\<not> exact"
proof
  assume exact: exact
  obtain a where a: "a = nat \<bar>m\<bar>" "0 < a" using assms(1) by simp
  obtain f where f: "f = max (e + int (bit_count a) - 53) (- 1074)" by simp
  obtain k where k: "k = nat (f - e)" by simp
  obtain q where q: "q = (if f \<le> e then a else round_half_even a k)" by simp
  have "sgn m * int q = 0" "f \<le> e \<or> a mod 2 ^ k = 0"
    using assms(2) exact [THEN eqTrueI] unfolding to_float64_def Let_def a(1) [symmetric] f [symmetric] k [symmetric] q [symmetric]
    by (auto split: if_splits)
  then show False using a(2) assms(1)
    by (auto simp: q round_half_even_def Let_def sgn_if split: if_splits)
qed

lemma integral_iff:
  "is_integral m e \<longleftrightarrow> binary_value m e \<in> \<int>"
  "is_integral m e \<Longrightarrow> binary_value m e = of_int (integral_value m e)"
proof -
  have "(is_integral m e \<longleftrightarrow> binary_value m e \<in> \<int>) \<and>
    (is_integral m e \<longrightarrow> binary_value m e = of_int (integral_value m e))"
  proof (cases "0 \<le> e")
    case True
    then have "binary_value m e = of_int (m * 2 ^ nat e)" by (simp add: binary_value_def power_int_def)
    then show ?thesis using True by (simp add: is_integral_def integral_value_def)
  next
    case False
    obtain P where P: "P = (2 :: int) ^ nat (- e)" "0 < P" by simp
    have "2 powi e = inverse ((2 :: real) ^ nat (- e))" using False by (simp add: power_int_def power_one_over inverse_eq_divide)
    then have v: "binary_value m e = of_int m / of_int P" by (simp add: binary_value_def P(1) divide_inverse)
    show ?thesis
    proof (cases "P dvd m")
      case dvd: True
      then obtain j where "m = P * j" ..
      then show ?thesis using False P v by (simp add: is_integral_def integral_value_def)
    next
      case ndvd: False
      have "of_int m / of_int P \<noteq> (of_int j :: real)" for j
      proof
        assume "of_int m / of_int P = (of_int j :: real)"
        then have "of_int m = (of_int (j * P) :: real)" using P(2) by (simp add: field_simps)
        then have "m = j * P" by (simp only: of_int_eq_iff)
        with ndvd show False by simp
      qed
      then show ?thesis using False ndvd P(1) v by (auto simp: is_integral_def Ints_def mod_eq_0_iff_dvd)
    qed
  qed
  then show "is_integral m e \<longleftrightarrow> binary_value m e \<in> \<int>"
    "is_integral m e \<Longrightarrow> binary_value m e = of_int (integral_value m e)" by blast+
qed

text \<open>
  C23. Numbers of the state survive the conversion. An integral number becomes the \<open>int64\<close> of the
  same value, and is refused exactly outside its range. Any other number is rounded to the nearest
  IEEE 754 double, ties to even; it is refused exactly when it is at least halfway from the greatest
  double to \<open>2 ^ 1024\<close>, or at most half of the least positive double.
\<close>

theorem numbers_survive:
  fixes m e :: int
  defines "r \<equiv> tf_value_to_go_value (Prim_tv (Prim_t Number_pt) (Number_p m e))"
  shows "(binary_value m e = of_int N \<longrightarrow>
            r = (if - (2 ^ 63) \<le> N \<and> N < 2 ^ 63 then Done (Num_v N)
                 else Failed (Plain ''value cannot be represented as a 64-bit integer''))) \<and>
         (binary_value m e \<notin> \<int> \<longrightarrow>
            (if overflow_threshold \<le> \<bar>binary_value m e\<bar> \<or> \<bar>binary_value m e\<bar> \<le> 2 powi (- 1075)
             then r = Failed (Plain ''value cannot be represented as a 64-bit floating point'')
             else \<exists>n f. r = Done (Float_v n f) \<and> nearest_double n f (binary_value m e)))"
proof (cases "is_integral m e")
  case True
  then have "binary_value m e = of_int (integral_value m e)" "binary_value m e \<in> \<int>"
    by (simp_all add: integral_iff)
  then show ?thesis using True by (auto simp: r_def number_to_go_def fits_int64_def)
next
  case False
  then have int: "binary_value m e \<notin> \<int>" by (simp add: integral_iff)
  have e: "e < 0" and m: "m \<noteq> 0" using False by (auto simp: is_integral_def)
  obtain x exact where x: "to_float64 m e = (x, exact)" by fastforce
  have r: "r = (case to_float64 m e of
              (Infinite, exact) \<Rightarrow> Failed (Plain ''value cannot be represented as a 64-bit floating point'')
            | (Finite n f, exact) \<Rightarrow>
                if n = 0 \<and> \<not> exact then Failed (Plain ''value cannot be represented as a 64-bit floating point'')
                else Done (Float_v n f))"
    using False by (simp add: r_def number_to_go_def)
  show ?thesis
  proof (cases x)
    case (Finite n f)
    with x have fin: "to_float64 m e = (Finite n f, exact)" by simp
    have "\<not> overflow_threshold \<le> \<bar>binary_value m e\<bar>" using to_float64_overflow [OF e, of m] fin by simp
    with int show ?thesis
      using to_float64_zero [OF m fin] to_float64_nearest [OF fin e] to_float64_zero_inexact [of m e f exact] m
      by (auto simp: r fin)
  next
    case Infinite
    with int show ?thesis using to_float64_overflow [OF e, of m] x by (auto simp: r)
  qed
qed

text \<open>One half is a double, so it survives exactly.\<close>

theorem numbers_survive_witness:
  "\<exists>n f. tf_value_to_go_value (Prim_tv (Prim_t Number_pt) (Number_p 1 (- 1))) = Done (Float_v n f) \<and>
     binary_value n f = 1 / 2"
proof -
  have half: "binary_value 1 (- 1) = 1 / 2" by (simp add: binary_value_def power_int_def)
  have "is_double (1 / 2)" unfolding is_double_def half [symmetric] by (intro exI [of _ 1] exI [of _ "- 1"]) simp
  moreover have "binary_value 1 (- 1) \<notin> \<int>" by (subst integral_iff(1) [symmetric]) (simp add: is_integral_def)
  moreover have "\<not> overflow_threshold \<le> 1 / 2"
    by (simp add: overflow_threshold_def binary_value_def power_int_def)
  moreover have "\<not> (1 / 2 :: real) \<le> 2 powi (- 1075)"
    using power_int_strict_increasing [of "- 1075" "- 1" "2 :: real"] by (simp add: power_int_def)
  ultimately obtain n f where nf: "tf_value_to_go_value (Prim_tv (Prim_t Number_pt) (Number_p 1 (- 1))) = Done (Float_v n f)"
    "nearest_double n f (1 / 2)"
    using numbers_survive [of 1 "- 1" 0] unfolding half by auto
  from nf(2) \<open>is_double (1 / 2)\<close> have "binary_value n f = 1 / 2" by (fastforce simp: nearest_double_def)
  with nf(1) show ?thesis by blast
qed

end
