(* ===== verification/SecretKeys.thy ===== *)
theory SecretKeys
  imports GoValue GoErrors
begin

text \<open>
  Field paths of sensitive attributes as keys of a Kubernetes secret, and back
  (\<open>fieldPathToSecretKey\<close> and \<open>secretKeyToFieldPath\<close> of \<open>pkg/resource/sensitive.go\<close>), and the Terraform
  path of an expanded path of the managed resource (\<open>expandedTFPath\<close>). The replacements by regular
  expressions are written out as scans; parsing and printing of field paths is third-party: the
  parameter \<open>path_syntax\<close>.
\<close>

record path_syntax =
  parse_path :: "string \<Rightarrow> gerror + seg list"
  print_path :: "seg list \<Rightarrow> string"

section \<open>Keys\<close>

fun segment_key :: "seg \<Rightarrow> string" where
  "segment_key (Key_seg f) = (if CHR ''.'' \<in> set f then ''...'' @ f @ ''...'' else ''.'' @ f)"
| "segment_key (Idx_seg i) = ''.'' @ show_nat i"

definition field_path_to_secret_key :: "path_syntax \<Rightarrow> string \<Rightarrow> gerror + string" where
  "field_path_to_secret_key syn s =
     (case parse_path syn s of
        Inl e \<Rightarrow> Inl (WithMsg (''cannot parse '' @ go_quote s @ '' as fieldpath'') e)
      | Inr sg \<Rightarrow> Inr (trim_prefix (concat (map segment_key sg)) ''.''))"

section \<open>The scans of the regular expressions\<close>

text \<open>The shortest text before three dots, without a line break, and what follows them.\<close>

fun until_dots :: "string \<Rightarrow> (string \<times> string) option" where
  "until_dots [] = None"
| "until_dots (c # cs) =
     (if has_prefix (c # cs) ''...'' then Some ([], drop 3 (c # cs))
      else if c = CHR 0x0A then None
      else map_option (\<lambda>(m, r). (c # m, r)) (until_dots cs))"

lemma until_dots_shorter: "until_dots s = Some (m, r) \<Longrightarrow> length r < length s"
  by (induction s arbitrary: m r) (auto split: if_splits)

text \<open>\<open>\.\.\.(.*?)\.\.\.\<close> by \<open>[$1]\<close>\<close>

function replace_three_dots :: "string \<Rightarrow> string" where
  "replace_three_dots [] = []"
| "replace_three_dots (c # cs) =
     (if has_prefix (c # cs) ''...'' then
        (case until_dots (drop 3 (c # cs)) of
           None \<Rightarrow> c # replace_three_dots cs
         | Some (m, r) \<Rightarrow> ''['' @ m @ '']'' @ replace_three_dots r)
      else c # replace_three_dots cs)"
  by pat_completeness auto
termination
proof (relation "measure length")
  fix c cs x m r
  assume "until_dots (drop 3 (c # cs)) = Some x" "(m, r) = x"
  then have "length r < length (drop 3 (c # cs))" by (auto dest: until_dots_shorter)
  then show "(r, c # cs) \<in> measure length" by simp
qed simp_all

text \<open>\<open>\.(\d+?)$\<close> by \<open>[$1]\<close>: digits hold no dot, so only the last dot can begin a match.\<close>

fun replace_end_index :: "string \<Rightarrow> string" where
  "replace_end_index [] = []"
| "replace_end_index (c # cs) =
     (if c = CHR ''.'' \<and> cs \<noteq> [] \<and> list_all is_digit cs then ''['' @ cs @ '']'' else c # replace_end_index cs)"

text \<open>\<open>\.(\d+?)\.\<close> by \<open>[$1].\<close>: the closing dot is consumed and opens no further match.\<close>

function replace_middle_index :: "string \<Rightarrow> string" where
  "replace_middle_index [] = []"
| "replace_middle_index (c # cs) =
     (let ds = takeWhile is_digit cs; r = dropWhile is_digit cs in
      if c = CHR ''.'' \<and> ds \<noteq> [] \<and> r \<noteq> [] \<and> hd r = CHR ''.''
      then ''['' @ ds @ ''].'' @ replace_middle_index (tl r)
      else c # replace_middle_index cs)"
  by pat_completeness auto
termination
proof (relation "measure length")
  fix c :: char and cs ds r
  assume "r = dropWhile is_digit cs"
  then have "length r \<le> length cs" by (simp add: length_dropWhile_le)
  then show "(tl r, c # cs) \<in> measure length" by simp
qed simp_all

definition secret_key_to_field_path :: "path_syntax \<Rightarrow> string \<Rightarrow> gerror + string" where
  "secret_key_to_field_path syn s =
     (let s3 = replace_middle_index (replace_end_index (replace_three_dots s)) in
      case parse_path syn s3 of
        Inl e \<Rightarrow> Inl (WithMsg (''cannot parse secret key '' @ go_quote s3 @ '' as fieldpath'') e)
      | Inr sg \<Rightarrow> Inr (print_path syn sg))"

section \<open>The Terraform path of an expanded path\<close>

definition normalize_json_path :: "string \<Rightarrow> string" where
  "normalize_json_path s = fold (\<lambda>p s. trim_prefix s p) [''spec.forProvider.'', ''spec.initProvider.'', ''status.atProvider.''] s"

text \<open>The first entry of the mapping whose path of the managed resource the expanded path instantiates.\<close>

fun find_wildcard :: "path_syntax \<Rightarrow> seg list \<Rightarrow> (string \<times> string) list \<Rightarrow> gerror + string" where
  "find_wildcard syn sexp [] = Inr ''''"
| "find_wildcard syn sexp ((tf, xp) # mapping) =
     (case parse_path syn (normalize_json_path xp) of
        Inl e \<Rightarrow> Inl e
      | Inr sxp \<Rightarrow> if expanded_for sexp sxp then Inr tf else find_wildcard syn sexp mapping)"

text \<open>The wildcards of a longer Terraform path: an index where the other path has one, else the index 0.\<close>

fun fill_wildcards :: "seg list \<Rightarrow> seg list \<Rightarrow> gerror + seg list \<times> nat" where
  "fill_wildcards [] es = Inr ([], 0)"
| "fill_wildcards (t # ts) es =
     (if t = wildcard then
        (case es of
           [] \<Rightarrow> Inl (Plain ''wrong mapping configuration, xp path is too short'')
         | Idx_seg i # es' \<Rightarrow> map_sum (\<lambda>e. e) (\<lambda>(ts, filled). (Idx_seg i # ts, filled)) (fill_wildcards ts es')
         | _ \<Rightarrow> map_sum (\<lambda>e. e) (\<lambda>(ts, filled). (Idx_seg 0 # ts, Suc filled)) (fill_wildcards ts es))
      else map_sum (\<lambda>e. e) (\<lambda>(ts, filled). (t # ts, filled)) (fill_wildcards ts (tl es)))"

definition expand_segments :: "seg list \<Rightarrow> seg list \<Rightarrow> gerror + seg list" where
  "expand_segments stf sexp =
     (if length stf = length sexp then Inr (map2 (\<lambda>t e. if t = wildcard then e else t) stf sexp)
      else if length stf < length sexp then Inl (Plain ''tf path must be longer than xp path'')
      else (case fill_wildcards stf sexp of
              Inl e \<Rightarrow> Inl e
            | Inr (ts, filled) \<Rightarrow>
                if length stf - length sexp \<noteq> filled
                then Inl (Plain ''wrong mapping configuration, xp path is too short'')
                else Inr ts))"

definition expanded_tf_path :: "path_syntax \<Rightarrow> (string \<times> string) list \<Rightarrow> string \<Rightarrow> gerror + string" where
  "expanded_tf_path syn mapping expanded =
     (case parse_path syn (normalize_json_path expanded) of
        Inl e \<Rightarrow> Inl e
      | Inr sexp \<Rightarrow>
          (case find_wildcard syn sexp mapping of
             Inl e \<Rightarrow> Inl e
           | Inr tf \<Rightarrow>
               if tf = '''' then Inl (Plain (''cannot find corresponding fieldpath mapping for '' @ go_quote expanded))
               else (case parse_path syn tf of
                       Inl e \<Rightarrow> Inl e
                     | Inr stf \<Rightarrow> map_sum (\<lambda>e. e) (print_path syn) (expand_segments stf sexp))))"


section \<open>Which paths survive as keys\<close>

text \<open>
  The text of a path: fields after a dot, indices in brackets. A path survives as a key when no field
  holds a dot, is empty or reads as a number, and no index follows another or comes first.
\<close>

fun segment_text :: "seg \<Rightarrow> string" where
  "segment_text (Key_seg f) = ''.'' @ f"
| "segment_text (Idx_seg i) = ''['' @ show_nat i @ '']''"

definition path_text :: "seg list \<Rightarrow> string" where
  "path_text sg = trim_prefix (concat (map segment_text sg)) ''.''"

fun rebuildable_rest :: "seg list \<Rightarrow> bool" where
  "rebuildable_rest [] = True"
| "rebuildable_rest (Key_seg f # sg) = (f \<noteq> [] \<and> CHR ''.'' \<notin> set f \<and> \<not> list_all is_digit f \<and> rebuildable_rest sg)"
| "rebuildable_rest (Idx_seg i # sg) = ((case sg of Idx_seg j # _ \<Rightarrow> False | _ \<Rightarrow> True) \<and> rebuildable_rest sg)"

definition rebuildable :: "seg list \<Rightarrow> bool" where
  "rebuildable sg \<longleftrightarrow> (case sg of Key_seg f # _ \<Rightarrow> rebuildable_rest sg | _ \<Rightarrow> False)"

lemma digit_no_dot: "list_all is_digit s \<Longrightarrow> CHR ''.'' \<notin> set s"
  by (induction s) (auto simp: is_digit_def)

text \<open>A piece between dots: the name of a field or the digits of an index.\<close>

definition piece :: "seg \<Rightarrow> string" where
  "piece s = (case s of Key_seg f \<Rightarrow> f | Idx_seg i \<Rightarrow> show_nat i)"

lemma rebuildable_pieces: "rebuildable_rest sg \<Longrightarrow> s \<in> set sg \<Longrightarrow> piece s \<noteq> [] \<and> CHR ''.'' \<notin> set (piece s)"
proof (induction sg)
  case (Cons x sg)
  then show ?case using show_nat_digits digit_no_dot by (cases x) (auto simp: piece_def)
qed simp

lemma segment_key_piece: "rebuildable_rest sg \<Longrightarrow> concat (map segment_key sg) = concat (map (\<lambda>s. ''.'' @ piece s) sg)"
proof (induction sg)
  case (Cons x sg)
  then show ?case by (cases x) (auto simp: piece_def)
qed simp

text \<open>No three dots in a row.\<close>

lemma dots_copied: "CHR ''.'' \<notin> set p \<Longrightarrow> replace_three_dots (p @ t) = p @ replace_three_dots t"
  by (induction p) auto

lemma no_three_dots:
  "(\<And>s. s \<in> set sg \<Longrightarrow> piece s \<noteq> [] \<and> CHR ''.'' \<notin> set (piece s)) \<Longrightarrow>
     replace_three_dots (concat (map (\<lambda>s. ''.'' @ piece s) sg)) = concat (map (\<lambda>s. ''.'' @ piece s) sg)"
proof (induction sg)
  case (Cons s sg)
  let ?t = "concat (map (\<lambda>s. ''.'' @ piece s) sg)"
  have p: "piece s \<noteq> []" "CHR ''.'' \<notin> set (piece s)" using Cons.prems by auto
  then obtain c cs where c: "piece s = c # cs" "c \<noteq> CHR ''.''" by (cases "piece s") auto
  have "replace_three_dots (CHR ''.'' # piece s @ ?t) = CHR ''.'' # replace_three_dots (piece s @ ?t)"
    using c by (simp add: c(1))
  also have "\<dots> = CHR ''.'' # piece s @ ?t" using dots_copied [OF p(2)] Cons by simp
  finally show ?case by simp
qed simp

text \<open>The end: only an index that ends the path is put in brackets.\<close>

fun ended :: "seg list \<Rightarrow> string" where
  "ended [] = []"
| "ended [Idx_seg i] = ''['' @ show_nat i @ '']''"
| "ended (s # sg) = ''.'' @ piece s @ ended sg"

lemma end_copied: "CHR ''.'' \<notin> set p \<Longrightarrow> replace_end_index (p @ t) = p @ replace_end_index t"
  by (induction p) auto

lemma end_index: "rebuildable_rest sg \<Longrightarrow> replace_end_index (concat (map (\<lambda>s. ''.'' @ piece s) sg)) = ended sg"
proof (induction sg rule: ended.induct [case_names none last field more])
  case (last i)
  then show ?case using show_nat_digits [of i] by (simp add: piece_def)
next
  case (field f sg)
  let ?t = "concat (map (\<lambda>s. ''.'' @ piece s) sg)"
  have "replace_end_index (CHR ''.'' # f @ ?t) = CHR ''.'' # replace_end_index (f @ ?t)"
    using field.prems by simp
  also have "\<dots> = CHR ''.'' # f @ ended sg" using end_copied [of f ?t] field by simp
  finally show ?case by (simp add: piece_def)
next
  case (more s x sg)
  let ?t = "concat (map (\<lambda>s. ''.'' @ piece s) (x # sg))"
  have r: "rebuildable_rest (x # sg)" using more.prems by (cases s) auto
  have p: "CHR ''.'' \<notin> set (piece s)" using rebuildable_pieces [OF more.prems] by simp
  have "\<not> list_all is_digit (piece s @ ?t)" using digit_no_dot by (fastforce simp: is_digit_def)
  then have "replace_end_index (CHR ''.'' # piece s @ ?t) = CHR ''.'' # replace_end_index (piece s @ ?t)" by simp
  also have "\<dots> = CHR ''.'' # piece s @ ended (x # sg)" using end_copied [OF p] more.IH [OF r] by simp
  finally show ?case by simp
qed simp


text \<open>The middle: an index before a field.\<close>

lemma middle_copied: "CHR ''.'' \<notin> set p \<Longrightarrow> replace_middle_index (p @ t) = p @ replace_middle_index t"
  by (induction p) auto

lemma middle_field:
  assumes "f \<noteq> []" "CHR ''.'' \<notin> set f" "\<not> list_all is_digit f"
  shows "replace_middle_index (CHR ''.'' # f @ t) = CHR ''.'' # f @ replace_middle_index t"
proof -
  obtain c where c: "c \<in> set f" "\<not> is_digit c" using assms(3) by (auto simp: list_all_iff)
  then have d: "dropWhile is_digit (f @ t) = dropWhile is_digit f @ t" by (rule dropWhile_append1)
  have "dropWhile is_digit f \<noteq> []" using c by auto
  then have "hd (dropWhile is_digit f @ t) \<in> set f" by (metis hd_append2 hd_in_set set_dropWhileD)
  then have "hd (dropWhile is_digit (f @ t)) \<noteq> CHR ''.''" using assms(2) d by auto
  then show ?thesis using middle_copied [OF assms(2)] by (simp add: Let_def)
qed

lemma middle_index:
  assumes "ds \<noteq> []" "list_all is_digit ds"
  shows "replace_middle_index (CHR ''.'' # ds @ CHR ''.'' # t) = ''['' @ ds @ ''].'' @ replace_middle_index t"
proof -
  have nd: "\<not> is_digit (CHR ''.'')" by (simp add: is_digit_def)
  have "takeWhile is_digit (ds @ CHR ''.'' # t) = ds" "dropWhile is_digit (ds @ CHR ''.'' # t) = CHR ''.'' # t"
    using assms(2) nd by (simp_all add: list_all_iff)
  then show ?thesis using assms(1) by (simp add: Let_def)
qed

declare replace_middle_index.simps(2) [simp del]

lemma middle_indices:
  "rebuildable_rest sg \<Longrightarrow> replace_middle_index (ended sg) = concat (map segment_text sg)"
proof (induction sg rule: ended.induct [case_names none last field more])
  case (last i)
  have "CHR ''.'' \<notin> set (''['' @ show_nat i @ '']'')" using digit_no_dot show_nat_digits [of i] by simp
  from middle_copied [OF this, of "[]"] show ?case by simp
next
  case (field f sg)
  then show ?case by (simp add: piece_def middle_field)
next
  case (more s x sg)
  show ?case
  proof (cases s)
    case (Key_seg f)
    with more show ?thesis by (simp add: piece_def middle_field)
  next
    case (Idx_seg i)
    with more.prems obtain f where x: "x = Key_seg f" by (cases x) auto
    with more.prems Idx_seg have f: "f \<noteq> []" "CHR ''.'' \<notin> set f" "\<not> list_all is_digit f" "rebuildable_rest (x # sg)" by auto
    have e: "ended (x # sg) = CHR ''.'' # f @ ended sg" by (simp add: x piece_def)
    have "f @ replace_middle_index (ended sg) = f @ concat (map segment_text sg)"
      using more.IH [OF f(4)] by (simp only: e middle_field [OF f(1-3)]) (simp add: x)
    moreover have "replace_middle_index (f @ ended sg) = f @ replace_middle_index (ended sg)" by (rule middle_copied [OF f(2)])
    ultimately have "replace_middle_index (CHR ''.'' # show_nat i @ CHR ''.'' # f @ ended sg)
        = ''['' @ show_nat i @ ''].'' @ f @ concat (map segment_text sg)"
      using middle_index [of "show_nat i" "f @ ended sg"] show_nat_digits [of i] by simp
    then show ?thesis by (simp add: Idx_seg x piece_def)
  qed
qed simp

text \<open>The three scans rebuild the text of the path from its key.\<close>

lemma scans_rebuild:
  assumes "rebuildable sg"
  shows "replace_middle_index (replace_end_index (replace_three_dots (trim_prefix (concat (map segment_key sg)) ''.''))) = path_text sg"
proof -
  from assms obtain f ss where sg: "sg = Key_seg f # ss"
    by (cases sg) (auto simp: rebuildable_def split: seg.splits)
  with assms have f: "f \<noteq> []" "CHR ''.'' \<notin> set f" and r: "rebuildable_rest ss" by (auto simp: rebuildable_def)
  let ?t = "concat (map (\<lambda>s. ''.'' @ piece s) ss)"
  have key: "trim_prefix (concat (map segment_key sg)) ''.'' = f @ ?t"
    using f(2) segment_key_piece [OF r] by (simp add: sg trim_prefix_def)
  have "replace_three_dots (f @ ?t) = f @ ?t"
    using dots_copied [OF f(2)] no_three_dots rebuildable_pieces [OF r] by simp
  moreover have "replace_end_index (f @ ?t) = f @ ended ss" using end_copied [OF f(2)] end_index [OF r] by simp
  moreover have "replace_middle_index (f @ ended ss) = f @ concat (map segment_text ss)"
    using middle_copied [OF f(2)] middle_indices [OF r] by simp
  moreover have "path_text sg = f @ concat (map segment_text ss)" by (simp add: path_text_def sg trim_prefix_def)
  ultimately show ?thesis by (simp add: key)
qed

text \<open>What the library's syntax does with a path: it prints its text and parses it back.\<close>

definition path_law :: "path_syntax \<Rightarrow> seg list \<Rightarrow> bool" where
  "path_law syn sg \<longleftrightarrow> parse_path syn (path_text sg) = Inr sg \<and> print_path syn sg = path_text sg"

lemma key_round_trip:
  assumes "path_law syn sg" "rebuildable sg"
  shows "\<exists>k. field_path_to_secret_key syn (path_text sg) = Inr k \<and> secret_key_to_field_path syn k = Inr (path_text sg)"
  using assms scans_rebuild [OF assms(2)]
  by (simp add: field_path_to_secret_key_def secret_key_to_field_path_def path_law_def)

section \<open>Expanded paths are instances of the configured ones\<close>

lemma fill_wildcards_instance:
  "fill_wildcards ts es = Inr (us, n) \<Longrightarrow> expanded_for us ts \<and> wildcard \<notin> set us"
proof (induction ts es arbitrary: us n rule: fill_wildcards.induct)
  case (2 t ts es)
  show ?case
  proof (cases "t = wildcard")
    case False
    with 2 show ?thesis by (cases "fill_wildcards ts (tl es)") auto
  next
    case True
    with 2(4) obtain s es' where es: "es = s # es'" by (cases es) auto
    show ?thesis
    proof (cases s)
      case (Idx_seg i)
      with True 2 es show ?thesis by (cases "fill_wildcards ts es'") (auto simp: wildcard_def)
    next
      case (Key_seg f)
      with True 2 es show ?thesis by (cases "fill_wildcards ts es") (auto simp: wildcard_def)
    qed
  qed
qed simp

lemma expand_segments_instance:
  assumes "expand_segments stf sexp = Inr ts" "wildcard \<notin> set sexp"
  shows "expanded_for ts stf \<and> wildcard \<notin> set ts"
proof (cases "length stf = length sexp")
  case True
  then have "expanded_for (map2 (\<lambda>t e. if t = wildcard then e else t) stf sexp) stf \<and>
      wildcard \<notin> set (map2 (\<lambda>t e. if t = wildcard then e else t) stf sexp)"
    using assms(2) by (induction stf sexp rule: list_induct2) auto
  with True assms(1) show ?thesis by (auto simp: expand_segments_def)
next
  case False
  with assms(1) obtain n where "fill_wildcards stf sexp = Inr (ts, n)"
    by (auto simp: expand_segments_def split: if_splits sum.splits)
  then show ?thesis by (rule fill_wildcards_instance)
qed

end
