(* ===== verification/Sensitive.thy ===== *)
theory Sensitive
  imports SecretKeys
begin

text \<open>
  Sensitive attributes (\<open>pkg/resource/sensitive.go\<close>): the connection details of a Terraform state, the
  secrets that parameters refer to, and the observation read back from the connection secret; with
  the secret client of \<open>pkg/controller/api.go\<close> over the Kubernetes API. Paths into objects and JSON
  decoding are third-party: the parameter \<open>sensitive_lib\<close>. A nil map of values is the empty one. Maps
  come in any iteration order.
\<close>

section \<open>Data\<close>

record secret_ref =
  sr_name :: string
  sr_namespace :: string

record secret_key_selector = secret_ref +
  sr_key :: string

type_synonym secret_data = "(string \<times> string) list"

text \<open>An error of the Kubernetes API comes with the verdict of \<open>IsNotFound\<close>.\<close>

type_synonym kube_secrets = "string \<Rightarrow> string \<Rightarrow> (bool \<times> gerror) + secret_data"

record sensitive_lib =
  sl_syntax :: path_syntax
  expand_wildcards :: "any_map \<Rightarrow> string \<Rightarrow> (bool \<times> gerror) + string list"
  get_value :: "any_map \<Rightarrow> string \<Rightarrow> gerror + any"
  set_value :: "any_map \<Rightarrow> string \<Rightarrow> any \<Rightarrow> gerror + any_map"
  decode_ref :: "any \<Rightarrow> gerror + secret_ref"
  decode_selector :: "any \<Rightarrow> gerror + secret_key_selector"
  decode_selectors :: "any \<Rightarrow> gerror + secret_key_selector list"
  show_ref :: "secret_ref \<Rightarrow> string"
  show_selector :: "secret_key_selector \<Rightarrow> string"
  show_selectors :: "secret_key_selector list \<Rightarrow> string"

definition get_secret_data :: "kube_secrets \<Rightarrow> ('a) secret_ref_scheme \<Rightarrow> (bool \<times> gerror) + secret_data" where
  "get_secret_data kube ref = kube (sr_namespace ref) (sr_name ref)"

definition get_secret_value :: "kube_secrets \<Rightarrow> secret_key_selector \<Rightarrow> (bool \<times> gerror) + string" where
  "get_secret_value kube sel =
     (case get_secret_data kube sel of
        Inl (nf, e) \<Rightarrow> Inl (nf, WithMsg ''cannot get secret data'' e)
      | Inr d \<Rightarrow> Inr (case map_of d (sr_key sel) of None \<Rightarrow> '''' | Some s \<Rightarrow> s))"

definition prefix_attribute :: string where
  "prefix_attribute = ''attribute.''"

definition string_error :: "string \<Rightarrow> gerror" where
  "string_error fp = Plain (''cannot not get a string for fieldpath '' @ go_quote fp)"

section \<open>From the state to the connection details\<close>

definition set_sensitive_attribute :: "string \<Rightarrow> any \<Rightarrow> string \<Rightarrow> string \<Rightarrow> secret_data \<Rightarrow> gerror + secret_data" where
  "set_sensitive_attribute i e k fp vals =
     (case e of
        Str_v s \<Rightarrow> Inr (put_key (prefix_attribute @ trim_suffix k ''s'' @ ''.'' @ i) s vals)
      | _ \<Rightarrow> Inl (string_error fp))"

fun set_sensitive_elements :: "(string \<times> any) list \<Rightarrow> string \<Rightarrow> string \<Rightarrow> secret_data \<Rightarrow> gerror + secret_data" where
  "set_sensitive_elements [] k fp vals = Inr vals"
| "set_sensitive_elements ((i, e) # es) k fp vals =
     (case set_sensitive_attribute i e k fp vals of Inl err \<Rightarrow> Inl err | Inr vals \<Rightarrow> set_sensitive_elements es k fp vals)"

definition indexed :: "any list \<Rightarrow> (string \<times> any) list" where
  "indexed xs = zip (map show_nat [0..<length xs]) xs"

fun attributes_at :: "sensitive_lib \<Rightarrow> any_map \<Rightarrow> string list \<Rightarrow> secret_data \<Rightarrow> gerror + secret_data" where
  "attributes_at lib from [] vals = Inr vals"
| "attributes_at lib from (fp # fps) vals =
     (case get_value lib from fp of
        Inl e \<Rightarrow> Inl (WithMsg (''cannot not get a value for fieldpath '' @ go_quote fp) e)
      | Inr v \<Rightarrow>
          if v = Nil_v then attributes_at lib from fps vals
          else (case field_path_to_secret_key (sl_syntax lib) fp of
                  Inl e \<Rightarrow> Inl (WithMsg (''cannot convert fieldpath '' @ go_quote fp @ '' to secret key'') e)
                | Inr k \<Rightarrow>
                    (case (case v of
                             Map_v m \<Rightarrow> set_sensitive_elements m k fp vals
                           | Slice_v xs \<Rightarrow> set_sensitive_elements (indexed xs) k fp vals
                           | Str_v s \<Rightarrow> Inr (put_key (prefix_attribute @ k) s vals)
                           | _ \<Rightarrow> Inl (string_error fp)) of
                       Inl e \<Rightarrow> Inl e
                     | Inr vals \<Rightarrow> attributes_at lib from fps vals)))"

fun collect_sensitive_attributes ::
  "sensitive_lib \<Rightarrow> any_map \<Rightarrow> (string \<times> string) list \<Rightarrow> secret_data \<Rightarrow> gerror + secret_data" where
  "collect_sensitive_attributes lib from [] vals = Inr vals"
| "collect_sensitive_attributes lib from ((tf, xp) # mapping) vals =
     (case expand_wildcards lib from tf of
        Inl (nf, e) \<Rightarrow>
          if nf then collect_sensitive_attributes lib from mapping vals else Inl (WithMsg ''cannot expand wildcards'' e)
      | Inr fps \<Rightarrow>
          (case attributes_at lib from fps vals of
             Inl e \<Rightarrow> Inl e
           | Inr vals \<Rightarrow> collect_sensitive_attributes lib from mapping vals))"

fun add_connection_details :: "(string \<times> string) list \<Rightarrow> secret_data \<Rightarrow> gerror + secret_data" where
  "add_connection_details [] conn = Inr conn"
| "add_connection_details ((k, v) # add) conn =
     (if map_of conn k \<noteq> None
      then Inl (Plain (''overriding a reserved connection key ('' @ go_quote k @ '') is not allowed''))
      else add_connection_details add (put_key k v conn))"

definition get_connection_details ::
  "sensitive_lib \<Rightarrow> (any_map \<Rightarrow> gerror + secret_data) \<Rightarrow> any_map \<Rightarrow> (string \<times> string) list \<Rightarrow> gerror + secret_data" where
  "get_connection_details lib additional attr mapping =
     (case collect_sensitive_attributes lib attr mapping [] of
        Inl e \<Rightarrow> Inl (WithMsg ''cannot get connection details'' e)
      | Inr conn \<Rightarrow>
          (case additional attr of
             Inl e \<Rightarrow> Inl (WithMsg ''cannot get additional connection details'' e)
           | Inr add \<Rightarrow> add_connection_details add conn))"

section \<open>From the connection secret to the observation\<close>

fun set_observation_keys :: "sensitive_lib \<Rightarrow> secret_data \<Rightarrow> any_map \<Rightarrow> gerror + any_map" where
  "set_observation_keys lib [] into = Inr into"
| "set_observation_keys lib ((k, v) # conn) into =
     (if \<not> has_prefix k prefix_attribute then set_observation_keys lib conn into
      else (case secret_key_to_field_path (sl_syntax lib) (trim_prefix k prefix_attribute) of
              Inl e \<Rightarrow> Inl (WithMsg (''cannot convert secret key '' @ go_quote k @ '' to fieldpath'') e)
            | Inr fp \<Rightarrow>
                (case set_value lib into fp (Str_v v) of
                   Inl e \<Rightarrow> Inl (WithMsg (''cannot set sensitive string in tf attributes for fieldpath '' @ go_quote fp) e)
                 | Inr into \<Rightarrow> set_observation_keys lib conn into)))"

definition get_sensitive_observation ::
  "sensitive_lib \<Rightarrow> kube_secrets \<Rightarrow> secret_ref option \<Rightarrow> any_map \<Rightarrow> gerror + any_map" where
  "get_sensitive_observation lib kube from into =
     (case from of
        None \<Rightarrow> Inr into
      | Some ref \<Rightarrow>
          (case get_secret_data kube ref of
             Inl (nf, e) \<Rightarrow> if nf then Inr into else Inl (WithMsg ''cannot get connection secret'' e)
           | Inr conn \<Rightarrow> set_observation_keys lib conn into))"

section \<open>From secret references to parameters\<close>

text \<open>References of a namespaced resource are local to its namespace.\<close>

definition local_ref :: "string \<Rightarrow> 'a secret_ref_scheme \<Rightarrow> 'a secret_ref_scheme" where
  "local_ref ns ref = (if ns \<noteq> '''' then ref\<lparr>sr_namespace := ns\<rparr> else ref)"

definition set_sensitive_parameters ::
  "sensitive_lib \<Rightarrow> string \<Rightarrow> string \<Rightarrow> (string \<times> string) list \<Rightarrow> any \<Rightarrow> any_map \<Rightarrow> gerror + any_map" where
  "set_sensitive_parameters lib expanded tf_path mapping v into =
     (case expanded_tf_path (sl_syntax lib) mapping expanded of
        Inl e \<Rightarrow> Inl e
      | Inr p \<Rightarrow>
          (case set_value lib into p v of
             Inl e \<Rightarrow> Inl (WithMsg (''cannot set string as terraform attribute for fieldpath '' @ go_quote tf_path) e)
           | Inr into \<Rightarrow> Inr into))"

fun set_secret_entries :: "sensitive_lib \<Rightarrow> string \<Rightarrow> secret_data \<Rightarrow> any_map \<Rightarrow> gerror + any_map" where
  "set_secret_entries lib tf_path [] into = Inr into"
| "set_secret_entries lib tf_path ((k, v) # d) into =
     (let p = tf_path @ ''['' @ k @ '']'' in
      case set_value lib into p (Str_v v) of
        Inl e \<Rightarrow> Inl (WithMsg (''cannot set string as terraform attribute for fieldpath '' @ go_quote p) e)
      | Inr into \<Rightarrow> set_secret_entries lib tf_path d into)"

definition secret_error :: "string \<Rightarrow> gerror \<Rightarrow> gerror" where
  "secret_error shown e = WithMsg (''cannot get secret value for '' @ shown) e"

text \<open>A missing secret is empty: it must not keep a resource from being deleted.\<close>

definition store_whole_secret ::
  "sensitive_lib \<Rightarrow> kube_secrets \<Rightarrow> string \<Rightarrow> string \<Rightarrow> string \<Rightarrow> any \<Rightarrow> any_map \<Rightarrow> gerror + any_map" where
  "store_whole_secret lib kube ns tf_path expanded v into =
     (case decode_ref lib v of
        Inl e \<Rightarrow> Inl (WithMsg (''cannot get SecretKeySelector map from xp resource for fieldpath '' @ go_quote expanded) e)
      | Inr ref \<Rightarrow>
          let ref = local_ref ns ref in
          (case get_secret_data kube ref of
             Inl (nf, e) \<Rightarrow> if nf then Inr into else Inl (secret_error (show_ref lib ref) e)
           | Inr d \<Rightarrow> set_secret_entries lib tf_path d into))"

definition store_secret_key ::
  "sensitive_lib \<Rightarrow> kube_secrets \<Rightarrow> string \<Rightarrow> (string \<times> string) list \<Rightarrow> string \<Rightarrow> string \<Rightarrow> any \<Rightarrow> any_map \<Rightarrow> gerror + any_map" where
  "store_secret_key lib kube ns mapping tf_path expanded v into =
     (case decode_selector lib v of
        Inl e \<Rightarrow> Inl (WithMsg (''cannot get SecretKeySelector from xp resource for fieldpath '' @ go_quote expanded) e)
      | Inr sel \<Rightarrow>
          let sel = local_ref ns sel in
          (case get_secret_value kube sel of
             Inl (nf, e) \<Rightarrow>
               if nf then set_sensitive_parameters lib expanded tf_path mapping (Str_v '''') into
               else Inl (secret_error (show_selector lib sel) e)
           | Inr s \<Rightarrow> set_sensitive_parameters lib expanded tf_path mapping (Str_v s) into))"

fun read_secret_keys ::
  "sensitive_lib \<Rightarrow> kube_secrets \<Rightarrow> string \<Rightarrow> secret_key_selector list \<Rightarrow> secret_key_selector list \<Rightarrow> gerror + any list" where
  "read_secret_keys lib kube ns decoded [] = Inr []"
| "read_secret_keys lib kube ns decoded (sel # sels) =
     (case get_secret_value kube (local_ref ns sel) of
        Inl (nf, e) \<Rightarrow>
          if nf then map_sum (\<lambda>e. e) (Cons (Str_v '''')) (read_secret_keys lib kube ns decoded sels)
          else Inl (secret_error (show_selectors lib decoded) e)
      | Inr s \<Rightarrow> map_sum (\<lambda>e. e) (Cons (Str_v s)) (read_secret_keys lib kube ns decoded sels))"

definition store_secret_keys ::
  "sensitive_lib \<Rightarrow> kube_secrets \<Rightarrow> string \<Rightarrow> (string \<times> string) list \<Rightarrow> string \<Rightarrow> string \<Rightarrow> any \<Rightarrow> any_map \<Rightarrow> gerror + any_map" where
  "store_secret_keys lib kube ns mapping tf_path expanded v into =
     (case decode_selectors lib v of
        Inl e \<Rightarrow> Inl (WithMsg (''cannot get SecretKeySelector list from xp resource for fieldpath '' @ go_quote expanded) e)
      | Inr sels \<Rightarrow>
          (case read_secret_keys lib kube ns sels sels of
             Inl e \<Rightarrow> Inl e
           | Inr xs \<Rightarrow>
               set_sensitive_parameters lib expanded tf_path mapping (if xs = [] then Nil_v else Slice_v xs) into))"

text \<open>
  The paths of one reference. A value of another type wraps a nil error, which is nil: the paths
  after it are skipped without an error.
\<close>

fun store_paths ::
  "sensitive_lib \<Rightarrow> kube_secrets \<Rightarrow> string \<Rightarrow> (string \<times> string) list \<Rightarrow> string \<Rightarrow> any_map \<Rightarrow> string list \<Rightarrow> any_map \<Rightarrow>
     gerror + any_map" where
  "store_paths lib kube ns mapping tf_path json [] into = Inr into"
| "store_paths lib kube ns mapping tf_path json (p # ps) into =
     (case get_value lib json p of
        Inl e \<Rightarrow> Inl (WithMsg (''cannot not get a value for fieldpath '' @ go_quote p) e)
      | Inr v \<Rightarrow>
          (case v of
             Nil_v \<Rightarrow> store_paths lib kube ns mapping tf_path json ps into
           | Map_v m \<Rightarrow>
               (case (if map_of m ''key'' = None then store_whole_secret lib kube ns tf_path p v into
                      else store_secret_key lib kube ns mapping tf_path p v into) of
                  Inl e \<Rightarrow> Inl e
                | Inr into \<Rightarrow> store_paths lib kube ns mapping tf_path json ps into)
           | Slice_v xs \<Rightarrow>
               (case store_secret_keys lib kube ns mapping tf_path p v into of
                  Inl e \<Rightarrow> Inl e
                | Inr into \<Rightarrow> store_paths lib kube ns mapping tf_path json ps into)
           | _ \<Rightarrow> Inr into))"

definition store_sensitive_data ::
  "sensitive_lib \<Rightarrow> kube_secrets \<Rightarrow> string \<Rightarrow> (string \<times> string) list \<Rightarrow> string \<Rightarrow> string \<Rightarrow> any_map \<Rightarrow> any_map \<Rightarrow>
     gerror + any_map" where
  "store_sensitive_data lib kube ns mapping tf_path json_path json into =
     (case expand_wildcards lib json json_path of
        Inl (nf, e) \<Rightarrow> Inl (WithMsg ''cannot expand wildcard for xp resource'' e)
      | Inr ps \<Rightarrow> store_paths lib kube ns mapping tf_path json ps into)"

text \<open>\<open>^spec\.(forProvider|initProvider)\.(.+)$\<close>\<close>

definition spec_path :: "string \<Rightarrow> string option" where
  "spec_path s =
     (let after = (\<lambda>p. if has_prefix s p \<and> drop (length p) s \<noteq> [] \<and> CHR 0x0A \<notin> set (drop (length p) s)
                       then Some (drop (length p) s) else None) in
      case after ''spec.forProvider.'' of Some r \<Rightarrow> Some r | None \<Rightarrow> after ''spec.initProvider.'')"

text \<open>The paths a reference is looked up at, the later overriding the earlier.\<close>

definition lookup_paths :: "string \<Rightarrow> string list" where
  "lookup_paths json_path =
     (case spec_path json_path of
        Some jp \<Rightarrow> [''spec.initProvider.'' @ jp, ''spec.forProvider.'' @ jp]
      | None \<Rightarrow>
          if has_prefix json_path ''status.atProvider.'' then [json_path]
          else [''spec.initProvider.'' @ json_path, ''spec.forProvider.'' @ json_path])"

fun store_all ::
  "sensitive_lib \<Rightarrow> kube_secrets \<Rightarrow> string \<Rightarrow> (string \<times> string) list \<Rightarrow> any_map \<Rightarrow> (string \<times> string) list \<Rightarrow> any_map \<Rightarrow>
     gerror + any_map" where
  "store_all lib kube ns mapping json [] into = Inr into"
| "store_all lib kube ns mapping json ((tf_path, jp) # todo) into =
     (case store_sensitive_data lib kube ns mapping tf_path jp json into of
        Inl e \<Rightarrow> Inl e
      | Inr into \<Rightarrow> store_all lib kube ns mapping json todo into)"

text \<open>\<open>from\<close> is the managed resource as an unstructured object, \<open>ns\<close> its namespace.\<close>

definition get_sensitive_parameters ::
  "sensitive_lib \<Rightarrow> kube_secrets \<Rightarrow> string \<Rightarrow> gerror + any_map \<Rightarrow> any_map \<Rightarrow> (string \<times> string) list \<Rightarrow> gerror + any_map" where
  "get_sensitive_parameters lib kube ns from into mapping =
     (if mapping = [] then Inr into
      else (case from of
              Inl e \<Rightarrow> Inl e
            | Inr json \<Rightarrow>
                store_all lib kube ns mapping json
                  (concat (map (\<lambda>(tf, jp). map (Pair tf) (lookup_paths jp)) mapping)) into))"


section \<open>Sensitive strings survive a rebuild of the state\<close>

text \<open>The sensitive strings of a state with their paths, in the order they are found.\<close>

fun strings_at :: "sensitive_lib \<Rightarrow> any_map \<Rightarrow> string list \<Rightarrow> (string \<times> string) list" where
  "strings_at lib st [] = []"
| "strings_at lib st (fp # fps) =
     (case get_value lib st fp of Inr (Str_v s) \<Rightarrow> (fp, s) # strings_at lib st fps | _ \<Rightarrow> strings_at lib st fps)"

definition paths_of :: "sensitive_lib \<Rightarrow> any_map \<Rightarrow> string \<Rightarrow> string list" where
  "paths_of lib st tf = (case expand_wildcards lib st tf of Inl _ \<Rightarrow> [] | Inr fps \<Rightarrow> fps)"

definition sensitive_strings :: "sensitive_lib \<Rightarrow> any_map \<Rightarrow> (string \<times> string) list \<Rightarrow> (string \<times> string) list" where
  "sensitive_strings lib st mapping = concat (map (\<lambda>e. strings_at lib st (paths_of lib st (fst e))) mapping)"

text \<open>Only strings and nulls are sensitive, not collections.\<close>

definition only_strings :: "sensitive_lib \<Rightarrow> any_map \<Rightarrow> string list \<Rightarrow> bool" where
  "only_strings lib st fps \<longleftrightarrow> (\<forall>fp \<in> set fps. \<forall>v. get_value lib st fp = Inr v \<longrightarrow> v = Nil_v \<or> (\<exists>s. v = Str_v s))"

definition key_of :: "sensitive_lib \<Rightarrow> string \<Rightarrow> string" where
  "key_of lib fp = (case field_path_to_secret_key (sl_syntax lib) fp of Inl e \<Rightarrow> '''' | Inr k \<Rightarrow> prefix_attribute @ k)"

definition survives :: "sensitive_lib \<Rightarrow> string \<Rightarrow> bool" where
  "survives lib fp \<longleftrightarrow> (\<exists>sg. fp = path_text sg \<and> path_law (sl_syntax lib) sg \<and> rebuildable sg)"

definition stored :: "sensitive_lib \<Rightarrow> (string \<times> string) list \<Rightarrow> secret_data" where
  "stored lib ps = map (\<lambda>x. (key_of lib (fst x), snd x)) ps"

lemma stored_simps [simp]:
  "stored lib [] = []" "stored lib (p # ps) = (key_of lib (fst p), snd p) # stored lib ps"
  "stored lib (ps @ qs) = stored lib ps @ stored lib qs"
  by (simp_all add: stored_def)

lemma put_new_key: "k \<notin> fst ` set m \<Longrightarrow> put_key k v m = m @ [(k, v)]"
  by (induction k v m rule: put_key.induct) auto

lemma survives_key:
  "survives lib fp \<Longrightarrow> \<exists>k. field_path_to_secret_key (sl_syntax lib) fp = Inr k \<and> key_of lib fp = prefix_attribute @ k \<and>
     secret_key_to_field_path (sl_syntax lib) k = Inr fp"
  using key_round_trip [of "sl_syntax lib"] by (fastforce simp: survives_def key_of_def)

lemma keys_distinct: "(\<And>fp. fp \<in> A \<Longrightarrow> survives lib fp) \<Longrightarrow> inj_on (key_of lib) A"
proof (rule inj_onI)
  fix x y
  assume s: "\<And>fp. fp \<in> A \<Longrightarrow> survives lib fp" and xy: "x \<in> A" "y \<in> A" "key_of lib x = key_of lib y"
  from survives_key [OF s [OF xy(1)]] survives_key [OF s [OF xy(2)]] xy(3) show "x = y" by auto
qed

lemma attributes_at_strings:
  "attributes_at lib st fps vals = Inr vals' \<Longrightarrow> only_strings lib st fps \<Longrightarrow>
     (\<And>x. x \<in> set (strings_at lib st fps) \<Longrightarrow> survives lib (fst x)) \<Longrightarrow>
     distinct (map fst (vals @ stored lib (strings_at lib st fps))) \<Longrightarrow>
     vals' = vals @ stored lib (strings_at lib st fps)"
proof (induction fps arbitrary: vals)
  case (Cons fp fps)
  obtain v where v: "get_value lib st fp = Inr v" using Cons.prems(1) by (cases "get_value lib st fp") auto
  have o: "only_strings lib st fps" using Cons.prems(2) by (simp add: only_strings_def)
  from v Cons.prems(2) consider (null) "v = Nil_v" | (str) s where "v = Str_v s" by (auto simp: only_strings_def)
  then show ?case
  proof cases
    case null
    have n: "strings_at lib st (fp # fps) = strings_at lib st fps" using v null by simp
    have "attributes_at lib st fps vals = Inr vals'" using Cons.prems(1) v null by simp
    from Cons.IH [OF this o] Cons.prems(3,4) show ?thesis unfolding n by blast
  next
    case str
    have n: "strings_at lib st (fp # fps) = (fp, s) # strings_at lib st fps" using v str by simp
    have "survives lib fp" using Cons.prems(3) [of "(fp, s)"] n by simp
    from survives_key [OF this] obtain k where
      k: "field_path_to_secret_key (sl_syntax lib) fp = Inr k" "key_of lib fp = prefix_attribute @ k" by blast
    have new: "key_of lib fp \<notin> fst ` set vals" using Cons.prems(4) n by auto
    have "attributes_at lib st fps (vals @ [(key_of lib fp, s)]) = Inr vals'"
      using Cons.prems(1) v str k put_new_key [OF new] by simp
    moreover have "distinct (map fst ((vals @ [(key_of lib fp, s)]) @ stored lib (strings_at lib st fps)))"
      using Cons.prems(4) n by simp
    moreover have "survives lib (fst x)" if "x \<in> set (strings_at lib st fps)" for x
      using Cons.prems(3) [of x] that n by simp
    ultimately have "vals' = (vals @ [(key_of lib fp, s)]) @ stored lib (strings_at lib st fps)"
      using Cons.IH [OF _ o] by blast
    then show ?thesis unfolding n by simp
  qed
qed simp

lemma attributes_strings:
  "collect_sensitive_attributes lib st mapping vals = Inr vals' \<Longrightarrow>
     (\<And>tf xp. (tf, xp) \<in> set mapping \<Longrightarrow> only_strings lib st (paths_of lib st tf)) \<Longrightarrow>
     (\<And>x. x \<in> set (sensitive_strings lib st mapping) \<Longrightarrow> survives lib (fst x)) \<Longrightarrow>
     distinct (map fst (vals @ stored lib (sensitive_strings lib st mapping))) \<Longrightarrow>
     vals' = vals @ stored lib (sensitive_strings lib st mapping)"
proof (induction mapping arbitrary: vals)
  case (Cons m mapping)
  obtain tf xp where m: "m = (tf, xp)" by fastforce
  have n: "sensitive_strings lib st (m # mapping) = strings_at lib st (paths_of lib st tf) @ sensitive_strings lib st mapping"
    by (simp add: sensitive_strings_def m)
  from Cons.prems(1) obtain vals1 where r: "attributes_at lib st (paths_of lib st tf) vals = Inr vals1"
      "collect_sensitive_attributes lib st mapping vals1 = Inr vals'"
    by (auto simp: m paths_of_def split: sum.splits if_splits)
  let ?a = "strings_at lib st (paths_of lib st tf)" and ?b = "sensitive_strings lib st mapping"
  have d: "distinct (map fst (vals @ stored lib ?a))" "distinct (map fst ((vals @ stored lib ?a) @ stored lib ?b))"
    using Cons.prems(4) by (auto simp: n)
  have o: "only_strings lib st (paths_of lib st tf)" using Cons.prems(2) [of tf xp] by (simp add: m)
  have v: "vals1 = vals @ stored lib ?a"
    by (rule attributes_at_strings [OF r(1) o _ d(1)], rule Cons.prems(3)) (simp add: n)
  have "vals' = (vals @ stored lib ?a) @ stored lib ?b"
    by (rule Cons.IH [OF r(2) [unfolded v] _ _ d(2)]) (use Cons.prems(2,3) n in auto)
  then show ?case by (simp add: n)
qed (simp add: sensitive_strings_def)

text \<open>Setting each string at its own path.\<close>

fun set_strings :: "sensitive_lib \<Rightarrow> (string \<times> string) list \<Rightarrow> any_map \<Rightarrow> gerror + any_map" where
  "set_strings lib [] into = Inr into"
| "set_strings lib ((fp, s) # ps) into =
     (case set_value lib into fp (Str_v s) of
        Inl e \<Rightarrow> Inl (WithMsg (''cannot set sensitive string in tf attributes for fieldpath '' @ go_quote fp) e)
      | Inr into \<Rightarrow> set_strings lib ps into)"

lemma observation_strings:
  "(\<And>x. x \<in> set ps \<Longrightarrow> survives lib (fst x)) \<Longrightarrow>
     set_observation_keys lib (stored lib ps) into = set_strings lib ps into"
proof (induction ps arbitrary: into)
  case (Cons p ps)
  obtain fp s where p: "p = (fp, s)" by fastforce
  from survives_key [OF Cons.prems [of "(fp, s)"]] p obtain k where
    k: "key_of lib fp = prefix_attribute @ k" "secret_key_to_field_path (sl_syntax lib) k = Inr fp" by auto
  have "trim_prefix (prefix_attribute @ k) prefix_attribute = k" by (simp add: trim_prefix_def)
  with k p Cons show ?case by (auto split: sum.split)
qed simp

text \<open>
  C22. Sensitive strings are not lost with the state. When a state holds only strings or null at its sensitive
  paths and its connection details are written to the connection secret, rebuilding the observation from that
  secret sets every sensitive string again at the very path it was read from, and nothing else. The conditions:
  there are no sensitive lists or maps, whose keys the code renames; each path is read only once; a path starts with a name and has
  no dotted, numeric or empty names and no index directly after an index, which are not read back.
\<close>

theorem sensitive_strings_survive:
  assumes "collect_sensitive_attributes lib st mapping [] = Inr vals"
    and "\<forall>(tf, xp) \<in> set mapping. only_strings lib st (paths_of lib st tf)"
    and "\<forall>(fp, s) \<in> set (sensitive_strings lib st mapping). survives lib fp"
    and "distinct (map fst (sensitive_strings lib st mapping))"
    and "kube (sr_namespace ref) (sr_name ref) = Inr vals"
  shows "get_sensitive_observation lib kube (Some ref) into = set_strings lib (sensitive_strings lib st mapping) into"
proof -
  let ?ps = "sensitive_strings lib st mapping"
  have s: "survives lib (fst x)" if "x \<in> set ?ps" for x using assms(3) that by auto
  then have "inj_on (key_of lib) (fst ` set ?ps)" by (intro keys_distinct) auto
  then have "distinct (map (key_of lib) (map fst ?ps))"
    using assms(4) by (simp add: distinct_map [of "key_of lib"] del: map_map)
  then have d: "distinct (map fst ([] @ stored lib ?ps))" by (simp add: stored_def comp_def)
  have o: "only_strings lib st (paths_of lib st tf)" if "(tf, xp) \<in> set mapping" for tf xp using assms(2) that by auto
  from attributes_strings [OF assms(1) o s d] have "vals = stored lib ?ps" by simp
  then show ?thesis using observation_strings [OF s] assms(5) by (simp add: get_sensitive_observation_def get_secret_data_def)
qed


section \<open>Reserved keys\<close>

lemma add_details:
  "add_connection_details add conn = Inr conn' \<Longrightarrow>
     distinct (map fst add) \<and> fst ` set add \<inter> dom (map_of conn) = {} \<and> map_of conn' = map_of conn ++ map_of add"
proof (induction add arbitrary: conn)
  case (Cons a add)
  obtain k v where a: "a = (k, v)" by fastforce
  with Cons.prems have k: "map_of conn k = None" "add_connection_details add (put_key k v conn) = Inr conn'"
    by (auto split: if_splits)
  from Cons.IH [OF k(2)] have ih: "distinct (map fst add)" "fst ` set add \<inter> dom (map_of (put_key k v conn)) = {}"
      "map_of conn' = map_of (put_key k v conn) ++ map_of add" by blast+
  have n: "k \<notin> fst ` set add" using ih(2) by auto
  have "fst ` set add \<inter> dom (map_of conn) = {}" using ih(2) by auto
  then have "fst ` set (a # add) \<inter> dom (map_of conn) = {}" using k(1) by (auto simp: a)
  moreover have "distinct (map fst (a # add))" using ih(1) n by (simp add: a)
  moreover have "map_of add k = None" using n by (simp add: map_of_eq_None_iff)
  then have "map_of conn' = map_of conn ++ map_of (a # add)"
    by (auto simp: ih(3) a map_add_def fun_eq_iff split: option.split)
  ultimately show ?case by blast
qed simp

text \<open>
  Custom connection details never replace a sensitive attribute: when connection details are
  published, they are the sensitive attributes with the custom ones added under other keys, each once.
\<close>

lemma attributes_not_overridden:
  assumes "get_connection_details lib additional attr mapping = Inr conn"
  shows "\<exists>vals add. collect_sensitive_attributes lib attr mapping [] = Inr vals \<and> additional attr = Inr add \<and>
    distinct (map fst add) \<and> fst ` set add \<inter> fst ` set vals = {} \<and> map_of conn = map_of vals ++ map_of add"
proof -
  from assms obtain vals add where v: "collect_sensitive_attributes lib attr mapping [] = Inr vals" "additional attr = Inr add"
      "add_connection_details add vals = Inr conn"
    by (auto simp: get_connection_details_def split: sum.splits)
  from add_details [OF v(3)] v(1,2) show ?thesis by (auto simp: dom_map_of_conv_image_fst)
qed

section \<open>Secrets of other namespaces\<close>

lemma local_secret:
  assumes "ns \<noteq> ''''" "\<And>n. kube ns n = kube' ns n"
  shows "get_secret_data kube (local_ref ns ref) = get_secret_data kube' (local_ref ns ref)"
    and "get_secret_value kube (local_ref ns sel) = get_secret_value kube' (local_ref ns sel)"
  using assms by (simp_all add: get_secret_data_def get_secret_value_def local_ref_def)

lemma local_stores:
  assumes "ns \<noteq> ''''" "\<And>n. kube ns n = kube' ns n"
  shows "store_whole_secret lib kube ns tf p v into = store_whole_secret lib kube' ns tf p v into"
    and "store_secret_key lib kube ns mapping tf p v into = store_secret_key lib kube' ns mapping tf p v into"
    and "read_secret_keys lib kube ns decoded sels = read_secret_keys lib kube' ns decoded sels"
    and "store_secret_keys lib kube ns mapping tf p v into = store_secret_keys lib kube' ns mapping tf p v into"
proof -
  note l = local_secret [where kube = kube and kube' = kube', OF assms]
  show "store_whole_secret lib kube ns tf p v into = store_whole_secret lib kube' ns tf p v into"
    by (simp add: store_whole_secret_def Let_def l(1) split: sum.split)
  show "store_secret_key lib kube ns mapping tf p v into = store_secret_key lib kube' ns mapping tf p v into"
    by (simp add: store_secret_key_def Let_def l(2) split: sum.split)
  have r: "read_secret_keys lib kube ns ds ss = read_secret_keys lib kube' ns ds ss" for ds ss
    by (induction ss) (simp_all add: l(2) split: sum.split)
  then show "read_secret_keys lib kube ns decoded sels = read_secret_keys lib kube' ns decoded sels" .
  show "store_secret_keys lib kube ns mapping tf p v into = store_secret_keys lib kube' ns mapping tf p v into"
    by (simp add: store_secret_keys_def r split: sum.split)
qed

lemma local_paths:
  assumes "ns \<noteq> ''''" "\<And>n. kube ns n = kube' ns n"
  shows "store_paths lib kube ns mapping tf json ps into = store_paths lib kube' ns mapping tf json ps into"
  by (induction ps arbitrary: into) (simp_all add: local_stores [where kube = kube and kube' = kube', OF assms] split: sum.split any.split)

lemma local_all:
  assumes "ns \<noteq> ''''" "\<And>n. kube ns n = kube' ns n"
  shows "store_all lib kube ns mapping json todo into = store_all lib kube' ns mapping json todo into"
  by (induction todo arbitrary: into)
    (auto simp: store_sensitive_data_def local_paths [where kube = kube and kube' = kube', OF assms] split: sum.split)

text \<open>
  A namespaced resource reads secrets of its own namespace only: its sensitive parameters do not
  depend on the secrets of other namespaces, whatever namespace its references name.
\<close>

lemma own_namespace_only:
  assumes "ns \<noteq> ''''" "\<forall>n. kube ns n = kube' ns n"
  shows "get_sensitive_parameters lib kube ns from into mapping = get_sensitive_parameters lib kube' ns from into mapping"
  using assms by (simp add: get_sensitive_parameters_def local_all [where kube = kube and kube' = kube'] split: sum.split)

text \<open>
  A collection under a plural name is stored under the singular, so the rebuilt observation has it
  under another name; and an index after an index is read back as a field.
\<close>

lemma plural_collection_renamed:
  "set_sensitive_elements (indexed [Str_v s]) ''passwords'' ''passwords'' [] = Inr [(''attribute.password.0'', s)]"
proof -
  have "show_nat 0 = ''0''" by code_simp
  then show ?thesis by (simp add: indexed_def set_sensitive_attribute_def prefix_attribute_def trim_suffix_def trim_prefix_def)
qed


section \<open>A concrete resource\<close>

definition demo_segs :: "seg list" where
  "demo_segs = [Key_seg ''db'', Idx_seg 0, Key_seg ''token'']"

definition demo_syntax :: path_syntax where
  "demo_syntax =
     \<lparr>parse_path = (\<lambda>s. if s = ''db[0].token'' then Inr demo_segs else if s = ''password'' then Inr [Key_seg ''password'']
        else Inl (Plain ''no path'')),
      print_path = path_text\<rparr>"

definition demo_sensitive :: sensitive_lib where
  "demo_sensitive =
     \<lparr>sl_syntax = demo_syntax, expand_wildcards = (\<lambda>_ p. Inr [if p = ''db[*].token'' then ''db[0].token'' else p]),
      get_value = (\<lambda>_ p. if p = ''password'' then Inr (Str_v ''s3'') else Inr (Str_v ''t0'')),
      set_value = (\<lambda>m p v. Inr (put_key p v m)), decode_ref = (\<lambda>_. Inr \<lparr>sr_name = ''n'', sr_namespace = ''other''\<rparr>),
      decode_selector = (\<lambda>_. Inr \<lparr>sr_name = ''n'', sr_namespace = ''other'', sr_key = ''k''\<rparr>),
      decode_selectors = (\<lambda>_. Inr []), show_ref = (\<lambda>_. ''ref''), show_selector = (\<lambda>_. ''sel''), show_selectors = (\<lambda>_. ''sels'')\<rparr>"

definition demo_mapping :: "(string \<times> string) list" where
  "demo_mapping = [(''db[*].token'', ''spec.forProvider.db[*].tokenSecretRef''), (''password'', ''spec.forProvider.passwordSecretRef'')]"

definition demo_conn :: secret_data where
  "demo_conn = [(''attribute.db.0.token'', ''t0''), (''attribute.password'', ''s3'')]"

lemma demo_sensitive_attributes: "collect_sensitive_attributes demo_sensitive [] demo_mapping [] = Inr demo_conn"
  by code_simp

lemma demo_strings: "sensitive_strings demo_sensitive [] demo_mapping = [(''db[0].token'', ''t0''), (''password'', ''s3'')]"
  by code_simp

lemma demo_texts: "path_text demo_segs = ''db[0].token''" "path_text [Key_seg ''password''] = ''password''"
  by code_simp+

lemma demo_survive: "survives demo_sensitive ''db[0].token''" "survives demo_sensitive ''password''"
proof -
  have r: "rebuildable demo_segs" "rebuildable [Key_seg ''password'']" by code_simp+
  have s: "sl_syntax demo_sensitive = demo_syntax" by (simp add: demo_sensitive_def)
  have "path_law demo_syntax demo_segs"
    unfolding path_law_def demo_texts(1) by (simp add: demo_syntax_def demo_texts)
  then show "survives demo_sensitive ''db[0].token''"
    unfolding survives_def s using r(1) demo_texts(1) [symmetric] by blast
  have "path_law demo_syntax [Key_seg ''password'']"
    unfolding path_law_def demo_texts(2) by (simp add: demo_syntax_def demo_texts)
  then show "survives demo_sensitive ''password''"
    unfolding survives_def s using r(2) demo_texts(2) [symmetric] by blast
qed

theorem sensitive_strings_survive_witness:
  "get_sensitive_observation demo_sensitive (\<lambda>_ _. Inr demo_conn) (Some \<lparr>sr_name = ''conn'', sr_namespace = ''ns''\<rparr>) []
     = Inr [(''db[0].token'', Str_v ''t0''), (''password'', Str_v ''s3'')]"
proof -
  have "\<forall>(tf, xp) \<in> set demo_mapping. only_strings demo_sensitive [] (paths_of demo_sensitive [] tf)"
    by (simp add: demo_mapping_def only_strings_def demo_sensitive_def)
  then have "get_sensitive_observation demo_sensitive (\<lambda>_ _. Inr demo_conn) (Some \<lparr>sr_name = ''conn'', sr_namespace = ''ns''\<rparr>) []
      = set_strings demo_sensitive (sensitive_strings demo_sensitive [] demo_mapping) []"
    using demo_survive by (intro sensitive_strings_survive [OF demo_sensitive_attributes]) (simp_all add: demo_strings)
  also have "\<dots> = Inr [(''db[0].token'', Str_v ''t0''), (''password'', Str_v ''s3'')]" by code_simp
  finally show ?thesis .
qed

end
