(* ===== verification/FieldConversions.thy ===== *)
theory FieldConversions
  imports Annotations TfConversion
begin

text \<open>
  The conversions between the versions of an API (\<open>pkg/config/conversion/conversions.go\<close>): copies of
  renamed fields, singleton lists, the identity, fields of newer versions kept in an annotation, and
  changes between primitive types. A conversion works on the unstructured source and target, or on
  the managed resources. Field paths, the JSON codec, the conversion to unstructured objects and the
  text of floating-point numbers are third-party: the parameters \<open>conv_lib\<close> and \<open>managed_api\<close>.
  When a conversion fails the callers drop both objects, so a failure does not return them.
\<close>

section \<open>Parameters\<close>

text \<open>
  \<open>not_found\<close> is the verdict of \<open>fieldpath.IsNotFound\<close>. A JSON text that is \<open>null\<close> decodes to the nil map,
  \<open>None\<close>. \<open>wide_int64\<close> is the implementation's \<open>int64\<close> of a \<open>float64\<close> out of range; \<open>type_text\<close> prints a
  value with \<open>%T\<close>, \<open>value_text\<close> with \<open>%v\<close>.
\<close>

record conv_lib =
  list_paved :: paved
  version_at :: "any_map \<Rightarrow> string"
  get_at :: "any_map \<Rightarrow> string \<Rightarrow> gerror + any"
  put_at :: "any_map \<Rightarrow> string \<Rightarrow> any \<Rightarrow> gerror + any_map"
  delete_at :: "any_map \<Rightarrow> string \<Rightarrow> gerror + any_map"
  expand_at :: "any_map \<Rightarrow> string \<Rightarrow> gerror + string list"
  parse_at :: "string \<Rightarrow> gerror + seg list"
  not_found :: "gerror \<Rightarrow> bool"
  encode_json :: "any_map option \<Rightarrow> gerror + string"
  decode_json :: "string \<Rightarrow> gerror + any_map option"
  wide_int64 :: "int \<Rightarrow> int \<Rightarrow> int"
  format_float :: "int \<Rightarrow> int \<Rightarrow> string"
  parse_float :: "string \<Rightarrow> gerror + any"
  type_text :: "any \<Rightarrow> string"
  value_text :: "any \<Rightarrow> string"

record gvk =
  gvk_group :: string
  gvk_version :: string
  gvk_kind :: string

record 'r managed_api =
  obj_gvk :: "'r \<Rightarrow> gvk"
  set_gvk :: "gvk \<Rightarrow> 'r \<Rightarrow> 'r"
  to_unstructured :: "'r \<Rightarrow> gerror + any_map"
  from_unstructured :: "any_map \<Rightarrow> 'r \<Rightarrow> gerror + 'r"

section \<open>Conversions\<close>

datatype annotation_mode = ToAnnotation | FromAnnotation | Other_annotation_mode int

datatype type_mode =
  IntToString | StringToInt | BoolToString | StringToBool | FloatToString | StringToFloat | Other_type_mode int

text \<open>The \<open>String\<close> methods of the modes.\<close>

fun annotation_mode_string :: "annotation_mode \<Rightarrow> string" where
  "annotation_mode_string ToAnnotation = ''ToAnnotation''"
| "annotation_mode_string FromAnnotation = ''FromAnnotation''"
| "annotation_mode_string (Other_annotation_mode n) = ''Unknown''"

fun type_mode_string :: "type_mode \<Rightarrow> string" where
  "type_mode_string IntToString = ''IntToString''"
| "type_mode_string StringToInt = ''StringToInt''"
| "type_mode_string BoolToString = ''BoolToString''"
| "type_mode_string StringToBool = ''StringToBool''"
| "type_mode_string FloatToString = ''FloatToString''"
| "type_mode_string StringToFloat = ''StringToFloat''"
| "type_mode_string (Other_type_mode n) = ''Unknown''"

record base_conversion =
  source_version :: string
  target_version :: string

text \<open>The converter function of a custom conversion mutates the resources it is given.\<close>

datatype 'r conversion =
    Field_copy base_conversion string string
  | Custom base_conversion "('r \<Rightarrow> 'r \<Rightarrow> ('r \<times> 'r) outcome) option"
  | Singleton_list base_conversion "string list" "string list" list_mode "(string \<rightharpoonup> inject_key) option"
  | Identity base_conversion "string list"
  | New_field base_conversion string annotation_mode
  | Field_type base_conversion string type_mode

definition base_string :: "base_conversion \<Rightarrow> string" where
  "base_string c = ''source API version '' @ go_quote (source_version c) @ '', target API version '' @ go_quote (target_version c)"

definition new_base_conversion :: "string \<Rightarrow> string \<Rightarrow> base_conversion" where
  "new_base_conversion sv tv = \<lparr>source_version = sv, target_version = tv\<rparr>"

definition all_versions :: string where
  "all_versions = ''*''"

definition applicable :: "base_conversion \<Rightarrow> string \<Rightarrow> string \<Rightarrow> bool" where
  "applicable c sv tv \<longleftrightarrow>
     (source_version c = all_versions \<or> source_version c = sv) \<and> (target_version c = all_versions \<or> target_version c = tv)"

definition paved_applicable :: "conv_lib \<Rightarrow> base_conversion \<Rightarrow> any_map \<Rightarrow> any_map \<Rightarrow> bool" where
  "paved_applicable lib c src target = applicable c (version_at lib src) (version_at lib target)"

definition managed_applicable :: "'r managed_api \<Rightarrow> base_conversion \<Rightarrow> 'r \<Rightarrow> 'r \<Rightarrow> bool" where
  "managed_applicable api c src target = applicable c (gvk_version (obj_gvk api src)) (gvk_version (obj_gvk api target))"

section \<open>Renamed fields\<close>

definition field_copy :: "conv_lib \<Rightarrow> string \<Rightarrow> string \<Rightarrow> any_map \<Rightarrow> any_map \<Rightarrow> (bool \<times> any_map) outcome" where
  "field_copy lib sf tf src target =
     (case get_at lib src sf of
        Inl e \<Rightarrow>
          if not_found lib e then Done (False, target)
          else Failed (WithMsg (''failed to get the field '' @ go_quote sf @ '' from the conversion source object'') e)
      | Inr v \<Rightarrow>
          (case put_at lib target tf v of
             Inl e \<Rightarrow> Failed (WithMsg (''failed to set the field '' @ go_quote tf @ '' of the conversion target object'') e)
           | Inr target \<Rightarrow> Done (True, target)))"

section \<open>Singleton lists\<close>

text \<open>
  \<open>Convert\<close> changes the map it is given, which is part of the source: later conversions of the chain
  read the converted source. The target gets a copy.
\<close>

definition in_place :: "conv_lib \<Rightarrow> any_map \<Rightarrow> string \<Rightarrow> any \<Rightarrow> any_map" where
  "in_place lib src p v = (case parse_at lib p of Inl e \<Rightarrow> src | Inr sg \<Rightarrow> as_map (set_at sg v (Map_v src)))"

fun convert_prefixes ::
  "conv_lib \<Rightarrow> base_conversion \<Rightarrow> string list \<Rightarrow> list_mode \<Rightarrow> (string \<rightharpoonup> inject_key) option \<Rightarrow> string list \<Rightarrow>
     any_map \<Rightarrow> any_map \<Rightarrow> (bool \<times> any_map \<times> any_map) outcome" where
  "convert_prefixes lib c crd mode opts [] src target = Done (True, src, target)"
| "convert_prefixes lib c crd mode opts (p # ps) src target =
     (case get_at lib src p of
        Inl e \<Rightarrow> Failed (WithMsg (''failed to read the '' @ p @ '' value for conversion in mode '' @ go_quote (mode_string mode)) e)
      | Inr (Map_v m) \<Rightarrow>
          and_then (wrap_outcome (''failed to convert the source map in mode '' @ go_quote (mode_string mode) @ '' with '' @ base_string c)
                     (lift_panic (convert (list_paved lib) m crd mode opts)))
            (\<lambda>m. let src = in_place lib src p (Map_v m) in
               case put_at lib target p (Map_v m) of
                 Inl e \<Rightarrow> Failed (WithMsg (''failed to set the '' @ p @ '' value for conversion in mode '' @ go_quote (mode_string mode)) e)
               | Inr target \<Rightarrow> convert_prefixes lib c crd mode opts ps src target)
      | Inr _ \<Rightarrow> Failed (Plain (''value at path '' @ p @ '' is not a map[string]any'')))"

definition convert_singleton_lists ::
  "conv_lib \<Rightarrow> base_conversion \<Rightarrow> string list \<Rightarrow> string list \<Rightarrow> list_mode \<Rightarrow> (string \<rightharpoonup> inject_key) option \<Rightarrow>
     any_map \<Rightarrow> any_map \<Rightarrow> (bool \<times> any_map \<times> any_map) outcome" where
  "convert_singleton_lists lib c prefixes crd mode opts src target =
     (if crd = [] then Done (False, src, target) else convert_prefixes lib c crd mode opts prefixes src target)"


section \<open>The identity\<close>

fun delete_paths :: "conv_lib \<Rightarrow> string list \<Rightarrow> any_map \<Rightarrow> any_map outcome" where
  "delete_paths lib [] m = Done m"
| "delete_paths lib (p # ps) m =
     (case delete_at lib m p of
        Inl e \<Rightarrow> Failed (WithMsg ''cannot delete a field in the conversion source object'' e)
      | Inr m \<Rightarrow> delete_paths lib ps m)"

fun exclude_paths :: "conv_lib \<Rightarrow> string list \<Rightarrow> any_map \<Rightarrow> any_map outcome" where
  "exclude_paths lib [] m = Done m"
| "exclude_paths lib (ex # exs) m =
     (case expand_at lib m ex of
        Inl e \<Rightarrow>
          if not_found lib e then exclude_paths lib exs m
          else Failed (WithMsg (''cannot expand wildcards in the fieldpath expression '' @ ex) e)
      | Inr ps \<Rightarrow> and_then (delete_paths lib ps m) (exclude_paths lib exs))"

definition convert_identity :: "conv_lib \<Rightarrow> 'r managed_api \<Rightarrow> string list \<Rightarrow> 'r \<Rightarrow> 'r \<Rightarrow> (bool \<times> 'r) outcome" where
  "convert_identity lib api excludes src target =
     (case to_unstructured api src of
        Inl e \<Rightarrow> Failed (WithMsg ''cannot convert the source managed resource into an unstructured representation'' e)
      | Inr raw \<Rightarrow>
          and_then (exclude_paths lib excludes raw) (\<lambda>raw.
            let g = obj_gvk api target in
            case from_unstructured api raw target of
              Inl e \<Rightarrow> Failed (WithMsg ''cannot convert the map[string]any representation of the source object to the conversion target object'' e)
            | Inr target \<Rightarrow> Done (True, set_gvk api g target)))"

text \<open>The paths are sorted in place before they are prefixed.\<close>

definition expand_parameters :: "string list \<Rightarrow> string list \<Rightarrow> string list" where
  "expand_parameters prefixes excludes =
     (if prefixes = [] then sort excludes
      else concat (map (\<lambda>p. map (\<lambda>ex. p @ ''.'' @ ex) (sort excludes)) prefixes))"

definition default_path_prefixes :: "string list" where
  "default_path_prefixes = [''spec.forProvider'', ''spec.initProvider'', ''status.atProvider'']"

section \<open>Fields of newer versions\<close>

definition annotation_path :: string where
  "annotation_path = ''metadata.annotations['' @ [CHR 0x27] @ annotation_key @ [CHR 0x27] @ '']''"

definition annotation_msg :: "string \<Rightarrow> gerror \<Rightarrow> 'a outcome" where
  "annotation_msg what e = Failed (WithMsg (what @ go_quote annotation_key) e)"

text \<open>The fields kept in the annotation of an object; a value that is not a string holds none.\<close>

definition kept_fields :: "conv_lib \<Rightarrow> any_map \<Rightarrow> any_map option outcome" where
  "kept_fields lib target =
     (case get_at lib target annotation_path of
        Inl e \<Rightarrow> if not_found lib e then Done (Some []) else annotation_msg ''failed to get annotation '' e
      | Inr (Str_v s) \<Rightarrow>
          (case decode_json lib s of
             Inl e \<Rightarrow> annotation_msg ''failed to unmarshal annotation '' e
           | Inr m \<Rightarrow> Done m)
      | Inr _ \<Rightarrow> Done (Some []))"

definition keep_fields :: "conv_lib \<Rightarrow> any_map option \<Rightarrow> any_map \<Rightarrow> any_map outcome" where
  "keep_fields lib stored target =
     (case encode_json lib stored of
        Inl e \<Rightarrow> Failed (WithMsg (''failed to marshal annotation '' @ go_quote annotation_key @ '' to JSON'') e)
      | Inr s \<Rightarrow>
          (case put_at lib target annotation_path (Str_v s) of
             Inl e \<Rightarrow> annotation_msg ''failed to set annotation '' e
           | Inr target \<Rightarrow> Done target))"

definition is_expansion_of :: "conv_lib \<Rightarrow> string \<Rightarrow> string \<Rightarrow> gerror + bool" where
  "is_expansion_of lib ep wp =
     (case parse_at lib ep of
        Inl e \<Rightarrow> Inl (WithMsg (''failed to parse the expanded path '' @ go_quote ep) e)
      | Inr expanded \<Rightarrow>
          (case parse_at lib wp of
             Inl e \<Rightarrow> Inl (WithMsg (''failed to parse the wildcard path '' @ go_quote wp) e)
           | Inr ws \<Rightarrow> Inr (expanded_for expanded ws)))"

text \<open>The entries that are no expansions of the path, and whether there were any expansions.\<close>

fun drop_expansions :: "conv_lib \<Rightarrow> string \<Rightarrow> any_map \<Rightarrow> (bool \<times> any_map) outcome" where
  "drop_expansions lib path [] = Done (False, [])"
| "drop_expansions lib path ((k, v) # m) =
     (case is_expansion_of lib k path of
        Inl e \<Rightarrow> Failed (WithMsg (''failed to check expansion of '' @ go_quote k @ '' against '' @ go_quote path) e)
      | Inr b \<Rightarrow>
          and_then (drop_expansions lib path m) (\<lambda>(stale, m). Done (stale \<or> b, if b then m else (k, v) # m)))"

text \<open>An assignment to an entry of the nil map panics.\<close>

definition assign_entry :: "string \<Rightarrow> any \<Rightarrow> any_map option \<Rightarrow> any_map option outcome" where
  "assign_entry k v m = (case m of None \<Rightarrow> Crashed | Some m \<Rightarrow> Done (Some (put_key k v m)))"

fun collect_fields :: "conv_lib \<Rightarrow> any_map \<Rightarrow> string list \<Rightarrow> any_map option \<Rightarrow> any_map option outcome" where
  "collect_fields lib src [] m = Done m"
| "collect_fields lib src (ep # eps) m =
     (case get_at lib src ep of
        Inl e \<Rightarrow>
          if not_found lib e then collect_fields lib src eps m
          else Failed (WithMsg (''failed to get field '' @ go_quote ep @ '' from source'') e)
      | Inr v \<Rightarrow> and_then (assign_entry ep v m) (collect_fields lib src eps))"

definition stored_entries :: "any_map option \<Rightarrow> any_map" where
  "stored_entries m = (case m of None \<Rightarrow> [] | Some m \<Rightarrow> m)"

definition sync_wildcard_annotation :: "conv_lib \<Rightarrow> string \<Rightarrow> any_map \<Rightarrow> any_map \<Rightarrow> string list \<Rightarrow> (bool \<times> any_map) outcome" where
  "sync_wildcard_annotation lib path src target eps =
     and_then (kept_fields lib target) (\<lambda>stored.
     and_then (drop_expansions lib path (stored_entries stored)) (\<lambda>(stale, rest).
     and_then (collect_fields lib src eps (map_option (\<lambda>_. rest) stored)) (\<lambda>stored.
       if eps = [] \<and> \<not> stale then Done (False, target)
       else and_then (keep_fields lib stored target) (\<lambda>target. Done (eps \<noteq> [] \<or> stale, target)))))"

definition convert_expanded_path_to_annotation ::
  "conv_lib \<Rightarrow> any_map \<Rightarrow> any_map \<Rightarrow> string \<Rightarrow> (bool \<times> any_map) outcome" where
  "convert_expanded_path_to_annotation lib src target path =
     (let value = get_at lib src path in
      case (case value of Inl e \<Rightarrow> if not_found lib e then None else Some e | Inr v \<Rightarrow> None) of
        Some e \<Rightarrow> Failed (WithMsg (''failed to get field '' @ go_quote path @ '' from source'') e)
      | None \<Rightarrow>
          and_then (kept_fields lib target) (\<lambda>stored.
            case value of
              Inl e \<Rightarrow>
                if map_of (stored_entries stored) path = None then Done (False, target)
                else and_then (keep_fields lib (map_option (del_key path) stored) target) (\<lambda>target. Done (True, target))
            | Inr v \<Rightarrow>
                and_then (assign_entry path v stored) (\<lambda>stored.
                and_then (keep_fields lib stored target) (\<lambda>target. Done (True, target)))))"

fun convert_expanded_paths :: "conv_lib \<Rightarrow> any_map \<Rightarrow> string list \<Rightarrow> bool \<Rightarrow> any_map \<Rightarrow> (bool \<times> any_map) outcome" where
  "convert_expanded_paths lib src [] converted target = Done (converted, target)"
| "convert_expanded_paths lib src (ep # eps) converted target =
     and_then (convert_expanded_path_to_annotation lib src target ep)
       (\<lambda>(c, target). convert_expanded_paths lib src eps (converted \<or> c) target)"

definition convert_to_annotation :: "conv_lib \<Rightarrow> string \<Rightarrow> any_map \<Rightarrow> any_map \<Rightarrow> (bool \<times> any_map) outcome" where
  "convert_to_annotation lib path src target =
     (let go = (\<lambda>eps.
        if contains_sub path ''[*]'' then sync_wildcard_annotation lib path src target eps
        else if eps = [] then convert_expanded_path_to_annotation lib src target path
        else convert_expanded_paths lib src eps False target) in
      case expand_at lib src path of
        Inl e \<Rightarrow>
          if not_found lib e then go []
          else Failed (WithMsg (''cannot expand wildcards in the fieldpath expression '' @ path) e)
      | Inr eps \<Rightarrow> go eps)"

fun restore_fields :: "conv_lib \<Rightarrow> string \<Rightarrow> any_map \<Rightarrow> any_map \<Rightarrow> any_map outcome" where
  "restore_fields lib path [] target = Done target"
| "restore_fields lib path ((k, v) # m) target =
     (case is_expansion_of lib k path of
        Inl e \<Rightarrow> Failed (WithMsg (''failed to check for expansion '' @ go_quote path) e)
      | Inr b \<Rightarrow>
          if \<not> b \<or> v = Nil_v then restore_fields lib path m target
          else (case put_at lib target k v of
                  Inl e \<Rightarrow> Failed (WithMsg (''failed to set field '' @ go_quote path @ '' in target'') e)
                | Inr target \<Rightarrow> restore_fields lib path m target))"

definition convert_from_annotation :: "conv_lib \<Rightarrow> string \<Rightarrow> any_map \<Rightarrow> any_map \<Rightarrow> (bool \<times> any_map) outcome" where
  "convert_from_annotation lib path src target =
     (case get_at lib src annotation_path of
        Inl e \<Rightarrow>
          if not_found lib e then Done (False, target)
          else Failed (WithMsg (''failed to get annotation '' @ go_quote annotation_key @ '' from source'') e)
      | Inr v \<Rightarrow>
          (case v of
             Str_v s \<Rightarrow>
               if s = '''' then Done (False, target)
               else (case decode_json lib s of
                       Inl e \<Rightarrow> Failed (WithMsg (''failed to unmarshal annotation '' @ go_quote annotation_key @ '' from JSON'') e)
                     | Inr m \<Rightarrow> and_then (restore_fields lib path (stored_entries m) target) (\<lambda>target. Done (True, target)))
           | _ \<Rightarrow> Done (False, target)))"

definition convert_new_field :: "conv_lib \<Rightarrow> string \<Rightarrow> annotation_mode \<Rightarrow> any_map \<Rightarrow> any_map \<Rightarrow> (bool \<times> any_map) outcome" where
  "convert_new_field lib path mode src target =
     (case mode of
        ToAnnotation \<Rightarrow> convert_to_annotation lib path src target
      | FromAnnotation \<Rightarrow> convert_from_annotation lib path src target
      | Other_annotation_mode n \<Rightarrow> Failed (Plain (''unknown new field conversion mode: '' @ annotation_mode_string mode)))"


section \<open>Package strconv\<close>

definition num_error :: "string \<Rightarrow> string \<Rightarrow> string \<Rightarrow> gerror" where
  "num_error func s what = Plain (''strconv.'' @ func @ '': parsing '' @ go_quote s @ '': '' @ what)"

datatype scan = Scanned nat | Bad_syntax | Out_of_range

text \<open>The loop of \<open>ParseUint\<close> in base 10 with 64 bits stops at the first character that decides.\<close>

fun scan_digits :: "nat \<Rightarrow> string \<Rightarrow> scan" where
  "scan_digits n [] = Scanned n"
| "scan_digits n (c # cs) =
     (if \<not> is_digit c then Bad_syntax
      else let m = 10 * n + (of_char c - 48) in if m < 2 ^ 64 then scan_digits m cs else Out_of_range)"

definition scan_uint :: "string \<Rightarrow> scan" where
  "scan_uint s = (if s = '''' then Bad_syntax else scan_digits 0 s)"

fun split_sign :: "string \<Rightarrow> bool \<times> string" where
  "split_sign (c # cs) = (if c = CHR ''+'' then (False, cs) else if c = CHR ''-'' then (True, cs) else (False, c # cs))"
| "split_sign [] = (False, [])"

text \<open>\<open>ParseInt(s, 10, 64)\<close>\<close>

definition parse_int64 :: "string \<Rightarrow> gerror + int" where
  "parse_int64 s =
     (if s = '''' then Inl (num_error ''ParseInt'' s ''invalid syntax'')
      else let (neg, t) = split_sign s in
        (case scan_uint t of
           Bad_syntax \<Rightarrow> Inl (num_error ''ParseInt'' s ''invalid syntax'')
         | Out_of_range \<Rightarrow> Inl (num_error ''ParseInt'' s ''value out of range'')
         | Scanned n \<Rightarrow>
             if \<not> neg \<and> 2 ^ 63 \<le> n \<or> neg \<and> 2 ^ 63 < n then Inl (num_error ''ParseInt'' s ''value out of range'')
             else Inr (if neg then - int n else int n)))"

definition parse_bool :: "string \<Rightarrow> gerror + bool" where
  "parse_bool s =
     (if s \<in> {''1'', ''t'', ''T'', ''true'', ''TRUE'', ''True''} then Inr True
      else if s \<in> {''0'', ''f'', ''F'', ''false'', ''FALSE'', ''False''} then Inr False
      else Inl (num_error ''ParseBool'' s ''invalid syntax''))"

definition format_bool :: "bool \<Rightarrow> string" where
  "format_bool b = (if b then ''true'' else ''false'')"

section \<open>Changed types\<close>

text \<open>Conversions of a \<open>float64\<close> to \<open>int64\<close> and of an \<open>int64\<close> to \<open>float64\<close>, and the comparison of the latter.\<close>

definition int64_of_float :: "conv_lib \<Rightarrow> int \<Rightarrow> int \<Rightarrow> int" where
  "int64_of_float lib m e =
     (let n = (if 0 \<le> e then m * 2 ^ nat e else sgn m * (\<bar>m\<bar> div 2 ^ nat (- e))) in
      if fits_int64 n then n else wide_int64 lib m e)"

definition same_float :: "int \<Rightarrow> int \<Rightarrow> int \<Rightarrow> int \<Rightarrow> bool" where
  "same_float m e n f \<longleftrightarrow> m * 2 ^ nat (e - min e f) = n * 2 ^ nat (f - min e f)"

definition float_is_int :: "int \<Rightarrow> int \<Rightarrow> int \<Rightarrow> bool" where
  "float_is_int m e n = (case fst (to_float64 n 0) of Finite k f \<Rightarrow> same_float m e k f | Infinite \<Rightarrow> False)"

definition int_to_string :: "conv_lib \<Rightarrow> any \<Rightarrow> gerror + any" where
  "int_to_string lib v =
     (case v of
        Num_v n \<Rightarrow> Inr (Str_v (show_int n))
      | Float_v m e \<Rightarrow>
          let n = int64_of_float lib m e in
          if float_is_int m e n then Inr (Str_v (show_int n))
          else Inl (Plain (''value '' @ value_text lib v @ '' is not an integer''))
      | _ \<Rightarrow> Inl (Plain (''expected int64 or float64 type, got '' @ type_text lib v)))"

definition string_to_int :: "conv_lib \<Rightarrow> any \<Rightarrow> gerror + any" where
  "string_to_int lib v =
     (case v of
        Str_v s \<Rightarrow>
          (case parse_int64 s of
             Inl e \<Rightarrow> Inl (WithMsg (''cannot convert string '' @ go_quote s @ '' to int64'') e)
           | Inr n \<Rightarrow> Inr (Num_v n))
      | _ \<Rightarrow> Inl (Plain (''expected string type, got '' @ type_text lib v)))"

definition bool_to_string :: "conv_lib \<Rightarrow> any \<Rightarrow> gerror + any" where
  "bool_to_string lib v =
     (case v of Bool_v b \<Rightarrow> Inr (Str_v (format_bool b)) | _ \<Rightarrow> Inl (Plain (''expected bool type, got '' @ type_text lib v)))"

definition string_to_bool :: "conv_lib \<Rightarrow> any \<Rightarrow> gerror + any" where
  "string_to_bool lib v =
     (case v of
        Str_v s \<Rightarrow>
          (case parse_bool s of
             Inl e \<Rightarrow> Inl (WithMsg (''cannot convert string '' @ go_quote s @ '' to boolean'') e)
           | Inr b \<Rightarrow> Inr (Bool_v b))
      | _ \<Rightarrow> Inl (Plain (''expected string type, got '' @ type_text lib v)))"

definition float_to_string :: "conv_lib \<Rightarrow> any \<Rightarrow> gerror + any" where
  "float_to_string lib v =
     (case v of Float_v m e \<Rightarrow> Inr (Str_v (format_float lib m e)) | _ \<Rightarrow> Inl (Plain (''expected float64 type, got '' @ type_text lib v)))"

definition string_to_float :: "conv_lib \<Rightarrow> any \<Rightarrow> gerror + any" where
  "string_to_float lib v =
     (case v of
        Str_v s \<Rightarrow>
          (case parse_float lib s of
             Inl e \<Rightarrow> Inl (WithMsg (''cannot convert string '' @ go_quote s @ '' to float64'') e)
           | Inr x \<Rightarrow> Inr x)
      | _ \<Rightarrow> Inl (Plain (''expected string type, got '' @ type_text lib v)))"

definition convert_value :: "conv_lib \<Rightarrow> type_mode \<Rightarrow> any \<Rightarrow> gerror + any" where
  "convert_value lib mode v =
     (if v = Nil_v then Inr Nil_v
      else (case mode of
              IntToString \<Rightarrow> int_to_string lib v
            | StringToInt \<Rightarrow> string_to_int lib v
            | BoolToString \<Rightarrow> bool_to_string lib v
            | StringToBool \<Rightarrow> string_to_bool lib v
            | FloatToString \<Rightarrow> float_to_string lib v
            | StringToFloat \<Rightarrow> string_to_float lib v
            | Other_type_mode n \<Rightarrow> Inl (Plain (''unknown type conversion mode: '' @ type_mode_string mode))))"

definition convert_field_type :: "conv_lib \<Rightarrow> string \<Rightarrow> type_mode \<Rightarrow> any_map \<Rightarrow> any_map \<Rightarrow> (bool \<times> any_map) outcome" where
  "convert_field_type lib path mode src target =
     (case get_at lib src path of
        Inl e \<Rightarrow>
          if not_found lib e then Done (False, target)
          else Failed (WithMsg (''failed to get field '' @ go_quote path @ '' from source'') e)
      | Inr v \<Rightarrow>
          (case convert_value lib mode v of
             Inl e \<Rightarrow> Failed (WithMsg (''failed to convert field '' @ go_quote path @ '' with mode '' @ type_mode_string mode) e)
           | Inr w \<Rightarrow>
               (case put_at lib target path w of
                  Inl e \<Rightarrow> Failed (WithMsg (''failed to set converted field '' @ go_quote path @ '' in target'') e)
                | Inr target \<Rightarrow> Done (True, target))))"

section \<open>The interfaces of the conversions\<close>

fun is_prioritized :: "'r conversion \<Rightarrow> bool" where
  "is_prioritized (Identity c ex) = True"
| "is_prioritized _ = False"

fun is_managed :: "'r conversion \<Rightarrow> bool" where
  "is_managed (Identity c ex) = True"
| "is_managed (Custom c f) = True"
| "is_managed _ = False"

fun is_paved :: "'r conversion \<Rightarrow> bool" where
  "is_paved cv = (\<not> is_managed cv)"

fun base_of :: "'r conversion \<Rightarrow> base_conversion" where
  "base_of (Field_copy c sf tf) = c"
| "base_of (Custom c f) = c"
| "base_of (Singleton_list c ps crd mode opts) = c"
| "base_of (Identity c ex) = c"
| "base_of (New_field c p mode) = c"
| "base_of (Field_type c p mode) = c"

text \<open>\<open>ConvertPaved\<close> and \<open>ConvertManaged\<close>: a conversion that does not apply does nothing.\<close>

fun convert_paved :: "conv_lib \<Rightarrow> 'r conversion \<Rightarrow> any_map \<Rightarrow> any_map \<Rightarrow> (bool \<times> any_map \<times> any_map) outcome" where
  "convert_paved lib cv src target =
     (if \<not> paved_applicable lib (base_of cv) src target then Done (False, src, target)
      else (let only_target = (\<lambda>r. and_then r (\<lambda>(b, target). Done (b, src, target))) in
        case cv of
          Field_copy c sf tf \<Rightarrow> only_target (field_copy lib sf tf src target)
        | Singleton_list c ps crd mode opts \<Rightarrow> convert_singleton_lists lib c ps crd mode opts src target
        | New_field c p mode \<Rightarrow> only_target (convert_new_field lib p mode src target)
        | Field_type c p mode \<Rightarrow> only_target (convert_field_type lib p mode src target)
        | _ \<Rightarrow> Done (False, src, target)))"

fun convert_managed :: "conv_lib \<Rightarrow> 'r managed_api \<Rightarrow> 'r conversion \<Rightarrow> 'r \<Rightarrow> 'r \<Rightarrow> (bool \<times> 'r \<times> 'r) outcome" where
  "convert_managed lib api cv src target =
     (if \<not> managed_applicable api (base_of cv) src target then Done (False, src, target)
      else (case cv of
              Custom c (Some f) \<Rightarrow>
                and_then (wrap_outcome ''failed to apply the converter function'' (f src target)) (\<lambda>(s, t). Done (True, s, t))
            | Identity c ex \<Rightarrow> and_then (convert_identity lib api ex src target) (\<lambda>(b, t). Done (b, src, t))
            | _ \<Rightarrow> Done (False, src, target)))"

section \<open>Constructors\<close>

definition new_field_rename_conversion :: "string \<Rightarrow> string \<Rightarrow> string \<Rightarrow> string \<Rightarrow> 'r conversion" where
  "new_field_rename_conversion sv sf tv tf = Field_copy (new_base_conversion sv tv) sf tf"

definition new_custom_converter :: "string \<Rightarrow> string \<Rightarrow> ('r \<Rightarrow> 'r \<Rightarrow> ('r \<times> 'r) outcome) option \<Rightarrow> 'r conversion" where
  "new_custom_converter sv tv f = Custom (new_base_conversion sv tv) f"

definition with_convert_options :: "(string \<rightharpoonup> inject_key) option \<Rightarrow> 'r conversion \<Rightarrow> 'r conversion" where
  "with_convert_options o1 cv =
     (case cv of Singleton_list c ps crd mode opts \<Rightarrow> Singleton_list c ps crd mode o1 | _ \<Rightarrow> cv)"

definition new_singleton_list_conversion ::
  "string \<Rightarrow> string \<Rightarrow> string list \<Rightarrow> string list \<Rightarrow> list_mode \<Rightarrow> ('r conversion \<Rightarrow> 'r conversion) list \<Rightarrow> 'r conversion" where
  "new_singleton_list_conversion sv tv prefixes crd mode opts =
     fold (\<lambda>o1 s. o1 s) opts (Singleton_list (new_base_conversion sv tv) prefixes crd mode None)"

definition new_identity_conversion :: "string \<Rightarrow> string \<Rightarrow> string list \<Rightarrow> 'r conversion" where
  "new_identity_conversion sv tv ex = Identity (new_base_conversion sv tv) ex"

definition new_identity_conversion_expand_paths :: "string \<Rightarrow> string \<Rightarrow> string list \<Rightarrow> string list \<Rightarrow> 'r conversion" where
  "new_identity_conversion_expand_paths sv tv prefixes ex = new_identity_conversion sv tv (expand_parameters prefixes ex)"

definition new_newly_introduced_field_conversion :: "string \<Rightarrow> string \<Rightarrow> string \<Rightarrow> annotation_mode \<Rightarrow> 'r conversion" where
  "new_newly_introduced_field_conversion sv tv path mode = New_field (new_base_conversion sv tv) path mode"

definition new_field_type_conversion :: "string \<Rightarrow> string \<Rightarrow> string \<Rightarrow> type_mode \<Rightarrow> 'r conversion" where
  "new_field_type_conversion sv tv path mode = Field_type (new_base_conversion sv tv) path mode"

end
