(* ===== verification/FieldRoundTrip.thy ===== *)
theory FieldRoundTrip
  imports FieldConversions
begin

text \<open>
  What the conversions of \<open>FieldConversions\<close> keep: the annotation of an older version holds the fields
  of the newer one, integers and booleans survive a change to strings and back.
\<close>

section \<open>What the libraries promise\<close>

text \<open>
  \<open>normal v\<close> is a value as \<open>SetValue\<close> stores it, \<open>rejson v\<close> a value encoded to JSON and decoded again.
  A value that is set is found at its path and changes no value apart from it; expansions of a path
  exist and have different segments.
\<close>

definition conv_laws :: "conv_lib \<Rightarrow> (any \<Rightarrow> any) \<Rightarrow> (any \<Rightarrow> any) \<Rightarrow> bool" where
  "conv_laws lib normal rejson \<longleftrightarrow>
     (\<forall>m p v m'. put_at lib m p v = Inr m' \<longrightarrow> get_at lib m' p = Inr (normal v) \<and>
        (\<forall>q sp sq w. parse_at lib p = Inr sp \<longrightarrow> parse_at lib q = Inr sq \<longrightarrow> apart sp sq \<longrightarrow>
           get_at lib m q = Inr w \<longrightarrow> get_at lib m' q = Inr w)) \<and>
     (\<forall>s. normal (Str_v s) = Str_v s) \<and>
     (\<forall>m s. distinct (map fst m) \<longrightarrow> encode_json lib (Some m) = Inr s \<longrightarrow>
        (\<exists>m'. decode_json lib s = Inr (Some m') \<and> map_of m' = map_option rejson \<circ> map_of m)) \<and>
     (\<forall>s m. decode_json lib s = Inr (Some m) \<longrightarrow>
        s \<noteq> '''' \<and> distinct (map fst m) \<and> (\<forall>k v. map_of m k = Some v \<longrightarrow> rejson v = v)) \<and>
     (\<forall>v. rejson v = Nil_v \<longleftrightarrow> v = Nil_v) \<and>
     (\<forall>m path eps. expand_at lib m path = Inr eps \<longrightarrow> inj_on (parse_at lib) (set eps) \<and>
        (\<forall>ep \<in> set eps. is_expansion_of lib ep path = Inr True \<and> (\<exists>v. get_at lib m ep = Inr v)))"

lemma conv_lawsD:
  assumes "conv_laws lib normal rejson"
  shows put_law: "put_at lib m p v = Inr m' \<Longrightarrow> get_at lib m' p = Inr (normal v)"
    and put_apart_law: "put_at lib m p v = Inr m' \<Longrightarrow> parse_at lib p = Inr sp \<Longrightarrow> parse_at lib q = Inr sq \<Longrightarrow> apart sp sq \<Longrightarrow>
      get_at lib m q = Inr w \<Longrightarrow> get_at lib m' q = Inr w"
    and normal_string: "normal (Str_v s) = Str_v s"
    and encode_law: "distinct (map fst m) \<Longrightarrow> encode_json lib (Some m) = Inr s \<Longrightarrow>
      (\<exists>m'. decode_json lib s = Inr (Some m') \<and> map_of m' = map_option rejson \<circ> map_of m)"
    and decode_law: "decode_json lib s = Inr (Some m) \<Longrightarrow>
      s \<noteq> '''' \<and> distinct (map fst m) \<and> (\<forall>k v. map_of m k = Some v \<longrightarrow> rejson v = v)"
    and expand_inj: "expand_at lib m path = Inr eps \<Longrightarrow> inj_on (parse_at lib) (set eps)"
    and rejson_nil: "rejson v = Nil_v \<longleftrightarrow> v = Nil_v"
    and expand_law: "expand_at lib m path = Inr eps \<Longrightarrow> ep \<in> set eps \<Longrightarrow>
      is_expansion_of lib ep path = Inr True \<and> (\<exists>v. get_at lib m ep = Inr v)"
  using assms unfolding conv_laws_def by blast+

section \<open>The annotation as a map\<close>

definition kept_map :: "conv_lib \<Rightarrow> any_map \<Rightarrow> (string \<rightharpoonup> any) option" where
  "kept_map lib target =
     (case kept_fields lib target of Done m \<Rightarrow> Some (map_of (stored_entries m)) | _ \<Rightarrow> None)"

definition expansion :: "conv_lib \<Rightarrow> string \<Rightarrow> string \<Rightarrow> bool" where
  "expansion lib path k \<longleftrightarrow> is_expansion_of lib k path = Inr True"

definition value_at :: "conv_lib \<Rightarrow> any_map \<Rightarrow> string \<Rightarrow> any option" where
  "value_at lib m k = (case get_at lib m k of Inl e \<Rightarrow> None | Inr v \<Rightarrow> Some v)"

definition expansions_in :: "conv_lib \<Rightarrow> string \<Rightarrow> any_map \<Rightarrow> string list" where
  "expansions_in lib path src = (case expand_at lib src path of Inl e \<Rightarrow> [] | Inr eps \<Rightarrow> eps)"

text \<open>The abstract operation: the entries of the path are those of the source, the others stay.\<close>

definition synced :: "conv_lib \<Rightarrow> (any \<Rightarrow> any) \<Rightarrow> string \<Rightarrow> any_map \<Rightarrow> (string \<rightharpoonup> any) \<Rightarrow> (string \<rightharpoonup> any)" where
  "synced lib rejson path src old =
     (\<lambda>k. if k \<in> set (expansions_in lib path src) then map_option rejson (value_at lib src k)
          else if expansion lib path k then None else old k)"

lemma kept_decoded:
  assumes "conv_laws lib normal rejson" "kept_fields lib target = Done (Some m)"
  shows "distinct (map fst m)" "map_of m k = Some v \<Longrightarrow> rejson v = v"
  using assms(2) decode_law [OF assms(1)]
  by (auto simp: kept_fields_def annotation_msg_def split: sum.splits any.splits if_splits)

lemma keep_kept:
  assumes "conv_laws lib normal rejson" "keep_fields lib (Some m) target = Done target'" "distinct (map fst m)"
  shows "\<exists>s m'. get_at lib target' annotation_path = Inr (Str_v s) \<and> decode_json lib s = Inr (Some m') \<and>
     map_of m' = map_option rejson \<circ> map_of m"
proof -
  from assms(2) obtain s where s: "encode_json lib (Some m) = Inr s" "put_at lib target annotation_path (Str_v s) = Inr target'"
    by (auto simp: keep_fields_def annotation_msg_def split: sum.splits)
  from put_law [OF assms(1) s(2)] normal_string [OF assms(1)] encode_law [OF assms(1) assms(3) s(1)]
  show ?thesis by auto
qed

lemma drop_expansions_filter:
  "drop_expansions lib path m = Done (stale, rest) \<Longrightarrow>
     rest = filter (\<lambda>e. \<not> expansion lib path (fst e)) m \<and> stale = (\<exists>e \<in> set m. expansion lib path (fst e))"
proof (induction m arbitrary: stale rest)
  case (Cons e m)
  obtain k v where e: "e = (k, v)" by fastforce
  from Cons.prems obtain b stale' rest' where d: "is_expansion_of lib k path = Inr b"
      "drop_expansions lib path m = Done (stale', rest')" "stale = (stale' \<or> b)" "rest = (if b then rest' else (k, v) # rest')"
    by (auto simp: e split: sum.splits)
  from Cons.IH [OF d(2)] d show ?case by (auto simp: e expansion_def)
qed simp

definition overridden :: "conv_lib \<Rightarrow> any_map \<Rightarrow> string list \<Rightarrow> any_map \<Rightarrow> string \<Rightarrow> any option" where
  "overridden lib src eps m k = (if k \<in> set eps \<and> value_at lib src k \<noteq> None then value_at lib src k else map_of m k)"

lemma collect_fields_map:
  "collect_fields lib src eps (Some m) = Done r \<Longrightarrow> distinct (map fst m) \<Longrightarrow>
     \<exists>m'. r = Some m' \<and> distinct (map fst m') \<and> (\<forall>k. map_of m' k = overridden lib src eps m k)"
proof (induction eps arbitrary: m)
  case (Cons ep eps)
  show ?case
  proof (cases "get_at lib src ep")
    case (Inl e)
    then have "value_at lib src ep = None" by (simp add: value_at_def)
    then have "overridden lib src (ep # eps) m k = overridden lib src eps m k" for k by (auto simp: overridden_def)
    moreover have "collect_fields lib src eps (Some m) = Done r" using Cons.prems Inl by (auto split: if_splits)
    ultimately show ?thesis using Cons.IH Cons.prems(2) by presburger
  next
    case (Inr v)
    then have "value_at lib src ep = Some v" by (simp add: value_at_def)
    then have "overridden lib src (ep # eps) m k = overridden lib src eps (put_key ep v m) k" for k by (auto simp: overridden_def)
    moreover have "collect_fields lib src eps (Some (put_key ep v m)) = Done r"
      using Cons.prems Inr by (simp add: assign_entry_def)
    ultimately show ?thesis using Cons.IH distinct_put_key [OF Cons.prems(2)] by presburger
  qed
qed (auto simp: overridden_def)

lemma collect_fields_nil: "collect_fields lib src eps None = Done r \<Longrightarrow> (\<And>ep. ep \<in> set eps \<Longrightarrow> \<exists>v. get_at lib src ep = Inr v) \<Longrightarrow> eps = []"
proof (cases eps)
  case (Cons ep eps')
  assume "collect_fields lib src eps None = Done r" "\<And>ep. ep \<in> set eps \<Longrightarrow> \<exists>v. get_at lib src ep = Inr v"
  with Cons show ?thesis by (force simp: assign_entry_def)
qed simp

lemma expansions_law:
  assumes "conv_laws lib normal rejson" "ep \<in> set (expansions_in lib path src)"
  shows "expansion lib path ep" "\<exists>v. get_at lib src ep = Inr v"
proof -
  from assms(2) obtain eps where "expand_at lib src path = Inr eps" "ep \<in> set eps"
    by (cases "expand_at lib src path") (auto simp: expansions_in_def)
  from expand_law [OF assms(1) this] show "expansion lib path ep" "\<exists>v. get_at lib src ep = Inr v"
    by (simp_all add: expansion_def)
qed

lemma to_annotation_cases:
  assumes "convert_to_annotation lib path src target = Done (c, target')" "contains_sub path ''[*]''"
  shows "sync_wildcard_annotation lib path src target (expansions_in lib path src) = Done (c, target')"
  using assms by (auto simp: convert_to_annotation_def Let_def expansions_in_def split: sum.splits if_splits)

lemma sync_steps:
  assumes "sync_wildcard_annotation lib path src target eps = Done (c, target')"
  obtains stored stale rest stored' where
    "kept_fields lib target = Done stored" "drop_expansions lib path (stored_entries stored) = Done (stale, rest)"
    "collect_fields lib src eps (map_option (\<lambda>_. rest) stored) = Done stored'"
    "eps = [] \<and> \<not> stale \<Longrightarrow> c = False \<and> target' = target"
    "\<not> (eps = [] \<and> \<not> stale) \<Longrightarrow> c = True \<and> keep_fields lib stored' target = Done target'"
proof -
  from assms obtain stored where s: "kept_fields lib target = Done stored"
    by (auto simp: sync_wildcard_annotation_def)
  with assms obtain stale rest where d: "drop_expansions lib path (stored_entries stored) = Done (stale, rest)"
    by (auto simp: sync_wildcard_annotation_def)
  with assms s obtain stored' where c: "collect_fields lib src eps (map_option (\<lambda>_. rest) stored) = Done stored'"
    by (auto simp: sync_wildcard_annotation_def)
  show thesis
    by (rule that [OF s d c]) (use assms s d c in \<open>auto simp: sync_wildcard_annotation_def split: if_splits\<close>)
qed


lemma map_of_filter_keys: "map_of (filter (\<lambda>e. P (fst e)) m) k = (if P k then map_of m k else None)"
  by (induction m) auto

lemma wildcard_sync:
  assumes "conv_laws lib normal rejson" "contains_sub path ''[*]''"
    "convert_to_annotation lib path src target = Done (c, target')" "kept_map lib target = Some old"
  shows "kept_map lib target' = Some (synced lib rejson path src old)"
proof -
  let ?eps = "expansions_in lib path src"
  obtain stored stale rest stored' where
    r: "kept_fields lib target = Done stored" "drop_expansions lib path (stored_entries stored) = Done (stale, rest)"
      "collect_fields lib src ?eps (map_option (\<lambda>_. rest) stored) = Done stored'"
    and same: "?eps = [] \<and> \<not> stale \<Longrightarrow> c = False \<and> target' = target"
    and kept: "\<not> (?eps = [] \<and> \<not> stale) \<Longrightarrow> c = True \<and> keep_fields lib stored' target = Done target'"
    using sync_steps [OF to_annotation_cases [OF assms(3,2)]] by metis
  have old: "old = map_of (stored_entries stored)" using assms(4) r(1) by (simp add: kept_map_def)
  have d: "rest = filter (\<lambda>e. \<not> expansion lib path (fst e)) (stored_entries stored)"
      "stale = (\<exists>e \<in> set (stored_entries stored). expansion lib path (fst e))"
    using drop_expansions_filter [OF r(2)] by simp_all
  show ?thesis
  proof (cases "?eps = [] \<and> \<not> stale")
    case True
    then have "map_of (stored_entries stored) k = None" if "expansion lib path k" for k
      using d(2) that by (force simp: map_of_eq_None_iff)
    then have "synced lib rejson path src old k = old k" for k using True by (simp add: synced_def old)
    then have "synced lib rejson path src old = old" by blast
    then show ?thesis using True same assms(4) by simp
  next
    case False
    have "stored \<noteq> None"
    proof
      assume n: "stored = None"
      with r(3) have "collect_fields lib src ?eps None = Done stored'" by simp
      then have "?eps = []" using expansions_law(2) [OF assms(1)] by (rule collect_fields_nil)
      with False n d(2) show False by (simp add: stored_entries_def)
    qed
    then obtain m where m: "stored = Some m" by blast
    have md: "distinct (map fst m)" "map_of m k = Some v \<Longrightarrow> rejson v = v" for k v
      using kept_decoded [OF assms(1), of target m] r(1) m by blast+
    have rd: "distinct (map fst rest)" using md(1) d(1) m by (simp add: stored_entries_def distinct_map_filter)
    from collect_fields_map [OF r(3) [unfolded m option.map] rd] obtain m1 where
      m1: "stored' = Some m1" "distinct (map fst m1)" "\<And>k. map_of m1 k = overridden lib src ?eps rest k" by blast
    have "keep_fields lib (Some m1) target = Done target'" using kept False m1(1) by simp
    from keep_kept [OF assms(1) this m1(2)] obtain s m2 where
      m2: "get_at lib target' annotation_path = Inr (Str_v s)" "decode_json lib s = Inr (Some m2)"
        "map_of m2 = map_option rejson \<circ> map_of m1" by blast
    have k: "kept_map lib target' = Some (map_of m2)" using m2(1,2) by (simp add: kept_map_def kept_fields_def stored_entries_def)
    have rest: "map_of rest k = (if expansion lib path k then None else map_of m k)" for k
      unfolding d(1) m stored_entries_def using map_of_filter_keys [of "\<lambda>k. \<not> expansion lib path k" m k] by simp
    have "map_of m2 k = synced lib rejson path src old k" for k
    proof (cases "k \<in> set ?eps")
      case True
      then obtain v where "get_at lib src k = Inr v" using expansions_law(2) [OF assms(1)] by blast
      then show ?thesis using True by (simp add: m2(3) m1(3) overridden_def synced_def value_at_def)
    next
      case False
      then have "map_of m2 k = map_option rejson (map_of rest k)" by (simp add: m2(3) m1(3) overridden_def)
      also have "\<dots> = (if expansion lib path k then None else map_of m k)"
        using md(2) by (cases "map_of m k") (simp_all add: rest)
      finally show ?thesis using False by (simp add: synced_def old m stored_entries_def)
    qed
    then show ?thesis using k by auto
  qed
qed

text \<open>
  C4. Keeping the fields of a wildcard path in the annotation refines an update of a map: whenever
  the conversion to the annotation succeeds, the annotation of the target holds exactly the current
  values of the source's expansions of the path, none of elements deleted since, and the entries of
  other paths unchanged.
\<close>

theorem wildcard_sync_refines:
  assumes "conv_laws lib normal rejson" "contains_sub path ''[*]''"
    and "convert_to_annotation lib path src target = Done (c, target')"
  shows "\<exists>old. kept_map lib target = Some old \<and> kept_map lib target' = Some (synced lib rejson path src old)"
proof -
  have "sync_wildcard_annotation lib path src target (expansions_in lib path src) = Done (c, target')"
    using assms(2,3) by (intro to_annotation_cases)
  then obtain old where "kept_map lib target = Some old" by (rule sync_steps) (simp add: kept_map_def)
  with wildcard_sync [OF assms this] show ?thesis by blast
qed

section \<open>Back from the annotation\<close>

lemma expanded_length: "expanded_for a w \<Longrightarrow> length a = length w"
  by (induction a w rule: expanded_for.induct) auto

lemma same_length_apart: "length a = length b \<Longrightarrow> a \<noteq> b \<Longrightarrow> apart a b"
  by (induction a b rule: list_induct2) auto

lemma expanded_apart: "expanded_for a w \<Longrightarrow> expanded_for b w \<Longrightarrow> a \<noteq> b \<Longrightarrow> apart a b"
  using expanded_length same_length_apart by metis

definition apart_from :: "conv_lib \<Rightarrow> string \<Rightarrow> string \<Rightarrow> bool" where
  "apart_from lib p q \<longleftrightarrow> (\<exists>sp sq. parse_at lib p = Inr sp \<and> parse_at lib q = Inr sq \<and> apart sp sq)"

lemma expansions_apart: "expansion lib path p \<Longrightarrow> expansion lib path q \<Longrightarrow> parse_at lib p \<noteq> parse_at lib q \<Longrightarrow> apart_from lib p q"
  using expanded_apart by (fastforce simp: expansion_def is_expansion_of_def apart_from_def split: sum.splits)

lemma restore_keeps:
  assumes "conv_laws lib normal rejson"
  shows "restore_fields lib path m target = Done target' \<Longrightarrow> (\<And>k v. (k, v) \<in> set m \<Longrightarrow> expansion lib path k \<Longrightarrow> apart_from lib k q) \<Longrightarrow>
    get_at lib target q = Inr w \<Longrightarrow> get_at lib target' q = Inr w"
proof (induction m arbitrary: target)
  case (Cons e m)
  obtain k v where e: "e = (k, v)" by fastforce
  from Cons.prems(1) obtain b where b: "is_expansion_of lib k path = Inr b" by (cases "is_expansion_of lib k path") (auto simp: e)
  show ?case
  proof (cases "\<not> b \<or> v = Nil_v")
    case True
    with Cons b show ?thesis by (auto simp: e)
  next
    case False
    then obtain t where t: "put_at lib target k v = Inr t" "restore_fields lib path m t = Done target'"
      using Cons.prems(1) b by (auto simp: e split: sum.splits)
    have "apart_from lib k q" using Cons.prems(2) [of k v] b False by (simp add: e expansion_def)
    then have "get_at lib t q = Inr w" using put_apart_law [OF assms t(1)] Cons.prems(3) by (auto simp: apart_from_def)
    then show ?thesis by (rule Cons.IH [OF t(2), rotated]) (use Cons.prems(2) in \<open>auto simp: e\<close>)
  qed
qed simp

lemma restore_sets:
  assumes "conv_laws lib normal rejson"
  shows "restore_fields lib path m target = Done target' \<Longrightarrow> distinct (map fst m) \<Longrightarrow>
    (\<And>p q. p \<in> fst ` set m \<Longrightarrow> q \<in> fst ` set m \<Longrightarrow> expansion lib path p \<Longrightarrow> expansion lib path q \<Longrightarrow> p \<noteq> q \<Longrightarrow> apart_from lib p q) \<Longrightarrow>
    (k, v) \<in> set m \<Longrightarrow> expansion lib path k \<Longrightarrow> v \<noteq> Nil_v \<Longrightarrow> get_at lib target' k = Inr (normal v)"
proof (induction m arbitrary: target)
  case (Cons e m)
  obtain j x where e: "e = (j, x)" by fastforce
  from Cons.prems(1) obtain b where b: "is_expansion_of lib j path = Inr b" by (cases "is_expansion_of lib j path") (auto simp: e)
  have ap: "apart_from lib p q" if "p \<in> fst ` set m" "q \<in> fst ` set m" "expansion lib path p" "expansion lib path q" "p \<noteq> q" for p q
    using Cons.prems(3) that by simp
  show ?case
  proof (cases "(k, v) = e")
    case True
    then obtain t where t: "put_at lib target k v = Inr t" "restore_fields lib path m t = Done target'"
      using Cons.prems(1,5,6) by (auto simp: expansion_def split: sum.splits)
    have "apart_from lib p k" if "(p, w) \<in> set m" "expansion lib path p" for p w
    proof (rule Cons.prems(3))
      have p: "p \<in> fst ` set m" using that(1) by force
      have k: "k \<notin> fst ` set m" using Cons.prems(2) True [symmetric] by simp
      show "p \<in> fst ` set (e # m)" using p by simp
      show "p \<noteq> k" using p k by blast
    qed (use Cons.prems(4,5) that in force)+
    then show ?thesis by (rule restore_keeps [OF assms t(2) _ put_law [OF assms t(1)]])
  next
    case False
    then have kv: "(k, v) \<in> set m" using Cons.prems(4) by auto
    obtain t where t: "restore_fields lib path m t = Done target'"
      using Cons.prems(1) b by (auto simp: e split: sum.splits if_splits)
    have "distinct (map fst m)" using Cons.prems(2) by simp
    then show ?thesis by (rule Cons.IH [OF t _ _ kv Cons.prems(5,6)]) (rule ap)
  qed
qed simp

text \<open>
  C5. A field that only the newer version has survives a conversion to the older version and back:
  every element's value that the newer object had under the wildcard path is set again at its place,
  in the form a value takes when it goes through JSON, whatever else was kept in the annotation.
\<close>

theorem new_fields_survive:
  assumes "conv_laws lib normal rejson" "contains_sub path ''[*]''"
    and "convert_to_annotation lib path newer older = Done (c, older')"
    and "convert_from_annotation lib path older' newer' = Done (b, restored)"
    and "expand_at lib newer path = Inr eps" "ep \<in> set eps" "get_at lib newer ep = Inr v" "v \<noteq> Nil_v"
  shows "get_at lib restored ep = Inr (normal (rejson v))"
proof -
  have eps: "expansions_in lib path newer = eps" using assms(5) by (simp add: expansions_in_def)
  have "sync_wildcard_annotation lib path newer older eps = Done (c, older')"
    using to_annotation_cases [OF assms(3,2)] eps by simp
  then obtain old where "kept_map lib older = Some old" by (rule sync_steps) (simp add: kept_map_def)
  then have k: "kept_map lib older' = Some (synced lib rejson path newer old)"
    using wildcard_sync [OF assms(1-3)] by blast
  then obtain kept where kept: "kept_fields lib older' = Done kept" "map_of (stored_entries kept) = synced lib rejson path newer old"
    by (auto simp: kept_map_def split: outcome.splits)
  have at: "map_of (stored_entries kept) ep = Some (rejson v)"
    using assms(6,7) by (simp add: kept(2) synced_def eps value_at_def)
  then obtain m where m: "kept = Some m" by (cases kept) (auto simp: stored_entries_def)
  with at have "m \<noteq> []" by (auto simp: stored_entries_def)
  then obtain s where s: "get_at lib older' annotation_path = Inr (Str_v s)" "decode_json lib s = Inr (Some m)"
    using kept(1) m by (auto simp: kept_fields_def annotation_msg_def split: sum.splits any.splits if_splits)
  from decode_law [OF assms(1) s(2)] have sm: "s \<noteq> ''''" "distinct (map fst m)" by auto
  with assms(4) s have r: "restore_fields lib path m newer' = Done restored"
    by (auto simp: convert_from_annotation_def stored_entries_def)
  have "p \<in> set eps" if "p \<in> fst ` set m" "expansion lib path p" for p
  proof (rule ccontr)
    assume "p \<notin> set eps"
    then have "map_of m p = None" using kept(2) that(2) by (simp add: m stored_entries_def synced_def eps)
    then show False using that(1) by (simp add: map_of_eq_None_iff)
  qed
  then have "apart_from lib p q"
    if "p \<in> fst ` set m" "q \<in> fst ` set m" "expansion lib path p" "expansion lib path q" "p \<noteq> q" for p q
    using expansions_apart that expand_inj [OF assms(1,5)] by (metis inj_onD)
  moreover have "(ep, rejson v) \<in> set m" using at by (auto simp: m stored_entries_def dest: map_of_SomeD)
  moreover have "expansion lib path ep" using expand_law [OF assms(1,5,6)] by (simp add: expansion_def)
  moreover have "rejson v \<noteq> Nil_v" using rejson_nil [OF assms(1)] assms(8) by simp
  ultimately show ?thesis using restore_sets [OF assms(1) r sm(2)] by blast
qed

section \<open>Integers and booleans as strings\<close>

lemma scan_digits_append:
  "scan_digits a (s @ t) = (case scan_digits a s of Scanned m \<Rightarrow> scan_digits m t | r \<Rightarrow> r)"
  by (induction a s rule: scan_digits.induct) (simp_all add: Let_def)

lemma of_digit_char: "d < 10 \<Longrightarrow> of_char (digit_char d) - 48 = d"
  by (simp add: digit_char_def)

lemma scan_show_nat: "n < 2 ^ 64 \<Longrightarrow> scan_digits 0 (show_nat n) = Scanned n"
proof (induction n rule: show_nat.induct)
  case (1 n)
  show ?case
  proof (cases "n < 10")
    case True
    then show ?thesis by (subst show_nat.simps) (simp add: is_digit_show of_digit_char)
  next
    case False
    then have ih: "scan_digits 0 (show_nat (n div 10)) = Scanned (n div 10)" using 1 by simp
    have "scan_digits 0 (show_nat n) = scan_digits (n div 10) [digit_char (n mod 10)]"
      using False ih by (subst show_nat.simps) (simp add: scan_digits_append)
    also have "\<dots> = Scanned n" using 1(2) by (simp add: is_digit_show of_digit_char)
    finally show ?thesis .
  qed
qed

lemma parse_show_int: "fits_int64 n \<Longrightarrow> parse_int64 (show_int n) = Inr n"
proof -
  assume f: "fits_int64 n"
  obtain c cs where c: "show_nat (nat \<bar>n\<bar>) = c # cs" "is_digit c" using show_nat_digits [of "nat \<bar>n\<bar>"] by (cases "show_nat (nat \<bar>n\<bar>)") auto
  then have nc: "c \<noteq> CHR ''+''" "c \<noteq> CHR ''-''" by (auto simp: is_digit_def)
  have "nat \<bar>n\<bar> < 2 ^ 64" using f by (simp add: fits_int64_def nat_less_iff abs_less_iff)
  then have s: "scan_uint (show_nat (nat \<bar>n\<bar>)) = Scanned (nat \<bar>n\<bar>)" using c scan_show_nat [of "nat \<bar>n\<bar>"] by (simp add: scan_uint_def del: scan_digits.simps)
  show ?thesis
  proof (cases "n < 0")
    case True
    then have "\<bar>n\<bar> = - n" by simp
    with True s f c(1) show ?thesis by (simp add: parse_int64_def show_int_def fits_int64_def)
  next
    case False
    then have "\<bar>n\<bar> = n" by simp
    with False s f c(1) nc show ?thesis by (simp add: parse_int64_def show_int_def fits_int64_def)
  qed
qed

lemma parse_int64_fits: "parse_int64 s = Inr n \<Longrightarrow> fits_int64 n"
  by (auto simp: parse_int64_def fits_int64_def Let_def split: if_splits prod.splits scan.splits)

definition via :: "conv_lib \<Rightarrow> type_mode \<Rightarrow> type_mode \<Rightarrow> any \<Rightarrow> gerror + any" where
  "via lib there back v = (case convert_value lib there v of Inl e \<Rightarrow> Inl e | Inr w \<Rightarrow> convert_value lib back w)"

text \<open>
  Changing the type of a field to a string loses nothing: every \<open>int64\<close> and every boolean survives
  the way to a string and back, and whatever a string is converted to is an \<open>int64\<close>: numbers out of
  range and other texts are errors.
\<close>

lemma types_survive_strings:
  "(fits_int64 n \<longrightarrow> via lib IntToString StringToInt (Num_v n) = Inr (Num_v n)) \<and>
   via lib BoolToString StringToBool (Bool_v b) = Inr (Bool_v b) \<and>
   (convert_value lib StringToInt (Str_v s) = Inr w \<longrightarrow> (\<exists>k. w = Num_v k \<and> fits_int64 k))"
proof -
  have "via lib IntToString StringToInt (Num_v n) = Inr (Num_v n)" if "fits_int64 n"
    using parse_show_int [OF that] by (simp add: via_def convert_value_def int_to_string_def string_to_int_def)
  moreover have "via lib BoolToString StringToBool (Bool_v b) = Inr (Bool_v b)"
    by (cases b) (simp_all add: via_def convert_value_def bool_to_string_def string_to_bool_def format_bool_def parse_bool_def)
  moreover have "\<exists>k. w = Num_v k \<and> fits_int64 k" if "convert_value lib StringToInt (Str_v s) = Inr w"
    using that parse_int64_fits by (auto simp: convert_value_def string_to_int_def split: sum.splits)
  ultimately show ?thesis by blast
qed

section \<open>Witnesses\<close>

text \<open>
  Objects with one entry for each path, a wildcard path with two elements, and a codec for the maps
  that occur.
\<close>

definition demo_path :: string where
  "demo_path = ''a[*].b''"

definition demo_elements :: "string list" where
  "demo_elements = [''a[0].b'', ''a[1].b'']"

definition demo_parse :: "string \<Rightarrow> seg list" where
  "demo_parse p =
     (if p = demo_path then [Key_seg ''a'', wildcard, Key_seg ''b'']
      else if p = ''a[0].b'' then [Key_seg ''a'', Idx_seg 0, Key_seg ''b'']
      else if p = ''a[1].b'' then [Key_seg ''a'', Idx_seg 1, Key_seg ''b'']
      else if p = ''a[2].b'' then [Key_seg ''a'', Idx_seg 2, Key_seg ''b'']
      else [Key_seg p])"

definition demo_old :: any_map where
  "demo_old = [(''a[2].b'', Str_v ''gone''), (''c'', Str_v ''z'')]"

definition demo_new :: any_map where
  "demo_new = [(''c'', Str_v ''z''), (''a[0].b'', Str_v ''x''), (''a[1].b'', Str_v ''y'')]"

definition demo_conv :: conv_lib where
  "demo_conv =
     \<lparr>list_paved = \<lparr>parse_path = demo_parse, expand = (\<lambda>m p. Inr []), get_error_at = (\<lambda>m p. Plain ''none''), type_name = (\<lambda>v. '''')\<rparr>,
      version_at = (\<lambda>m. case map_of m ''apiVersion'' of Some (Str_v s) \<Rightarrow> s | _ \<Rightarrow> ''''),
      get_at = (\<lambda>m p. case map_of m p of None \<Rightarrow> Inl (Plain ''not found'') | Some v \<Rightarrow> Inr v),
      put_at = (\<lambda>m p v. Inr (put_key p v m)), delete_at = (\<lambda>m p. Inr (del_key p m)),
      expand_at = (\<lambda>m p. Inr (if p = demo_path then filter (\<lambda>q. map_of m q \<noteq> None) demo_elements else [])),
      parse_at = (\<lambda>p. Inr (demo_parse p)), not_found = (\<lambda>e. e = Plain ''not found''),
      encode_json = (\<lambda>m. if m = Some demo_new then Inr ''new'' else Inl (Plain ''unsupported'')),
      decode_json = (\<lambda>s. if s = ''new'' then Inr (Some demo_new) else if s = ''old'' then Inr (Some demo_old) else Inl (Plain ''no JSON'')),
      wide_int64 = (\<lambda>m e. 0), format_float = (\<lambda>m e. ''''), parse_float = (\<lambda>s. Inl (Plain '''')),
      type_text = (\<lambda>v. ''''), value_text = (\<lambda>v. '''')\<rparr>"

lemma demo_put: "put_at demo_conv m p v = Inr (put_key p v m)"
  and demo_get: "get_at demo_conv m p = (case map_of m p of None \<Rightarrow> Inl (Plain ''not found'') | Some v \<Rightarrow> Inr v)"
  and demo_parse_at: "parse_at demo_conv p = Inr (demo_parse p)"
  and demo_expand: "expand_at demo_conv m p = Inr (if p = demo_path then filter (\<lambda>q. map_of m q \<noteq> None) demo_elements else [])"
  and demo_encode: "encode_json demo_conv n = (if n = Some demo_new then Inr ''new'' else Inl (Plain ''unsupported''))"
  and demo_decode: "decode_json demo_conv s =
    (if s = ''new'' then Inr (Some demo_new) else if s = ''old'' then Inr (Some demo_old) else Inl (Plain ''no JSON''))"
  by (simp_all add: demo_conv_def)

lemma apart_irrefl: "\<not> apart p p"
  by (induction p) auto

lemma demo_keys: "distinct (map fst demo_new)" "distinct (map fst demo_old)"
  by code_simp+

lemma demo_expansions: "ep \<in> set demo_elements \<Longrightarrow> is_expansion_of demo_conv ep demo_path = Inr True"
  by (auto simp: demo_elements_def is_expansion_of_def demo_parse_at demo_parse_def demo_path_def wildcard_def)

lemma demo_inj: "inj_on demo_parse (set demo_elements)"
  by (auto simp: demo_elements_def demo_parse_def demo_path_def inj_on_def)

lemma demo_laws: "conv_laws demo_conv (\<lambda>v. v) (\<lambda>v. v)"
proof -
  have "get_at demo_conv m' q = Inr w"
    if "put_at demo_conv m p v = Inr m'" "parse_at demo_conv p = Inr sp" "parse_at demo_conv q = Inr sq" "apart sp sq"
      "get_at demo_conv m q = Inr w" for m p v m' q sp sq w
  proof -
    have "p \<noteq> q" using that(2-4) apart_irrefl by auto
    then show ?thesis using that(1,5) by (auto simp: demo_put demo_get)
  qed
  moreover have "inj_on (parse_at demo_conv) (set eps) \<and>
      (\<forall>ep \<in> set eps. is_expansion_of demo_conv ep path = Inr True \<and> (\<exists>v. get_at demo_conv m ep = Inr v))"
    if "expand_at demo_conv m path = Inr eps" for m path eps
  proof (cases "path = demo_path")
    case True
    then have e: "eps = filter (\<lambda>q. map_of m q \<noteq> None) demo_elements" using that by (simp add: demo_expand)
    have "inj_on demo_parse (set eps)" by (rule inj_on_subset [OF demo_inj]) (auto simp: e)
    then have "inj_on (parse_at demo_conv) (set eps)" by (simp add: demo_parse_at inj_on_def)
    then show ?thesis using demo_expansions True e by (auto simp: demo_get)
  next
    case False
    then show ?thesis using that by (simp add: demo_expand)
  qed
  moreover have "decode_json demo_conv s = Inr (Some m) \<Longrightarrow> s \<noteq> '''' \<and> distinct (map fst m)" for s m
    using demo_keys by (auto simp: demo_decode split: if_splits)
  moreover have "encode_json demo_conv (Some m) = Inr s \<Longrightarrow> decode_json demo_conv s = Inr (Some m)" for m s
    by (auto simp: demo_encode demo_decode split: if_splits)
  moreover have "put_at demo_conv m p v = Inr m' \<Longrightarrow> get_at demo_conv m' p = Inr v" for m p v m'
    by (auto simp: demo_put demo_get)
  ultimately show ?thesis unfolding conv_laws_def by (auto simp: option.map_ident comp_def)
qed

definition demo_src :: any_map where
  "demo_src = [(''a[0].b'', Str_v ''x''), (''a[1].b'', Str_v ''y'')]"

definition demo_target :: any_map where
  "demo_target = [(annotation_path, Str_v ''old'')]"

lemma demo_to: "convert_to_annotation demo_conv demo_path demo_src demo_target = Done (True, [(annotation_path, Str_v ''new'')])"
  by code_simp

theorem wildcard_sync_refines_witness:
  "\<exists>old. kept_map demo_conv demo_target = Some old \<and>
     kept_map demo_conv [(annotation_path, Str_v ''new'')] = Some (synced demo_conv (\<lambda>v. v) demo_path demo_src old)"
proof (rule wildcard_sync_refines [OF demo_laws _ demo_to])
  show "contains_sub demo_path ''[*]''" by code_simp
qed

theorem new_fields_survive_witness:
  "\<exists>restored. convert_from_annotation demo_conv demo_path [(annotation_path, Str_v ''new'')] [] = Done (True, restored) \<and>
     get_at demo_conv restored ''a[1].b'' = Inr (Str_v ''y'')"
proof -
  have f: "convert_from_annotation demo_conv demo_path [(annotation_path, Str_v ''new'')] [] = Done (True, demo_src)" by code_simp
  have c: "contains_sub demo_path ''[*]''" by code_simp
  have e: "expand_at demo_conv demo_src demo_path = Inr demo_elements" by code_simp
  have "get_at demo_conv demo_src ''a[1].b'' = Inr (Str_v ''y'')"
    by (rule new_fields_survive [OF demo_laws c demo_to f e, where v = "Str_v ''y''"])
      (simp_all add: demo_elements_def demo_get demo_src_def)
  with f show ?thesis by blast
qed

end
