(* ===== verification/ConversionRegistry.thy ===== *)
theory ConversionRegistry
  imports FieldRoundTrip
begin

text \<open>
  The conversion webhook (\<open>pkg/controller/conversion/registry.go\<close>, \<open>functions.go\<close>): the registry of the
  conversions of a provider and the three stages in which they run. Typed resources, the scheme and the
  conversion to unstructured objects are third-party: the parameter \<open>resource_api\<close>. A nil registry
  is \<open>None\<close>; using it panics.
\<close>

record 'r resource_api = "'r managed_api" +
  res_type :: "'r \<Rightarrow> string"
  res_namespace :: "'r \<Rightarrow> string"
  set_namespace :: "string \<Rightarrow> 'r \<Rightarrow> 'r"
  scheme_gvk :: "'r \<Rightarrow> (bool \<times> gerror) + gvk"
  show_type :: "'r \<Rightarrow> string"

text \<open>A provider has the conversions of its resources; an error of the scheme tells whether the type is not registered.\<close>

type_synonym 'r provider_conversions = "string \<rightharpoonup> 'r conversion list"

record 'r conv_registry =
  provider_cluster :: "'r provider_conversions option"
  provider_namespaced :: "'r provider_conversions option"

definition already_registered :: gerror where
  "already_registered = Plain ''conversion functions are already registered''"

definition registry_register ::
  "'r provider_conversions option \<Rightarrow> 'r provider_conversions option \<Rightarrow> 'r conv_registry \<Rightarrow> gerror option \<times> 'r conv_registry" where
  "registry_register pc pn r =
     (if provider_cluster r \<noteq> None \<or> provider_namespaced r \<noteq> None then (Some already_registered, r)
      else (None, r\<lparr>provider_cluster := pc, provider_namespaced := pn\<rparr>))"

definition register_conversions ::
  "'r provider_conversions option \<Rightarrow> 'r provider_conversions option \<Rightarrow> 'r conv_registry option \<Rightarrow>
     gerror option \<times> 'r conv_registry option" where
  "register_conversions pc pn inst =
     (case inst of
        Some r \<Rightarrow> (Some already_registered, inst)
      | None \<Rightarrow> map_prod (\<lambda>e. e) Some (registry_register pc pn \<lparr>provider_cluster = None, provider_namespaced = None\<rparr>))"

definition get_conversions :: "('r, 'x) resource_api_scheme \<Rightarrow> 'r conv_registry \<Rightarrow> 'r \<Rightarrow> 'r conversion list" where
  "get_conversions api r tr =
     (case (if res_namespace api tr \<noteq> '''' then provider_namespaced r else provider_cluster r) of
        None \<Rightarrow> []
      | Some p \<Rightarrow> (case p (res_type api tr) of None \<Rightarrow> [] | Some cs \<Rightarrow> cs))"

section \<open>The stages\<close>

definition fill_gvk :: "('r, 'x) resource_api_scheme \<Rightarrow> string \<Rightarrow> 'r \<Rightarrow> 'r outcome" where
  "fill_gvk api what x =
     (if gvk_version (obj_gvk api x) \<noteq> '''' then Done x
      else (case scheme_gvk api x of
              Inr g \<Rightarrow> Done (set_gvk api g x)
            | Inl (not_registered, e) \<Rightarrow>
                if not_registered then Done x
                else Failed (WithMsg (''cannot get the GVK for the '' @ what @ '' object of type '' @ show_type api x) e)))"

fun run_managed ::
  "conv_lib \<Rightarrow> ('r, 'x) resource_api_scheme \<Rightarrow> string \<Rightarrow> ('r conversion \<Rightarrow> bool) \<Rightarrow> 'r conversion list \<Rightarrow> 'r \<Rightarrow> 'r \<Rightarrow> ('r \<times> 'r) outcome" where
  "run_managed lib api msg sel [] src dst = Done (src, dst)"
| "run_managed lib api msg sel (c # cs) src dst =
     (if sel c then
        and_then (wrap_outcome (msg @ go_quote (res_type api dst) @ '' object'') (convert_managed lib (managed_api.truncate api) c src dst))
          (\<lambda>(b, src, dst). run_managed lib api msg sel cs src dst)
      else run_managed lib api msg sel cs src dst)"

fun run_paved :: "conv_lib \<Rightarrow> string \<Rightarrow> 'r conversion list \<Rightarrow> any_map \<Rightarrow> any_map \<Rightarrow> (any_map \<times> any_map) outcome" where
  "run_paved lib msg [] src dst = Done (src, dst)"
| "run_paved lib msg (c # cs) src dst =
     (if is_paved c then
        and_then (wrap_outcome msg (convert_paved lib c src dst)) (\<lambda>(b, src, dst). run_paved lib msg cs src dst)
      else run_paved lib msg cs src dst)"

definition paved_stage :: "conv_lib \<Rightarrow> ('r, 'x) resource_api_scheme \<Rightarrow> 'r conversion list \<Rightarrow> 'r \<Rightarrow> 'r \<Rightarrow> 'r outcome" where
  "paved_stage lib api cs src dst =
     (case to_unstructured api src of
        Inl e \<Rightarrow> Failed (WithMsg ''cannot convert the conversion source object into the map[string]any representation'' e)
      | Inr sm \<Rightarrow>
          (case to_unstructured api dst of
             Inl e \<Rightarrow> Failed (WithMsg ''cannot convert the conversion destination object into the map[string]any representation'' e)
           | Inr dm \<Rightarrow>
               and_then (run_paved lib (''cannot apply the PavedConversion for the '' @ go_quote (res_type api dst) @ '' object'') cs sm dm)
                 (\<lambda>(sm, dm).
                   case from_unstructured api dm dst of
                     Inl e \<Rightarrow> Failed (WithMsg ''cannot convert the map[string]any representation of the conversion target back to the object itself'' e)
                   | Inr dst \<Rightarrow> Done dst)))"

text \<open>The conversions are looked up again before each stage, by the destination as it is then.\<close>

definition registry_round_trip :: "conv_lib \<Rightarrow> ('r, 'x) resource_api_scheme \<Rightarrow> 'r conv_registry \<Rightarrow> 'r \<Rightarrow> 'r \<Rightarrow> 'r outcome" where
  "registry_round_trip lib api r dst src =
     and_then (fill_gvk api ''destination'' dst) (\<lambda>dst.
     and_then (fill_gvk api ''source'' src) (\<lambda>src.
       let dst = (if res_namespace api src \<noteq> '''' then set_namespace api (res_namespace api src) dst else dst) in
       and_then (run_managed lib api ''cannot apply the PrioritizedManagedConversion for the '' is_prioritized (get_conversions api r dst) src dst)
         (\<lambda>(src, dst).
       and_then (paved_stage lib api (get_conversions api r dst) src dst) (\<lambda>dst.
       and_then (run_managed lib api ''cannot apply the ManagedConversion for the '' (\<lambda>c. is_managed c \<and> \<not> is_prioritized c)
                   (get_conversions api r dst) src dst) (\<lambda>(src, dst). Done dst)))))"

definition round_trip :: "conv_lib \<Rightarrow> ('r, 'x) resource_api_scheme \<Rightarrow> 'r conv_registry option \<Rightarrow> 'r \<Rightarrow> 'r \<Rightarrow> 'r outcome" where
  "round_trip lib api inst dst src = (case inst of None \<Rightarrow> Crashed | Some r \<Rightarrow> registry_round_trip lib api r dst src)"

section \<open>The order of the conversions\<close>

lemma run_managed_filter: "run_managed lib api msg sel (filter sel cs) src dst = run_managed lib api msg sel cs src dst"
proof (induction cs arbitrary: src dst)
  case (Cons c cs)
  show ?case
  proof (cases "sel c")
    case True
    let ?r = "wrap_outcome (msg @ go_quote (res_type api dst) @ '' object'') (convert_managed lib (managed_api.truncate api) c src dst)"
    show ?thesis using True Cons by (cases ?r) (auto simp del: convert_managed.simps)
  qed (simp add: Cons)
qed simp

lemma run_paved_filter: "run_paved lib msg (filter is_paved cs) src dst = run_paved lib msg cs src dst"
proof (induction cs arbitrary: src dst)
  case (Cons c cs)
  show ?case
  proof (cases "is_paved c")
    case True
    let ?r = "wrap_outcome msg (convert_paved lib c src dst)"
    show ?thesis using True Cons by (cases ?r) (auto simp del: convert_paved.simps is_paved.simps)
  qed (simp add: Cons del: is_paved.simps)
qed simp

definition same_stages :: "'r conversion list \<Rightarrow> 'r conversion list \<Rightarrow> bool" where
  "same_stages cs ds \<longleftrightarrow> filter is_prioritized cs = filter is_prioritized ds \<and> filter is_paved cs = filter is_paved ds \<and>
     filter (\<lambda>c. is_managed c \<and> \<not> is_prioritized c) cs = filter (\<lambda>c. is_managed c \<and> \<not> is_prioritized c) ds"

lemma same_stages_run:
  assumes "same_stages cs ds"
  shows "run_managed lib api msg is_prioritized cs src dst = run_managed lib api msg is_prioritized ds src dst"
    and "run_managed lib api msg (\<lambda>c. is_managed c \<and> \<not> is_prioritized c) cs src dst =
      run_managed lib api msg (\<lambda>c. is_managed c \<and> \<not> is_prioritized c) ds src dst"
    and "paved_stage lib api cs src dst = paved_stage lib api ds src dst"
proof -
  note m = run_managed_filter [of lib api msg _ _ src dst]
  show "run_managed lib api msg is_prioritized cs src dst = run_managed lib api msg is_prioritized ds src dst"
    using m [of is_prioritized cs] m [of is_prioritized ds] assms by (simp add: same_stages_def)
  let ?p = "\<lambda>c. is_managed c \<and> \<not> is_prioritized c"
  show "run_managed lib api msg ?p cs src dst = run_managed lib api msg ?p ds src dst"
    using m [of ?p cs] m [of ?p ds] assms by (simp add: same_stages_def)
  have "run_paved lib t cs a b = run_paved lib t ds a b" for t a b
    using run_paved_filter [of lib t cs a b] run_paved_filter [of lib t ds a b] assms
    by (simp add: same_stages_def del: is_paved.simps)
  then have "run_paved lib t cs = run_paved lib t ds" for t by blast
  then show "paved_stage lib api cs src dst = paved_stage lib api ds src dst" by (simp only: paved_stage_def)
qed

text \<open>
  The webhook runs in three stages whatever the order of registration: two registries that have,
  for every resource, the same identity conversions in the same order, the same conversions of
  unstructured objects in the same order and the same custom conversions in the same order convert
  every resource alike, results, errors and panics included.
\<close>

lemma stages_fix_the_order:
  assumes "\<forall>tr. same_stages (get_conversions api r tr) (get_conversions api r' tr)"
  shows "registry_round_trip lib api r dst src = registry_round_trip lib api r' dst src"
proof -
  have s: "same_stages (get_conversions api r tr) (get_conversions api r' tr)" for tr using assms by blast
  show ?thesis unfolding registry_round_trip_def Let_def by (simp only: same_stages_run [OF s])
qed

section \<open>Witness\<close>

text \<open>A custom conversion registered before and after the identity.\<close>

definition demo_api :: "string resource_api" where
  "demo_api =
     \<lparr>obj_gvk = (\<lambda>x. \<lparr>gvk_group = ''g'', gvk_version = ''v1'', gvk_kind = ''K''\<rparr>), set_gvk = (\<lambda>g x. x),
      to_unstructured = (\<lambda>x. Inr [(''name'', Str_v x)]),
      from_unstructured = (\<lambda>m x. case map_of m ''name'' of Some (Str_v s) \<Rightarrow> Inr s | _ \<Rightarrow> Inl (Plain ''no name'')),
      res_type = (\<lambda>x. ''t''), res_namespace = (\<lambda>x. ''''), set_namespace = (\<lambda>n x. x),
      scheme_gvk = (\<lambda>x. Inl (True, Plain ''unknown'')), show_type = (\<lambda>x. ''T'')\<rparr>"

definition demo_shout :: "string conversion" where
  "demo_shout = new_custom_converter ''*'' ''*'' (Some (\<lambda>s t. Done (s, t @ ''!'')))"

definition demo_registry :: "string conversion list \<Rightarrow> string conv_registry" where
  "demo_registry cs = \<lparr>provider_cluster = Some [''t'' \<mapsto> cs], provider_namespaced = None\<rparr>"

lemma demo_same: "same_stages (get_conversions demo_api (demo_registry [demo_shout, Identity (new_base_conversion ''*'' ''*'') []]) tr)
     (get_conversions demo_api (demo_registry [Identity (new_base_conversion ''*'' ''*'') [], demo_shout]) tr)"
  by (simp add: get_conversions_def demo_registry_def demo_api_def same_stages_def demo_shout_def new_custom_converter_def)

lemma demo_trip: "registry_round_trip demo_conv demo_api (demo_registry [demo_shout, Identity (new_base_conversion ''*'' ''*'') []]) ''old'' ''new''
     = Done ''new!''"
  by code_simp

end
