(* ===== verification/LateInit.thy ===== *)
theory LateInit
  imports GoOutcome ListConversion Names
begin

text \<open>
  Late initialization (\<open>pkg/resource/lateinit.go\<close>): unset fields of the desired parameters take the
  observed values. The code walks Go structs by reflection: their types are \<open>rtype\<close>, their values
  \<open>rval\<close>. A nil pointer, slice, map or interface is \<open>Nil_r\<close>; the value of a struct has one entry for
  each field of its type, in order, so that a field found by name is the one at the same position.
  All fields are exported. A value under a pointer is copied, not shared: the generated types have
  pointers to basic types and structs only.
\<close>

section \<open>Reflection\<close>

datatype rtype =
    Basic_t string
  | Iface_t
  | Ptr_t rtype
  | Slice_t rtype
  | Map_t rtype
  | Struct_t "rfield list"
and rfield = Field string string rtype

datatype rval =
    Basic_r any
  | Nil_r
  | Ptr_r rval
  | Slice_r "rval list"
  | Map_r "(string \<times> rval) list"
  | Struct_r "rval list"

fun field_type :: "rfield \<Rightarrow> rtype" where
  "field_type (Field n tag t) = t"

text \<open>\<open>Kind().String()\<close>; the basic kinds are those the code lists.\<close>

fun kind_string :: "rtype \<Rightarrow> string" where
  "kind_string (Basic_t k) = k"
| "kind_string Iface_t = ''interface''"
| "kind_string (Ptr_t t) = ''ptr''"
| "kind_string (Slice_t t) = ''slice''"
| "kind_string (Map_t t) = ''map''"
| "kind_string (Struct_t fs) = ''struct''"

definition copied_kinds :: "string list" where
  "copied_kinds =
     [''string'', ''bool'', ''int'', ''uint'', ''int8'', ''int16'', ''int32'', ''int64'', ''uint8'', ''uint16'', ''uint32'', ''uint64'',
      ''float32'', ''float64'']"

text \<open>\<open>IsZero\<close> and \<open>reflect.New\<close>.\<close>

fun is_zero_basic :: "any \<Rightarrow> bool" where
  "is_zero_basic (Str_v s) = (s = '''')"
| "is_zero_basic (Bool_v b) = (\<not> b)"
| "is_zero_basic (Num_v n) = (n = 0)"
| "is_zero_basic (Float_v m e) = (m = 0)"
| "is_zero_basic v = False"

fun is_zero :: "rval \<Rightarrow> bool" where
  "is_zero (Basic_r v) = is_zero_basic v"
| "is_zero Nil_r = True"
| "is_zero (Struct_r vs) = list_all is_zero vs"
| "is_zero v = False"

definition zero_basic :: "string \<Rightarrow> any" where
  "zero_basic k =
     (if k = ''string'' then Str_v '''' else if k = ''bool'' then Bool_v False
      else if k \<in> {''float32'', ''float64''} then Float_v 0 0 else Num_v 0)"

fun zero_of :: "rtype \<Rightarrow> rval" and zero_fields :: "rfield list \<Rightarrow> rval list" where
  "zero_of (Basic_t k) = Basic_r (zero_basic k)"
| "zero_of Iface_t = Nil_r"
| "zero_of (Ptr_t t) = Nil_r"
| "zero_of (Slice_t t) = Nil_r"
| "zero_of (Map_t t) = Nil_r"
| "zero_of (Struct_t fs) = Struct_r (zero_fields fs)"
| "zero_fields [] = []"
| "zero_fields (Field n tag t # fs) = zero_of t # zero_fields fs"

section \<open>Filters\<close>

text \<open>A value filter gets the canonical name, the \<open>json\<close> tag and type of the field, and the observed value.\<close>

record late_initializer =
  value_filters :: "(string \<Rightarrow> string \<Rightarrow> rtype \<Rightarrow> rval \<Rightarrow> bool) list"
  name_filters :: "(string \<Rightarrow> bool) list"
  conditional_filters :: "(string \<Rightarrow> bool) list"

definition new_generic_late_initializer :: "(late_initializer \<Rightarrow> late_initializer) list \<Rightarrow> late_initializer" where
  "new_generic_late_initializer opts =
     fold (\<lambda>o1 l. o1 l) opts \<lparr>value_filters = [], name_filters = [], conditional_filters = []\<rparr>"

definition cname_wildcard :: string where
  "cname_wildcard = ''''"

definition name_filter :: "string \<Rightarrow> string \<Rightarrow> bool" where
  "name_filter cname s \<longleftrightarrow> cname = cname_wildcard \<or> s = cname"

definition with_name_filter :: "string \<Rightarrow> late_initializer \<Rightarrow> late_initializer" where
  "with_name_filter cname l = l\<lparr>name_filters := name_filters l @ [name_filter cname]\<rparr>"

definition is_zero_value_omitted :: "string \<Rightarrow> bool" where
  "is_zero_value_omitted tag \<longleftrightarrow> ''omitempty'' \<in> set (split_on (CHR '','') tag)"

definition zero_value_json_omit_empty_filter :: "string \<Rightarrow> string \<Rightarrow> string \<Rightarrow> rtype \<Rightarrow> rval \<Rightarrow> bool" where
  "zero_value_json_omit_empty_filter cname cn tag t v =
     (if cname \<noteq> cname_wildcard \<and> cname \<noteq> cn then False
      else if \<not> is_zero_value_omitted tag then False
      else if is_zero v then True
      else (case v of
              Slice_r xs \<Rightarrow> xs = []
            | Map_r m \<Rightarrow> m = []
            | Ptr_r x \<Rightarrow> is_zero x
            | _ \<Rightarrow> False))"

definition with_zero_value_json_omit_empty_filter :: "string \<Rightarrow> late_initializer \<Rightarrow> late_initializer" where
  "with_zero_value_json_omit_empty_filter cname l =
     l\<lparr>value_filters := value_filters l @ [zero_value_json_omit_empty_filter cname]\<rparr>"

definition zero_elem_ptr_filter :: "string \<Rightarrow> string \<Rightarrow> string \<Rightarrow> rtype \<Rightarrow> rval \<Rightarrow> bool" where
  "zero_elem_ptr_filter cname cn tag t v =
     (if cname \<noteq> cname_wildcard \<and> cname \<noteq> cn then False
      else (case (t, v) of (Ptr_t u, Ptr_r x) \<Rightarrow> is_zero x | _ \<Rightarrow> False))"

definition with_zero_elem_ptr_filter :: "string \<Rightarrow> late_initializer \<Rightarrow> late_initializer" where
  "with_zero_elem_ptr_filter cname l = l\<lparr>value_filters := value_filters l @ [zero_elem_ptr_filter cname]\<rparr>"

text \<open>\<open>get\<close> reads a path of \<open>initProvider\<close>, \<open>snake\<close> is \<open>NewFromCamel(...).Snake\<close>.\<close>

definition conditional_filter :: "(string \<Rightarrow> string) \<Rightarrow> (string \<Rightarrow> gerror + any) \<Rightarrow> string \<Rightarrow> string \<Rightarrow> bool" where
  "conditional_filter snake get cname cn =
     (if cname \<noteq> cn then False else (case get (snake cname) of Inl e \<Rightarrow> False | Inr v \<Rightarrow> v \<noteq> Nil_v))"

definition with_conditional_filter ::
  "(string \<Rightarrow> string) \<Rightarrow> (string \<Rightarrow> gerror + any) \<Rightarrow> string \<Rightarrow> late_initializer \<Rightarrow> late_initializer" where
  "with_conditional_filter snake get cname l =
     l\<lparr>conditional_filters := conditional_filters l @ [conditional_filter snake get cname]\<rparr>"

definition skips_name :: "late_initializer \<Rightarrow> string \<Rightarrow> bool" where
  "skips_name li cn \<longleftrightarrow> list_ex (\<lambda>f. f cn) (name_filters li) \<or> list_ex (\<lambda>f. f cn) (conditional_filters li)"

definition skips_value :: "late_initializer \<Rightarrow> string \<Rightarrow> string \<Rightarrow> rtype \<Rightarrow> rval \<Rightarrow> bool" where
  "skips_value li cn tag t v \<longleftrightarrow> list_ex (\<lambda>f. f cn tag t v) (value_filters li)"

definition get_canonical_name :: "string \<Rightarrow> string \<Rightarrow> string" where
  "get_canonical_name parent name = (if parent = '''' then name else parent @ ''.'' @ name)"

section \<open>The walk\<close>

text \<open>
  Each function returns what it left in the desired value, and an error or whether the field is kept:
  an error does not undo what was set before it. The loops stop at the first error.
\<close>

fun slice_items :: "(rval \<Rightarrow> rval \<times> (gerror + bool)) \<Rightarrow> rval list \<Rightarrow> rval list \<times> (gerror + bool)" where
  "slice_items f [] = ([], Inr True)"
| "slice_items f (x # xs) =
     (case f x of
        (y, Inl e) \<Rightarrow> ([], Inl e)
      | (y, Inr b) \<Rightarrow> map_prod (Cons y) (\<lambda>r. r) (slice_items f xs))"

fun map_items :: "(rval \<Rightarrow> rval \<times> (gerror + bool)) \<Rightarrow> (string \<times> rval) list \<Rightarrow> (string \<times> rval) list \<times> (gerror + bool)" where
  "map_items f [] = ([], Inr True)"
| "map_items f ((k, x) # xs) =
     (case f x of
        (y, Inl e) \<Rightarrow> ([], Inl e)
      | (y, Inr b) \<Rightarrow> map_prod (Cons (k, y)) (\<lambda>r. r) (map_items f xs))"

definition slice_kind_error :: "string \<Rightarrow> rtype \<Rightarrow> gerror" where
  "slice_kind_error cn t =
     Plain (''slice items of kind '' @ go_quote (kind_string t) @ '' is not supported for canonical name: '' @ cn)"

definition map_kind_error :: "string \<Rightarrow> rtype \<Rightarrow> gerror" where
  "map_kind_error cn t =
     Plain (''map items of kind '' @ go_quote (kind_string t) @ '' is not supported for canonical name: '' @ cn)"

fun handle_struct :: "late_initializer \<Rightarrow> string \<Rightarrow> rfield list \<Rightarrow> rval list \<Rightarrow> rval list \<Rightarrow> bool \<Rightarrow> rval list \<times> (gerror + bool)"
  and handle_field :: "late_initializer \<Rightarrow> string \<Rightarrow> rtype \<Rightarrow> rval \<Rightarrow> rval \<Rightarrow> rval \<times> (gerror + bool)" where
  "handle_struct li parent (Field n tag t # fs) (d # ds) (x # xs) assigned =
     (let cn = get_canonical_name parent n in
      if skips_name li cn \<or> \<not> is_zero d \<or> skips_value li cn tag t x
      then map_prod (Cons d) (\<lambda>r. r) (handle_struct li parent fs ds xs assigned)
      else (case handle_field li cn t d x of
              (d', Inl e) \<Rightarrow> (d' # ds, Inl e)
            | (d', Inr keep) \<Rightarrow> map_prod (Cons d') (\<lambda>r. r) (handle_struct li parent fs ds xs (assigned \<or> keep))))"
| "handle_struct li parent fs ds xs assigned = (ds, Inr assigned)"
| "handle_field li cn (Ptr_t t) d x =
     (case x of
        Ptr_r x \<Rightarrow>
          if d \<noteq> Nil_r then (d, Inr False)
          else (case t of
                  Struct_t fs \<Rightarrow>
                    (case x of
                       Struct_r xs \<Rightarrow>
                         (case handle_struct li cn fs (zero_fields fs) xs False of (ds, r) \<Rightarrow> (Ptr_r (Struct_r ds), r))
                     | _ \<Rightarrow> (d, Inr False))
                | _ \<Rightarrow> (Ptr_r x, Inr True))
      | _ \<Rightarrow> (d, Inr False))"
| "handle_field li cn (Slice_t t) d x =
     (case x of
        Slice_r xs \<Rightarrow>
          if d \<noteq> Nil_r then (d, Inr False)
          else (case slice_items
                   (\<lambda>y. case t of
                          Ptr_t u \<Rightarrow> handle_field li cn t Nil_r y
                        | Struct_t fs \<Rightarrow>
                            (case y of
                               Struct_r ys \<Rightarrow>
                                 (case handle_struct li cn fs (zero_fields fs) ys False of (ds, r) \<Rightarrow> (Struct_r ds, r))
                             | _ \<Rightarrow> (zero_of t, Inr False))
                        | Basic_t k \<Rightarrow>
                            if k \<in> set copied_kinds then (y, Inr True) else (zero_of t, Inl (slice_kind_error cn t))
                        | _ \<Rightarrow> (zero_of t, Inl (slice_kind_error cn t)))
                   xs of (ys, r) \<Rightarrow> (Slice_r ys, r))
      | _ \<Rightarrow> (d, Inr False))"
| "handle_field li cn (Map_t t) d x =
     (case x of
        Map_r m \<Rightarrow>
          if d \<noteq> Nil_r then (d, Inr False)
          else (case map_items
                   (\<lambda>y. case t of
                          Ptr_t u \<Rightarrow> handle_field li cn t Nil_r y
                        | Slice_t u \<Rightarrow> handle_field li cn t Nil_r y
                        | Basic_t k \<Rightarrow>
                            if k \<in> set copied_kinds then (y, Inr True) else (zero_of t, Inl (map_kind_error cn t))
                        | _ \<Rightarrow> (zero_of t, Inl (map_kind_error cn t)))
                   m of (m', r) \<Rightarrow> (Map_r m', r))
      | _ \<Rightarrow> (d, Inr False))"
| "handle_field li cn t d x = (d, Inr False)"


section \<open>The entry point\<close>

text \<open>
  An object is a value with its type and the name of its type; \<open>None\<close> is the nil interface. \<open>IsNil\<close>
  panics on basic values and structs, before the deferred recovery is installed. \<open>show_object\<close> prints
  with \<open>%#v\<close>.
\<close>

record go_object =
  obj_type :: rtype
  obj_type_name :: string
  obj_value :: rval

definition is_nil_object :: "go_object option \<Rightarrow> bool outcome" where
  "is_nil_object ob =
     (case ob of
        None \<Rightarrow> Done True
      | Some ob \<Rightarrow>
          (case obj_type ob of
             Basic_t k \<Rightarrow> Crashed
           | Struct_t fs \<Rightarrow> Crashed
           | _ \<Rightarrow> Done (obj_value ob = Nil_r)))"

fun struct_fields :: "rtype \<Rightarrow> rfield list option" where
  "struct_fields (Ptr_t (Struct_t fs)) = Some fs"
| "struct_fields t = None"

definition not_ptr_to_struct :: "string \<Rightarrow> string \<Rightarrow> gerror" where
  "not_ptr_to_struct which shown = Plain (which @ '' must be of a pointer to struct type: '' @ shown)"

text \<open>The desired object afterwards, and an error or whether a field was set.\<close>

definition late_initialize ::
  "(go_object \<Rightarrow> string) \<Rightarrow> late_initializer \<Rightarrow> go_object option \<Rightarrow> go_object option \<Rightarrow> (go_object option \<times> (gerror + bool)) outcome" where
  "late_initialize show_object li desired observed =
     and_then (is_nil_object desired) (\<lambda>nil. if nil then Done (desired, Inr False) else
     and_then (is_nil_object observed) (\<lambda>nil. if nil then Done (desired, Inr False) else
       (case (desired, observed) of
          (Some d, Some x) \<Rightarrow>
            (case struct_fields (obj_type d) of
               None \<Rightarrow> Done (desired, Inl (not_ptr_to_struct ''desiredObject'' (show_object d)))
             | Some fs \<Rightarrow>
                 if struct_fields (obj_type x) = None
                 then Done (desired, Inl (not_ptr_to_struct ''observedObject'' (show_object x)))
                 else if obj_type_name d \<noteq> obj_type_name x
                 then Done (desired, Inl (Plain (''observed object's type '' @ go_quote (obj_type_name d)
                        @ '' does not match desired object's type '' @ go_quote (obj_type_name x))))
                 else (case (obj_value d, obj_value x) of
                         (Ptr_r (Struct_r ds), Ptr_r (Struct_r xs)) \<Rightarrow>
                           (case handle_struct li '''' fs ds xs False of
                              (ds, r) \<Rightarrow> Done (Some (d\<lparr>obj_value := Ptr_r (Struct_r ds)\<rparr>), r))
                       | _ \<Rightarrow> Done (desired, Inr False)))
        | _ \<Rightarrow> Done (desired, Inr False))))"

definition is_test :: "(string \<rightharpoonup> string) \<Rightarrow> bool" where
  "is_test annotations \<longleftrightarrow> annotations ''upjet.upbound.io/test'' = Some ''true''"

section \<open>One round is enough\<close>

text \<open>A field is left as it was, or set to something that is not zero.\<close>

lemma handle_field_sets:
  "handle_field li cn t d x = (d', r) \<Longrightarrow> d' = d \<and> r = Inr False \<or> \<not> is_zero d'"
  by (cases t; cases x) (auto split: if_splits rtype.splits rval.splits prod.splits)

lemma handle_struct_stops: "fs = [] \<or> ds = [] \<or> xs = [] \<Longrightarrow> handle_struct li parent fs ds xs a = (ds, Inr a)"
  by (cases fs; cases ds; cases xs) (auto split: rfield.splits elim: rfield.exhaust)

text \<open>The step of the walk at one field.\<close>

lemma handle_struct_step:
  "handle_struct li parent (Field n tag t # fs) (d # ds) (x # xs) a =
     (let cn = get_canonical_name parent n in
      if skips_name li cn \<or> \<not> is_zero d \<or> skips_value li cn tag t x
      then map_prod (Cons d) (\<lambda>r. r) (handle_struct li parent fs ds xs a)
      else (case handle_field li cn t d x of
              (d', Inl e) \<Rightarrow> (d' # ds, Inl e)
            | (d', Inr keep) \<Rightarrow> map_prod (Cons d') (\<lambda>r. r) (handle_struct li parent fs ds xs (a \<or> keep))))"
  by (rule handle_struct.simps(1))

declare handle_struct.simps [simp del] handle_field.simps [simp del]

lemma struct_induct [case_names stop step]:
  assumes "\<And>fs ds xs a. fs = [] \<or> ds = [] \<or> xs = [] \<Longrightarrow> P fs ds xs a"
    and "\<And>n tag t fs d ds x xs a. (\<And>a. P fs ds xs a) \<Longrightarrow> P (Field n tag t # fs) (d # ds) (x # xs) a"
  shows "P fs ds xs (a :: bool)"
proof (induction fs arbitrary: ds xs a)
  case Nil
  then show ?case using assms(1) by blast
next
  case (Cons f fs)
  obtain n tag t where f: "f = Field n tag t" by (cases f)
  show ?case
  proof (cases "ds = [] \<or> xs = []")
    case True
    then show ?thesis using assms(1) by blast
  next
    case False
    then obtain d ds' x xs' where "ds = d # ds'" "xs = x # xs'" by (meson neq_Nil_conv)
    then show ?thesis using assms(2) Cons f by blast
  qed
qed

lemma handle_struct_keeps:
  "list_all2 (\<lambda>d d'. is_zero d \<or> d' = d) ds (fst (handle_struct li parent fs ds xs a))"
proof (induction fs ds xs a rule: struct_induct)
  case (stop fs ds xs a)
  then show ?case by (simp add: handle_struct_stops list_all2_refl)
next
  case (step n tag t fs d ds x xs a)
  show ?case
    using step by (auto simp: handle_struct_step Let_def list_all2_refl split: prod.split sum.split)
qed

lemma handle_struct_again:
  "handle_struct li parent fs ds xs a = (ds', Inr b) \<Longrightarrow> handle_struct li parent fs ds' xs c = (ds', Inr c)"
proof (induction fs ds xs a arbitrary: ds' b rule: struct_induct)
  case (stop fs ds xs a)
  then have "ds' = ds" by (simp add: handle_struct_stops)
  with stop(1) show ?case by (auto intro: handle_struct_stops)
next
  case (step n tag t fs d ds x xs a)
  let ?cn = "get_canonical_name parent n"
  show ?case
  proof (cases "skips_name li ?cn \<or> \<not> is_zero d \<or> skips_value li ?cn tag t x")
    case True
    with step.prems obtain es where e: "ds' = d # es" "handle_struct li parent fs ds xs a = (es, Inr b)"
      by (cases "handle_struct li parent fs ds xs a") (simp add: handle_struct_step)
    from step.IH [OF e(2)] True show ?thesis by (simp add: e(1) handle_struct_step)
  next
    case False
    obtain d' r where h: "handle_field li ?cn t d x = (d', r)" by fastforce
    with step.prems False obtain keep where r: "r = Inr keep" by (cases r) (auto simp: handle_struct_step Let_def)
    with step.prems False h obtain es where e: "ds' = d' # es" "handle_struct li parent fs ds xs (a \<or> keep) = (es, Inr b)"
      by (cases "handle_struct li parent fs ds xs (a \<or> keep)") (simp add: handle_struct_step Let_def)
    note again = step.IH [OF e(2)]
    from handle_field_sets [OF h] show ?thesis
    proof
      assume "d' = d \<and> r = Inr False"
      then show ?thesis using False h again by (simp add: e(1) handle_struct_step Let_def)
    next
      assume "\<not> is_zero d'"
      then show ?thesis using again by (simp add: e(1) handle_struct_step Let_def)
    qed
  qed
qed

section \<open>Without filters the walk fills in the observed values\<close>

fun fits :: "rtype \<Rightarrow> rval \<Rightarrow> bool" and fits_fields :: "rfield list \<Rightarrow> rval list \<Rightarrow> bool" where
  "fits (Basic_t k) v = (case v of Basic_r b \<Rightarrow> True | _ \<Rightarrow> False)"
| "fits Iface_t v = True"
| "fits (Ptr_t t) v = (case v of Nil_r \<Rightarrow> True | Ptr_r x \<Rightarrow> fits t x | _ \<Rightarrow> False)"
| "fits (Slice_t t) v = (case v of Nil_r \<Rightarrow> True | Slice_r xs \<Rightarrow> list_all (fits t) xs | _ \<Rightarrow> False)"
| "fits (Map_t t) v = (case v of Nil_r \<Rightarrow> True | Map_r m \<Rightarrow> list_all (\<lambda>e. fits t (snd e)) m | _ \<Rightarrow> False)"
| "fits (Struct_t fs) v = (case v of Struct_r vs \<Rightarrow> fits_fields fs vs | _ \<Rightarrow> False)"
| "fits_fields [] vs = (vs = [])"
| "fits_fields (Field n tag t # fs) vs = (case vs of [] \<Rightarrow> False | v # vs \<Rightarrow> fits t v \<and> fits_fields fs vs)"

text \<open>
  The types whose values the walk copies: pointers, slices of pointers, structs or basic values, and maps of
  pointers, slices or basic values. The generator can give a field other types: slices of slices and
  maps of structs, which the walk refuses (\<open>other_items_refused\<close>), and plain values such as the strings
  of a secret reference, which it leaves as they are (\<open>plain_fields_left\<close>).
\<close>

fun supported :: "rtype \<Rightarrow> bool" and supported_fields :: "rfield list \<Rightarrow> bool" where
  "supported (Ptr_t t) = (case t of Struct_t fs \<Rightarrow> supported_fields fs | _ \<Rightarrow> True)"
| "supported (Slice_t t) =
     (case t of Ptr_t u \<Rightarrow> supported t | Struct_t fs \<Rightarrow> supported_fields fs | Basic_t k \<Rightarrow> k \<in> set copied_kinds | _ \<Rightarrow> False)"
| "supported (Map_t t) =
     (case t of Ptr_t u \<Rightarrow> supported t | Slice_t u \<Rightarrow> supported t | Basic_t k \<Rightarrow> k \<in> set copied_kinds | _ \<Rightarrow> False)"
| "supported t = False"
| "supported_fields [] = True"
| "supported_fields (Field n tag t # fs) = (supported t \<and> supported_fields fs)"

definition unfiltered :: "late_initializer \<Rightarrow> bool" where
  "unfiltered li \<longleftrightarrow> value_filters li = [] \<and> name_filters li = [] \<and> conditional_filters li = []"

lemma unfiltered_skips [simp]: "unfiltered li \<Longrightarrow> \<not> skips_name li cn" "unfiltered li \<Longrightarrow> \<not> skips_value li cn tag t x"
  by (simp_all add: unfiltered_def skips_name_def skips_value_def)

lemma supported_zero: "supported t \<Longrightarrow> zero_of t = Nil_r"
  by (cases t) auto

lemma supported_unset: "supported t \<Longrightarrow> fits t d \<Longrightarrow> is_zero d \<Longrightarrow> d = Nil_r"
  by (cases t; cases d) auto

lemma slice_items_copy: "(\<And>x. x \<in> set xs \<Longrightarrow> \<exists>b. f x = (x, Inr b)) \<Longrightarrow> slice_items f xs = (xs, Inr True)"
  by (induction xs) (auto, fastforce)

lemma map_items_copy: "(\<And>e. e \<in> set m \<Longrightarrow> \<exists>b. f (snd e) = (snd e, Inr b)) \<Longrightarrow> map_items f m = (m, Inr True)"
  by (induction m) (auto, fastforce)

text \<open>A type copies its values; a struct type copies into its zero value.\<close>

definition copies :: "late_initializer \<Rightarrow> rtype \<Rightarrow> bool" where
  "copies li t \<longleftrightarrow>
     (\<forall>cn x. supported t \<longrightarrow> fits t x \<longrightarrow> (\<exists>b. handle_field li cn t Nil_r x = (x, Inr b))) \<and>
     (\<forall>fs cn xs a. t = Struct_t fs \<longrightarrow> supported_fields fs \<longrightarrow> fits_fields fs xs \<longrightarrow>
        (\<exists>b. handle_struct li cn fs (zero_fields fs) xs a = (xs, Inr b)))"

lemma copiesD:
  assumes "copies li t"
  shows "supported t \<Longrightarrow> fits t x \<Longrightarrow> \<exists>b. handle_field li cn t Nil_r x = (x, Inr b)"
    and "t = Struct_t fs \<Longrightarrow> supported_fields fs \<Longrightarrow> fits_fields fs xs \<Longrightarrow>
      \<exists>b. handle_struct li cn fs (zero_fields fs) xs a = (xs, Inr b)"
  using assms unfolding copies_def by blast+

lemma struct_copies:
  assumes "unfiltered li"
  shows "(\<And>f. f \<in> set fs \<Longrightarrow> copies li (field_type f)) \<Longrightarrow> supported_fields fs \<Longrightarrow> fits_fields fs xs \<Longrightarrow>
    \<exists>b. handle_struct li cn fs (zero_fields fs) xs a = (xs, Inr b)"
proof (induction fs arbitrary: xs a)
  case (Cons f fs)
  obtain n tag t where f: "f = Field n tag t" by (cases f)
  from Cons.prems(3) f obtain y ys where xs: "xs = y # ys" "fits t y" "fits_fields fs ys" by (auto split: list.splits)
  have t: "copies li t" "supported t" "supported_fields fs" using Cons.prems(1) [of f] Cons.prems(2) f by simp_all
  obtain keep where k: "handle_field li (get_canonical_name cn n) t Nil_r y = (y, Inr keep)"
    using copiesD(1) [OF t(1,2) xs(2)] by blast
  obtain b where "handle_struct li cn fs (zero_fields fs) ys (a \<or> keep) = (ys, Inr b)"
    using Cons.IH [OF _ t(3) xs(3)] Cons.prems(1) by fastforce
  with k show ?case using assms by (simp add: f xs(1) handle_struct_step supported_zero [OF t(2)] Let_def)
qed (simp add: handle_struct_stops)

lemma copies_all:
  assumes "unfiltered li"
  shows "copies li t" and "copies li (field_type f)"
proof (induction t and f)
  case (Ptr_t t)
  have "\<exists>b. handle_field li cn (Ptr_t t) Nil_r x = (x, Inr b)" if s: "supported (Ptr_t t)" and x: "fits (Ptr_t t) x" for cn x
  proof (cases x)
    case (Ptr_r y)
    show ?thesis
    proof (cases t)
      case (Struct_t fs)
      then obtain ys where y: "y = Struct_r ys" "fits_fields fs ys" using x Ptr_r by (auto split: rval.splits)
      obtain b where "handle_struct li cn fs (zero_fields fs) ys False = (ys, Inr b)"
        using copiesD(2) [OF Ptr_t.IH Struct_t _ y(2)] s Struct_t by fastforce
      then show ?thesis by (simp add: handle_field.simps Ptr_r Struct_t y)
    qed (simp_all add: handle_field.simps Ptr_r ex_bool_eq)
  qed (use x in \<open>simp_all add: handle_field.simps ex_bool_eq\<close>)
  then show ?case by (simp add: copies_def)
next
  case (Slice_t t)
  have "\<exists>b. handle_field li cn (Slice_t t) Nil_r x = (x, Inr b)" if s: "supported (Slice_t t)" and x: "fits (Slice_t t) x" for cn x
  proof (cases x)
    case (Slice_r xs)
    then have fit: "fits t y" if "y \<in> set xs" for y using x that by (auto simp: list_all_iff)
    show ?thesis
    proof (cases t)
      case (Ptr_t u)
      have "slice_items (handle_field li cn t Nil_r) xs = (xs, Inr True)"
        using s Ptr_t fit by (intro slice_items_copy copiesD(1) [OF Slice_t.IH]) auto
      then show ?thesis by (simp add: handle_field.simps(2) ex_bool_eq Slice_r Ptr_t)
    next
      case (Struct_t fs)
      let ?f = "\<lambda>y. case y of Struct_r ys \<Rightarrow> (case handle_struct li cn fs (zero_fields fs) ys False of (ds, r) \<Rightarrow> (Struct_r ds, r))
                    | _ \<Rightarrow> (zero_of (Struct_t fs), Inr False)"
      have "\<exists>b. ?f y = (y, Inr b)" if y_in: "y \<in> set xs" for y
      proof -
        obtain ys where y: "y = Struct_r ys" "fits_fields fs ys" using fit [OF y_in] Struct_t by (auto split: rval.splits)
        obtain b where "handle_struct li cn fs (zero_fields fs) ys False = (ys, Inr b)"
          using copiesD(2) [OF Slice_t.IH Struct_t _ y(2)] s Struct_t by fastforce
        then show ?thesis by (simp add: y)
      qed
      then have "slice_items ?f xs = (xs, Inr True)" by (rule slice_items_copy)
      then show ?thesis by (simp add: handle_field.simps(2) ex_bool_eq Slice_r Struct_t)
    next
      case (Basic_t k)
      have "slice_items (\<lambda>y. (y, Inr True)) xs = (xs, Inr True)" by (rule slice_items_copy) (simp add: ex_bool_eq)
      then show ?thesis using s Basic_t by (simp add: handle_field.simps Slice_r ex_bool_eq)
    qed (use s in simp_all)
  qed (use x in \<open>simp_all add: handle_field.simps ex_bool_eq\<close>)
  then show ?case by (simp add: copies_def)
next
  case (Map_t t)
  have "\<exists>b. handle_field li cn (Map_t t) Nil_r x = (x, Inr b)" if s: "supported (Map_t t)" and x: "fits (Map_t t) x" for cn x
  proof (cases x)
    case (Map_r m)
    then have fit: "fits t (snd e)" if "e \<in> set m" for e using x that by (auto simp: list_all_iff)
    have items: "supported t \<Longrightarrow> map_items (handle_field li cn t Nil_r) m = (m, Inr True)"
      using fit by (intro map_items_copy copiesD(1) [OF Map_t.IH]) auto
    show ?thesis
    proof (cases t)
      case (Basic_t k)
      have "map_items (\<lambda>y. (y, Inr True)) m = (m, Inr True)" by (rule map_items_copy) (simp add: ex_bool_eq)
      then show ?thesis using s Basic_t by (simp add: handle_field.simps Map_r ex_bool_eq)
    qed (use s items in \<open>simp_all add: handle_field.simps(3) Map_r ex_bool_eq\<close>)
  qed (use x in \<open>simp_all add: handle_field.simps ex_bool_eq\<close>)
  then show ?case by (simp add: copies_def)
next
  case (Struct_t fs)
  have "supported_fields fs \<Longrightarrow> fits_fields fs xs \<Longrightarrow> \<exists>b. handle_struct li cn fs (zero_fields fs) xs a = (xs, Inr b)" for cn xs a
    by (rule struct_copies [OF assms Struct_t])
  then show ?case by (simp add: copies_def)
qed (simp_all add: copies_def)

definition coalesce :: "rval \<Rightarrow> rval \<Rightarrow> rval" where
  "coalesce d x = (if is_zero d then x else d)"

lemma struct_coalesces:
  assumes "unfiltered li"
  shows "supported_fields fs \<Longrightarrow> fits_fields fs ds \<Longrightarrow> fits_fields fs xs \<Longrightarrow>
    \<exists>b. handle_struct li cn fs ds xs a = (map2 coalesce ds xs, Inr b)"
proof (induction fs arbitrary: ds xs a)
  case (Cons f fs)
  obtain n tag t where f: "f = Field n tag t" by (cases f)
  from Cons.prems f obtain d es y ys where ds: "ds = d # es" "fits t d" "fits_fields fs es"
    and xs: "xs = y # ys" "fits t y" "fits_fields fs ys" and s: "supported t" "supported_fields fs" by (auto split: list.splits)
  show ?case
  proof (cases "is_zero d")
    case True
    obtain keep where "handle_field li (get_canonical_name cn n) t Nil_r y = (y, Inr keep)"
      using copiesD(1) [OF copies_all(1) [OF assms] s(1) xs(2)] by blast
    moreover obtain b where "handle_struct li cn fs es ys (a \<or> keep) = (map2 coalesce es ys, Inr b)"
      using Cons.IH [OF s(2) ds(3) xs(3)] by blast
    ultimately show ?thesis
      using assms True supported_unset [OF s(1) ds(2) True] by (simp add: f ds(1) xs(1) handle_struct_step Let_def coalesce_def)
  next
    case False
    obtain b where "handle_struct li cn fs es ys a = (map2 coalesce es ys, Inr b)"
      using Cons.IH [OF s(2) ds(3) xs(3)] by blast
    with False show ?thesis by (simp add: f ds(1) xs(1) handle_struct_step Let_def coalesce_def)
  qed
qed (simp add: handle_struct_stops)

section \<open>What a filter protects\<close>

definition filtered_name :: "late_initializer \<Rightarrow> string \<Rightarrow> bool" where
  "filtered_name li cn \<longleftrightarrow> (\<exists>f \<in> set (name_filters li @ conditional_filters li). f cn)"

lemma filtered_skips: "filtered_name li cn \<longleftrightarrow> skips_name li cn"
  by (auto simp: filtered_name_def skips_name_def list_ex_iff)

text \<open>Below the name \<open>cn\<close>, no field of a struct that was built has a filtered name, unless it is zero.\<close>

fun clean :: "late_initializer \<Rightarrow> string \<Rightarrow> rtype \<Rightarrow> rval \<Rightarrow> bool"
  and clean_fields :: "late_initializer \<Rightarrow> string \<Rightarrow> rfield list \<Rightarrow> rval list \<Rightarrow> bool" where
  "clean li cn (Ptr_t t) v =
     (case (t, v) of (Struct_t fs, Ptr_r (Struct_r vs)) \<Rightarrow> clean_fields li cn fs vs | _ \<Rightarrow> True)"
| "clean li cn (Slice_t t) v =
     (case v of
        Slice_r vs \<Rightarrow>
          (case t of
             Ptr_t u \<Rightarrow> list_all (clean li cn t) vs
           | Struct_t fs \<Rightarrow> list_all (\<lambda>v. case v of Struct_r ws \<Rightarrow> clean_fields li cn fs ws | _ \<Rightarrow> True) vs
           | _ \<Rightarrow> True)
      | _ \<Rightarrow> True)"
| "clean li cn (Map_t t) v =
     (case v of
        Map_r m \<Rightarrow>
          (case t of
             Ptr_t u \<Rightarrow> list_all (\<lambda>e. clean li cn t (snd e)) m
           | Slice_t u \<Rightarrow> list_all (\<lambda>e. clean li cn t (snd e)) m
           | _ \<Rightarrow> True)
      | _ \<Rightarrow> True)"
| "clean li cn t v = True"
| "clean_fields li parent (Field n tag t # fs) (v # vs) =
     (let cn = get_canonical_name parent n in
      (filtered_name li cn \<longrightarrow> v = zero_of t) \<and> clean li cn t v \<and> clean_fields li parent fs vs)"
| "clean_fields li parent fs vs = True"

lemma clean_zero: "clean li cn t (zero_of t)"
  by (cases t) (auto split: rtype.split)

lemma clean_zero_fields: "clean_fields li parent fs (zero_fields fs)"
proof (induction fs)
  case (Cons f fs)
  then show ?case by (cases f) (simp add: clean_zero Let_def)
qed simp

definition keeps_clean :: "late_initializer \<Rightarrow> rtype \<Rightarrow> bool" where
  "keeps_clean li t \<longleftrightarrow>
     (\<forall>cn d x. clean li cn t d \<longrightarrow> clean li cn t (fst (handle_field li cn t d x))) \<and>
     (\<forall>fs cn ds xs a. t = Struct_t fs \<longrightarrow> clean_fields li cn fs ds \<longrightarrow> clean_fields li cn fs (fst (handle_struct li cn fs ds xs a)))"

lemma keeps_cleanD:
  assumes "keeps_clean li t"
  shows "clean li cn t d \<Longrightarrow> clean li cn t (fst (handle_field li cn t d x))"
    and "t = Struct_t fs \<Longrightarrow> clean_fields li cn fs ds \<Longrightarrow> clean_fields li cn fs (fst (handle_struct li cn fs ds xs a))"
  using assms unfolding keeps_clean_def by blast+

lemma slice_items_all: "(\<And>x. P (fst (f x))) \<Longrightarrow> list_all P (fst (slice_items f xs))"
proof (induction xs)
  case (Cons x xs)
  obtain y r where y: "f x = (y, r)" by fastforce
  have "P y" using Cons.prems [of x] y by simp
  with Cons.IH [OF Cons.prems] y show ?case by (cases r) simp_all
qed simp

lemma map_items_all: "(\<And>x. P (fst (f x))) \<Longrightarrow> list_all (\<lambda>e. P (snd e)) (fst (map_items f m))"
proof (induction m)
  case (Cons e m)
  obtain k x where e: "e = (k, x)" by fastforce
  obtain y r where y: "f x = (y, r)" by fastforce
  have "P y" using Cons.prems [of x] y by simp
  with Cons.IH [OF Cons.prems] y show ?case by (cases r) (simp_all add: e)
qed simp

lemma struct_keeps_clean:
  "(\<And>f. f \<in> set fs \<Longrightarrow> keeps_clean li (field_type f)) \<Longrightarrow> clean_fields li cn fs ds \<Longrightarrow>
     clean_fields li cn fs (fst (handle_struct li cn fs ds xs a))"
proof (induction fs ds xs a rule: struct_induct)
  case (stop fs ds xs a)
  then show ?case by (simp add: handle_struct_stops)
next
  case (step n tag t fs d ds x xs a)
  let ?cn = "get_canonical_name cn n"
  have k: "keeps_clean li t" using step.prems(1) [of "Field n tag t"] by simp
  have c: "filtered_name li ?cn \<longrightarrow> d = zero_of t" "clean li ?cn t d" "clean_fields li cn fs ds"
    using step.prems(2) by (simp_all add: Let_def)
  have "clean_fields li cn fs (fst (handle_struct li cn fs ds xs b))" for b
    using step.IH [OF _ c(3)] step.prems(1) by simp
  moreover have "clean li ?cn t (fst (handle_field li ?cn t d x))" by (rule keeps_cleanD(1) [OF k c(2)])
  ultimately show ?case using c by (auto simp: handle_struct_step filtered_skips Let_def split: prod.split sum.split)
qed

lemma built_struct_clean:
  "keeps_clean li (Struct_t fs) \<Longrightarrow> clean_fields li cn fs (fst (handle_struct li cn fs (zero_fields fs) xs a))"
  by (rule keeps_cleanD(2) [OF _ refl clean_zero_fields])

lemma keeps_clean_all:
  shows "keeps_clean li t" and "keeps_clean li (field_type f)"
proof (induction t and f)
  case (Ptr_t t)
  have "clean li cn (Ptr_t t) (fst (handle_field li cn (Ptr_t t) d x))" if d: "clean li cn (Ptr_t t) d" for cn d x
  proof (cases "\<exists>fs xs. t = Struct_t fs \<and> x = Ptr_r (Struct_r xs) \<and> d = Nil_r")
    case True
    then obtain fs xs where "t = Struct_t fs" "x = Ptr_r (Struct_r xs)" "d = Nil_r" by blast
    with Ptr_t show ?thesis using built_struct_clean by (simp add: handle_field.simps(1) split: prod.split) (metis fst_conv)
  next
    case False
    then show ?thesis using d
      by (cases t) (auto simp: handle_field.simps(1) split: rval.split prod.split)
  qed
  then show ?case by (simp add: keeps_clean_def)
next
  case (Slice_t t)
  have "clean li cn (Slice_t t) (fst (handle_field li cn (Slice_t t) d x))" if d: "clean li cn (Slice_t t) d" for cn d x
  proof (cases "\<exists>xs. x = Slice_r xs \<and> d = Nil_r")
    case True
    then obtain xs where x: "x = Slice_r xs" "d = Nil_r" by blast
    show ?thesis
    proof (cases t)
      case (Ptr_t u)
      have z: "clean li cn t Nil_r" using clean_zero [of li cn t] Ptr_t by simp
      have "list_all (clean li cn t) (fst (slice_items (handle_field li cn t Nil_r) xs))"
        by (rule slice_items_all) (rule keeps_cleanD(1) [OF Slice_t z])
      then show ?thesis using x Ptr_t
        by (cases "slice_items (handle_field li cn t Nil_r) xs") (simp add: handle_field.simps(2))
    next
      case (Struct_t fs)
      let ?P = "\<lambda>v. case v of Struct_r ws \<Rightarrow> clean_fields li cn fs ws | _ \<Rightarrow> True"
      let ?f = "\<lambda>y. case y of Struct_r ys \<Rightarrow> (case handle_struct li cn fs (zero_fields fs) ys False of (ds, r) \<Rightarrow> (Struct_r ds, r))
                    | _ \<Rightarrow> (zero_of (Struct_t fs), Inr False)"
      have "?P (fst (?f y))" for y
        using built_struct_clean [OF Slice_t [unfolded Struct_t]] clean_zero_fields [of li cn fs] Struct_t
        by (cases y) (auto split: prod.split, metis fst_conv)
      then have "list_all ?P (fst (slice_items ?f xs))" by (rule slice_items_all)
      then show ?thesis using x Struct_t by (cases "slice_items ?f xs") (simp add: handle_field.simps(2))
    qed (use x in \<open>auto simp: handle_field.simps(2) split: prod.split\<close>)
  next
    case False
    then show ?thesis using d by (cases x) (auto simp: handle_field.simps(2))
  qed
  then show ?case by (simp add: keeps_clean_def)
next
  case (Map_t t)
  have "clean li cn (Map_t t) (fst (handle_field li cn (Map_t t) d x))" if d: "clean li cn (Map_t t) d" for cn d x
  proof (cases "\<exists>m. x = Map_r m \<and> d = Nil_r")
    case True
    then obtain m where x: "x = Map_r m" "d = Nil_r" by blast
    have items: "list_all (\<lambda>e. clean li cn t (snd e)) (fst (map_items (handle_field li cn t Nil_r) m))"
      if "clean li cn t Nil_r"
      by (rule map_items_all) (rule keeps_cleanD(1) [OF Map_t that])
    show ?thesis
    proof (cases t)
      case (Ptr_t u)
      then have "clean li cn t Nil_r" using clean_zero [of li cn t] by simp
      with items show ?thesis using x Ptr_t
        by (cases "map_items (handle_field li cn t Nil_r) m") (simp add: handle_field.simps(3))
    next
      case (Slice_t u)
      then have "clean li cn t Nil_r" using clean_zero [of li cn t] by simp
      with items show ?thesis using x Slice_t
        by (cases "map_items (handle_field li cn t Nil_r) m") (simp add: handle_field.simps(3))
    qed (use x in \<open>auto simp: handle_field.simps(3) split: prod.split\<close>)
  next
    case False
    then show ?thesis using d by (cases x) (auto simp: handle_field.simps(3))
  qed
  then show ?case by (simp add: keeps_clean_def)
next
  case (Struct_t fs)
  have "clean_fields li cn fs ds \<Longrightarrow> clean_fields li cn fs (fst (handle_struct li cn fs ds xs a))" for cn ds xs a
    by (rule struct_keeps_clean [OF Struct_t])
  then show ?case by (simp add: keeps_clean_def handle_field.simps)
qed (simp_all add: keeps_clean_def handle_field.simps)

text \<open>Every field is as before, or it was unset, its name is not skipped and nothing below it is.\<close>

fun respected :: "late_initializer \<Rightarrow> string \<Rightarrow> rfield list \<Rightarrow> rval list \<Rightarrow> rval list \<Rightarrow> bool" where
  "respected li parent (Field n tag t # fs) (d # ds) (e # es) =
     (let cn = get_canonical_name parent n in
      (e = d \<or> is_zero d \<and> \<not> filtered_name li cn \<and> clean li cn t e) \<and> respected li parent fs ds es)"
| "respected li parent fs ds es = (ds = es)"

lemma respected_refl: "respected li parent fs ds ds"
proof (induction fs arbitrary: ds)
  case (Cons f fs)
  then show ?case by (cases f; cases ds) (simp_all add: Let_def)
qed simp

lemma unset_clean: "is_zero d \<Longrightarrow> clean li cn t d"
  by (cases t; cases d) (auto split: rtype.split)

lemma handle_struct_respects: "respected li parent fs ds (fst (handle_struct li parent fs ds xs a))"
proof (induction fs ds xs a rule: struct_induct)
  case (stop fs ds xs a)
  then show ?case by (simp add: handle_struct_stops respected_refl)
next
  case (step n tag t fs d ds x xs a)
  let ?cn = "get_canonical_name parent n"
  obtain d' r where h: "handle_field li ?cn t d x = (d', r)" by fastforce
  note filtered_skips [simp]
  have "is_zero d \<Longrightarrow> clean li ?cn t d'"
    using keeps_cleanD(1) [OF keeps_clean_all(1) unset_clean, of d li ?cn t x] h by simp
  then show ?case using step h
    by (cases r) (simp_all add: handle_struct_step Let_def respected_refl)
qed

section \<open>Objects\<close>

definition struct_object :: "string \<Rightarrow> rfield list \<Rightarrow> rval list \<Rightarrow> go_object" where
  "struct_object name fs vs = \<lparr>obj_type = Ptr_t (Struct_t fs), obj_type_name = name, obj_value = Ptr_r (Struct_r vs)\<rparr>"

lemma late_initialize_struct:
  "late_initialize sh li (Some (struct_object name fs ds)) (Some (struct_object name fs xs)) =
     (case handle_struct li '''' fs ds xs False of (ds, r) \<Rightarrow> Done (Some (struct_object name fs ds), r))"
  by (cases "handle_struct li '''' fs ds xs False") (simp add: late_initialize_def struct_object_def is_nil_object_def)

text \<open>
  C15. Late initialization converges in one round: after a round that succeeded, another one with the
  same observation reports that nothing was set and changes nothing, whatever the filters, so that a
  resource is not updated again and again.
\<close>

theorem late_init_converges:
  assumes "late_initialize sh li (Some (struct_object name fs ds)) (Some (struct_object name fs xs)) = Done (Some desired, Inr b)"
  shows "late_initialize sh li (Some desired) (Some (struct_object name fs xs)) = Done (Some desired, Inr False)"
proof -
  obtain es r where h: "handle_struct li '''' fs ds xs False = (es, r)" by fastforce
  with assms have d: "desired = struct_object name fs es" "r = Inr b" by (simp_all add: late_initialize_struct)
  from handle_struct_again [OF h [unfolded d(2)], of False] show ?thesis by (simp add: d(1) late_initialize_struct)
qed

text \<open>
  C40. Late initialization coalesces. Without filters, when every field, at any depth, is a pointer, a slice of pointers,
  structs or basic values, or a map of pointers, slices of these or basic values, late initialization is the field by
  field choice of the desired value where one is set and of the observed value otherwise: nested
  structs, slices and maps are copied in full, and no error occurs. (Slices of slices, maps of structs and plain
  fields are not of this form: the first two are refused with an error and the last are left as they are.)
\<close>

theorem late_init_coalesces:
  assumes "unfiltered li" "supported_fields fs" "fits_fields fs ds" "fits_fields fs xs"
  shows "\<exists>b. late_initialize sh li (Some (struct_object name fs ds)) (Some (struct_object name fs xs))
     = Done (Some (struct_object name fs (map2 coalesce ds xs)), Inr b)"
proof -
  obtain b where "handle_struct li '''' fs ds xs False = (map2 coalesce ds xs, Inr b)"
    using struct_coalesces [OF assms] by blast
  then show ?thesis by (simp add: late_initialize_struct)
qed

text \<open>The types left out: items of other kinds are refused, and plain fields are never filled.\<close>

lemma other_items_refused:
  "snd (handle_field li cn (Slice_t (Slice_t t)) Nil_r (Slice_r (x # xs))) = Inl (slice_kind_error cn (Slice_t t))"
  "snd (handle_field li cn (Map_t (Struct_t fs)) Nil_r (Map_r ((k, x) # m))) = Inl (map_kind_error cn (Struct_t fs))"
  by (simp_all add: handle_field.simps)

lemma plain_fields_left: "handle_field li cn (Basic_t k) d x = (d, Inr False)"
  by (simp add: handle_field.simps)

text \<open>
  C16. Late initialization never overwrites and never fills a filtered field: on every outcome,
  errors included, each field of the parameters is as before, or it was unset, its canonical name is
  not filtered, and in what was built for it no field with a filtered name, at any depth, is set.
\<close>

theorem late_init_respects:
  assumes "late_initialize sh li (Some (struct_object name fs ds)) (Some (struct_object name fs xs)) = Done (Some desired, r)"
  shows "\<exists>es. desired = struct_object name fs es \<and> respected li '''' fs ds es"
  using assms handle_struct_respects [of li "''''" fs ds xs False]
  by (cases "handle_struct li '''' fs ds xs False") (auto simp: late_initialize_struct)

text \<open>
  A pointer to a struct is allocated before its fields are looked at: when none of them is set the
  desired object has changed, though no change is reported.
\<close>

lemma hollow_pointer_unreported:
  "handle_struct \<lparr>value_filters = [], name_filters = [], conditional_filters = []\<rparr> ''''
     [Field ''A'' ''a,omitempty'' (Ptr_t (Struct_t [Field ''B'' ''b'' (Ptr_t (Basic_t ''string''))]))]
     [Nil_r] [Ptr_r (Struct_r [Nil_r])] False = ([Ptr_r (Struct_r [Nil_r])], Inr False)"
  by code_simp

text \<open>A struct instead of a pointer panics where the documentation promises an error.\<close>

lemma struct_value_panics:
  "late_initialize sh li (Some \<lparr>obj_type = Struct_t fs, obj_type_name = name, obj_value = v\<rparr>) x = Crashed"
  by (simp add: late_initialize_def is_nil_object_def)

section \<open>A concrete resource\<close>

definition demo_fields :: "rfield list" where
  "demo_fields =
     [Field ''Region'' ''region,omitempty'' (Ptr_t (Basic_t ''string'')),
      Field ''Size'' ''size,omitempty'' (Ptr_t (Basic_t ''float64'')),
      Field ''Disk'' ''disk,omitempty'' (Slice_t (Struct_t [Field ''Name'' ''name,omitempty'' (Ptr_t (Basic_t ''string'')),
        Field ''Iops'' ''iops,omitempty'' (Ptr_t (Basic_t ''int64''))])),
      Field ''Tags'' ''tags,omitempty'' (Map_t (Ptr_t (Basic_t ''string'')))]"

definition demo_desired :: "rval list" where
  "demo_desired = [Ptr_r (Basic_r (Str_v ''eu'')), Nil_r, Nil_r, Nil_r]"

definition demo_observed :: "rval list" where
  "demo_observed =
     [Ptr_r (Basic_r (Str_v ''us'')), Ptr_r (Basic_r (Float_v 0 0)),
      Slice_r [Struct_r [Ptr_r (Basic_r (Str_v ''root'')), Ptr_r (Basic_r (Num_v 100))]],
      Map_r [(''env'', Ptr_r (Basic_r (Str_v ''dev'')))]]"

definition demo_init :: late_initializer where
  "demo_init = new_generic_late_initializer [with_zero_value_json_omit_empty_filter cname_wildcard, with_name_filter ''Disk.Iops'']"

definition demo_merged :: "rval list" where
  "demo_merged =
     [Ptr_r (Basic_r (Str_v ''eu'')), Nil_r, Slice_r [Struct_r [Ptr_r (Basic_r (Str_v ''root'')), Nil_r]],
      Map_r [(''env'', Ptr_r (Basic_r (Str_v ''dev'')))]]"

lemma demo_round: "handle_struct demo_init '''' demo_fields demo_desired demo_observed False = (demo_merged, Inr True)"
  by code_simp

theorem late_init_converges_witness:
  "late_initialize (\<lambda>x. '''') demo_init (Some (struct_object ''P'' demo_fields demo_merged)) (Some (struct_object ''P'' demo_fields demo_observed))
     = Done (Some (struct_object ''P'' demo_fields demo_merged), Inr False)"
  by (rule late_init_converges [where ds = demo_desired and b = True]) (simp add: late_initialize_struct demo_round)

theorem late_init_coalesces_witness:
  "\<exists>b. late_initialize (\<lambda>x. '''') (new_generic_late_initializer []) (Some (struct_object ''P'' demo_fields demo_desired))
     (Some (struct_object ''P'' demo_fields demo_observed))
     = Done (Some (struct_object ''P'' demo_fields (Ptr_r (Basic_r (Str_v ''eu'')) # tl demo_observed)), Inr b)"
proof -
  have m: "map2 coalesce demo_desired demo_observed = Ptr_r (Basic_r (Str_v ''eu'')) # tl demo_observed" by code_simp
  have "unfiltered (new_generic_late_initializer [])" "supported_fields demo_fields" "fits_fields demo_fields demo_desired"
    "fits_fields demo_fields demo_observed" by code_simp+
  from late_init_coalesces [OF this, of "\<lambda>x. ''''" "''P''"] show ?thesis unfolding m .
qed

theorem late_init_respects_witness:
  "\<exists>es. struct_object ''P'' demo_fields demo_merged = struct_object ''P'' demo_fields es \<and> respected demo_init '''' demo_fields demo_desired es"
  by (rule late_init_respects [where xs = demo_observed and sh = "\<lambda>x. ''''" and r = "Inr True"])
    (simp add: late_initialize_struct demo_round)

end
