(* ===== verification/ReconciliationPolicies.thy ===== *)
theory ReconciliationPolicies
  imports EncapsulatingLimiter GoErrors
begin

text \<open>
  Reconciliation policies (\<open>pkg/reconciler/reconciliationpolicy\<close>): before each reconciliation the retry
  delays of the policy of the resource become the rate limiter of its requests. The Kubernetes API and
  the source of policies are parameters; the inner reconciler is one as well. Durations are nanoseconds.
  A limiter that is created gets the next address of the heap.
\<close>

section \<open>Requests whose limiter can be overridden\<close>

text \<open>\<open>limiter_of q c\<close> is the limiter of the request, \<open>override c q\<close> the key it was added with.\<close>

locale request_limiters =
  fixes ok :: "'c \<Rightarrow> bool"
    and add :: "'k \<Rightarrow> nat option \<Rightarrow> 'q \<Rightarrow> 'c \<Rightarrow> 'c"
    and remove :: "'q \<Rightarrow> 'c \<Rightarrow> 'c"
    and override :: "'c \<Rightarrow> 'q \<Rightarrow> 'k option"
    and limiter_of :: "'q \<Rightarrow> 'c \<Rightarrow> nat option"
  assumes ok_add: "ok c \<Longrightarrow> ok (add k l q c)"
    and ok_remove: "ok c \<Longrightarrow> ok (remove q c)"
    and override_add: "ok c \<Longrightarrow> override (add k l q c) q = Some k"
    and override_remove: "ok c \<Longrightarrow> override (remove q c) q = None"
    and limiter_add: "ok c \<Longrightarrow> p \<noteq> q \<Longrightarrow> limiter_of p (add k l q c) = limiter_of p c"
    and limiter_remove: "ok c \<Longrightarrow> p \<noteq> q \<Longrightarrow> limiter_of p (remove q c) = limiter_of p c"
begin

definition update :: "'k option \<Rightarrow> nat option \<Rightarrow> 'q \<Rightarrow> 'c \<Rightarrow> 'c" where
  "update wanted l q c = (case wanted of None \<Rightarrow> remove q c | Some k \<Rightarrow> add k l q c)"

lemma update_effect:
  assumes "ok c"
  shows "ok (update wanted l q c)" "override (update wanted l q c) q = wanted"
    "p \<noteq> q \<Longrightarrow> limiter_of p (update wanted l q c) = limiter_of p c"
  using assms ok_add ok_remove override_add override_remove limiter_add limiter_remove
  by (auto simp: update_def split: option.split)

end

section \<open>The code\<close>

type_synonym request = "string \<times> string"  \<comment> \<open>namespace and name\<close>

record efrl_key =
  key_max_delay :: int
  key_base_delay :: int

record limiter_policy =
  base_delay :: "int option"
  max_delay :: "int option"

record reconciliation_policy =
  exponential_failure :: "limiter_policy option"

record 'l efrl =
  limiters :: "(efrl_key, request, 'l) encapsulating"
  default_base_delay :: int
  default_max_delay :: int
  next_limiter :: nat

text \<open>\<open>fresh base max\<close> is the limiter that client-go creates for the two delays.\<close>

definition new_exponential_failure_rate_limiter :: "(int \<Rightarrow> int \<Rightarrow> 'l) \<Rightarrow> int \<Rightarrow> int \<Rightarrow> 'l efrl" where
  "new_exponential_failure_rate_limiter fresh base maxi =
     \<lparr>limiters = new_encapsulating (Some 0) (\<lambda>a. fresh base maxi), default_base_delay = base, default_max_delay = maxi,
      next_limiter = 1\<rparr>"

definition policy_key :: "'l efrl \<Rightarrow> limiter_policy \<Rightarrow> efrl_key" where
  "policy_key rl p =
     \<lparr>key_max_delay = (case max_delay p of Some d \<Rightarrow> d | None \<Rightarrow> default_max_delay rl),
      key_base_delay = (case base_delay p of Some d \<Rightarrow> d | None \<Rightarrow> default_base_delay rl)\<rparr>"

definition add_override ::
  "(request, 'l) limiter_ops \<Rightarrow> (int \<Rightarrow> int \<Rightarrow> 'l) \<Rightarrow> efrl_key \<Rightarrow> request \<Rightarrow> 'l efrl \<Rightarrow> 'l efrl" where
  "add_override ops fresh k q rl =
     (let a = next_limiter rl; c = limiters rl in
      rl\<lparr>limiters := add_req ops k (Some a) q (c\<lparr>lims := (lims c)(a := fresh (key_base_delay k) (key_max_delay k))\<rparr>),
         next_limiter := Suc a\<rparr>)"

text \<open>
  \<open>get\<close> reads the managed resource (an error with the verdict of \<open>IsNotFound\<close>); the target is nil
  when no rate limiter is configured.
\<close>

definition set_rate_limiter ::
  "(request, 'l) limiter_ops \<Rightarrow> (int \<Rightarrow> int \<Rightarrow> 'l) \<Rightarrow> (request \<Rightarrow> (bool \<times> gerror) + 'mg) \<Rightarrow>
     ('mg \<Rightarrow> gerror + reconciliation_policy option) option \<Rightarrow> request \<Rightarrow> 'l efrl option \<Rightarrow> gerror option \<times> 'l efrl option" where
  "set_rate_limiter ops fresh get source q target =
     (case (source, target) of
        (Some src, Some rl) \<Rightarrow>
          (case get q of
             Inl (nf, e) \<Rightarrow> (if nf then None else Some (WithMsg ''cannot get managed resource'' e), target)
           | Inr mg \<Rightarrow>
               (case src mg of
                  Inl e \<Rightarrow> (Some (WithMsg ''cannot get reconciliation policy'' e), target)
                | Inr rp \<Rightarrow>
                    (case Option.bind rp exponential_failure of
                       None \<Rightarrow> (None, Some (rl\<lparr>limiters := remove_req ops q (limiters rl)\<rparr>))
                     | Some p \<Rightarrow> (None, Some (add_override ops fresh (policy_key rl p) q rl)))))
      | _ \<Rightarrow> (None, target))"

text \<open>The inner reconciler runs when the limiter is set; it gives its result and error.\<close>

definition policy_reconcile ::
  "(request, 'l) limiter_ops \<Rightarrow> (int \<Rightarrow> int \<Rightarrow> 'l) \<Rightarrow> (request \<Rightarrow> (bool \<times> gerror) + 'mg) \<Rightarrow>
     ('mg \<Rightarrow> gerror + reconciliation_policy option) option \<Rightarrow> (request \<Rightarrow> 'res \<times> gerror option) \<Rightarrow> 'res \<Rightarrow>
     request \<Rightarrow> 'l efrl option \<Rightarrow> ('res \<times> gerror option) \<times> 'l efrl option" where
  "policy_reconcile ops fresh get source inner no_result q target =
     (case set_rate_limiter ops fresh get source q target of
        (Some e, target) \<Rightarrow> ((no_result, Some (WithMsg ''cannot configure failure rate limiter'' e)), target)
      | (None, target) \<Rightarrow> (inner q, target))"

definition policy_add_finalizer :: "('o \<Rightarrow> gerror option) \<Rightarrow> 'o \<Rightarrow> gerror option" where
  "policy_add_finalizer add_finalizer obj = add_finalizer obj"

definition policy_remove_finalizer ::
  "(request, 'l) limiter_ops \<Rightarrow> ('o \<Rightarrow> request) \<Rightarrow> ('o \<Rightarrow> gerror option) \<Rightarrow> 'o \<Rightarrow> 'l efrl option \<Rightarrow> gerror option \<times> 'l efrl option" where
  "policy_remove_finalizer ops name_of remove_finalizer obj target =
     (case remove_finalizer obj of
        Some e \<Rightarrow> (Some (WithMsg ''cannot remove finalizer'' e), target)
      | None \<Rightarrow> (None, map_option (\<lambda>rl. rl\<lparr>limiters := remove_req ops (name_of obj) (limiters rl)\<rparr>) target))"

section \<open>The encapsulating limiter provides the interface\<close>

lemma lims_only [simp]: "get_rate_limiter_for p (c\<lparr>lims := h\<rparr>) = get_rate_limiter_for p c"
  by (simp add: get_rate_limiter_for_def cong: option.case_cong)

lemma remove_req_key: "enc_inv c \<Longrightarrow> inner_key (remove_req ops q c) q = None"
proof (cases "inner_key c q")
  case (Some k)
  assume inv: "enc_inv c"
  obtain b where b: "rate_limiters c k = Some b" using enc_inv_bucket [OF inv Some] by blast
  show ?thesis unfolding remove_req_def cleanup_req_effect(1) [OF Some b] by simp
qed (simp add: remove_req_def cleanup_req_none)

interpretation enc: request_limiters enc_inv "\<lambda>k l q c. add_req ops k l q (c\<lparr>lims := h c k\<rparr>)" "remove_req ops"
    inner_key get_rate_limiter_for for ops h
proof
  fix c :: "('a, 'b, 'c) encapsulating" and k l and q p :: 'b
  assume inv: "enc_inv c"
  have i: "enc_inv (c\<lparr>lims := h c k\<rparr>)" by (rule enc_inv_lims [OF inv])
  show "enc_inv (add_req ops k l q (c\<lparr>lims := h c k\<rparr>))" by (rule add_req_inv [OF i])
  show "enc_inv (remove_req ops q c)" by (rule remove_req_inv [OF inv])
  show "inner_key (add_req ops k l q (c\<lparr>lims := h c k\<rparr>)) q = Some k" by (simp add: add_req_members(3) [OF i])
  show "inner_key (remove_req ops q c) q = None" by (rule remove_req_key [OF inv])
  assume "p \<noteq> q"
  then show "get_rate_limiter_for p (add_req ops k l q (c\<lparr>lims := h c k\<rparr>)) = get_rate_limiter_for p c"
    using add_req_other [OF i] by simp
  show "get_rate_limiter_for p (remove_req ops q c) = get_rate_limiter_for p c" by (rule remove_req_other [OF inv \<open>p \<noteq> q\<close>])
qed

section \<open>The policy decides\<close>

definition wanted_key :: "'l efrl \<Rightarrow> reconciliation_policy option \<Rightarrow> efrl_key option" where
  "wanted_key rl rp = map_option (policy_key rl) (Option.bind rp exponential_failure)"

lemma set_rate_limiter_update:
  assumes "get q = Inr mg" "src mg = Inr rp"
  shows "\<exists>rl'. set_rate_limiter ops fresh get (Some src) q (Some rl) = (None, Some rl') \<and>
     limiters rl' = enc.update ops
       (\<lambda>c k. (lims c)(next_limiter rl := fresh (key_base_delay k) (key_max_delay k)))
       (wanted_key rl rp) (Some (next_limiter rl)) q (limiters rl) \<and>
     default_base_delay rl' = default_base_delay rl \<and> default_max_delay rl' = default_max_delay rl"
  using assms
  by (cases "Option.bind rp exponential_failure")
    (simp_all add: set_rate_limiter_def wanted_key_def enc.update_def add_override_def Let_def)

section \<open>The limiters run under the delays of their keys\<close>

text \<open>What a limiter becomes in use: any number of failures and resets of requests.\<close>

inductive aged :: "('q, 'l) limiter_ops \<Rightarrow> 'l \<Rightarrow> 'l \<Rightarrow> bool" for ops l0 where
  aged_new: "aged ops l0 l0"
| aged_when: "aged ops l0 l \<Longrightarrow> aged ops l0 (snd (lim_when ops q l))"
| aged_forget: "aged ops l0 l \<Longrightarrow> aged ops l0 (lim_forget ops q l)"

text \<open>
  The default limiter is at address 0; the limiter of a key was created with the delays of the key and
  only used since; no limiter is at an address that is still to be given out.
\<close>

definition delays_inv :: "(request, 'l) limiter_ops \<Rightarrow> (int \<Rightarrow> int \<Rightarrow> 'l) \<Rightarrow> 'l efrl \<Rightarrow> bool" where
  "delays_inv ops fresh rl \<longleftrightarrow>
     enc_inv (limiters rl) \<and> 0 < next_limiter rl \<and> default_limiter (limiters rl) = Some 0 \<and>
     aged ops (fresh (default_base_delay rl) (default_max_delay rl)) (lims (limiters rl) 0) \<and>
     (\<forall>k b. rate_limiters (limiters rl) k = Some b \<longrightarrow>
        (\<exists>a. bucket_limiter b = Some a \<and> a < next_limiter rl \<and>
           aged ops (fresh (key_base_delay k) (key_max_delay k)) (lims (limiters rl) a)))"

text \<open>Using limiters, or dropping members and whole buckets, keeps the invariant.\<close>

definition only_used :: "('q, 'l) limiter_ops \<Rightarrow> ('k, 'q, 'l) encapsulating \<Rightarrow> ('k, 'q, 'l) encapsulating \<Rightarrow> bool" where
  "only_used ops c c' \<longleftrightarrow> default_limiter c' = default_limiter c \<and>
     (\<forall>a l0. aged ops l0 (lims c a) \<longrightarrow> aged ops l0 (lims c' a)) \<and>
     (\<forall>k b'. rate_limiters c' k = Some b' \<longrightarrow> (\<exists>b. rate_limiters c k = Some b \<and> bucket_limiter b' = bucket_limiter b))"

lemma delays_inv_used:
  assumes "delays_inv ops fresh rl" "only_used ops (limiters rl) c" "enc_inv c"
  shows "delays_inv ops fresh (rl\<lparr>limiters := c\<rparr>)"
  using assms unfolding delays_inv_def only_used_def by simp metis

lemma cleanup_used: "only_used ops c (cleanup_req ops q c)"
  by (auto simp: only_used_def cleanup_req_def Let_def aged_forget split: option.splits if_splits)

lemma add_used:
  assumes inv: "enc_inv c"
  shows "default_limiter (add_req ops k rl q c) = default_limiter c"
    and "aged ops l0 (lims c a) \<Longrightarrow> aged ops l0 (lims (add_req ops k rl q c) a)"
    and "rate_limiters (add_req ops k rl q c) j = Some b' \<Longrightarrow>
      (\<exists>b. rate_limiters c j = Some b \<and> bucket_limiter b' = bucket_limiter b) \<or>
      j = k \<and> rate_limiters c k = None \<and> bucket_limiter b' = rl"
proof -
  let ?d = "c\<lparr>rate_limiters := (rate_limiters c)(k \<mapsto> joined c k rl q)\<rparr>"
  have used: "only_used ops ?d (cleanup_req ops q ?d)" "only_used ops ?d ?d"
    by (rule cleanup_used) (simp add: only_used_def)
  have "\<exists>d'. only_used ops ?d d' \<and> add_req ops k rl q c = d'\<lparr>inner_key := (inner_key d')(q \<mapsto> k)\<rparr>"
    using used by (auto simp: add_req_def joined_def Let_def split: option.split)
  then obtain d' where d': "only_used ops ?d d'" "add_req ops k rl q c = d'\<lparr>inner_key := (inner_key d')(q \<mapsto> k)\<rparr>"
    by blast
  show "default_limiter (add_req ops k rl q c) = default_limiter c" using d' by (simp add: only_used_def)
  show "aged ops l0 (lims c a) \<Longrightarrow> aged ops l0 (lims (add_req ops k rl q c) a)" using d' by (simp add: only_used_def)
  show "(\<exists>b. rate_limiters c j = Some b \<and> bucket_limiter b' = bucket_limiter b) \<or>
      j = k \<and> rate_limiters c k = None \<and> bucket_limiter b' = rl"
    if "rate_limiters (add_req ops k rl q c) j = Some b'"
  proof -
    from that d' have "rate_limiters d' j = Some b'" by simp
    with d'(1) obtain b where b: "rate_limiters ?d j = Some b" "bucket_limiter b' = bucket_limiter b"
      unfolding only_used_def by blast
    then show ?thesis by (auto simp: joined_def split: if_splits option.splits)
  qed
qed

lemma add_override_delays:
  assumes "delays_inv ops fresh rl"
  shows "delays_inv ops fresh (add_override ops fresh k q rl)"
proof -
  let ?a = "next_limiter rl"
  let ?c = "(limiters rl)\<lparr>lims := (lims (limiters rl))(?a := fresh (key_base_delay k) (key_max_delay k))\<rparr>"
  let ?c' = "add_req ops k (Some ?a) q ?c"
  note inv = assms [unfolded delays_inv_def]
  have enc: "enc_inv ?c" using inv by (intro enc_inv_lims) simp
  have "\<exists>x. bucket_limiter b' = Some x \<and> x < Suc ?a \<and> aged ops (fresh (key_base_delay j) (key_max_delay j)) (lims ?c' x)"
    if j: "rate_limiters ?c' j = Some b'" for j b'
  proof (cases "j = k \<and> rate_limiters ?c k = None \<and> bucket_limiter b' = Some ?a")
    case True
    then show ?thesis by (intro exI [of _ ?a] conjI add_used(2) [OF enc]) (simp_all add: aged_new)
  next
    case False
    with add_used(3) [OF enc j] obtain b where "rate_limiters (limiters rl) j = Some b" "bucket_limiter b' = bucket_limiter b"
      by auto
    with inv obtain x where "bucket_limiter b' = Some x" "x < ?a"
      "aged ops (fresh (key_base_delay j) (key_max_delay j)) (lims (limiters rl) x)" by metis
    then show ?thesis by (intro exI [of _ x] conjI add_used(2) [OF enc]) simp_all
  qed
  then show ?thesis
    using inv add_req_inv [OF enc] add_used(1) [OF enc]
    by (auto simp: delays_inv_def add_override_def Let_def intro!: add_used(2) [OF enc])
qed

lemma remove_delays: "delays_inv ops fresh rl \<Longrightarrow> delays_inv ops fresh (rl\<lparr>limiters := remove_req ops q (limiters rl)\<rparr>)"
  by (rule delays_inv_used) (simp_all add: remove_req_def cleanup_used remove_req_inv [unfolded remove_req_def] delays_inv_def)

text \<open>Every request has a limiter, of the delays of its key.\<close>

definition delays_of :: "'l efrl \<Rightarrow> request \<Rightarrow> int \<times> int" where
  "delays_of rl q = (case inner_key (limiters rl) q of
     None \<Rightarrow> (default_base_delay rl, default_max_delay rl) | Some k \<Rightarrow> (key_base_delay k, key_max_delay k))"

lemma delays_inv_limiter:
  assumes "delays_inv ops fresh rl"
  shows "\<exists>a. get_rate_limiter_for q (limiters rl) = Some a \<and>
    aged ops (fresh (fst (delays_of rl q)) (snd (delays_of rl q))) (lims (limiters rl) a)"
proof (cases "inner_key (limiters rl) q")
  case None
  then show ?thesis using assms by (simp add: get_rate_limiter_for_def delays_of_def delays_inv_def)
next
  case (Some k)
  have "enc_inv (limiters rl)" using assms by (simp add: delays_inv_def)
  from enc_inv_bucket [OF this Some] obtain b where "rate_limiters (limiters rl) k = Some b" by blast
  then show ?thesis using assms Some by (fastforce simp: get_rate_limiter_for_def delays_of_def delays_inv_def)
qed

text \<open>
  The calls a controller makes: the limiter of a request is set before a reconciliation, the finalizer
  of a resource is removed, a failure is counted and a success forgotten. What is read of the resource
  and its policy may be different in every call.
\<close>

datatype 'mg policy_call =
    Set_call "request \<Rightarrow> (bool \<times> gerror) + 'mg" "('mg \<Rightarrow> gerror + reconciliation_policy option) option" request
  | Finalize_call "request \<Rightarrow> gerror option" request
  | When_call request
  | Forget_call request

fun policy_do ::
  "(request, 'l) limiter_ops \<Rightarrow> (int \<Rightarrow> int \<Rightarrow> 'l) \<Rightarrow> 'mg policy_call \<Rightarrow> 'l efrl \<Rightarrow> 'l efrl option" where
  "policy_do ops fresh (Set_call get source q) rl = snd (set_rate_limiter ops fresh get source q (Some rl))"
| "policy_do ops fresh (Finalize_call fin q) rl = snd (policy_remove_finalizer ops (\<lambda>x. x) fin q (Some rl))"
| "policy_do ops fresh (When_call q) rl = map_option (\<lambda>(d, c). rl\<lparr>limiters := c\<rparr>) (enc_when ops q (limiters rl))"
| "policy_do ops fresh (Forget_call q) rl = map_option (\<lambda>c. rl\<lparr>limiters := c\<rparr>) (enc_forget ops q (limiters rl))"

fun policy_run ::
  "(request, 'l) limiter_ops \<Rightarrow> (int \<Rightarrow> int \<Rightarrow> 'l) \<Rightarrow> 'mg policy_call list \<Rightarrow> 'l efrl \<Rightarrow> 'l efrl option" where
  "policy_run ops fresh [] rl = Some rl"
| "policy_run ops fresh (x # xs) rl = Option.bind (policy_do ops fresh x rl) (policy_run ops fresh xs)"

lemma set_rate_limiter_delays:
  assumes "delays_inv ops fresh rl"
  shows "\<exists>rl'. snd (set_rate_limiter ops fresh get source q (Some rl)) = Some rl' \<and> delays_inv ops fresh rl' \<and>
    default_base_delay rl' = default_base_delay rl \<and> default_max_delay rl' = default_max_delay rl"
  using assms
  by (auto simp: set_rate_limiter_def add_override_delays remove_delays split: option.split sum.split)
    (simp_all add: add_override_def Let_def)

lemma policy_do_delays:
  assumes inv: "delays_inv ops fresh rl"
  shows "\<exists>rl'. policy_do ops fresh x rl = Some rl' \<and> delays_inv ops fresh rl' \<and>
    default_base_delay rl' = default_base_delay rl \<and> default_max_delay rl' = default_max_delay rl"
proof (cases x)
  case (Set_call get source q)
  then show ?thesis using set_rate_limiter_delays [OF inv] by simp
next
  case (Finalize_call fin q)
  then show ?thesis using inv by (auto simp: policy_remove_finalizer_def remove_delays split: option.split)
next
  case (When_call q)
  have e: "enc_inv (limiters rl)" using inv by (simp add: delays_inv_def)
  obtain a where a: "get_rate_limiter_for q (limiters rl) = Some a" using delays_inv_limiter [OF inv] by blast
  let ?c = "(limiters rl)\<lparr>lims := (lims (limiters rl))(a := snd (lim_when ops q (lims (limiters rl) a)))\<rparr>"
  have "delays_inv ops fresh (rl\<lparr>limiters := ?c\<rparr>)"
    by (rule delays_inv_used [OF inv _ enc_inv_lims [OF e]]) (simp add: only_used_def aged_when)
  then show ?thesis using When_call a by (simp add: enc_when_def split_beta)
next
  case (Forget_call q)
  have e: "enc_inv (limiters rl)" using inv by (simp add: delays_inv_def)
  obtain a where a: "get_rate_limiter_for q (limiters rl) = Some a" using delays_inv_limiter [OF inv] by blast
  let ?c = "(limiters rl)\<lparr>lims := (lims (limiters rl))(a := lim_forget ops q (lims (limiters rl) a))\<rparr>"
  have "delays_inv ops fresh (rl\<lparr>limiters := ?c\<rparr>)"
    by (rule delays_inv_used [OF inv _ enc_inv_lims [OF e]]) (simp add: only_used_def aged_forget)
  then show ?thesis using Forget_call a by (simp add: enc_forget_def)
qed

lemma policy_run_delays:
  "delays_inv ops fresh rl \<Longrightarrow> \<exists>rl'. policy_run ops fresh xs rl = Some rl' \<and> delays_inv ops fresh rl' \<and>
     default_base_delay rl' = default_base_delay rl \<and> default_max_delay rl' = default_max_delay rl"
proof (induction xs arbitrary: rl)
  case (Cons x xs)
  from policy_do_delays [OF Cons.prems, of x] obtain r1 where
    "policy_do ops fresh x rl = Some r1" "delays_inv ops fresh r1"
    "default_base_delay r1 = default_base_delay rl" "default_max_delay r1 = default_max_delay rl" by blast
  with Cons.IH [of r1] show ?case by simp
qed simp

lemma new_delays: "delays_inv ops fresh (new_exponential_failure_rate_limiter fresh base maxi)"
  by (simp add: delays_inv_def new_exponential_failure_rate_limiter_def enc_inv_new aged_new)
    (simp add: new_encapsulating_def aged_new)

text \<open>
  C25. The policy decides: whatever calls the limiter has seen, none of which panics, when the resource
  of a request and its policy can be read, the request afterwards runs under a limiter that was created
  with the delays of the policy, those it leaves out being the defaults, or under the default limiter,
  created with the default delays, when there is no policy any more; such a limiter has only been used
  since. The limiters of all other requests stay as they were, and the registry stays well formed.
\<close>

theorem policy_decides_limiter:
  assumes "get q = Inr mg" "src mg = Inr rp"
  shows "\<exists>rl rl' a. policy_run ops fresh xs (new_exponential_failure_rate_limiter fresh base maxi) = Some rl \<and>
    set_rate_limiter ops fresh get (Some src) q (Some rl) = (None, Some rl') \<and> enc_inv (limiters rl') \<and>
    get_rate_limiter_for q (limiters rl') = Some a \<and>
    (case Option.bind rp exponential_failure of
       None \<Rightarrow> a = 0 \<and> aged ops (fresh base maxi) (lims (limiters rl') a)
     | Some p \<Rightarrow> aged ops (fresh (case base_delay p of Some d \<Rightarrow> d | None \<Rightarrow> base)
                               (case max_delay p of Some d \<Rightarrow> d | None \<Rightarrow> maxi)) (lims (limiters rl') a)) \<and>
    (\<forall>p. p \<noteq> q \<longrightarrow> get_rate_limiter_for p (limiters rl') = get_rate_limiter_for p (limiters rl))"
proof -
  let ?new = "new_exponential_failure_rate_limiter fresh base maxi"
  have dflt: "default_base_delay ?new = base" "default_max_delay ?new = maxi"
    by (simp_all add: new_exponential_failure_rate_limiter_def)
  obtain rl where rl: "policy_run ops fresh xs ?new = Some rl" "delays_inv ops fresh rl"
      "default_base_delay rl = base" "default_max_delay rl = maxi"
    using policy_run_delays [OF new_delays [of ops fresh base maxi], where xs = xs] dflt by auto
  let ?h = "\<lambda>c k. (lims c)(next_limiter rl := fresh (key_base_delay k) (key_max_delay k))"
  obtain rl' where rl': "set_rate_limiter ops fresh get (Some src) q (Some rl) = (None, Some rl')"
      "limiters rl' = enc.update ops ?h (wanted_key rl rp) (Some (next_limiter rl)) q (limiters rl)"
    using set_rate_limiter_update [of get q mg src rp ops fresh rl, OF assms] by blast
  have "enc_inv (limiters rl)" using rl(2) by (simp add: delays_inv_def)
  note eff = enc.update_effect [OF this, where ops = ops and h = ?h and wanted = "wanted_key rl rp"
      and l = "Some (next_limiter rl)" and q = q, folded rl'(2)]
  have inv: "delays_inv ops fresh rl'" "default_base_delay rl' = base" "default_max_delay rl' = maxi"
    using set_rate_limiter_delays [OF rl(2), of get "Some src" q] rl'(1) rl(3,4) by auto
  from delays_inv_limiter [OF inv(1), of q] obtain a where a: "get_rate_limiter_for q (limiters rl') = Some a"
    "aged ops (fresh (fst (delays_of rl' q)) (snd (delays_of rl' q))) (lims (limiters rl') a)" by blast
  have "case Option.bind rp exponential_failure of
       None \<Rightarrow> a = 0 \<and> aged ops (fresh base maxi) (lims (limiters rl') a)
     | Some p \<Rightarrow> aged ops (fresh (case base_delay p of Some d \<Rightarrow> d | None \<Rightarrow> base)
                               (case max_delay p of Some d \<Rightarrow> d | None \<Rightarrow> maxi)) (lims (limiters rl') a)"
    using a eff(2) inv rl(3,4)
    by (auto simp: wanted_key_def delays_of_def policy_key_def get_rate_limiter_for_def delays_inv_def split: option.split)
  with rl(1) rl'(1) a(1) eff(1,3) show ?thesis by blast
qed

section \<open>Witness\<close>

definition demo_policy :: "reconciliation_policy" where
  "demo_policy = \<lparr>exponential_failure = Some \<lparr>base_delay = Some 5, max_delay = None\<rparr>\<rparr>"

text \<open>A limiter that keeps its delays and the number of failures in a row of all requests.\<close>

definition demo_limiter_ops :: "(request, int \<times> int \<times> nat) limiter_ops" where
  "demo_limiter_ops = \<lparr>lim_when = (\<lambda>q (b, m, n). (n, (b, m, Suc n))), lim_forget = (\<lambda>q (b, m, n). (b, m, 0)),
     lim_requeues = (\<lambda>q (b, m, n). n), lim_default = (0, 0, 0)\<rparr>"

lemma demo_aged: "aged demo_limiter_ops (b, m, n) l \<Longrightarrow> fst l = b \<and> fst (snd l) = m"
  by (induction rule: aged.induct) (auto simp: demo_limiter_ops_def split_beta)

text \<open>A request of the default limiter has failed before; its base delay becomes five.\<close>

theorem policy_decides_limiter_witness:
  "\<exists>rl rl' a. policy_run demo_limiter_ops (\<lambda>b m. (b, m, 0)) [When_call (''ns'', ''n'') :: unit policy_call]
       (new_exponential_failure_rate_limiter (\<lambda>b m. (b, m, 0)) 1 60) = Some rl \<and>
     set_rate_limiter demo_limiter_ops (\<lambda>b m. (b, m, 0)) (\<lambda>q. Inr ()) (Some (\<lambda>mg. Inr (Some demo_policy))) (''ns'', ''n'')
       (Some rl) = (None, Some rl') \<and>
     get_rate_limiter_for (''ns'', ''n'') (limiters rl') = Some a \<and>
     fst (lims (limiters rl') a) = 5 \<and> fst (snd (lims (limiters rl') a)) = 60"
proof -
  have p: "Option.bind (Some demo_policy) exponential_failure = Some \<lparr>base_delay = Some 5, max_delay = None\<rparr>"
    by (simp add: demo_policy_def)
  show ?thesis
    using policy_decides_limiter [where ops = demo_limiter_ops and fresh = "\<lambda>b m. (b, m, 0)" and get = "\<lambda>q. Inr ()" and mg = "()"
        and src = "\<lambda>mg. Inr (Some demo_policy)" and rp = "Some demo_policy" and q = "(''ns'', ''n'')"
        and xs = "[When_call (''ns'', ''n'')]" and base = 1 and maxi = 60, OF refl refl]
    unfolding p by (auto dest!: demo_aged)
qed

end
