(* ===== verification/CrdMigrator.thy ===== *)
theory CrdMigrator
  imports GoOutcome SecretKeys
begin

text \<open>
  The storage version migration (\<open>pkg/config/crd_migrator.go\<close>): the resources of a custom resource
  definition are listed page by page and patched with an empty patch, which makes the API server
  store them in the current storage version; afterwards the old versions leave the status. The API
  server is third-party: the parameter \<open>crd_api\<close>, over a world \<open>'w\<close>. The loop over the pages ends only
  when the server returns no token to continue with: it is a partial function, \<open>None\<close> when it never ends.
\<close>

section \<open>The API server\<close>

datatype error_reason =
  Not_found | Forbidden | Unauthorized | Internal_error | Server_timeout | Timed_out | Too_many_requests
  | Service_unavailable | Conflict | Other_reason

record crd_version =
  cv_name :: string
  cv_storage :: bool

record crd =
  crd_name :: string
  crd_group :: string
  crd_kind :: string
  crd_list_kind :: string
  crd_versions :: "crd_version list"
  stored_versions :: "string list"

text \<open>
  \<open>list_page\<close> gets the storage version and a token, and returns the names on the page and the next
  token; a token is empty before the first and after the last page. \<open>patch_object\<close> applies the empty
  patch; \<open>review_access\<close> asks whether the status may be patched. \<open>retry_call\<close> is \<open>retry.OnError\<close> with a
  backoff; what it calls changes the world and the page last read.
\<close>

type_synonym page = "string list \<times> string"

record 'w crd_api =
  reason_of :: "gerror \<Rightarrow> error_reason"
  retry_call :: "nat \<Rightarrow> (gerror \<Rightarrow> bool) \<Rightarrow> ('w \<times> page \<Rightarrow> gerror option \<times> ('w \<times> page)) \<Rightarrow> 'w \<times> page \<Rightarrow> gerror option \<times> ('w \<times> page)"
  list_crds :: "'w \<Rightarrow> (gerror + crd list) \<times> 'w"
  list_page :: "crd \<Rightarrow> string \<Rightarrow> string \<Rightarrow> 'w \<Rightarrow> (gerror + page) \<times> 'w"
  patch_object :: "crd \<Rightarrow> string \<Rightarrow> 'w \<Rightarrow> gerror option \<times> 'w"
  review_access :: "string \<Rightarrow> 'w \<Rightarrow> (gerror + bool) \<times> 'w"
  get_crd :: "string \<Rightarrow> 'w \<Rightarrow> (gerror + crd) \<times> 'w"
  patch_status :: "crd \<Rightarrow> 'w \<Rightarrow> gerror option \<times> 'w"

text \<open>\<open>errors.As\<close> finds the status error below the wrappings.\<close>

primrec root_error :: "gerror \<Rightarrow> gerror" where
  "root_error (Plain m) = Plain m"
| "root_error (WithMsg m e) = root_error e"
| "root_error (ApplyFailed m) = ApplyFailed m"
| "root_error (DestroyFailed m) = DestroyFailed m"
| "root_error (RefreshFailed m) = RefreshFailed m"
| "root_error (PlanFailed m) = PlanFailed m"
| "root_error (RetrySchedule n t) = RetrySchedule n t"
| "root_error (AsyncCreateFailed e) = AsyncCreateFailed e"
| "root_error (AsyncUpdateFailed e) = AsyncUpdateFailed e"
| "root_error (AsyncDeleteFailed e) = AsyncDeleteFailed e"

definition is_retryable :: "('w, 'x) crd_api_scheme \<Rightarrow> gerror \<Rightarrow> bool" where
  "is_retryable api e \<longleftrightarrow>
     reason_of api (root_error e) \<in>
       {Internal_error, Server_timeout, Timed_out, Too_many_requests, Service_unavailable, Conflict}"

section \<open>The migrator\<close>

record migrator =
  root_group :: string
  short_group :: string
  retry_backoff :: nat

definition with_retry_backoff :: "nat \<Rightarrow> migrator \<Rightarrow> migrator" where
  "with_retry_backoff n c = c\<lparr>retry_backoff := n\<rparr>"

definition with_short_group :: "string \<Rightarrow> migrator \<Rightarrow> migrator" where
  "with_short_group g c = c\<lparr>short_group := g\<rparr>"

definition new_crd_migrator :: "string \<Rightarrow> (migrator \<Rightarrow> migrator) list \<Rightarrow> migrator" where
  "new_crd_migrator g opts = fold (\<lambda>o1 c. o1 c) opts \<lparr>root_group = g, short_group = '''', retry_backoff = 10\<rparr>"

definition matches_group :: "migrator \<Rightarrow> string \<Rightarrow> bool" where
  "matches_group c g =
     (if short_group c = '''' then g = root_group c \<or> has_suffix g (''.'' @ root_group c)
      else g = short_group c @ ''.'' @ root_group c)"

definition storage_version :: "crd \<Rightarrow> string" where
  "storage_version d = (case find cv_storage (crd_versions d) of None \<Rightarrow> '''' | Some v \<Rightarrow> cv_name v)"

fun patch_items :: "('w, 'x) crd_api_scheme \<Rightarrow> nat \<Rightarrow> crd \<Rightarrow> string list \<Rightarrow> 'w \<times> page \<Rightarrow> gerror option \<times> ('w \<times> page)" where
  "patch_items api n d [] s = (None, s)"
| "patch_items api n d (x # xs) s =
     (case retry_call api n (is_retryable api) (\<lambda>(w, pg). let (e, w) = patch_object api d x w in (e, w, pg)) s of
        (None, s) \<Rightarrow> patch_items api n d xs s
      | (Some e, s) \<Rightarrow>
          if reason_of api (root_error e) = Not_found then patch_items api n d xs s
          else (Some (WithMsg (''cannot patch '' @ crd_kind d @ ''.'' @ crd_group d @ '' '' @ go_quote x) e), s))"

definition read_page ::
  "('w, 'x) crd_api_scheme \<Rightarrow> crd \<Rightarrow> string \<Rightarrow> string \<Rightarrow> 'w \<times> page \<Rightarrow> gerror option \<times> ('w \<times> page)" where
  "read_page api d sv token s =
     (case list_page api d sv token (fst s) of (Inl e, w) \<Rightarrow> (Some e, w, snd s) | (Inr pg, w) \<Rightarrow> (None, w, pg))"

partial_function (option) migrate_pages ::
  "('w, 'x) crd_api_scheme \<Rightarrow> nat \<Rightarrow> crd \<Rightarrow> string \<Rightarrow> string \<Rightarrow> 'w \<times> page \<Rightarrow> (gerror option \<times> ('w \<times> page)) option" where
  "migrate_pages api n d sv token s =
     (case retry_call api n (is_retryable api) (read_page api d sv token) s of
        (Some e, s) \<Rightarrow>
          Some (Some (WithMsg (''cannot list '' @ crd_group d @ ''/'' @ sv @ '', Kind='' @ crd_list_kind d) e), s)
      | (None, s) \<Rightarrow>
          (case patch_items api n d (fst (snd s)) s of
             (Some e, s) \<Rightarrow> Some (Some e, s)
           | (None, s) \<Rightarrow>
               if snd (snd s) = '''' then Some (None, s) else migrate_pages api n d sv (snd (snd s)) s))"

definition check_crd_status_update_permission ::
  "('w, 'x) crd_api_scheme \<Rightarrow> string \<Rightarrow> 'w \<Rightarrow> (gerror + bool) \<times> 'w" where
  "check_crd_status_update_permission api name w =
     (case review_access api name w of
        (Inr allowed, w) \<Rightarrow> (Inr allowed, w)
      | (Inl e, w) \<Rightarrow>
          if reason_of api (root_error e) \<in> {Forbidden, Unauthorized, Not_found} then (Inr False, w)
          else (Inl (WithMsg ''failed to create SelfSubjectAccessReview for verb patch'' e), w))"

definition set_stored_version ::
  "('w, 'x) crd_api_scheme \<Rightarrow> string \<Rightarrow> string \<Rightarrow> 'w \<times> page \<Rightarrow> gerror option \<times> ('w \<times> page)" where
  "set_stored_version api name sv s =
     (case get_crd api name (fst s) of
        (Inl e, w) \<Rightarrow> (Some (WithMsg (''cannot get CRD '' @ name) e), w, snd s)
      | (Inr d, w) \<Rightarrow> (let (e, w) = patch_status api (d\<lparr>stored_versions := [sv]\<rparr>) w in (e, w, snd s)))"

definition update_crd_storage_version ::
  "('w, 'x) crd_api_scheme \<Rightarrow> nat \<Rightarrow> string \<Rightarrow> string \<Rightarrow> 'w \<Rightarrow> gerror option \<times> 'w" where
  "update_crd_storage_version api n name sv w =
     (case retry_call api n (is_retryable api) (set_stored_version api name sv) (w, [], '''') of
        (Some e, s) \<Rightarrow> (Some (WithMsg (''couldn't update '' @ name @ '' crd'') e), fst s)
      | (None, s) \<Rightarrow> (None, fst s))"

definition migrate_crd :: "('w, 'x) crd_api_scheme \<Rightarrow> migrator \<Rightarrow> crd \<Rightarrow> 'w \<Rightarrow> (gerror option \<times> 'w) option" where
  "migrate_crd api c d w =
     (let sv = storage_version d; n = retry_backoff c in
      if sv = '''' then Some (Some (Plain (''no storage version found for CRD '' @ crd_name d)), w)
      else if \<not> list_ex (\<lambda>v. v \<noteq> sv) (stored_versions d) then Some (None, w)
      else (case migrate_pages api n d sv '''' (w, [], '''') of
              None \<Rightarrow> None
            | Some (Some e, w, pg) \<Rightarrow> Some (Some e, w)
            | Some (None, w, pg) \<Rightarrow>
                (case check_crd_status_update_permission api (crd_name d) w of
                   (Inl e, w) \<Rightarrow> Some (Some (WithMsg (''permission check failed for CRD '' @ crd_name d) e), w)
                 | (Inr False, w) \<Rightarrow> Some (None, w)
                 | (Inr True, w) \<Rightarrow>
                     (case update_crd_storage_version api n (crd_name d) sv w of
                        (Some e, w) \<Rightarrow> Some (Some (WithMsg (''cannot update storage version for CRD '' @ crd_name d) e), w)
                      | (None, w) \<Rightarrow> Some (None, w)))))"

text \<open>The errors of the definitions in scope, in order; \<open>errors.Join\<close> of none is nil.\<close>

fun migrate_all :: "('w, 'x) crd_api_scheme \<Rightarrow> migrator \<Rightarrow> crd list \<Rightarrow> 'w \<Rightarrow> (gerror list \<times> 'w) option" where
  "migrate_all api c [] w = Some ([], w)"
| "migrate_all api c (d # ds) w =
     (if \<not> matches_group c (crd_group d) then migrate_all api c ds w
      else (case migrate_crd api c d w of
              None \<Rightarrow> None
            | Some (e, w) \<Rightarrow>
                map_option (\<lambda>(es, w). ((case e of None \<Rightarrow> es | Some e \<Rightarrow> e # es), w)) (migrate_all api c ds w)))"

definition run_migrator :: "('w, 'x) crd_api_scheme \<Rightarrow> migrator \<Rightarrow> 'w \<Rightarrow> (gerror list \<times> 'w) option" where
  "run_migrator api c w =
     (case list_crds api w of
        (Inl e, w) \<Rightarrow> Some ([WithMsg ''failed to list CRDs'' e], w)
      | (Inr ds, w) \<Rightarrow> migrate_all api c ds w)"

section \<open>What the API server promises\<close>

text \<open>\<open>retry.OnError\<close> calls until it succeeds, gives up or must not retry:
  at least once, unless the backoff has no step, when it returns nil without a call.\<close>

inductive attempts :: "('s \<Rightarrow> gerror option \<times> 's) \<Rightarrow> 's \<Rightarrow> gerror option \<Rightarrow> 's \<Rightarrow> bool" for f where
  last_attempt: "f s = (e, s') \<Longrightarrow> attempts f s e s'"
| next_attempt: "f s = (Some x, s1) \<Longrightarrow> attempts f s1 e s' \<Longrightarrow> attempts f s e s'"

inductive_cases attempts_elim: "attempts f s e s'"

definition retry_law :: "('w, 'x) crd_api_scheme \<Rightarrow> bool" where
  "retry_law api \<longleftrightarrow> (\<forall>n r f s e s'. 0 < n \<longrightarrow> retry_call api n r f s = (e, s') \<longrightarrow> attempts f s e s')"

text \<open>
  For a definition \<open>d\<close>: \<open>stale w\<close> are the resources stored in an old version, \<open>listed w\<close> the stored versions
  in its status, \<open>pending t\<close> the resources the pages from token \<open>t\<close> on contain. Nothing is ever stored in
  an old version again, and only a patch of the status changes it.
\<close>

definition crd_laws ::
  "('w, 'x) crd_api_scheme \<Rightarrow> crd \<Rightarrow> ('w \<Rightarrow> string set) \<Rightarrow> ('w \<Rightarrow> string list) \<Rightarrow> (string \<Rightarrow> string set) \<Rightarrow> bool" where
  "crd_laws api d stale listed pending \<longleftrightarrow> retry_law api \<and>
     (\<forall>t w r w'. list_page api d (storage_version d) t w = (r, w') \<longrightarrow> stale w' \<subseteq> stale w \<and> listed w' = listed w) \<and>
     (\<forall>t w items nxt w'. list_page api d (storage_version d) t w = (Inr (items, nxt), w') \<longrightarrow>
        pending t \<subseteq> set items \<union> (if nxt = '''' then {} else pending nxt)) \<and>
     (\<forall>x w e w'. patch_object api d x w = (e, w') \<longrightarrow> stale w' \<subseteq> stale w \<and> listed w' = listed w) \<and>
     (\<forall>x w e w'. patch_object api d x w = (e, w') \<longrightarrow>
        (e = None \<or> (\<exists>err. e = Some err \<and> reason_of api (root_error err) = Not_found)) \<longrightarrow> x \<notin> stale w') \<and>
     (\<forall>n w r w'. review_access api n w = (r, w') \<longrightarrow> stale w' \<subseteq> stale w \<and> listed w' = listed w) \<and>
     (\<forall>n w r w'. get_crd api n w = (r, w') \<longrightarrow> stale w' \<subseteq> stale w \<and> listed w' = listed w) \<and>
     (\<forall>d' w e w'. patch_status api d' w = (e, w') \<longrightarrow> stale w' \<subseteq> stale w)"

lemma crd_lawsD:
  assumes "crd_laws api d stale listed pending"
  shows crd_retry: "0 < n \<Longrightarrow> retry_call api n r f s = (e, s') \<Longrightarrow> attempts f s e s'"
    and crd_list: "list_page api d (storage_version d) t w = (p, w') \<Longrightarrow> stale w' \<subseteq> stale w \<and> listed w' = listed w"
    and crd_page: "list_page api d (storage_version d) t w = (Inr (items, nxt), w') \<Longrightarrow>
      pending t \<subseteq> set items \<union> (if nxt = '''' then {} else pending nxt)"
    and crd_patch: "patch_object api d x w = (e, w') \<Longrightarrow> stale w' \<subseteq> stale w \<and> listed w' = listed w"
    and crd_patched: "patch_object api d x w = (e, w') \<Longrightarrow>
      e = None \<or> (\<exists>err. e = Some err \<and> reason_of api (root_error err) = Not_found) \<Longrightarrow> x \<notin> stale w'"
    and crd_review: "review_access api name w = (b, w') \<Longrightarrow> stale w' \<subseteq> stale w \<and> listed w' = listed w"
    and crd_get: "get_crd api name w = (c, w') \<Longrightarrow> stale w' \<subseteq> stale w \<and> listed w' = listed w"
    and crd_status: "patch_status api d' w = (e, w') \<Longrightarrow> stale w' \<subseteq> stale w"
proof -
  note c = assms [unfolded crd_laws_def retry_law_def]
  show "0 < n \<Longrightarrow> retry_call api n r f s = (e, s') \<Longrightarrow> attempts f s e s'"
    using c by (elim conjE) metis
  show "list_page api d (storage_version d) t w = (p, w') \<Longrightarrow> stale w' \<subseteq> stale w \<and> listed w' = listed w"
    using c by (elim conjE) metis
  show "list_page api d (storage_version d) t w = (Inr (items, nxt), w') \<Longrightarrow> pending t \<subseteq> set items \<union> (if nxt = '''' then {} else pending nxt)"
    using c by (elim conjE) metis
  show "patch_object api d x w = (e, w') \<Longrightarrow> stale w' \<subseteq> stale w \<and> listed w' = listed w"
    using c by (elim conjE) metis
  show "patch_object api d x w = (e, w') \<Longrightarrow> e = None \<or> (\<exists>err. e = Some err \<and> reason_of api (root_error err) = Not_found) \<Longrightarrow> x \<notin> stale w'"
    using c by (elim conjE) metis
  show "review_access api name w = (b, w') \<Longrightarrow> stale w' \<subseteq> stale w \<and> listed w' = listed w"
    using c by (elim conjE) metis
  show "get_crd api name w = (c, w') \<Longrightarrow> stale w' \<subseteq> stale w \<and> listed w' = listed w"
    using c by (elim conjE) metis
  show "patch_status api d' w = (e, w') \<Longrightarrow> stale w' \<subseteq> stale w"
    using c by (elim conjE) metis
qed

text \<open>The last attempt starts where the attempts before it have led.\<close>

lemma attempts_last:
  "attempts f s e s' \<Longrightarrow> I s \<Longrightarrow> (\<And>s e s'. I s \<Longrightarrow> f s = (e, s') \<Longrightarrow> I s') \<Longrightarrow> \<exists>s1. I s1 \<and> f s1 = (e, s')"
  by (induction rule: attempts.induct) blast+

section \<open>No version is dropped while a resource is stored in it\<close>

lemma patch_items_stale:
  assumes laws: "crd_laws api d stale listed pending" and n: "0 < n"
  shows "patch_items api n d xs s = (e, s') \<Longrightarrow> stale (fst s') \<subseteq> stale (fst s) \<and> listed (fst s') = listed (fst s) \<and>
    snd s' = snd s \<and> (e = None \<longrightarrow> stale (fst s') \<inter> set xs = {})"
proof (induction xs arbitrary: s)
  case (Cons x xs)
  let ?f = "\<lambda>(w, pg). let (e, w) = patch_object api d x w in (e, w, pg)"
  obtain r s1 where r: "retry_call api n (is_retryable api) ?f s = (r, s1)" by (rule prod.exhaust)
  let ?I = "\<lambda>t. stale (fst t) \<subseteq> stale (fst s) \<and> listed (fst t) = listed (fst s) \<and> snd t = (snd s :: page)"
  have step: "?I t'" if I: "?I t" and f: "?f t = (y, t')" for t t' y
  proof -
    obtain w1 where w1: "patch_object api d x (fst t) = (y, w1)" "t' = (w1, snd t)"
      using f by (cases t) (auto simp: Let_def split: prod.splits)
    show ?thesis using crd_patch [OF laws w1(1)] I w1(2) by auto
  qed
  from attempts_last [OF crd_retry [OF laws n r], of ?I] step obtain t where t: "?I t" "?f t = (r, s1)" by blast
  obtain w1 where w: "patch_object api d x (fst t) = (r, w1)" "s1 = (w1, snd t)"
    using t(2) by (cases t) (auto simp: Let_def split: prod.splits)
  have s1: "?I s1" by (rule step [OF t])
  show ?case
  proof (cases "r = None \<or> (\<exists>err. r = Some err \<and> reason_of api (root_error err) = Not_found)")
    case True
    then have x: "x \<notin> stale (fst s1)" using crd_patched [OF laws w(1)] w(2) by simp
    have "patch_items api n d xs s1 = (e, s')" using Cons.prems r True by (auto split: option.splits)
    from Cons.IH [OF this] x s1 show ?thesis by auto
  next
    case False
    then have "s' = s1 \<and> e \<noteq> None" using Cons.prems r by (auto split: option.splits)
    then show ?thesis using s1 by auto
  qed
qed simp

lemma read_page_stale:
  assumes "crd_laws api d stale listed pending" "read_page api d (storage_version d) token s = (e, s')"
  shows "stale (fst s') \<subseteq> stale (fst s) \<and> listed (fst s') = listed (fst s)"
proof -
  obtain p w' where p: "list_page api d (storage_version d) token (fst s) = (p, w')" by fastforce
  then have "fst s' = w'" using assms(2) by (auto simp: read_page_def split: sum.splits)
  with crd_list [OF assms(1) p] show ?thesis by simp
qed

lemma read_page_pending:
  assumes "crd_laws api d stale listed pending" "read_page api d (storage_version d) token s = (None, s')"
  shows "pending token \<subseteq> set (fst (snd s')) \<union> (if snd (snd s') = '''' then {} else pending (snd (snd s')))"
proof -
  obtain items nxt w' where p: "list_page api d (storage_version d) token (fst s) = (Inr (items, nxt), w')"
    and s': "s' = (w', items, nxt)"
    using assms(2) by (auto simp: read_page_def split: sum.splits prod.splits)
  from crd_page [OF assms(1) p] show ?thesis by (simp add: s' split: if_splits)
qed

text \<open>One page, with the retries: either it fails, or everything on it is stored in the current version.\<close>

lemma page_stale:
  assumes laws: "crd_laws api d stale listed pending" and n: "0 < n"
    and x: "retry_call api n (is_retryable api) (read_page api d (storage_version d) token) s = (x, s1)"
    and y: "patch_items api n d (fst (snd s1)) s1 = (y, s2)"
    and sp: "stale (fst s) \<subseteq> pending token"
  shows page_before: "stale (fst s1) \<subseteq> stale (fst s) \<and> listed (fst s1) = listed (fst s)"
    and page_kept: "stale (fst s2) \<subseteq> stale (fst s) \<and> listed (fst s2) = listed (fst s)"
    and page_done: "x = None \<Longrightarrow> y = None \<Longrightarrow> stale (fst s2) \<subseteq> (if snd (snd s2) = '''' then {} else pending (snd (snd s2)))"
proof -
  let ?I = "\<lambda>t. stale (fst t) \<subseteq> stale (fst s) \<and> listed (fst t) = listed (fst s)"
  have step: "?I t'" if I: "?I t" and f: "read_page api d (storage_version d) token t = (z, t')" for t t' z
    using I read_page_stale [OF laws f] by auto
  from attempts_last [OF crd_retry [OF laws n x], of ?I] step obtain t
    where t: "?I t" "read_page api d (storage_version d) token t = (x, s1)" by blast
  show s1: "?I s1" by (rule step [OF t])
  note p = patch_items_stale [OF laws n y]
  show "?I s2" using p s1 by auto
  show "stale (fst s2) \<subseteq> (if snd (snd s2) = '''' then {} else pending (snd (snd s2)))" if none: "x = None" "y = None"
  proof -
    have "pending token \<subseteq> set (fst (snd s1)) \<union> (if snd (snd s1) = '''' then {} else pending (snd (snd s1)))"
      by (rule read_page_pending [OF laws t(2) [unfolded none]])
    moreover have "stale (fst s2) \<subseteq> pending token" using p s1 sp by auto
    moreover have "stale (fst s2) \<inter> set (fst (snd s1)) = {}" "snd s2 = snd s1" using p none by auto
    ultimately show ?thesis by auto
  qed
qed

lemma migrate_pages_stale:
  assumes laws: "crd_laws api d stale listed pending" and n: "0 < n"
    and r: "migrate_pages api n d (storage_version d) token s = Some r"
    and sp: "stale (fst s) \<subseteq> pending token"
  shows "stale (fst (snd r)) \<subseteq> stale (fst s) \<and> listed (fst (snd r)) = listed (fst s) \<and> (fst r = None \<longrightarrow> stale (fst (snd r)) = {})"
proof -
  let ?Q = "\<lambda>token s r. stale (fst s) \<subseteq> pending token \<longrightarrow>
    stale (fst (snd r)) \<subseteq> stale (fst s) \<and> listed (fst (snd r)) = listed (fst s) \<and> (fst r = None \<longrightarrow> stale (fst (snd r)) = {})"
  have "api = api \<and> n = n \<and> d = d \<and> storage_version d = storage_version d \<longrightarrow> ?Q token s r"
  proof (rule migrate_pages.raw_induct [where P = "\<lambda>a m d1 sv token s r.
      a = api \<and> m = n \<and> d1 = d \<and> sv = storage_version d \<longrightarrow> ?Q token s r", OF _ r], intro impI, elim conjE, goal_cases)
    case (1 mp a m d1 sv token s r)
    note ih = 1(1) and body = 1(2) [unfolded 1(4-7)] and sp = 1(3)
    obtain x s1 where x: "retry_call api n (is_retryable api) (read_page api d (storage_version d) token) s = (x, s1)"
      by (rule prod.exhaust)
    obtain y s2 where y: "patch_items api n d (fst (snd s1)) s1 = (y, s2)" by (rule prod.exhaust)
    note page = page_stale [OF laws n x y sp]
    consider (failed) e where "x = Some e" | (stuck) e where "x = None" "y = Some e" | (through) "x = None" "y = None"
      by (cases x; cases y) auto
    then show ?case
    proof cases
      case failed
      then show ?thesis using body x page(1) by auto
    next
      case stuck
      then show ?thesis using body x y page(2) by auto
    next
      case through
      note rest = page(3) [OF through]
      show ?thesis
      proof (cases "snd (snd s2) = ''''")
        case True
        then have "r = (None, s2)" using body through x y by simp
        then show ?thesis using page(2) rest True by auto
      next
        case False
        then have m: "mp api n d (storage_version d) (snd (snd s2)) s2 = Some r" using body through x y by simp
        from ih [OF m] rest False page(2) show ?thesis by auto
      qed
    qed
  qed
  then show ?thesis using sp by simp
qed

lemma migrate_crd_stale:
  assumes laws: "crd_laws api d stale listed pending" and n: "0 < retry_backoff c"
    and r: "migrate_pages api (retry_backoff c) d (storage_version d) '''' (w, [], '''') = Some (e, w1, pg)"
    and sp: "stale w \<subseteq> pending ''''"
  shows "stale w1 \<subseteq> stale w \<and> listed w1 = listed w \<and> (e = None \<longrightarrow> stale w1 = {})"
  using migrate_pages_stale [OF laws n r] sp by simp

lemma check_crd_status_update_permission_stale:
  assumes "crd_laws api d stale listed pending" "check_crd_status_update_permission api m w = (r, w')"
  shows "stale w' \<subseteq> stale w \<and> listed w' = listed w"
proof -
  obtain b w1 where b: "review_access api m w = (b, w1)" by (rule prod.exhaust)
  then have "w' = w1"
    using assms(2) by (auto simp: check_crd_status_update_permission_def split: sum.splits if_splits)
  with crd_review [OF assms(1) b] show ?thesis by simp
qed

lemma set_stored_version_stale:
  assumes "crd_laws api d stale listed pending" "set_stored_version api m sv s = (e, s')"
  shows "stale (fst s') \<subseteq> stale (fst s)"
proof -
  obtain g w1 where g: "get_crd api m (fst s) = (g, w1)" by (rule prod.exhaust)
  note got = crd_get [OF assms(1) g]
  show ?thesis
  proof (cases g)
    case (Inl x)
    then show ?thesis using assms(2) g got by (auto simp: set_stored_version_def)
  next
    case (Inr d1)
    obtain y w2 where y: "patch_status api (d1\<lparr>stored_versions := [sv]\<rparr>) w1 = (y, w2)" by (rule prod.exhaust)
    then have "fst s' = w2" using assms(2) g Inr by (auto simp: set_stored_version_def Let_def)
    with crd_status [OF assms(1) y] got show ?thesis by auto
  qed
qed

lemma update_crd_storage_version_stale:
  assumes laws: "crd_laws api d stale listed pending" and n: "0 < n"
    and u: "update_crd_storage_version api n m sv w = (e, w')"
  shows "stale w' \<subseteq> stale w"
proof -
  obtain r s1 where r: "retry_call api n (is_retryable api) (set_stored_version api m sv) (w, [], '''') = (r, s1)"
    by (rule prod.exhaust)
  let ?I = "\<lambda>t. stale (fst t) \<subseteq> stale w"
  have step: "?I t'" if I: "?I t" and f: "set_stored_version api m sv t = (z, t')" for t t' z
    using I set_stored_version_stale [OF laws f] by auto
  from attempts_last [OF crd_retry [OF laws n r], of ?I] step
  obtain t where t: "?I t" "set_stored_version api m sv t = (r, s1)" by auto
  have "?I s1" by (rule step [OF t])
  moreover have "w' = fst s1" using u r by (auto simp: update_crd_storage_version_def split: option.splits)
  ultimately show ?thesis by simp
qed

text \<open>
  C6. An old version leaves the stored versions of a definition only when no resource is stored in it any
  more: whatever the server answers, on every path with or without an error, if a migration has changed
  the status then it has rewritten every resource; and it never stores a resource in an old version.
\<close>

theorem versions_dropped_safely:
  assumes laws: "crd_laws api d stale listed pending" and n: "0 < retry_backoff c"
    and sp: "stale w \<subseteq> pending ''''" and m: "migrate_crd api c d w = Some (e, w')"
  shows "stale w' \<subseteq> stale w \<and> (listed w' = listed w \<or> stale w' = {})"
proof (cases "storage_version d = '''' \<or> \<not> list_ex (\<lambda>v. v \<noteq> storage_version d) (stored_versions d)")
  case True
  then have "w' = w" using m by (simp add: migrate_crd_def Let_def split: if_splits)
  then show ?thesis by simp
next
  case False
  then obtain x w1 pg where p: "migrate_pages api (retry_backoff c) d (storage_version d) '''' (w, [], '''') = Some (x, w1, pg)"
    using m by (auto simp: migrate_crd_def Let_def split: option.splits)
  note old = migrate_crd_stale [OF laws n p sp]
  obtain b w2 where b: "check_crd_status_update_permission api (crd_name d) w1 = (b, w2)" by (rule prod.exhaust)
  note seen = check_crd_status_update_permission_stale [OF laws b]
  obtain y w3 where y: "update_crd_storage_version api (retry_backoff c) (crd_name d) (storage_version d) w2 = (y, w3)"
    by (rule prod.exhaust)
  note upd = update_crd_storage_version_stale [OF laws n y]
  have "w' = (if x \<noteq> None then w1 else if b = Inr True then w3 else w2)"
    using m False p b y by (auto simp: migrate_crd_def Let_def split: option.splits sum.splits bool.splits)
  then show ?thesis using old seen upd by auto
qed

section \<open>The migration ends\<close>

lemma retry_lawD: "retry_law api \<Longrightarrow> 0 < n \<Longrightarrow> retry_call api n r f s = (e, s') \<Longrightarrow> attempts f s e s'"
  unfolding retry_law_def by blast

lemma patch_items_page:
  assumes "retry_law api" "0 < n"
  shows "patch_items api n d xs s = (e, s') \<Longrightarrow> snd s' = snd s"
proof (induction xs arbitrary: s)
  case (Cons x xs)
  let ?f = "\<lambda>(w, pg). let (e, w) = patch_object api d x w in (e, w, pg)"
  obtain r s1 where r: "retry_call api n (is_retryable api) ?f s = (r, s1)" by (rule prod.exhaust)
  have step: "snd t' = snd s" if I: "snd t = snd s" and f: "?f t = (y, t')" for t t' y
    using I f by (cases t) (auto simp: Let_def split: prod.splits)
  from attempts_last [OF retry_lawD [OF assms r], of "\<lambda>t. snd t = snd s"] step
  obtain t where t: "snd t = snd s" "?f t = (r, s1)" by blast
  have s1: "snd s1 = snd s" by (rule step [OF t])
  show ?case
  proof (cases "patch_items api n d xs s1 = (e, s')")
    case True
    then show ?thesis using Cons.IH s1 by simp
  next
    case False
    then have "s' = s1" using Cons.prems r by (auto split: option.splits if_splits)
    then show ?thesis using s1 by simp
  qed
qed simp

text \<open>The tokens of the pages of a definition advance.\<close>

definition tokens_advance :: "('w, 'x) crd_api_scheme \<Rightarrow> crd \<Rightarrow> (string \<Rightarrow> nat) \<Rightarrow> bool" where
  "tokens_advance api d rank \<longleftrightarrow>
     (\<forall>t w items nxt w'. list_page api d (storage_version d) t w = (Inr (items, nxt), w') \<longrightarrow>
        nxt = '''' \<or> rank nxt < rank t)"

lemma migrate_pages_ends:
  assumes "retry_law api" "0 < n" "tokens_advance api d rank"
  shows "migrate_pages api n d (storage_version d) token s \<noteq> None"
proof (induction "rank token" arbitrary: token s rule: less_induct)
  case less
  obtain x s1 where x: "retry_call api n (is_retryable api) (read_page api d (storage_version d) token) s = (x, s1)"
    by (rule prod.exhaust)
  from attempts_last [OF retry_lawD [OF assms(1,2) x], of "\<lambda>_. True"]
  obtain t where t: "read_page api d (storage_version d) token t = (x, s1)" by auto
  obtain y s2 where y: "patch_items api n d (fst (snd s1)) s1 = (y, s2)" by (rule prod.exhaust)
  have adv: "snd (snd s2) = '''' \<or> rank (snd (snd s2)) < rank token" if none: "x = None"
  proof -
    obtain items nxt u where p: "list_page api d (storage_version d) token (fst t) = (Inr (items, nxt), u)"
      and s1: "s1 = (u, items, nxt)"
      using t none by (auto simp: read_page_def split: sum.splits prod.splits)
    have "nxt = '''' \<or> rank nxt < rank token" using assms(3) p unfolding tokens_advance_def by blast
    then show ?thesis using patch_items_page [OF assms(1,2) y] s1 by simp
  qed
  have rest: "migrate_pages api n d (storage_version d) (snd (snd s2)) s2 \<noteq> None"
    if "x = None" "snd (snd s2) \<noteq> ''''"
    using less adv that by blast
  show ?case
  proof (cases x)
    case (Some e)
    then show ?thesis by (subst migrate_pages.simps) (simp add: x)
  next
    case None
    then show ?thesis using rest
      by (subst migrate_pages.simps) (simp add: x y del: not_None_eq split: option.split)
  qed
qed

lemma migrate_crd_ends:
  assumes "retry_law api" "0 < retry_backoff c" "tokens_advance api d rank"
  shows "migrate_crd api c d w \<noteq> None"
proof -
  obtain x u pg where
    "migrate_pages api (retry_backoff c) d (storage_version d) '''' (w, [], '''') = Some (x, u, pg)"
    using migrate_pages_ends [OF assms, of "''''" "(w, [], '''')"] by auto
  then show ?thesis
    by (simp add: migrate_crd_def Let_def split: option.split sum.split bool.split prod.split)
qed

lemma migrate_all_ends:
  assumes "retry_law api" "0 < retry_backoff c"
  shows "(\<And>d. d \<in> set ds \<Longrightarrow> matches_group c (crd_group d) \<Longrightarrow> \<exists>rank. tokens_advance api d rank) \<Longrightarrow>
    migrate_all api c ds w \<noteq> None"
proof (induction ds arbitrary: w)
  case (Cons d ds)
  have rest: "migrate_all api c ds u \<noteq> None" for u using Cons.IH Cons.prems by simp
  show ?case
  proof (cases "matches_group c (crd_group d)")
    case True
    then obtain rank where "tokens_advance api d rank" using Cons.prems by auto
    from migrate_crd_ends [OF assms this, of w] obtain e w1 where "migrate_crd api c d w = Some (e, w1)" by auto
    then show ?thesis using True rest by simp
  qed (simp add: rest)
qed simp

text \<open>
  C24. The migrator ends: when the tokens of every list in scope advance, \<open>Run\<close> comes to an end in every
  world, however often the server fails, and its backoff has at least one step.
\<close>

theorem migration_terminates:
  assumes "retry_law api" "0 < retry_backoff c"
    and "\<And>ds w'. list_crds api w = (Inr ds, w') \<Longrightarrow>
      \<forall>d \<in> set ds. matches_group c (crd_group d) \<longrightarrow> (\<exists>rank. tokens_advance api d rank)"
  shows "\<exists>es w'. run_migrator api c w = Some (es, w')"
proof -
  obtain r w1 where r: "list_crds api w = (r, w1)" by (rule prod.exhaust)
  show ?thesis
  proof (cases r)
    case (Inl e)
    then show ?thesis using r by (simp add: run_migrator_def)
  next
    case (Inr ds)
    have "migrate_all api c ds w1 \<noteq> None"
      using assms(3) [OF r [unfolded Inr]] by (intro migrate_all_ends [OF assms(1,2)]) blast
    then show ?thesis using r Inr by (auto simp: run_migrator_def)
  qed
qed

section \<open>A server in which the contracts hold\<close>

text \<open>
  \<open>retry.OnError\<close> without the pauses, and a server whose world is the resources still stored in an old
  version, the stored versions, and how many patches fail with a conflict before one succeeds.
\<close>

fun on_error :: "nat \<Rightarrow> (gerror \<Rightarrow> bool) \<Rightarrow> ('s \<Rightarrow> gerror option \<times> 's) \<Rightarrow> 's \<Rightarrow> gerror option \<times> 's" where
  "on_error 0 r f s = (None, s)"
| "on_error (Suc n) r f s =
     (case f s of
        (None, s) \<Rightarrow> (None, s)
      | (Some e, s) \<Rightarrow> if r e \<and> n \<noteq> 0 then on_error n r f s else (Some e, s))"

lemma on_error_attempts: "0 < n \<Longrightarrow> on_error n r f s = (e, s') \<Longrightarrow> attempts f s e s'"
proof (induction n arbitrary: s)
  case (Suc n)
  obtain x s1 where x: "f s = (x, s1)" by (rule prod.exhaust)
  show ?case
  proof (cases x)
    case None
    then show ?thesis using Suc.prems x by (auto intro: last_attempt)
  next
    case (Some y)
    then show ?thesis using Suc x by (auto intro: last_attempt next_attempt split: if_splits)
  qed
qed simp

type_synonym sample_world = "string list \<times> string list \<times> nat"

definition sample_crd :: crd where
  "sample_crd = \<lparr>crd_name = ''vpcs.ec2.aws.io'', crd_group = ''ec2.aws.io'', crd_kind = ''VPC'', crd_list_kind = ''VPCList'',
     crd_versions = [\<lparr>cv_name = ''v1'', cv_storage = False\<rparr>, \<lparr>cv_name = ''v2'', cv_storage = True\<rparr>],
     stored_versions = [''v1'', ''v2'']\<rparr>"

definition sample_page :: "string \<Rightarrow> page" where
  "sample_page t = (if t = '''' then ([''a''], ''t'') else ([''b''], ''''))"

definition sample_api :: "sample_world crd_api" where
  "sample_api = \<lparr>reason_of = (\<lambda>_. Conflict), retry_call = on_error, list_crds = (\<lambda>w. (Inr [sample_crd], w)),
     list_page = (\<lambda>_ _ t w. (Inr (sample_page t), w)),
     patch_object = (\<lambda>_ x (old, l, k).
       case k of 0 \<Rightarrow> (None, removeAll x old, l, 0) | Suc k \<Rightarrow> (Some (Plain ''conflict''), old, l, k)),
     review_access = (\<lambda>_ w. (Inr True, w)), get_crd = (\<lambda>_ w. (Inr sample_crd, w)),
     patch_status = (\<lambda>d (old, l, k). (None, old, stored_versions d, k))\<rparr>"

lemma sample_retry: "retry_law sample_api"
  unfolding retry_law_def using on_error_attempts by (auto simp: sample_api_def)

lemma sample_version: "storage_version sample_crd = ''v2''"
  by (simp add: storage_version_def sample_crd_def)

lemma sample_laws:
  "crd_laws sample_api sample_crd (\<lambda>w. set (fst w)) (\<lambda>w. fst (snd w)) (\<lambda>t. if t = '''' then {''a'', ''b''} else {''b''})"
  unfolding crd_laws_def
  by (intro conjI sample_retry) (auto simp: sample_api_def sample_page_def split: nat.splits if_splits)

lemma sample_advance: "tokens_advance sample_api sample_crd (\<lambda>t. if t = '''' then 1 else 0)"
  by (auto simp: tokens_advance_def sample_api_def sample_page_def split: if_splits)

theorem versions_dropped_safely_witness:
  "migrate_crd sample_api (new_crd_migrator ''aws.io'' []) sample_crd ([''b'', ''a''], [''v1'', ''v2''], 2) = Some (None, [], [''v2''], 0) \<and>
   set (fst ([] :: string list, [''v2''], 0 :: nat)) = {}"
proof -
  have "migrate_pages sample_api 10 sample_crd ''v2'' '''' (([''b'', ''a''], [''v1'', ''v2''], 2), [], '''') =
      Some (None, ([], [''v1'', ''v2''], 0), [''b''], '''')"
    by (subst migrate_pages.simps, subst migrate_pages.simps)
      (simp add: sample_api_def read_page_def sample_page_def is_retryable_def eval_nat_numeral)
  moreover have "check_crd_status_update_permission sample_api m u = (Inr True, u)" for m u
    by (simp add: check_crd_status_update_permission_def sample_api_def)
  moreover have "update_crd_storage_version sample_api 10 m ''v2'' ([], l, 0) = (None, [], [''v2''], 0)" for m l
    by (simp add: update_crd_storage_version_def set_stored_version_def sample_api_def eval_nat_numeral)
  moreover have "list_ex (\<lambda>v. v \<noteq> ''v2'') (stored_versions sample_crd)" by (simp add: sample_crd_def)
  ultimately have run: "migrate_crd sample_api (new_crd_migrator ''aws.io'' []) sample_crd ([''b'', ''a''], [''v1'', ''v2''], 2) = Some (None, [], [''v2''], 0)"
    by (simp add: migrate_crd_def sample_version new_crd_migrator_def)
  have "0 < retry_backoff (new_crd_migrator ''aws.io'' [])" by (simp add: new_crd_migrator_def)
  from versions_dropped_safely [OF sample_laws this _ run] show ?thesis using run by auto
qed

theorem migration_terminates_witness:
  "\<exists>es w'. run_migrator sample_api (new_crd_migrator ''aws.io'' []) ([''b'', ''a''], [''v1'', ''v2''], 2) = Some (es, w')"
proof -
  have n: "0 < retry_backoff (new_crd_migrator ''aws.io'' [])" by (simp add: new_crd_migrator_def)
  have adv: "\<forall>d \<in> set ds. matches_group m (crd_group d) \<longrightarrow> (\<exists>rank. tokens_advance sample_api d rank)"
    if "list_crds sample_api w = (Inr ds, w')" for ds w w' m
    using that sample_advance by (auto simp: sample_api_def)
  show ?thesis by (rule migration_terminates [OF sample_retry n adv])
qed

end
