(* ===== verification/TfSchema.thy ===== *)
theory TfSchema
  imports GoValue GoErrors
begin

text \<open>
  The schemas of the Terraform plugin SDK, as far as upjet reads and changes them, and the functions of
  \<open>pkg/config/common.go\<close> on them. A schema is a tree: what the source changes through a pointer is
  replaced at its place. A schema map has no nil pointers and no key with a dot, which the
  SDK's own validation of a provider rules out; its entries are in the order of a range over it.
\<close>

section \<open>Schemas\<close>

datatype sch_type =
  Invalid_s | Bool_s | Int_s | Float_s | String_s | List_s | Map_s | Set_s | Dynamic_s | Object_s

record sch_flags =
  s_type :: sch_type
  s_optional :: bool
  s_required :: bool
  s_computed :: bool
  s_sensitive :: bool
  s_min_items :: int
  s_max_items :: int
  s_attr_mode :: bool
  s_description :: string
  s_deprecated :: string
  s_default :: "any option"

text \<open>
  The element of a schema is an interface: nothing, a type, a schema or a resource. The schema map of a
  resource may be nil, and a function may give one in its place.
\<close>

datatype sch = Sch (flags: sch_flags) (elem: sch_elem)
  and sch_elem = No_elem | Type_elem sch_type | Schema_elem sch | Resource_elem sch_resource
  and sch_resource = Res "(string \<times> sch) list option" "(string \<times> sch) list option"

text \<open>The field \<open>Schema\<close> of a resource: a nil map has no entries.\<close>

fun own_schema :: "sch_resource \<Rightarrow> (string \<times> sch) list" where
  "own_schema (Res m f) = (case m of None \<Rightarrow> [] | Some m \<Rightarrow> m)"

fun with_schema :: "(string \<times> sch) list \<Rightarrow> sch_resource \<Rightarrow> sch_resource" where
  "with_schema m (Res n f) = Res (case n of None \<Rightarrow> None | Some _ \<Rightarrow> Some m) f"

lemma own_with_schema: "own_schema (with_schema m r) = (if own_schema r = [] \<and> (\<exists>f. r = Res None f) then [] else m)"
  by (cases r) (auto split: option.splits)

text \<open>An observed attribute.\<close>

definition is_observation :: "sch_flags \<Rightarrow> bool" where
  "is_observation a \<longleftrightarrow> s_computed a \<and> \<not> s_optional a"

section \<open>Schemas at a field path\<close>

fun schema_at :: "sch_resource \<Rightarrow> string list \<Rightarrow> sch option" where
  "schema_at r [] = None"
| "schema_at r [k] = map_of (own_schema r) k"
| "schema_at r (k # l # ks) =
     (case map_of (own_schema r) k of
        None \<Rightarrow> None
      | Some s \<Rightarrow> (case elem s of Resource_elem r \<Rightarrow> schema_at r (l # ks) | _ \<Rightarrow> None))"

definition get_schema :: "sch_resource option \<Rightarrow> string \<Rightarrow> sch option" where
  "get_schema r fieldpath = (case r of None \<Rightarrow> None | Some r \<Rightarrow> schema_at r (split_on (CHR ''.'') fieldpath))"

text \<open>Changing the schema that is found there.\<close>

fun map_entry :: "string \<Rightarrow> ('a \<Rightarrow> 'a) \<Rightarrow> (string \<times> 'a) list \<Rightarrow> (string \<times> 'a) list" where
  "map_entry k f [] = []"
| "map_entry k f ((l, x) # m) = (if l = k then (l, f x) # m else (l, x) # map_entry k f m)"

fun change_at :: "string list \<Rightarrow> (sch \<Rightarrow> sch) \<Rightarrow> sch_resource \<Rightarrow> sch_resource" where
  "change_at [] f r = r"
| "change_at [k] f r = with_schema (map_entry k f (own_schema r)) r"
| "change_at (k # l # ks) f r =
     with_schema (map_entry k (\<lambda>s. case elem s of
         Resource_elem r \<Rightarrow> Sch (flags s) (Resource_elem (change_at (l # ks) f r)) | _ \<Rightarrow> s) (own_schema r)) r"

section \<open>Common changes of schemas\<close>

text \<open>A field and all fields below it become observed attributes.\<close>

fun moved :: "sch \<Rightarrow> sch" and moved_elem :: "sch_elem \<Rightarrow> sch_elem" where
  "moved (Sch a el) = Sch (a\<lparr>s_optional := False, s_computed := True\<rparr>) (moved_elem el)"
| "moved_elem (Resource_elem (Res m f)) = Resource_elem (Res (map_option (map (\<lambda>(k, s). (k, moved s))) m) f)"
| "moved_elem el = el"

text \<open>A path that is not found ends the loop: the paths after it are not moved.\<close>

fun move_to_status :: "sch_resource \<Rightarrow> string list \<Rightarrow> sch_resource" where
  "move_to_status r [] = r"
| "move_to_status r (p # ps) =
     (case get_schema (Some r) p of
        None \<Rightarrow> r
      | Some _ \<Rightarrow> move_to_status (change_at (split_on (CHR ''.'') p) moved r) ps)"

definition set_flags :: "(sch_flags \<Rightarrow> sch_flags) \<Rightarrow> sch \<Rightarrow> sch" where
  "set_flags f s = Sch (f (flags s)) (elem s)"

fun mark_as_required :: "sch_resource \<Rightarrow> string list \<Rightarrow> sch_resource" where
  "mark_as_required r [] = r"
| "mark_as_required r (p # ps) =
     mark_as_required
       (case get_schema (Some r) p of
          None \<Rightarrow> r
        | Some _ \<Rightarrow> change_at (split_on (CHR ''.'') p) (set_flags (\<lambda>a. a\<lparr>s_computed := False, s_optional := False\<rparr>)) r) ps"

text \<open>An operation on every field, for operations that leave the element alone.\<close>

fun manipulated :: "(sch_flags \<Rightarrow> sch_flags) \<Rightarrow> sch \<Rightarrow> sch" and manipulated_elem :: "(sch_flags \<Rightarrow> sch_flags) \<Rightarrow> sch_elem \<Rightarrow> sch_elem" where
  "manipulated f (Sch a el) = Sch (f a) (manipulated_elem f el)"
| "manipulated_elem f (Resource_elem (Res m g)) = Resource_elem (Res (map_option (map (\<lambda>(k, s). (k, manipulated f s))) m) g)"
| "manipulated_elem f el = el"

definition manipulate_every_field :: "(sch_flags \<Rightarrow> sch_flags) \<Rightarrow> sch_resource \<Rightarrow> sch_resource" where
  "manipulate_every_field f r = with_schema (map (\<lambda>(k, s). (k, manipulated f s)) (own_schema r)) r"

section \<open>What a change leaves\<close>

lemma map_of_map_entry: "map_of (map_entry k f m) l = (if l = k then map_option f (map_of m k) else map_of m l)"
  by (induction k f m rule: map_entry.induct) auto

lemma own_map_entry: "own_schema (with_schema (map_entry k f (own_schema r)) r) = map_entry k f (own_schema r)"
  by (cases r) (auto split: option.splits)

text \<open>Paths of which neither is above the other.\<close>

fun beside :: "string list \<Rightarrow> string list \<Rightarrow> bool" where
  "beside (k # ks) (l # ls) \<longleftrightarrow> k \<noteq> l \<or> beside ks ls"
| "beside _ _ \<longleftrightarrow> False"

lemma schema_at_change: "p \<noteq> [] \<Longrightarrow> schema_at (change_at p f r) p = map_option f (schema_at r p)"
  by (induction p f r rule: change_at.induct)
    (simp_all add: own_map_entry map_of_map_entry split: option.split sch_elem.split)

lemma schema_at_beside: "beside p q \<Longrightarrow> schema_at (change_at p f r) q = schema_at r q"
proof (induction p f r arbitrary: q rule: change_at.induct)
  case (2 k f r)
  then show ?case by (cases q rule: remdups_adj.cases) (auto simp: own_map_entry map_of_map_entry)
next
  case (3 k l ks f r)
  then show ?case
    by (cases q rule: remdups_adj.cases) (auto simp: own_map_entry map_of_map_entry split: option.split sch_elem.split)
qed simp

section \<open>What is moved to the status\<close>

definition as_observed :: "sch_flags \<Rightarrow> sch_flags" where
  "as_observed a = a\<lparr>s_optional := False, s_computed := True\<rparr>"

lemma as_observed_idem [simp]: "as_observed (as_observed a) = as_observed a"
  by (simp add: as_observed_def)

definition flags_at :: "sch_resource \<Rightarrow> string list \<Rightarrow> sch_flags option" where
  "flags_at r q = map_option flags (schema_at r q)"

lemma flags_moved [simp]: "flags (moved s) = as_observed (flags s)"
  by (cases s) (simp add: as_observed_def)

lemma elem_moved: "elem (moved s) = moved_elem (elem s)"
  by (cases s) simp

fun moved_resource :: "sch_resource \<Rightarrow> sch_resource" where
  "moved_resource (Res m f) = Res (map_option (map (\<lambda>(k, s). (k, moved s))) m) f"

lemma moved_elem_resource: "moved_elem el = (case el of Resource_elem r \<Rightarrow> Resource_elem (moved_resource r) | _ \<Rightarrow> el)"
  by (cases el rule: moved_elem.cases) simp_all

lemma map_of_moved: "map_of (own_schema (moved_resource r)) k = map_option moved (map_of (own_schema r) k)"
  by (cases r) (simp add: map_of_map split: option.split)

lemma flags_below_moved: "flags_at (moved_resource r) q = map_option as_observed (flags_at r q)"
proof (induction r q rule: schema_at.induct)
  case (3 r k l ks)
  then show ?case
    by (simp add: flags_at_def map_of_moved elem_moved moved_elem_resource split: option.split sch_elem.split)
qed (simp_all add: flags_at_def map_of_moved option.map_comp comp_def)

fun starts_with :: "string list \<Rightarrow> string list \<Rightarrow> bool" where
  "starts_with q [] = True"
| "starts_with [] (k # p) = False"
| "starts_with (l # q) (k # p) = (l = k \<and> starts_with q p)"

lemma flags_at_Cons: "q \<noteq> [] \<Longrightarrow> flags_at r (k # q) =
    (case map_of (own_schema r) k of None \<Rightarrow> None | Some s \<Rightarrow> (case elem s of Resource_elem r \<Rightarrow> flags_at r q | _ \<Rightarrow> None))"
  by (cases q) (auto simp: flags_at_def split: option.split sch_elem.split)

lemma flags_at_moved:
  "p \<noteq> [] \<Longrightarrow> flags_at (change_at p moved r) q =
     (if starts_with q p then map_option as_observed (flags_at r q) else flags_at r q)"
proof (induction p "moved" r arbitrary: q rule: change_at.induct)
  case (2 k r)
  then show ?case
    by (cases q; cases "tl q = []")
      (auto simp: flags_at_Cons own_map_entry map_of_map_entry elem_moved moved_elem_resource flags_below_moved
        flags_at_def [of _ "[]"] flags_at_def [of _ "[_]"] option.map_comp comp_def split: option.split sch_elem.split)
next
  case (3 k l ks r)
  show ?case
  proof (cases "tl q = []")
    case True
    then show ?thesis
      by (cases q) (auto simp: flags_at_def own_map_entry map_of_map_entry option.map_comp comp_def
        intro!: option.map_cong split: sch_elem.split)
  next
    case False
    then obtain m q' where "q = m # q'" "q' \<noteq> []" by (cases q) auto
    then show ?thesis using 3
      by (simp add: flags_at_Cons own_map_entry map_of_map_entry split: option.split sch_elem.split)
  qed
qed simp

lemma flags_at_None: "flags_at r q = None \<longleftrightarrow> schema_at r q = None"
  by (simp add: flags_at_def)

lemma found_after_move: "p \<noteq> [] \<Longrightarrow> schema_at (change_at p moved r) q = None \<longleftrightarrow> schema_at r q = None"
  by (simp flip: flags_at_None add: flags_at_moved)

text \<open>
  The fields at and below the paths become observed attributes, up to the first path that is not found,
  and no other field changes.
\<close>

lemma move_to_status_exact:
  "flags_at (move_to_status r ps) q =
     (if list_ex (\<lambda>p. starts_with q (split_on (CHR ''.'') p)) (takeWhile (\<lambda>p. get_schema (Some r) p \<noteq> None) ps)
      then map_option as_observed (flags_at r q) else flags_at r q)"
proof (induction ps arbitrary: r)
  case (Cons p ps)
  show ?case
  proof (cases "get_schema (Some r) p")
    case None
    then show ?thesis by simp
  next
    case (Some s)
    let ?r = "change_at (split_on (CHR ''.'') p) moved r"
    have "(get_schema (Some ?r) l \<noteq> None) = (get_schema (Some r) l \<noteq> None)" for l
      by (simp add: get_schema_def found_after_move del: not_None_eq)
    with Cons [of ?r] Some show ?thesis
      by (simp add: flags_at_moved option.map_comp comp_def del: not_None_eq)
  qed
qed simp

end
