(* ===== verification/SchemaTraverse.thy ===== *)
theory SchemaTraverse
  imports TfSchema GoOutcome Names
begin

text \<open>
  The walk over a Terraform schema with its visitors and the access to the schema at a path
  (\<open>pkg/schema/traverser\<close>). Visitors change a state of their own, not the schema that is walked. The text
  of a field path is third-party: a list of fields, where \<open>None\<close> stands for a segment of no type.
\<close>

record gen_lib =
  name_lib :: case_lib
  name_acronyms :: acronyms
  segments_text :: "string option list \<Rightarrow> string"

definition field_name :: "gen_lib \<Rightarrow> string \<Rightarrow> name_variants" where
  "field_name lib k = new_from_snake (name_lib lib) (name_acronyms lib) k"

section \<open>Field paths\<close>

definition field_path_with_wildcard :: "gen_lib \<Rightarrow> string list \<Rightarrow> string" where
  "field_path_with_wildcard lib parts = segments_text lib (map Some parts)"

definition field_path :: "gen_lib \<Rightarrow> string list \<Rightarrow> string" where
  "field_path lib parts = segments_text lib (map (\<lambda>p. if p = ''*'' then None else Some p) parts)"

section \<open>Access at a path\<close>

type_synonym accessor = "sch \<Rightarrow> gerror option \<times> sch"

fun run_accessors :: "accessor list \<Rightarrow> string \<Rightarrow> sch \<Rightarrow> gerror option \<times> sch" where
  "run_accessors [] k s = (None, s)"
| "run_accessors (a # as) k s =
     (case a s of
        (Some e, s) \<Rightarrow> (Some (WithMsg (''failed to call the accessor function on the schema element at key '' @ go_quote k) e), s)
      | (None, s) \<Rightarrow> run_accessors as k s)"

definition put_schema :: "string \<Rightarrow> sch \<Rightarrow> sch_resource \<Rightarrow> sch_elem" where
  "put_schema k s r = Resource_elem (with_schema (map_entry k (\<lambda>_. s) (own_schema r)) r)"

text \<open>The result is the error and the element with what the accessors changed.\<close>

fun access_schema :: "accessor list \<Rightarrow> string list \<Rightarrow> sch_elem \<Rightarrow> gerror option \<times> sch_elem" where
  "access_schema as [] el = (Some (Plain ''empty path specified while accessing the Terraform resource schema''), el)"
| "access_schema as (k # p) el =
     (case el of
        Schema_elem s \<Rightarrow>
          if p = [] then (Some (Plain (''terminal node at key '' @ go_quote k @ '' is a *schema.Schema'')), el)
          else if k \<noteq> ''*'' then (Some (Plain (''expecting a wildcard key but encountered the key '' @ go_quote k)), el)
          else (case access_schema as p (elem s) of (e, sub) \<Rightarrow> (e, Schema_elem (Sch (flags s) sub)))
      | Resource_elem r \<Rightarrow>
          (case map_of (own_schema r) k of
             None \<Rightarrow> (Some (Plain (''schema element for key '' @ go_quote k @ '' is nil'')), el)
           | Some s \<Rightarrow>
               if p = [] then (case run_accessors as k s of (e, s) \<Rightarrow> (e, put_schema k s r))
               else (case access_schema as p (Schema_elem s) of
                       (e, Schema_elem s) \<Rightarrow> (e, put_schema k s r)
                     | (e, _) \<Rightarrow> (e, el)))
      | Type_elem t \<Rightarrow> (Some (Plain (''unknown schema element type schema.ValueType at key '' @ go_quote k)), el)
      | No_elem \<Rightarrow> (Some (Plain (''unknown schema element type <nil> at key '' @ go_quote k)), el))"

section \<open>The walk\<close>

record node =
  node_tf_name :: string
  node_schema :: sch
  node_crd_path :: "string list"
  node_tf_path :: "string list"

record 'm visitor =
  visit_schema :: "node \<Rightarrow> sch option \<Rightarrow> 'm \<Rightarrow> unit outcome \<times> 'm"
  visit_resource :: "node \<Rightarrow> sch_resource \<Rightarrow> 'm \<Rightarrow> unit outcome \<times> 'm"

fun visit_all :: "string \<Rightarrow> ('m \<Rightarrow> unit outcome \<times> 'm) list \<Rightarrow> 'm \<Rightarrow> unit outcome \<times> 'm" where
  "visit_all msg [] m = (Done (), m)"
| "visit_all msg (v # vs) m = then_go (wrap_go msg (v m)) (\<lambda>_ m. visit_all msg vs m)"

fun walk_resource :: "gen_lib \<Rightarrow> 'm visitor list \<Rightarrow> string \<Rightarrow> string list \<Rightarrow> string list \<Rightarrow> sch_resource \<Rightarrow> 'm \<Rightarrow> unit outcome \<times> 'm"
  and walk_entries :: "gen_lib \<Rightarrow> 'm visitor list \<Rightarrow> string \<Rightarrow> string list \<Rightarrow> string list \<Rightarrow> (string \<times> sch) list \<Rightarrow> 'm \<Rightarrow> unit outcome \<times> 'm" where
  "walk_resource lib vs n crd tf (Res s f) m =
     (case s of
        Some es \<Rightarrow> walk_entries lib vs n crd tf es m
      | None \<Rightarrow> (case f of Some es \<Rightarrow> walk_entries lib vs n crd tf es m | None \<Rightarrow> (Done (), m)))"
| "walk_entries lib vs n crd tf [] m = (Done (), m)"
| "walk_entries lib vs n crd tf ((k, Sch a el) # es) m =
     (let crd1 = crd @ [lower_camel_computed (field_name lib k)]; tf1 = tf @ [k];
          nd = \<lparr>node_tf_name = n, node_schema = Sch a el, node_crd_path = crd1, node_tf_path = tf1\<rparr>;
          failed = (\<lambda>t. ''failed to visit the *schema.'' @ t @ '' node at path '' @ field_path_with_wildcard lib tf1) in
      then_go
        (case el of
           Schema_elem e \<Rightarrow> visit_all (failed ''Schema'') (map (\<lambda>v. visit_schema v nd (Some e)) vs) m
         | Resource_elem r \<Rightarrow>
             then_go (visit_all (failed ''Resource'') (map (\<lambda>v. visit_resource v nd r) vs) m)
               (\<lambda>_ m. if s_type a \<noteq> Object_s then walk_resource lib vs n (crd1 @ [''*'']) (tf1 @ [''*'']) r m
                      else walk_resource lib vs n crd1 tf1 r m)
         | _ \<Rightarrow> visit_all (failed ''Schema'') (map (\<lambda>v. visit_schema v nd None) vs) m)
        (\<lambda>_ m. walk_entries lib vs n crd tf es m))"

definition traverse :: "gen_lib \<Rightarrow> string \<Rightarrow> sch_resource \<Rightarrow> 'm visitor list \<Rightarrow> 'm \<Rightarrow> unit outcome \<times> 'm" where
  "traverse lib n r vs m = (case vs of [] \<Rightarrow> (Done (), m) | _ \<Rightarrow> walk_resource lib vs n [] [] r m)"

fun traverse_resources :: "gen_lib \<Rightarrow> (string \<times> sch_resource) list \<Rightarrow> 'm visitor list \<Rightarrow> 'm \<Rightarrow> unit outcome \<times> 'm" where
  "traverse_resources lib [] vs m = (Done (), m)"
| "traverse_resources lib ((n, r) # rs) vs m =
     then_go (wrap_go (''failed to traverse the schema of the Terraform resource with name '' @ go_quote n) (traverse lib n r vs m))
       (\<lambda>_ m. traverse_resources lib rs vs m)"

definition noop_traverser :: "'m visitor" where
  "noop_traverser = \<lparr>visit_schema = (\<lambda>_ _ m. (Done (), m)), visit_resource = (\<lambda>_ _ m. (Done (), m))\<rparr>"

section \<open>Syncing singleton constraints\<close>

text \<open>The state of the visitor is the JSON schema of the provider; a resource it lacks is a nil pointer.\<close>

definition singleton_list :: "sch_flags \<Rightarrow> bool" where
  "singleton_list a \<longleftrightarrow> (s_type a = List_s \<or> s_type a = Set_s) \<and> s_max_items a = 1"

definition set_singleton :: accessor where
  "set_singleton s = (None, Sch (flags s\<lparr>s_max_items := 1\<rparr>) (elem s))"

definition sync_at :: "string \<Rightarrow> string list \<Rightarrow> (string \<times> sch_resource) list \<Rightarrow> unit outcome \<times> (string \<times> sch_resource) list" where
  "sync_at n p json =
     (case map_of json n of
        None \<Rightarrow> (Crashed, json)
      | Some r \<Rightarrow>
          (case access_schema [set_singleton] p (Resource_elem r) of
             (Some e, _) \<Rightarrow>
               (Failed (WithMsg (''failed to access the schema element at path ['' @ join_with '' '' p @ ''] for resource '' @ go_quote n) e), json)
           | (None, Resource_elem r) \<Rightarrow> (Done (), map_entry n (\<lambda>_. r) json)
           | (None, _) \<Rightarrow> (Done (), json)))"

definition max_items_sync :: "(string \<times> sch_resource) list visitor" where
  "max_items_sync = noop_traverser\<lparr>visit_resource := (\<lambda>nd r json.
     if \<not> singleton_list (flags (node_schema nd)) then (Done (), json) else sync_at (node_tf_name nd) (node_tf_path nd) json)\<rparr>"

section \<open>What the access reaches\<close>

fun resolve :: "string list \<Rightarrow> sch_elem \<Rightarrow> sch option" where
  "resolve [] el = None"
| "resolve (k # p) el =
     (case el of
        Schema_elem s \<Rightarrow> if p \<noteq> [] \<and> k = ''*'' then resolve p (elem s) else None
      | Resource_elem r \<Rightarrow>
          (case map_of (own_schema r) k of None \<Rightarrow> None | Some s \<Rightarrow> if p = [] then Some s else resolve p (Schema_elem s))
      | _ \<Rightarrow> None)"

definition path_flags :: "sch_elem \<Rightarrow> string list \<Rightarrow> sch_flags option" where
  "path_flags el p = map_option flags (resolve p el)"

definition as_singleton :: "sch_flags \<Rightarrow> sch_flags" where
  "as_singleton a = a\<lparr>s_max_items := 1\<rparr>"

fun same_kind :: "sch_elem \<Rightarrow> sch_elem \<Rightarrow> bool" where
  "same_kind (Schema_elem s) (Schema_elem t) \<longleftrightarrow> flags s = flags t"
| "same_kind (Resource_elem r) (Resource_elem t) \<longleftrightarrow> True"
| "same_kind _ _ \<longleftrightarrow> False"

lemma own_put: "map_of (own_schema r) k \<noteq> None \<Longrightarrow> own_schema (with_schema (map_entry k f (own_schema r)) r) = map_entry k f (own_schema r)"
  by (rule own_map_entry)

lemma path_flags_Resource: "path_flags (Resource_elem r) (k # p) =
    (case map_of (own_schema r) k of None \<Rightarrow> None | Some s \<Rightarrow> if p = [] then Some (flags s) else path_flags (Schema_elem s) p)"
  by (simp add: path_flags_def split: option.split)

lemma path_flags_Schema: "path_flags (Schema_elem s) (k # p) = (if p \<noteq> [] \<and> k = ''*'' then path_flags (elem s) p else None)"
  by (simp add: path_flags_def)

lemma path_flags_Nil [simp]: "path_flags el [] = None"
  by (simp add: path_flags_def)

lemma run_set: "run_accessors [set_singleton] k s = (None, Sch (as_singleton (flags s)) (elem s))"
  by (simp add: set_singleton_def as_singleton_def)

lemma access_put:
  assumes s: "map_of (own_schema r) k = Some s"
    and fs: "flags t = (if p = [] then as_singleton (flags s) else flags s)"
    and sub: "\<And>q. path_flags (Schema_elem t) q = (if q = p \<and> p \<noteq> [] then map_option as_singleton (path_flags (Schema_elem s) q) else path_flags (Schema_elem s) q)"
  shows "path_flags (put_schema k t r) q = (if q = k # p then map_option as_singleton (path_flags (Resource_elem r) q) else path_flags (Resource_elem r) q)"
  using assms by (cases q) (auto simp: put_schema_def path_flags_Resource own_map_entry map_of_map_entry)

lemma access_set:
  "access_schema [set_singleton] p el = (None, el') \<Longrightarrow> same_kind el el' \<and> path_flags el p \<noteq> None \<and>
     (\<forall>q. path_flags el' q = (if q = p then map_option as_singleton (path_flags el q) else path_flags el q))"
proof (induction p arbitrary: el el')
  case (Cons k p)
  show ?case
  proof (cases el)
    case (Schema_elem s)
    with Cons.prems obtain sub where sub: "access_schema [set_singleton] p (elem s) = (None, sub)" "k = ''*''" "p \<noteq> []"
      and el': "el' = Schema_elem (Sch (flags s) sub)"
      by (auto split: if_splits prod.splits)
    have "path_flags el' q = (if q = k # p then map_option as_singleton (path_flags el q) else path_flags el q)" for q
      using Cons.IH [OF sub(1)] sub(2,3) by (cases q) (auto simp: Schema_elem el' path_flags_Schema)
    then show ?thesis using Cons.IH [OF sub(1)] sub by (auto simp: Schema_elem el' path_flags_Schema)
  next
    case (Resource_elem r)
    with Cons.prems obtain s where s: "map_of (own_schema r) k = Some s" by (auto split: option.splits)
    show ?thesis
    proof (cases "p = []")
      case True
      let ?t = "Sch (as_singleton (flags s)) (elem s)"
      have el': "el' = put_schema k ?t r"
        using Cons.prems True s by (simp add: Resource_elem set_singleton_def as_singleton_def)
      have "path_flags (Schema_elem ?t) q = path_flags (Schema_elem s) q" for q
        by (cases q) (simp_all add: path_flags_Schema)
      then have "path_flags el' q = (if q = k # p then map_option as_singleton (path_flags el q) else path_flags el q)" for q
        unfolding el' Resource_elem using True by (intro access_put [OF s]) simp_all
      then show ?thesis using True s by (simp add: Resource_elem el' put_schema_def path_flags_Resource)
    next
      case False
      obtain e sub where a: "access_schema [set_singleton] p (Schema_elem s) = (e, sub)" by (rule prod.exhaust)
      have e: "e = None"
        using Cons.prems False s a by (auto simp: Resource_elem split: sch_elem.splits)
      note ih = Cons.IH [OF a [unfolded e]]
      then obtain t where t: "sub = Schema_elem t" "flags t = flags s" by (cases sub) auto
      have el': "el' = put_schema k t r" using Cons.prems False s a t by (simp add: Resource_elem)
      have "path_flags el' q = (if q = k # p then map_option as_singleton (path_flags el q) else path_flags el q)" for q
        unfolding el' Resource_elem using False ih t by (intro access_put [OF s]) auto
      then show ?thesis using False s ih by (auto simp: Resource_elem el' put_schema_def path_flags_Resource)
    qed
  qed (use Cons.prems in auto)
qed simp

lemma access_fails: "access_schema [set_singleton] p el = (Some e, el') \<Longrightarrow> path_flags el p = None"
proof (induction p arbitrary: el el')
  case (Cons k p)
  show ?case
  proof (cases el)
    case (Schema_elem s)
    with Cons show ?thesis by (auto simp: path_flags_Schema split: if_splits prod.splits)
  next
    case (Resource_elem r)
    show ?thesis
    proof (cases "map_of (own_schema r) k")
      case (Some s)
      obtain x sub where a: "access_schema [set_singleton] p (Schema_elem s) = (x, sub)" by (rule prod.exhaust)
      then show ?thesis using Cons.prems Cons.IH [of "Schema_elem s"] Some
        by (auto simp: Resource_elem path_flags_Resource run_set simp del: run_accessors.simps split: if_splits sch_elem.splits)
    qed (simp add: Resource_elem path_flags_Resource)
  qed (auto simp: path_flags_def)
qed simp

section \<open>The sync changes exactly the singletons\<close>

text \<open>The paths of the resource nodes in the order of the walk, with their schemas.\<close>

fun resource_paths :: "string list \<Rightarrow> sch_resource \<Rightarrow> (string list \<times> sch_flags) list"
  and entry_paths :: "string list \<Rightarrow> (string \<times> sch) list \<Rightarrow> (string list \<times> sch_flags) list" where
  "resource_paths tf (Res s f) =
     (case s of Some es \<Rightarrow> entry_paths tf es | None \<Rightarrow> (case f of Some es \<Rightarrow> entry_paths tf es | None \<Rightarrow> []))"
| "entry_paths tf [] = []"
| "entry_paths tf ((k, Sch a el) # es) =
     (case el of
        Resource_elem r \<Rightarrow>
          (tf @ [k], a) # resource_paths (if s_type a \<noteq> Object_s then tf @ [k] @ [''*''] else tf @ [k]) r
      | _ \<Rightarrow> []) @ entry_paths tf es"

definition singleton_paths :: "sch_resource \<Rightarrow> string list list" where
  "singleton_paths r = map fst (filter (\<lambda>e. singleton_list (snd e)) (resource_paths [] r))"

fun sync_all :: "string \<Rightarrow> (string list \<times> sch_flags) list \<Rightarrow> (string \<times> sch_resource) list \<Rightarrow> unit outcome \<times> (string \<times> sch_resource) list" where
  "sync_all n [] json = (Done (), json)"
| "sync_all n ((p, a) # ps) json =
     then_go (if singleton_list a then sync_at n p json else (Done (), json)) (\<lambda>_ json. sync_all n ps json)"

lemma sync_all_append: "sync_all n (ps @ qs) json = then_go (sync_all n ps json) (\<lambda>_ json. sync_all n qs json)"
proof (induction n ps json rule: sync_all.induct)
  case (2 n p a ps json)
  then show ?case
    by (cases "(if singleton_list a then sync_at n p json else (Done (), json), \<lambda>_ :: unit. sync_all n ps)" rule: then_go.cases) auto
qed simp

lemma walk_syncs:
  shows "walk_resource lib [max_items_sync] n crd tf r json = (Done (), json') \<longleftrightarrow> sync_all n (resource_paths tf r) json = (Done (), json')"
    and "walk_entries lib [max_items_sync] n crd tf es json = (Done (), json') \<longleftrightarrow> sync_all n (entry_paths tf es) json = (Done (), json')"
proof (induction lib "[max_items_sync]" n crd tf r json and lib "[max_items_sync]" n crd tf es json arbitrary: json' and json'
    rule: walk_resource_walk_entries.induct)
  case (1 lib n crd tf s f m)
  then show ?case by (auto split: option.split)
next
  case (3 lib n crd tf k a el es m)
  show ?case
  proof (cases el)
    case (Resource_elem r)
    then show ?thesis using 3
      by (auto simp: Let_def max_items_sync_def noop_traverser_def then_go_Done sync_all_append split: if_splits)
  qed (use 3 in \<open>simp_all add: Let_def max_items_sync_def noop_traverser_def\<close>)
qed simp

definition synced_resource :: "string list set \<Rightarrow> sch_resource \<Rightarrow> sch_resource \<Rightarrow> bool" where
  "synced_resource ps r r' \<longleftrightarrow>
     (\<forall>q. path_flags (Resource_elem r') q =
        (if q \<in> ps then map_option as_singleton (path_flags (Resource_elem r) q) else path_flags (Resource_elem r) q))"

definition wanted :: "(string list \<times> sch_flags) list \<Rightarrow> string list set" where
  "wanted ps = set (map fst (filter (\<lambda>e. singleton_list (snd e)) ps))"

lemma wanted_simps [simp]: "wanted [] = {}" "wanted ((p, a) # ps) = (if singleton_list a then insert p (wanted ps) else wanted ps)"
  by (simp_all add: wanted_def)

lemma sync_at_exact:
  assumes "sync_at n p json = (Done (), json')" "map_of json n = Some r"
  obtains r' where "map_of json' n = Some r'" "synced_resource {p} r r'" "path_flags (Resource_elem r) p \<noteq> None"
    "\<forall>l. l \<noteq> n \<longrightarrow> map_of json' l = map_of json l"
proof -
  obtain e el where a: "access_schema [set_singleton] p (Resource_elem r) = (e, el)" by (rule prod.exhaust)
  have e: "e = None" using assms a by (auto simp: sync_at_def split: option.splits)
  note acc = access_set [OF a [unfolded e]]
  then obtain r' where r': "el = Resource_elem r'" by (cases el) auto
  have "json' = map_entry n (\<lambda>_. r') json" using assms a e r' by (simp add: sync_at_def)
  then show thesis using assms(2) acc r' by (intro that [of r']) (auto simp: map_of_map_entry synced_resource_def)
qed

lemma sync_all_exact:
  "sync_all n ps json = (Done (), json') \<Longrightarrow> map_of json n = Some r \<Longrightarrow>
     \<exists>r'. map_of json' n = Some r' \<and> synced_resource (wanted ps) r r' \<and>
       (\<forall>q \<in> wanted ps. path_flags (Resource_elem r) q \<noteq> None) \<and>
       (\<forall>l. l \<noteq> n \<longrightarrow> map_of json' l = map_of json l)"
proof (induction n ps json arbitrary: r rule: sync_all.induct)
  case (1 n json)
  then show ?case by (auto simp: synced_resource_def)
next
  case (2 n p a ps json)
  show ?case
  proof (cases "singleton_list a")
    case False
    then show ?thesis using 2 by (auto simp: synced_resource_def)
  next
    case True
    with "2.prems" obtain j where j: "sync_at n p json = (Done (), j)" "sync_all n ps j = (Done (), json')"
      by (auto simp: then_go_Done)
    from j(1) "2.prems"(2) obtain r1 where r1: "map_of j n = Some r1" "synced_resource {p} r r1"
        "path_flags (Resource_elem r) p \<noteq> None" "\<forall>l. l \<noteq> n \<longrightarrow> map_of j l = map_of json l" by (rule sync_at_exact)
    from "2.IH" [OF j(2) r1(1)] obtain r' where r': "map_of json' n = Some r'"
      "synced_resource (wanted ps) r1 r'"
      "\<forall>q \<in> wanted ps. path_flags (Resource_elem r1) q \<noteq> None"
      "\<forall>l. l \<noteq> n \<longrightarrow> map_of json' l = map_of j l" by blast
    have same: "path_flags (Resource_elem r1) q = None \<longleftrightarrow> path_flags (Resource_elem r) q = None" for q
      using r1(2) by (simp add: synced_resource_def)
    have again: "map_option as_singleton (map_option as_singleton x) = map_option as_singleton x" for x
      by (cases x) (simp_all add: as_singleton_def)
    have "synced_resource (wanted ((p, a) # ps)) r r'"
      using r1(2) r'(2) True unfolding synced_resource_def by (auto simp: again simp del: option.map_comp)
    then show ?thesis using r' r1 True same by auto
  qed
qed

text \<open>
  C36. The sync of the \<open>MaxItems\<close> constraints is exact: when the walk over the runtime schema of a resource ends
  without an error, the JSON schema of that resource has every list and set that is a singleton at
  run time, each of them is a singleton now, and nothing else has changed in it or in any other resource.
\<close>

theorem sync_is_exact:
  assumes "traverse lib n go [max_items_sync] json = (Done (), json')" "map_of json n = Some r"
  shows "\<exists>r'. map_of json' n = Some r' \<and> synced_resource (set (singleton_paths go)) r r' \<and>
    (\<forall>p \<in> set (singleton_paths go). path_flags (Resource_elem r) p \<noteq> None) \<and> (\<forall>l. l \<noteq> n \<longrightarrow> map_of json' l = map_of json l)"
proof -
  have "sync_all n (resource_paths [] go) json = (Done (), json')"
    using assms(1) by (simp add: traverse_def walk_syncs)
  from sync_all_exact [OF this assms(2)] show ?thesis
    by (simp add: singleton_paths_def wanted_def)
qed

section \<open>Where the walk and the access disagree\<close>

text \<open>
  Below an object the walk has no wildcard, but the access asks for one: the constraint of a list
  in an object cannot be synced, not even onto the same schema.
\<close>

definition plain_flags :: "sch_type \<Rightarrow> sch_flags" where
  "plain_flags t = \<lparr>s_type = t, s_optional = True, s_required = False, s_computed = False, s_sensitive = False,
     s_min_items = 0, s_max_items = 0, s_attr_mode = False, s_description = '''', s_deprecated = '''', s_default = None\<rparr>"

definition one_list :: "sch_elem \<Rightarrow> sch" where
  "one_list el = Sch (plain_flags List_s\<lparr>s_max_items := 1\<rparr>) el"

definition leaf_resource :: sch_resource where
  "leaf_resource = Res (Some [(''size'', Sch (plain_flags Int_s) No_elem)]) None"

definition listed_resource :: sch_resource where
  "listed_resource = Res (Some [(''disk'', one_list (Resource_elem leaf_resource))]) None"

definition simple_lib :: gen_lib where
  "simple_lib = \<lparr>name_lib = \<lparr>camel_split = (\<lambda>s. [s]), to_camel = (\<lambda>s. s)\<rparr>, name_acronyms = Map.empty,
     segments_text = (\<lambda>ps. join_with ''.'' (map (\<lambda>p. case p of None \<Rightarrow> '''' | Some s \<Rightarrow> s) ps))\<rparr>"

lemma list_in_object_unreachable:
  "fst (traverse simple_lib ''vm'' (Res (Some [(''spec'', Sch (plain_flags Object_s) (Resource_elem listed_resource))]) None)
     [max_items_sync] [(''vm'', Res (Some [(''spec'', Sch (plain_flags Object_s) (Resource_elem listed_resource))]) None)]) \<noteq> Done ()"
  by code_simp

text \<open>A resource that the JSON schema does not have is a nil pointer.\<close>

lemma missing_resource_panics: "fst (traverse simple_lib ''vm'' listed_resource [max_items_sync] []) = Crashed"
  by code_simp

theorem sync_is_exact_witness:
  "\<exists>r'. map_of [(''vm'', Res (Some [(''disk'', one_list (Resource_elem leaf_resource))]) None)] ''vm'' = Some r' \<and>
     synced_resource (set (singleton_paths listed_resource))
       (Res (Some [(''disk'', Sch (plain_flags List_s) (Resource_elem leaf_resource))]) None) r'"
proof -
  have "traverse simple_lib ''vm'' listed_resource [max_items_sync]
      [(''vm'', Res (Some [(''disk'', Sch (plain_flags List_s) (Resource_elem leaf_resource))]) None)] =
    (Done (), [(''vm'', Res (Some [(''disk'', one_list (Resource_elem leaf_resource))]) None)])" by code_simp
  from sync_is_exact [OF this, of "Res (Some [(''disk'', Sch (plain_flags List_s) (Resource_elem leaf_resource))]) None"]
  show ?thesis by auto
qed

end
