(* ===== verification/CommentMarkers.thy ===== *)
theory CommentMarkers
  imports StructTag GoValue GoErrors
begin

text \<open>
  The comments of generated fields and the markers in them (\<open>pkg/types/comments\<close>,
  \<open>pkg/types/markers\<close>), and the filter of descriptions (\<open>pkg/common.go\<close>). Text is ASCII.
\<close>

abbreviation new_line :: string where
  "new_line \<equiv> [CHR 0x0A]"

section \<open>Descriptions\<close>

text \<open>Sentences with the key word are deleted; when all have it, it is replaced.\<close>

definition filter_description :: "string \<Rightarrow> string \<Rightarrow> string" where
  "filter_description description keyword =
     (let kept = filter (\<lambda>s. \<not> contains_sub (to_lower s) keyword) (split_on (CHR ''.'') description) in
      if kept = [] then replace_all (to_lower description) keyword ''provider'' else join_with ''.'' kept)"

section \<open>Markers\<close>

record kube_options =
  ko_required :: "bool option"
  ko_minimum :: "int option"
  ko_maximum :: "int option"
  ko_default :: "string option"

definition no_kube_options :: kube_options where
  "no_kube_options = \<lparr>ko_required = None, ko_minimum = None, ko_maximum = None, ko_default = None\<rparr>"

definition first_set :: "'a option \<Rightarrow> 'a option \<Rightarrow> 'a option" where
  "first_set x y = (case x of None \<Rightarrow> y | Some _ \<Rightarrow> x)"

definition set_from :: "kube_options \<Rightarrow> kube_options \<Rightarrow> kube_options" where
  "set_from opt k =
     \<lparr>ko_required = first_set (ko_required opt) (ko_required k), ko_minimum = first_set (ko_minimum opt) (ko_minimum k),
      ko_maximum = first_set (ko_maximum opt) (ko_maximum k), ko_default = first_set (ko_default opt) (ko_default k)\<rparr>"

definition override_kube :: "kube_options \<Rightarrow> kube_options option \<Rightarrow> kube_options" where
  "override_kube k opt =
     (let result = set_from k no_kube_options in case opt of None \<Rightarrow> result | Some opt \<Rightarrow> set_from opt result)"

definition marker :: "string \<Rightarrow> string option \<Rightarrow> string" where
  "marker prefix v = (case v of None \<Rightarrow> '''' | Some v \<Rightarrow> prefix @ v @ new_line)"

definition kube_string :: "kube_options \<Rightarrow> string" where
  "kube_string k =
     marker ''+kubebuilder:validation:'' (map_option (\<lambda>b. if b then ''Required'' else ''Optional'') (ko_required k)) @
     marker ''+kubebuilder:validation:Minimum='' (map_option show_int (ko_minimum k)) @
     marker ''+kubebuilder:validation:Maximum='' (map_option show_int (ko_maximum k)) @
     marker ''+kubebuilder:default:='' (ko_default k)"

record ssa_options =
  ssa_list_type :: "string option"
  ssa_list_map_key :: "string list"
  ssa_map_type :: "string option"
  ssa_struct_type :: "string option"

definition no_ssa_options :: ssa_options where
  "no_ssa_options = \<lparr>ssa_list_type = None, ssa_list_map_key = [], ssa_map_type = None, ssa_struct_type = None\<rparr>"

definition ssa_string :: "ssa_options \<Rightarrow> string" where
  "ssa_string k =
     marker ''+listType='' (ssa_list_type k) @ concat (map (\<lambda>m. marker ''+listMapKey='' (Some m)) (ssa_list_map_key k)) @
     marker ''+mapType='' (ssa_map_type k) @ marker ''+structType='' (ssa_struct_type k)"

record reference =
  ref_type :: string
  ref_terraform_name :: string
  ref_extractor :: string
  ref_field :: string
  ref_selector :: string

definition no_reference :: reference where
  "no_reference = \<lparr>ref_type = '''', ref_terraform_name = '''', ref_extractor = '''', ref_field = '''', ref_selector = ''''\<rparr>"

definition non_empty :: "string \<Rightarrow> string option" where
  "non_empty s = (if s = '''' then None else Some s)"

definition reference_string :: "reference \<Rightarrow> string" where
  "reference_string r =
     marker ''+crossplane:generate:reference:type='' (non_empty (ref_type r)) @
     marker ''+crossplane:generate:reference:extractor='' (non_empty (ref_extractor r)) @
     marker ''+crossplane:generate:reference:refFieldName='' (non_empty (ref_field r)) @
     marker ''+crossplane:generate:reference:selectorFieldName='' (non_empty (ref_selector r))"

record upjet_options =
  field_tf_tag :: "tag_value option"
  field_json_tag :: "tag_value option"

definition upjet_string :: "upjet_options \<Rightarrow> string" where
  "upjet_string k =
     marker ''+upjet:crd:field:TFTag='' (map_option string_without_key (field_tf_tag k)) @
     marker ''+upjet:crd:field:JSONTag='' (map_option string_without_key (field_json_tag k))"

primrec tag_error_text :: "tag_error \<Rightarrow> string" where
  "tag_error_text (InvalidJSONTagName n) =
     ''invalid JSON struct tag name: '' @ go_quote n @ '' (must match ^[a-zA-Z_][a-zA-Z0-9_]*$)''"
| "tag_error_text (InlineWithName n) = ''invalid struct tag: cannot set the name '' @ go_quote n @ '' with inline''"
| "tag_error_text (InlineWithOmit om) = ''invalid struct tag: cannot set inline with omit option '' @ go_quote (omit_str om)"
| "tag_error_text (InvalidCombination v a b) =
     ''invalid struct tag format: '' @ go_quote v @ '' (cannot combine '' @ a @ '' with '' @ b @ '')''"
| "tag_error_text (InvalidOption x) = ''invalid struct tag option: '' @ go_quote x"

text \<open>Whether the line was an option, and the options with it.\<close>

definition parse_as_upjet_option :: "upjet_options \<Rightarrow> string \<Rightarrow> gerror + bool \<times> upjet_options" where
  "parse_as_upjet_option opts line =
     (if \<not> has_prefix line ''+upjet:'' then Inr (False, opts)
      else
        let ln = trim_space line; tf = ''+upjet:crd:field:TFTag=''; js = ''+upjet:crd:field:JSONTag='' in
        if has_prefix ln tf then
          (case parse_tf (trim_prefix ln tf) of
             Inl e \<Rightarrow> Inl (WithMsg (''not a valid tf tag: '' @ trim_prefix ln tf) (Plain (tag_error_text e)))
           | Inr t \<Rightarrow> Inr (True, opts\<lparr>field_tf_tag := Some t\<rparr>))
        else if has_prefix ln js then
          (case parse_json (trim_prefix ln js) of
             Inl e \<Rightarrow> Inl (WithMsg (''not a valid json tag: '' @ trim_prefix ln js) (Plain (tag_error_text e)))
           | Inr t \<Rightarrow> Inr (True, opts\<lparr>field_json_tag := Some t\<rparr>))
        else Inl (Plain (''cannot parse as an upjet prefix: '' @ line)))"

section \<open>Comments\<close>

record comment =
  cm_text :: string
  cm_upjet :: upjet_options
  cm_reference :: reference
  cm_kube :: kube_options
  cm_ssa :: ssa_options

definition plain_comment :: "string \<Rightarrow> comment" where
  "plain_comment s = \<lparr>cm_text = s, cm_upjet = \<lparr>field_tf_tag = None, field_json_tag = None\<rparr>, cm_reference = no_reference,
     cm_kube = no_kube_options, cm_ssa = no_ssa_options\<rparr>"

fun comment_lines :: "string list \<Rightarrow> upjet_options \<Rightarrow> gerror + string list \<times> upjet_options" where
  "comment_lines [] opts = Inr ([], opts)"
| "comment_lines (l # ls) opts =
     (let l = trim_space l in
      if l = '''' then map_sum (\<lambda>e. e) (map_prod (Cons l) (\<lambda>k. k)) (comment_lines ls opts)
      else (case parse_as_upjet_option opts l of
              Inl e \<Rightarrow> Inl e
            | Inr (parsed, opts) \<Rightarrow>
                if parsed then comment_lines ls opts
                else map_sum (\<lambda>e. e) (map_prod (Cons l) (\<lambda>k. k)) (comment_lines ls opts)))"

definition new_comment :: "string \<Rightarrow> (comment \<Rightarrow> comment) list \<Rightarrow> gerror + comment" where
  "new_comment text opts =
     (case comment_lines (split_on (CHR 0x0A) (trim_space text)) \<lparr>field_tf_tag = None, field_json_tag = None\<rparr> of
        Inl e \<Rightarrow> Inl e
      | Inr (ls, to) \<Rightarrow> Inr (fold (\<lambda>f c. f c) opts ((plain_comment (join_with new_line ls))\<lparr>cm_upjet := to\<rparr>)))"

definition with_reference_config :: "reference \<Rightarrow> comment \<Rightarrow> comment" where
  "with_reference_config r c = c\<lparr>cm_reference := r\<rparr>"

definition options_string :: "comment \<Rightarrow> string" where
  "options_string c =
     upjet_string (cm_upjet c) @ reference_string (cm_reference c) @ kube_string (cm_kube c) @ ssa_string (cm_ssa c)"

definition comment_string :: "comment \<Rightarrow> string" where
  "comment_string c = (if cm_text c = '''' then options_string c else cm_text c @ new_line @ options_string c)"

definition build_comment :: "comment \<Rightarrow> string" where
  "build_comment c =
     trim_suffix (replace_all (''// '' @ comment_string c) new_line (new_line @ ''// '')) ''// ''"

definition comment_without_options :: "comment \<Rightarrow> comment" where
  "comment_without_options c = plain_comment (cm_text c)"

end
