(* ===== verification/ResourceConfig.thy ===== *)
theory ResourceConfig
  imports SchemaTraverse CommentMarkers
begin

text \<open>
  The configuration of a resource (\<open>pkg/config/resource.go\<close>, \<open>pkg/config/common.go\<close>) as far as the
  generator reads and changes it, and the visitors that fill it
  (\<open>pkg/config/schema_conversions.go\<close>). Its maps are made by \<open>DefaultResource\<close>, so none is nil but the ones the
  source makes on demand; they are entry lists in the order of a range over them.
\<close>

section \<open>Go types\<close>

text \<open>A named type has the path of its package; the types of the generated package are by name.\<close>

datatype gtype = Basic_g string | Named_g string string | Local_g string | Ptr_g gtype | Slice_g gtype | Map_g gtype gtype

fun gtype_string :: "string \<Rightarrow> gtype \<Rightarrow> string" where
  "gtype_string pkg (Basic_g n) = n"
| "gtype_string pkg (Named_g p n) = p @ ''.'' @ n"
| "gtype_string pkg (Local_g n) = pkg @ ''.'' @ n"
| "gtype_string pkg (Ptr_g t) = ''*'' @ gtype_string pkg t"
| "gtype_string pkg (Slice_g t) = ''[]'' @ gtype_string pkg t"
| "gtype_string pkg (Map_g k t) = ''map['' @ gtype_string pkg k @ '']'' @ gtype_string pkg t"

section \<open>Options of schema elements\<close>

record init_overrides =
  io_tf_tag :: "tag_value option"
  io_json_tag :: "tag_value option"
  io_kube :: "kube_options option"

record element_option =
  add_to_observation :: bool
  embedded_object :: bool
  init_provider_overrides :: "init_overrides option"

definition no_element_option :: element_option where
  "no_element_option = \<lparr>add_to_observation = False, embedded_object = False, init_provider_overrides = None\<rparr>"

type_synonym element_options = "(string \<times> element_option) list"

definition change_option :: "string \<Rightarrow> (element_option \<Rightarrow> element_option) \<Rightarrow> element_options \<Rightarrow> element_options" where
  "change_option el f m = put_key el (f (case map_of m el of None \<Rightarrow> no_element_option | Some x \<Rightarrow> x)) m"

definition set_add_to_observation :: "string \<Rightarrow> element_options \<Rightarrow> element_options" where
  "set_add_to_observation el = change_option el (\<lambda>x. x\<lparr>add_to_observation := True\<rparr>)"

definition in_observation :: "element_options \<Rightarrow> string \<Rightarrow> bool" where
  "in_observation m el = (case map_of m el of None \<Rightarrow> False | Some x \<Rightarrow> add_to_observation x)"

definition set_embedded_object :: "string \<Rightarrow> element_options \<Rightarrow> element_options" where
  "set_embedded_object el = change_option el (\<lambda>x. x\<lparr>embedded_object := True\<rparr>)"

definition is_embedded :: "element_options \<Rightarrow> string \<Rightarrow> bool" where
  "is_embedded m el = (case map_of m el of None \<Rightarrow> False | Some x \<Rightarrow> embedded_object x)"

definition set_init_provider_overrides :: "string \<Rightarrow> init_overrides option \<Rightarrow> element_options \<Rightarrow> element_options" where
  "set_init_provider_overrides el w = change_option el (\<lambda>x. x\<lparr>init_provider_overrides := w\<rparr>)"

section \<open>The configuration\<close>

record injected_key =
  ij_key :: string
  ij_default :: string
  ij_description :: string

record merge_strategy =
  ms_list :: string
  ms_injected :: injected_key
  ms_keys :: "string list"
  ms_map :: string
  ms_struct :: string

record version_deprecation =
  vd_warning :: string
  vd_release :: string
  vd_removal :: string

record resource_cfg =
  rc_name :: string
  rc_kind :: string
  rc_short_group :: string
  rc_version :: string
  previous_versions :: "string list"
  served_versions :: "string list"
  deprecated_versions :: "(string \<times> version_deprecation) list"
  crd_storage :: string
  crd_hub :: string
  rc_schema :: "sch_resource option"
  rc_references :: "(string \<times> reference) list"
  sensitive_paths :: "(string \<times> string) list"
  ignored_fields :: "string list"
  conditional_ignored_fields :: "string list"
  ignored_canonical :: "string list"
  conditional_ignored_canonical :: "string list"
  rc_identifier_fields :: "string list"
  argument_docs :: "(string \<times> string) list option"
  rc_element_options :: element_options
  list_conversion_paths :: "(string \<times> string) list"
  dynamic_paths :: "string list"
  merge_strategies :: "(string \<times> merge_strategy) list"
  type_overrides :: "(string \<times> gtype) list"
  override_field_names :: "(string \<times> string) list"
  required_fields :: "string list"
  rc_use_async :: bool

text \<open>
  The defaults for a resource; without an underscore the index into the words of the name panics.
\<close>

definition default_resource ::
  "gen_lib \<Rightarrow> string \<Rightarrow> sch_resource option \<Rightarrow> (string \<times> string) list option \<Rightarrow> (resource_cfg \<Rightarrow> resource_cfg) list \<Rightarrow> resource_cfg option" where
  "default_resource lib nm sch docs opts =
     (case split_on (CHR ''_'') nm of
        w0 # w1 # ws \<Rightarrow>
          Some (fold (\<lambda>f r. f r) opts
            \<lparr>rc_name = nm,
             rc_kind = camel_name (field_name lib (if ws = [] then w1 else join_with ''_'' ws)),
             rc_short_group = (if ws = [] then w0 else w1),
             rc_version = ''v1alpha1'', previous_versions = [], served_versions = [], deprecated_versions = [],
             crd_storage = '''', crd_hub = '''', rc_schema = sch, rc_references = [], sensitive_paths = [],
             ignored_fields = [], conditional_ignored_fields = [], ignored_canonical = [], conditional_ignored_canonical = [],
             rc_identifier_fields = [], argument_docs = docs, rc_element_options = [], list_conversion_paths = [],
             dynamic_paths = [], merge_strategies = [], type_overrides = [], override_field_names = [],
             required_fields = [], rc_use_async = True\<rparr>)
      | _ \<Rightarrow> None)"

definition mark_fields_required :: "string list \<Rightarrow> resource_cfg \<Rightarrow> resource_cfg" where
  "mark_fields_required ps r = r\<lparr>required_fields := required_fields r @ ps\<rparr>"

definition add_ignored_canonical_fields :: "string \<Rightarrow> resource_cfg \<Rightarrow> resource_cfg" where
  "add_ignored_canonical_fields cf r = r\<lparr>ignored_canonical := ignored_canonical r @ [cf]\<rparr>"

definition add_conditional_ignored_canonical_fields :: "string \<Rightarrow> resource_cfg \<Rightarrow> resource_cfg" where
  "add_conditional_ignored_canonical_fields cf r = r\<lparr>conditional_ignored_canonical := conditional_ignored_canonical r @ [cf]\<rparr>"

definition add_field_path :: "string \<Rightarrow> string \<Rightarrow> resource_cfg \<Rightarrow> resource_cfg" where
  "add_field_path tf xp r = r\<lparr>sensitive_paths := put_key tf xp (sensitive_paths r)\<rparr>"

section \<open>Versions\<close>

definition crd_storage_version :: "resource_cfg \<Rightarrow> string" where
  "crd_storage_version r = (if crd_storage r \<noteq> '''' then crd_storage r else rc_version r)"

definition set_crd_storage_version :: "string \<Rightarrow> resource_cfg \<Rightarrow> resource_cfg" where
  "set_crd_storage_version v r = r\<lparr>crd_storage := v\<rparr>"

definition crd_hub_version :: "resource_cfg \<Rightarrow> string" where
  "crd_hub_version r = (if crd_hub r \<noteq> '''' then crd_hub r else rc_version r)"

definition set_crd_hub_version :: "string \<Rightarrow> resource_cfg \<Rightarrow> resource_cfg" where
  "set_crd_hub_version v r = r\<lparr>crd_hub := v\<rparr>"

definition known_versions :: "resource_cfg \<Rightarrow> string list" where
  "known_versions r = rc_version r # previous_versions r"

fun check_served :: "string list \<Rightarrow> string list \<Rightarrow> string list \<Rightarrow> gerror option" where
  "check_served known seen [] = None"
| "check_served known seen (v # vs) =
     (if v \<in> set seen then Some (Plain (''duplicate version '' @ go_quote v @ '' in served versions''))
      else if v \<notin> set known then Some (Plain (''served version '' @ go_quote v @ '' is not in Version or PreviousVersions''))
      else check_served known (v # seen) vs)"

definition set_served_versions :: "string list \<Rightarrow> resource_cfg \<Rightarrow> gerror option \<times> resource_cfg" where
  "set_served_versions vs r =
     (if vs = [] then (None, r\<lparr>served_versions := []\<rparr>)
      else if rc_version r \<notin> set vs then
        (Some (Plain (''served versions must include the current version '' @ go_quote (rc_version r))), r)
      else (case check_served (known_versions r) [] vs of
              Some e \<Rightarrow> (Some e, r)
            | None \<Rightarrow> (None, r\<lparr>served_versions := vs\<rparr>)))"

definition has_explicit_served_versions :: "resource_cfg \<Rightarrow> bool" where
  "has_explicit_served_versions r \<longleftrightarrow> served_versions r \<noteq> []"

definition get_served_versions :: "resource_cfg \<Rightarrow> string list" where
  "get_served_versions r = (if served_versions r \<noteq> [] then served_versions r else known_versions r)"

text \<open>The releases are compared as strings.\<close>

definition set_deprecated_version :: "string \<Rightarrow> version_deprecation \<Rightarrow> resource_cfg \<Rightarrow> gerror option \<times> resource_cfg" where
  "set_deprecated_version v d r =
     (if v \<notin> set (known_versions r) then
        (Some (Plain (''version '' @ go_quote v @ '' is not in Version or PreviousVersions'')), r)
      else if trim_space (vd_warning d) = '''' then
        (Some (Plain (''deprecation warning is required for version '' @ go_quote v)), r)
      else if vd_release d \<noteq> '''' \<and> vd_removal d \<noteq> '''' \<and> vd_removal d \<le> vd_release d then
        (Some (Plain (''PlannedRemovalRelease '' @ go_quote (vd_removal d) @ '' must be after DeprecationRelease '' @ go_quote (vd_release d))), r)
      else (None, r\<lparr>deprecated_versions := put_key v d (deprecated_versions r)\<rparr>))"

definition is_version_deprecated :: "resource_cfg \<Rightarrow> string \<Rightarrow> version_deprecation option" where
  "is_version_deprecated r v = map_of (deprecated_versions r) v"

section \<open>Singleton lists and type overrides\<close>

definition without_index :: "string \<Rightarrow> string" where
  "without_index p = replace_all (replace_all p ''[*]'' '''') ''[0]'' ''''"

definition add_singleton_list_conversion :: "string \<Rightarrow> string \<Rightarrow> resource_cfg \<Rightarrow> resource_cfg" where
  "add_singleton_list_conversion tf crd r =
     r\<lparr>rc_element_options := set_embedded_object (without_index tf) (rc_element_options r),
       list_conversion_paths := put_key tf crd (list_conversion_paths r)\<rparr>"

definition remove_singleton_list_conversion :: "string \<Rightarrow> resource_cfg \<Rightarrow> bool \<times> resource_cfg" where
  "remove_singleton_list_conversion tf r =
     (let n = without_index tf in
      case find (\<lambda>e. without_index (fst e) = n) (list_conversion_paths r) of
        None \<Rightarrow> (False, r)
      | Some (p, c) \<Rightarrow>
          (True, r\<lparr>list_conversion_paths := del_key p (list_conversion_paths r),
                   rc_element_options := (case map_of (rc_element_options r) n of
                     None \<Rightarrow> rc_element_options r
                   | Some x \<Rightarrow> put_key n (x\<lparr>embedded_object := False\<rparr>) (rc_element_options r))\<rparr>))"

definition tf_list_conversion_paths :: "resource_cfg \<Rightarrow> string list" where
  "tf_list_conversion_paths r = map fst (list_conversion_paths r)"

definition crd_list_conversion_paths :: "resource_cfg \<Rightarrow> string list" where
  "crd_list_conversion_paths r = map snd (list_conversion_paths r)"

definition scalar_type :: "sch_type \<Rightarrow> bool" where
  "scalar_type t \<longleftrightarrow> t \<in> {Bool_s, Float_s, Int_s, String_s}"

primrec sch_type_string :: "sch_type \<Rightarrow> string" where
  "sch_type_string Invalid_s = ''TypeInvalid''"
| "sch_type_string Bool_s = ''TypeBool''"
| "sch_type_string Int_s = ''TypeInt''"
| "sch_type_string Float_s = ''TypeFloat''"
| "sch_type_string String_s = ''TypeString''"
| "sch_type_string List_s = ''TypeList''"
| "sch_type_string Map_s = ''TypeMap''"
| "sch_type_string Set_s = ''TypeSet''"
| "sch_type_string Dynamic_s = ''ValueType(10)''"
| "sch_type_string Object_s = ''ValueType(9)''"

definition override_scalar_field_type :: "string \<Rightarrow> gtype \<Rightarrow> resource_cfg \<Rightarrow> gerror option \<times> resource_cfg" where
  "override_scalar_field_type path t r =
     (if rc_schema r = None then
        (Some (Plain (''resource '' @ go_quote (rc_name r) @ '' does not have a valid Terraform resource schema'')), r)
      else (case get_schema (rc_schema r) path of
              None \<Rightarrow>
                (Some (Plain (''path '' @ path @ '' is not valid for the Terraform resource schema of '' @ go_quote (rc_name r))), r)
            | Some s \<Rightarrow>
                if scalar_type (s_type (flags s)) then (None, r\<lparr>type_overrides := put_key path t (type_overrides r)\<rparr>)
                else (Some (Plain (''field at path '' @ go_quote path @ '' with Terraform type '' @ sch_type_string (s_type (flags s)) @
                        '' is not scalar, only scalar field types can be overridden'')), r)))"

definition field_type_override :: "resource_cfg \<Rightarrow> string \<Rightarrow> gtype option" where
  "field_type_override r path = map_of (type_overrides r) path"

section \<open>Visitors of the configuration\<close>

text \<open>The state of these visitors is the configuration they were given as their context.\<close>

definition singleton_list_embedder :: "gen_lib \<Rightarrow> resource_cfg visitor" where
  "singleton_list_embedder lib = noop_traverser\<lparr>visit_resource := (\<lambda>nd r c.
     if \<not> singleton_list (flags (node_schema nd)) then (Done (), c)
     else (Done (), add_singleton_list_conversion (field_path_with_wildcard lib (node_tf_path nd))
                      (field_path_with_wildcard lib (node_crd_path nd)) c))\<rparr>"

definition dynamic_pseudo_type_traverser :: "gen_lib \<Rightarrow> resource_cfg visitor" where
  "dynamic_pseudo_type_traverser lib = noop_traverser\<lparr>visit_schema := (\<lambda>nd e c.
     (Done (), if s_type (flags (node_schema nd)) = Dynamic_s
               then c\<lparr>dynamic_paths := dynamic_paths c @ [field_path_with_wildcard lib (node_tf_path nd)]\<rparr> else c))\<rparr>"

text \<open>A configuration without a Terraform schema is a nil pointer for the walk.\<close>

definition traverse_schemas :: "gen_lib \<Rightarrow> string \<Rightarrow> resource_cfg visitor list \<Rightarrow> resource_cfg \<Rightarrow> unit outcome \<times> resource_cfg" where
  "traverse_schemas lib n vs c =
     (case vs of
        [] \<Rightarrow> (Done (), c)
      | _ \<Rightarrow> (case rc_schema c of None \<Rightarrow> (Crashed, c) | Some r \<Rightarrow> traverse lib n r vs c))"

section \<open>What the operations keep\<close>

lemma check_served_ok: "check_served known seen vs = None \<longleftrightarrow> distinct vs \<and> set vs \<inter> set seen = {} \<and> set vs \<subseteq> set known"
  by (induction known seen vs rule: check_served.induct) auto

text \<open>Explicit served versions are known, different and include the current one; a refused list changes nothing.\<close>

lemma served_versions_sound:
  assumes "set_served_versions vs r = (e, r')"
  shows "if e = None then served_versions r' = vs \<and>
           (vs \<noteq> [] \<longrightarrow> distinct vs \<and> rc_version r' \<in> set vs \<and> set vs \<subseteq> set (known_versions r'))
         else r' = r"
  using assms check_served_ok [of "known_versions r" "[]" vs]
  by (auto simp: set_served_versions_def known_versions_def split: if_splits option.splits)

text \<open>The order of releases is not that of semantic versions: a removal after ten minor releases is refused.\<close>

lemma later_release_refused:
  "fst (set_deprecated_version (rc_version r)
     \<lparr>vd_warning = ''use v1beta2'', vd_release = ''v1.9.0'', vd_removal = ''v1.10.0''\<rparr> r) \<noteq> None"
proof -
  have "trim_space ''use v1beta2'' \<noteq> ''''" "(''v1.10.0'' :: string) \<le> ''v1.9.0''" by code_simp+
  then show ?thesis by (simp add: set_deprecated_version_def known_versions_def)
qed

lemma del_put_key: "k \<notin> fst ` set m \<Longrightarrow> del_key k (put_key k v m) = m"
  by (induction k v m rule: put_key.induct) (auto simp: del_key_def filter_id_conv)

lemma find_put_key:
  "k \<notin> fst ` set m \<Longrightarrow> \<forall>e \<in> set m. \<not> P (fst e) \<Longrightarrow> P k \<Longrightarrow> find (\<lambda>e. P (fst e)) (put_key k v m) = Some (k, v)"
  by (induction k v m rule: put_key.induct) auto

text \<open>A removal takes back what was added for a path that was not converted before.\<close>

lemma remove_undoes_add:
  assumes "\<forall>e \<in> set (list_conversion_paths r). without_index (fst e) \<noteq> without_index tf"
  shows "fst (remove_singleton_list_conversion tf (add_singleton_list_conversion tf crd r))"
    and "list_conversion_paths (snd (remove_singleton_list_conversion tf (add_singleton_list_conversion tf crd r))) = list_conversion_paths r"
    and "\<not> is_embedded (rc_element_options (snd (remove_singleton_list_conversion tf (add_singleton_list_conversion tf crd r)))) (without_index tf)"
proof -
  have new: "tf \<notin> fst ` set (list_conversion_paths r)" using assms by force
  note f = find_put_key [where P = "\<lambda>p. without_index p = without_index tf", OF new assms refl, of crd]
  show "fst (remove_singleton_list_conversion tf (add_singleton_list_conversion tf crd r))"
    and "list_conversion_paths (snd (remove_singleton_list_conversion tf (add_singleton_list_conversion tf crd r))) = list_conversion_paths r"
    and "\<not> is_embedded (rc_element_options (snd (remove_singleton_list_conversion tf (add_singleton_list_conversion tf crd r)))) (without_index tf)"
    using f by (simp_all add: remove_singleton_list_conversion_def add_singleton_list_conversion_def Let_def del_put_key [OF new]
      set_embedded_object_def change_option_def is_embedded_def split: option.split)
qed

section \<open>The embedder registers exactly the singletons\<close>

text \<open>The Terraform and CRD paths of the singleton lists, in the order of the walk.\<close>

fun list_paths :: "gen_lib \<Rightarrow> string list \<Rightarrow> string list \<Rightarrow> sch_resource \<Rightarrow> (string \<times> string) list"
  and list_paths_of :: "gen_lib \<Rightarrow> string list \<Rightarrow> string list \<Rightarrow> (string \<times> sch) list \<Rightarrow> (string \<times> string) list" where
  "list_paths lib crd tf (Res s f) =
     (case s of Some es \<Rightarrow> list_paths_of lib crd tf es
      | None \<Rightarrow> (case f of Some es \<Rightarrow> list_paths_of lib crd tf es | None \<Rightarrow> []))"
| "list_paths_of lib crd tf [] = []"
| "list_paths_of lib crd tf ((k, Sch a el) # es) =
     (let crd1 = crd @ [lower_camel_computed (field_name lib k)]; tf1 = tf @ [k]; more = (if s_type a \<noteq> Object_s then [''*''] else []) in
      case el of
        Resource_elem r \<Rightarrow>
          (if singleton_list a then [(field_path_with_wildcard lib tf1, field_path_with_wildcard lib crd1)] else []) @
          list_paths lib (crd1 @ more) (tf1 @ more) r
      | _ \<Rightarrow> []) @ list_paths_of lib crd tf es"

lemma walk_embeds:
  shows "walk_resource lib [singleton_list_embedder lib] n crd tf r c =
      (Done (), fold (\<lambda>(t, x). add_singleton_list_conversion t x) (list_paths lib crd tf r) c)"
    and "walk_entries lib [singleton_list_embedder lib] n crd tf es c =
      (Done (), fold (\<lambda>(t, x). add_singleton_list_conversion t x) (list_paths_of lib crd tf es) c)"
proof (induction lib "[singleton_list_embedder lib]" n crd tf r c and lib "[singleton_list_embedder lib]" n crd tf es c
    rule: walk_resource_walk_entries.induct)
  case (1 lib n crd tf s f m)
  then show ?case by (auto split: option.split)
next
  case (3 lib n crd tf k a el es m)
  show ?case
  proof (cases el)
    case (Resource_elem r)
    then show ?thesis using 3 by (simp add: Let_def singleton_list_embedder_def noop_traverser_def)
  qed (use 3 in \<open>simp_all add: Let_def singleton_list_embedder_def noop_traverser_def\<close>)
qed simp

lemma map_of_fold_conversions:
  "map_of (list_conversion_paths (fold (\<lambda>(t, x). add_singleton_list_conversion t x) ps c)) t =
     (case map_of (rev ps) t of None \<Rightarrow> map_of (list_conversion_paths c) t | Some x \<Rightarrow> Some x)"
  by (induction ps arbitrary: c) (auto simp: add_singleton_list_conversion_def map_of_append map_add_def map_of_put_key split: option.split)

lemma embedded_fold:
  "is_embedded (rc_element_options (fold (\<lambda>(t, x). add_singleton_list_conversion t x) ps c)) p \<longleftrightarrow>
     p \<in> set (map (\<lambda>e. without_index (fst e)) ps) \<or> is_embedded (rc_element_options c) p"
proof (induction ps arbitrary: c)
  case (Cons e ps)
  have "is_embedded (rc_element_options (add_singleton_list_conversion t x c)) p \<longleftrightarrow>
      p = without_index t \<or> is_embedded (rc_element_options c) p" for t x
    by (auto simp: add_singleton_list_conversion_def set_embedded_object_def change_option_def is_embedded_def map_of_put_key)
  then show ?case by (cases e) (auto simp: Cons)
qed simp

text \<open>
  C37. Embedding registers exactly the singleton lists of the schema: the walk never fails, a Terraform path is
  converted at run time if it was before or is that of a singleton list, with its CRD path, and the same paths
  without their indices are embedded in the generated types.
\<close>

theorem embeds_exactly_singletons:
  assumes "rc_schema c = Some r" "traverse_schemas lib n [singleton_list_embedder lib] c = (x, c')"
  shows "x = Done () \<and>
    (\<forall>t. map_of (list_conversion_paths c') t =
      (case map_of (rev (list_paths lib [] [] r)) t of None \<Rightarrow> map_of (list_conversion_paths c) t | Some p \<Rightarrow> Some p)) \<and>
    (\<forall>p. is_embedded (rc_element_options c') p \<longleftrightarrow>
      p \<in> set (map (\<lambda>e. without_index (fst e)) (list_paths lib [] [] r)) \<or> is_embedded (rc_element_options c) p)"
proof -
  have c': "x = Done ()" "c' = fold (\<lambda>(t, x). add_singleton_list_conversion t x) (list_paths lib [] [] r) c"
    using assms by (simp_all add: traverse_schemas_def traverse_def walk_embeds)
  show ?thesis by (simp only: c' map_of_fold_conversions embedded_fold simp_thms)
qed

definition disk_schema :: sch_resource where
  "disk_schema = Res (Some [(''size'', Sch (plain_flags Int_s) No_elem), (''disk'', one_list (Resource_elem leaf_resource))]) None"

definition disk_cfg :: resource_cfg where
  "disk_cfg = the (default_resource simple_lib ''aws_vm'' (Some disk_schema) None [])"

lemma embeds_exactly_singletons_witness:
  "rc_schema disk_cfg = Some disk_schema \<and>
   (\<forall>p. is_embedded (rc_element_options (snd (traverse_schemas simple_lib ''vm'' [singleton_list_embedder simple_lib] disk_cfg))) p \<longleftrightarrow> p = ''disk'')"
proof -
  have start: "rc_schema disk_cfg = Some disk_schema" by (simp add: disk_cfg_def default_resource_def)
  obtain x c' where run: "traverse_schemas simple_lib ''vm'' [singleton_list_embedder simple_lib] disk_cfg = (x, c')" by force
  have "map (\<lambda>e. without_index (fst e)) (list_paths simple_lib [] [] disk_schema) = [''disk'']" "rc_element_options disk_cfg = []"
    by code_simp+
  with embeds_exactly_singletons [OF start run] start run show ?thesis by (simp add: is_embedded_def)
qed

end
