(* ===== verification/GeneratedFields.thy ===== *)
theory GeneratedFields
  imports ResourceConfig
begin

text \<open>
  The fields of generated API types and how they are added to the structs of a resource
  (\<open>pkg/types/field.go\<close>, \<open>pkg/types/reference.go\<close> and the struct part of \<open>pkg/types/builder.go\<close>).
  What the generator changes through pointers is one state: the scope of the package, the types, comments
  and validation rules of the builder, the configuration, and the struct that is being filled.
\<close>

section \<open>The state of the generator\<close>

datatype crd_scope = Cluster_scope | Namespaced_scope | Other_scope string

record gen_type =
  gt_name :: string
  gt_fields :: "(string \<times> gtype) list"
  gt_tags :: "string list"

text \<open>The struct types of a resource under construction, with the required parameters at the top level.\<close>

record resource_fields =
  param_fields :: "(string \<times> gtype) list"
  init_fields :: "(string \<times> gtype) list"
  obs_fields :: "(string \<times> gtype) list"
  param_tags :: "string list"
  init_tags :: "string list"
  obs_tags :: "string list"
  required_params :: "(string \<times> bool) list"

definition no_fields :: resource_fields where
  "no_fields = \<lparr>param_fields = [], init_fields = [], obs_fields = [], param_tags = [], init_tags = [], obs_tags = [],
     required_params = []\<rparr>"

record gen_state =
  g_package :: string
  g_crd_scope :: crd_scope
  g_names :: "string list"
  g_types :: "gen_type list"
  g_comments :: "string \<times> string \<rightharpoonup> string"
  g_rules :: string
  g_cfg :: resource_cfg
  g_struct :: resource_fields

record type_names =
  param_name :: string
  init_name :: string
  obs_name :: string

definition add_field_comment :: "string \<Rightarrow> string \<Rightarrow> string \<Rightarrow> gen_state \<Rightarrow> gen_state" where
  "add_field_comment t f c g = g\<lparr>g_comments := (g_comments g)((t, f) \<mapsto> c)\<rparr>"

definition on_struct :: "(resource_fields \<Rightarrow> resource_fields) \<Rightarrow> gen_state \<Rightarrow> gen_state" where
  "on_struct h g = g\<lparr>g_struct := h (g_struct g)\<rparr>"

section \<open>Names of types\<close>

text \<open>The prefixes are the former field names, the nearest first.\<close>

fun pick_name :: "string list \<Rightarrow> string \<Rightarrow> string list \<Rightarrow> gerror + string" where
  "pick_name used n [] =
     (if n \<notin> set used then Inr n
      else (case find (\<lambda>nn. nn \<notin> set used) (map (\<lambda>i. n @ ''_'' @ show_nat i) [2..<10]) of
              Some nn \<Rightarrow> Inr nn
            | None \<Rightarrow> Inl (Plain (''could not generate a unique name for '' @ n))))"
| "pick_name used n (p # ps) = (if n \<notin> set used then Inr n else pick_name used (p @ n) ps)"

definition generate_type_name :: "string \<Rightarrow> string list \<Rightarrow> (string \<times> string) list \<Rightarrow> string list \<Rightarrow> gerror + string" where
  "generate_type_name suffix used overrides names =
     (case pick_name used (last names @ suffix) (rev (butlast names)) of
        Inl e \<Rightarrow> Inl e
      | Inr n \<Rightarrow> Inr (case map_of overrides n of Some v \<Rightarrow> v | None \<Rightarrow> n))"

text \<open>The three names are chosen before any of them is put into the scope of the package.\<close>

definition new_type_names :: "gen_lib \<Rightarrow> string list \<Rightarrow> gen_state \<Rightarrow> type_names outcome \<times> gen_state" where
  "new_type_names lib names g =
     (let gen = (\<lambda>suffix what. wrap_outcome (''cannot generate '' @ what @ '' type name of '' @ field_path lib names)
                  (lift_sum (generate_type_name suffix (g_names g) (override_field_names (g_cfg g)) names))) in
      then_go (gen ''Parameters'' ''parameters'', g) (\<lambda>p g.
      then_go (gen ''InitParameters'' ''init parameters'', g) (\<lambda>i g.
      then_go (gen ''Observation'' ''observation'', g) (\<lambda>w g.
        (Done \<lparr>param_name = p, init_name = i, obs_name = w\<rparr>, g\<lparr>g_names := g_names g @ [p, i, w]\<rparr>)))))"

section \<open>Fields\<close>

text \<open>Of the element a field keeps whether it is a scalar schema or a resource.\<close>

record gen_field =
  gf_flags :: sch_flags
  gf_scalar_elem :: bool
  gf_resource_elem :: bool
  gf_name :: name_variants
  gf_comment :: comment
  gf_tf_tag :: tag_value
  gf_json_tag :: tag_value
  gf_camel :: string
  gf_tf_paths :: "string list"
  gf_crd_paths :: "string list"
  gf_canonical :: "string list"
  gf_type :: gtype
  gf_init_type :: "gtype option"
  gf_blocks_mode :: bool
  gf_reference :: "reference option"
  gf_transformed :: string
  gf_selector :: string
  gf_identifier :: bool
  gf_required :: bool
  gf_injected :: bool
  gf_sensitive :: bool

definition is_init :: "gen_field \<Rightarrow> bool" where
  "is_init f \<longleftrightarrow> \<not> gf_identifier f \<and> (\<not> always_omitted (gf_tf_tag f) \<or> gf_injected f \<or> gf_sensitive f)"

definition both_tags :: "tag_value \<Rightarrow> tag_value \<Rightarrow> string" where
  "both_tags j t = tag_string j @ '' '' @ tag_string t"

subsection \<open>Documentation\<close>

text \<open>\<open>\(([^)]+)\)\<close>\<close>

function find_parens :: "string \<Rightarrow> string list" where
  "find_parens [] = []"
| "find_parens (c # s) =
     (if c = CHR ''('' \<and> takeWhile (\<lambda>x. x \<noteq> CHR '')'') s \<noteq> [] \<and> dropWhile (\<lambda>x. x \<noteq> CHR '')'') s \<noteq> []
      then (''('' @ takeWhile (\<lambda>x. x \<noteq> CHR '')'') s @ '')'') # find_parens (tl (dropWhile (\<lambda>x. x \<noteq> CHR '')'') s))
      else find_parens s)"
  by pat_completeness auto

termination
  by (relation "measure length") (auto simp: le_imp_less_Suc le_trans [OF diff_le_self] length_dropWhile_le)

text \<open>The index of the dash is one of the text before it was trimmed; a slice beyond the end panics.\<close>

definition after_dash :: "string \<Rightarrow> string option" where
  "after_dash s =
     (let t = trim_space s; i = (if CHR ''-'' \<in> set s then Suc (length (takeWhile (\<lambda>c. c \<noteq> CHR ''-'') s)) else 0) in
      if i \<le> length t then Some (drop i t) else None)"

definition get_description :: "string \<Rightarrow> string option" where
  "get_description s =
     (case after_dash s of
        None \<Rightarrow> None
      | Some t \<Rightarrow>
          Some (trim_space (fold (\<lambda>m t. if has_prefix (to_lower m) ''(optional'' \<or> has_prefix (to_lower m) ''(required''
                                       then replace_all t m '''' else t) (find_parens t) t)))"

definition longer_suffix :: "string \<Rightarrow> string \<Rightarrow> string \<Rightarrow> string" where
  "longer_suffix h k match = (if has_suffix h k \<and> length match < length k then k else match)"

definition get_doc_string :: "gen_lib \<Rightarrow> resource_cfg \<Rightarrow> string \<Rightarrow> string list \<Rightarrow> string outcome" where
  "get_doc_string lib cfg snake tf_path =
     (let h = (if tf_path = [] then snake else field_path lib (tf_path @ [snake])) in
      case argument_docs cfg of
        None \<Rightarrow> Done ''''
      | Some docs \<Rightarrow>
          let describe = (\<lambda>s. case get_description s of None \<Rightarrow> Crashed | Some d \<Rightarrow> Done d) in
          (case map_of docs h of
             Some s \<Rightarrow> describe s
           | None \<Rightarrow>
               let keys = sort (map fst docs);
                   terminal = filter (\<lambda>k. last (split_on (CHR ''.'') k) = snake) keys;
                   match = (if terminal \<noteq> [] \<and> snake \<noteq> '''' then last terminal else fold (longer_suffix h) keys '''') in
               if match = '''' then Done '''' else describe (case map_of docs match of Some s \<Rightarrow> s | None \<Rightarrow> '''')))"

subsection \<open>Server-side apply markers\<close>

definition scalar_elem :: "sch_elem \<Rightarrow> bool" where
  "scalar_elem el \<longleftrightarrow> (case el of Schema_elem s \<Rightarrow> scalar_type (s_type (flags s)) | _ \<Rightarrow> False)"

definition on_ssa :: "(ssa_options \<Rightarrow> ssa_options) \<Rightarrow> gen_field \<Rightarrow> gen_field" where
  "on_ssa h f = f\<lparr>gf_comment := (gf_comment f)\<lparr>cm_ssa := h (cm_ssa (gf_comment f))\<rparr>\<rparr>"

definition on_kube :: "(kube_options \<Rightarrow> kube_options) \<Rightarrow> gen_field \<Rightarrow> gen_field" where
  "on_kube h f = f\<lparr>gf_comment := (gf_comment f)\<lparr>cm_kube := h (cm_kube (gf_comment f))\<rparr>\<rparr>"

definition add_server_side_apply_markers :: "gen_field \<Rightarrow> gen_field" where
  "add_server_side_apply_markers f =
     (if s_sensitive (gf_flags f) \<or> \<not> gf_scalar_elem f then f
      else if s_type (gf_flags f) = Map_s then on_ssa (\<lambda>k. k\<lparr>ssa_map_type := Some ''granular''\<rparr>) f
      else if s_type (gf_flags f) = Set_s then on_ssa (\<lambda>k. k\<lparr>ssa_list_type := Some ''set''\<rparr>) f
      else f)"

definition tf_omitted :: tag_value where
  "tf_omitted = \<lparr>key = KeyTF, name = '''', omit_policy = OmitAlways, inline = False\<rparr>"

definition set_injected_field :: "string \<Rightarrow> string \<Rightarrow> merge_strategy \<Rightarrow> gen_field \<Rightarrow> bool \<times> gen_field" where
  "set_injected_field fp k s f =
     (if fp \<noteq> k @ ''.'' @ ij_key (ms_injected s) then (False, f)
      else
        let f = (if ij_default (ms_injected s) \<noteq> '''' then on_kube (\<lambda>x. x\<lparr>ko_default := Some (ij_default (ms_injected s))\<rparr>) f else f) in
        (True, f\<lparr>gf_tf_tag := tf_omitted, gf_injected := True\<rparr>))"

definition invalid_ssa :: "string \<Rightarrow> string \<Rightarrow> string \<Rightarrow> gerror" where
  "invalid_ssa k t w =
     Plain (''invalid server-side apply merge strategy configuration: Field schema for '' @ go_quote k @ '' is of type '' @
       go_quote t @ '' and the specified configuration must only set '' @ go_quote w)"

definition marker_of :: "string \<Rightarrow> merge_strategy \<Rightarrow> gen_field \<Rightarrow> gerror + gen_field" where
  "marker_of k s f =
     (let t = s_type (gf_flags f) in
      if t = List_s \<or> t = Set_s then
        (if ms_list s = '''' \<or> ms_map s \<noteq> '''' \<or> ms_struct s \<noteq> '''' then Inl (invalid_ssa k ''list'' ''ListMergeStrategy'')
         else
           let f = on_ssa (\<lambda>x. x\<lparr>ssa_list_type := Some (ms_list s)\<rparr>) f;
               keys = ms_keys s @ (if ij_key (ms_injected s) \<noteq> '''' then [ij_key (ms_injected s)] else []) in
           if ms_list s \<noteq> ''map'' then Inr f
           else if keys = [] then
             Inl (Plain (''server-side apply merge strategy configuration for '' @ go_quote k @
               '' belongs to a list of type map but list map keys configuration is missing''))
           else Inr (on_ssa (\<lambda>x. x\<lparr>ssa_list_map_key := keys\<rparr>) f))
      else if t = Map_s then
        (if ms_map s = '''' \<or> ms_list s \<noteq> '''' \<or> ms_struct s \<noteq> '''' then Inl (invalid_ssa k ''map'' ''MapMergeStrategy'')
         else Inr (on_ssa (\<lambda>x. x\<lparr>ssa_map_type := Some (ms_map s)\<rparr>) f))
      else Inl (Plain (''cannot configure the server-side apply merge strategy for '' @ go_quote k @
             '': Configuration can only be specified for lists, sets or maps'')))"

fun markers_from :: "string \<Rightarrow> (string \<times> merge_strategy) list \<Rightarrow> gen_field \<Rightarrow> gerror + gen_field" where
  "markers_from fp [] f = Inr f"
| "markers_from fp ((k, s) # ss) f =
     (case set_injected_field fp k s f of
        (injected, f) \<Rightarrow>
          if injected \<or> k \<noteq> fp then markers_from fp ss f
          else (case marker_of k s f of Inl e \<Rightarrow> Inl e | Inr f \<Rightarrow> markers_from fp ss f))"

definition add_server_side_apply_markers_from_config :: "resource_cfg \<Rightarrow> gen_field \<Rightarrow> gerror + gen_field" where
  "add_server_side_apply_markers_from_config cfg f =
     (if s_sensitive (gf_flags f) then Inr f
      else markers_from (trim_suffix (replace_all (join_with ''.'' (gf_tf_paths f)) ''.*.'' ''.'') ''.*'') (merge_strategies cfg) f)"

section \<open>Fields of structs\<close>

subsection \<open>References\<close>

definition common_type :: "string \<Rightarrow> gtype" where
  "common_type n = Named_g ''github.com/crossplane/crossplane/apis/v2/core/v2'' n"

text \<open>The name after the last dot and the directory before it; a path without a directory panics.\<close>

definition friendly_type_description :: "string \<Rightarrow> string option" where
  "friendly_type_description path =
     (if CHR ''.'' \<notin> set path then Some path
      else
        let type_name = last (split_on (CHR ''.'') path); dirs = split_on (CHR ''/'') path in
        if length dirs < 2 then None else Some (type_name @ '' in '' @ dirs ! (length dirs - 2)))"

definition optional_comment :: string where
  "optional_comment = build_comment ((plain_comment '''')\<lparr>cm_kube := no_kube_options\<lparr>ko_required := Some False\<rparr>\<rparr>)"

definition is_slice :: "gtype \<Rightarrow> bool" where
  "is_slice t \<longleftrightarrow> (case t of Slice_g _ \<Rightarrow> True | _ \<Rightarrow> False)"

text \<open>The fields and tags of a reference and its selector, and the field with their names.\<close>

definition generate_reference_fields ::
  "gen_lib \<Rightarrow> string \<Rightarrow> reference \<Rightarrow> gen_field \<Rightarrow> gen_state \<Rightarrow>
     (((string \<times> gtype) list \<times> string list) \<times> gen_field) outcome \<times> gen_state" where
  "generate_reference_fields lib t ref f g =
     (let many = is_slice (gf_type f); cluster = (g_crd_scope g = Cluster_scope);
          rfn = reference_field_name (name_lib lib) (name_acronyms lib) (gf_name f) many (ref_field ref);
          sfn = selector_field_name (name_lib lib) (name_acronyms lib) (gf_name f) (ref_selector ref);
          tag = (\<lambda>n. ''json:\"'' @ lower_camel_computed n @ '',omitempty\" tf:\"-\"'');
          rt = common_type (if cluster then ''Reference'' else ''NamespacedReference'');
          st = common_type (if cluster then ''Selector'' else ''NamespacedSelector'') in
      case friendly_type_description (ref_type ref) of
        None \<Rightarrow> (Crashed, g)
      | Some d \<Rightarrow>
          let tail = d @ '' to populate '' @ lower_camel_computed (gf_name f) @ ''.'' @ new_line @ optional_comment;
              rc = (if many then ''// References to '' else ''// Reference to a '') @ tail;
              sc = (if many then ''// Selector for a list of '' else ''// Selector for a '') @ tail in
          (Done (([(camel_name rfn, (if many then Slice_g rt else Ptr_g rt)), (camel_name sfn, Ptr_g st)], [tag rfn, tag sfn]),
                 f\<lparr>gf_transformed := lower_camel_computed rfn, gf_selector := lower_camel_computed sfn\<rparr>),
           add_field_comment t (camel_name sfn) sc (add_field_comment t (camel_name rfn) rc g)))"

definition add_reference_fields :: "gen_lib \<Rightarrow> string \<Rightarrow> gen_field \<Rightarrow> bool \<Rightarrow> gen_state \<Rightarrow> gen_field outcome \<times> gen_state" where
  "add_reference_fields lib t f in_init g =
     (case gf_reference f of
        None \<Rightarrow> (Done f, g)
      | Some ref \<Rightarrow>
          then_go (generate_reference_fields lib t ref f g) (\<lambda>((fs, ts), f) g.
            (Done f, on_struct (\<lambda>r. if in_init
               then r\<lparr>init_tags := init_tags r @ ts, init_fields := init_fields r @ fs\<rparr>
               else r\<lparr>param_tags := param_tags r @ ts, param_fields := param_fields r @ fs\<rparr>) g)))"

subsection \<open>Parameters, init parameters and observation\<close>

definition required_by_schema :: "gen_field \<Rightarrow> bool" where
  "required_by_schema f \<longleftrightarrow> (\<not> s_optional (gf_flags f) \<and> \<not> s_computed (gf_flags f)) \<or> gf_required f"

text \<open>A required field at the top level that is no identifier is checked by a rule instead.\<close>

definition required_by_rule :: "gen_field \<Rightarrow> bool" where
  "required_by_rule f \<longleftrightarrow> required_by_schema f \<and> \<not> gf_identifier f \<and> length (gf_canonical f) = 1"

definition add_parameter_field :: "gen_field \<Rightarrow> string \<times> gtype \<Rightarrow> resource_fields \<Rightarrow> gen_field \<times> resource_fields" where
  "add_parameter_field f fd r =
     (let req = required_by_schema f \<and> \<not> required_by_rule f;
          r = (if required_by_rule f
               then r\<lparr>required_params := required_params r @ [(gf_transformed f, \<not> always_omitted (gf_tf_tag f))]\<rparr> else r);
          j = (if req then no_omit (gf_json_tag f) else gf_json_tag f) in
      (on_kube (\<lambda>k. k\<lparr>ko_required := Some (req \<and> \<not> is_init f)\<rparr>) f,
       r\<lparr>param_tags := param_tags r @ [both_tags j (gf_tf_tag f)], param_fields := param_fields r @ [fd]\<rparr>))"

definition overridden_tag :: "tag_value \<Rightarrow> tag_value option \<Rightarrow> string" where
  "overridden_tag t ov = (case override_from (Some t) ov of Some v \<Rightarrow> tag_string v | None \<Rightarrow> ''<nil>'')"

definition add_init_field ::
  "gen_lib \<Rightarrow> gen_field \<Rightarrow> string \<times> gtype \<Rightarrow> string \<Rightarrow> init_overrides \<Rightarrow> gen_state \<Rightarrow> gen_field outcome \<times> gen_state" where
  "add_init_field lib f fd t ov g =
     (if \<not> is_init f then (Done f, g)
      else
        let fd = (case gf_init_type f of None \<Rightarrow> fd | Some it \<Rightarrow> (camel_name (gf_name f), it));
            tags = overridden_tag (gf_json_tag f) (io_json_tag ov) @ '' '' @ overridden_tag (gf_tf_tag f) (io_tf_tag ov) in
        add_reference_fields lib t f True
          (on_struct (\<lambda>r. r\<lparr>init_tags := init_tags r @ [tags], init_fields := init_fields r @ [fd]\<rparr>) g))"

definition add_observation_field :: "gen_field \<Rightarrow> string \<times> gtype \<Rightarrow> resource_fields \<Rightarrow> resource_fields" where
  "add_observation_field f fd r =
     (if fst fd \<in> fst ` set (obs_fields r) then r
      else r\<lparr>obs_fields := obs_fields r @ [fd], obs_tags := obs_tags r @ [both_tags (gf_json_tag f) (gf_tf_tag f)]\<rparr>)"

definition no_overrides :: init_overrides where
  "no_overrides = \<lparr>io_tf_tag = None, io_json_tag = None, io_kube = None\<rparr>"

text \<open>The comments of the field in the three types; the markers of a map list stay out of the observation.\<close>

definition comment_in_observation :: "bool \<Rightarrow> comment \<Rightarrow> comment" where
  "comment_in_observation explicit c =
     (if explicit then comment_without_options c
      else c\<lparr>cm_reference := no_reference,
             cm_ssa := (if ssa_list_type (cm_ssa c) = Some ''map''
                        then (cm_ssa c)\<lparr>ssa_list_type := None, ssa_list_map_key := []\<rparr> else cm_ssa c),
             cm_kube := (cm_kube c)\<lparr>ko_default := None\<rparr>\<rparr>)"

definition add_comments :: "type_names \<Rightarrow> gen_field \<Rightarrow> bool \<Rightarrow> init_overrides \<Rightarrow> gen_state \<Rightarrow> gen_state" where
  "add_comments tn f explicit ov g =
     (let f = (if is_init f then on_kube (\<lambda>k. k\<lparr>ko_required := Some False\<rparr>) f else f);
          g = add_field_comment (param_name tn) (gf_camel f) (build_comment (gf_comment f)) g;
          c = gf_comment (on_kube (\<lambda>k. k\<lparr>ko_required := None\<rparr>) f);
          g = add_field_comment (init_name tn) (gf_camel f) (build_comment (c\<lparr>cm_kube := override_kube (cm_kube c) (io_kube ov)\<rparr>)) g in
      add_field_comment (obs_name tn) (gf_camel f) (build_comment (comment_in_observation explicit c)) g)"

text \<open>A tag that comes from a marker is shared with the options of the comment.\<close>

definition unomitted :: "gen_field \<Rightarrow> gen_field" where
  "unomitted f =
     (let t = set_omit NotOmitted (gf_tf_tag f); c = gf_comment f in
      f\<lparr>gf_tf_tag := t,
        gf_comment := (case field_tf_tag (cm_upjet c) of
                         None \<Rightarrow> c | Some _ \<Rightarrow> c\<lparr>cm_upjet := (cm_upjet c)\<lparr>field_tf_tag := Some t\<rparr>\<rparr>)\<rparr>)"

text \<open>Tags from the markers of the documentation win over the generated ones.\<close>

definition add_to_resource :: "gen_lib \<Rightarrow> type_names \<Rightarrow> element_option \<Rightarrow> gen_field \<Rightarrow> gen_state \<Rightarrow> unit outcome \<times> gen_state" where
  "add_to_resource lib tn opt f g =
     (let explicit = add_to_observation opt;
          ov = (case init_provider_overrides opt of None \<Rightarrow> no_overrides | Some w \<Rightarrow> w);
          f = (case field_json_tag (cm_upjet (gf_comment f)) of None \<Rightarrow> f | Some t \<Rightarrow> f\<lparr>gf_json_tag := t\<rparr>);
          fd = (gf_camel f, gf_type f);
          g = (if explicit then on_struct (add_observation_field f fd) g else g);
          f = (case field_tf_tag (cm_upjet (gf_comment f)) of None \<Rightarrow> f | Some t \<Rightarrow> f\<lparr>gf_tf_tag := t\<rparr>);
          g = (if (\<not> always_omitted (gf_tf_tag f) \<or> gf_injected f) \<and> \<not> explicit then on_struct (add_observation_field f fd) g else g) in
      then_go
        (if is_observation (gf_flags f) then (Done f, g)
         else
           let f = (if gf_blocks_mode f then unomitted f else f);
               (f, r) = add_parameter_field f fd (g_struct g) in
           add_init_field lib f fd (init_name tn) ov (g\<lparr>g_struct := r\<rparr>))
        (\<lambda>f g. then_go (add_reference_fields lib (param_name tn) f False g)
          (\<lambda>f g. (Done (), add_comments tn f explicit ov g))))"

section \<open>Types\<close>

definition sanitize_path :: "string \<Rightarrow> string" where
  "sanitize_path p =
     (if p \<in> {''true'', ''false'', ''null'', ''in'', ''as'', ''break'', ''const'', ''continue'', ''else'', ''for'', ''function'',
              ''if'', ''import'', ''let'', ''loop'', ''package'', ''namespace'', ''return'', ''var'', ''void'', ''while''}
      then ''__'' @ p @ ''__'' else p)"

definition validation_rule :: "string \<times> bool \<Rightarrow> string" where
  "validation_rule e =
     (let p = fst e; sp = sanitize_path p in
      new_line @ ''// +kubebuilder:validation:XValidation:rule=\"!('' @
        join_with '' || '' (map (\<lambda>w. [CHR 0x27] @ w @ [CHR 0x27] @ '' in self.managementPolicies'') [''*'', ''Create'', ''Update'']) @
        '') || has(self.forProvider.'' @ sp @
        (if snd e then '') || (has(self.initProvider) && has(self.initProvider.'' @ sp @ ''))'' else '')'') @
        ''\",message=\"spec.forProvider.'' @ p @ '' is a required parameter\"'')"

text \<open>\<open>types.NewStruct\<close> panics on two fields of one name.\<close>

definition add_type :: "string \<Rightarrow> (string \<times> gtype) list \<Rightarrow> string list \<Rightarrow> gen_state \<Rightarrow> unit outcome \<times> gen_state" where
  "add_type n fs ts g =
     (if distinct (map fst fs) then (Done (), g\<lparr>g_types := g_types g @ [\<lparr>gt_name = n, gt_fields = fs, gt_tags = ts\<rparr>]\<rparr>)
      else (Crashed, g))"

definition add_to_builder :: "type_names \<Rightarrow> gen_state \<Rightarrow> unit outcome \<times> gen_state" where
  "add_to_builder tn g =
     (let r = g_struct g in
      then_go (add_type (param_name tn) (param_fields r) (param_tags r) g) (\<lambda>_ g.
      then_go (add_type (init_name tn) (init_fields r) (init_tags r) g) (\<lambda>_ g.
      then_go (add_type (obs_name tn) (obs_fields r) (obs_tags r) g) (\<lambda>_ g.
        (Done (), g\<lparr>g_rules := g_rules g @ concat (map validation_rule (required_params r))\<rparr>)))))"

end
