(* ===== verification/TypeBuilder.thy ===== *)
theory TypeBuilder
  imports GeneratedFields
begin

text \<open>
  The builder of Go types from a Terraform schema (\<open>pkg/types/builder.go\<close>, \<open>pkg/types/field.go\<close>): the
  recursion over the schema, in the order of the sorted field names.
\<close>

section \<open>Injected list map keys\<close>

definition injected_schema :: "injected_key \<Rightarrow> sch" where
  "injected_schema k =
     Sch \<lparr>s_type = String_s, s_optional = False, s_required = True, s_computed = False, s_sensitive = False,
          s_min_items = 0, s_max_items = 0, s_attr_mode = False,
          s_description = (if ij_description k \<noteq> '''' then ij_description k
            else ''This is an injected field with a default value for being able to merge items of the parent object list.''),
          s_deprecated = '''',
          s_default = (if ij_default k \<noteq> '''' then Some (Str_v (ij_default k)) else None)\<rparr> No_elem"

definition inject_at :: "string \<Rightarrow> injected_key \<Rightarrow> sch_resource \<Rightarrow> sch_resource outcome" where
  "inject_at f k r =
     (case get_schema (Some r) f of
        None \<Rightarrow> Failed (Plain (''cannot find the Terraform schema for the argument at the path '' @ go_quote f))
      | Some s \<Rightarrow>
          if s_type (flags s) \<noteq> List_s \<and> s_type (flags s) \<noteq> Set_s then
            Failed (Plain (''fieldpath '' @ go_quote f @ '' is not a Terraform list or set''))
          else (case elem s of
                  Resource_elem (Res m fn) \<Rightarrow>
                    if map_of (own_schema (Res m fn)) (ij_key k) \<noteq> None then
                      Failed (Plain (''element schema for the object list '' @ go_quote f @ '' already contains the argument key '' @ go_quote (ij_key k)))
                    else (case m of
                            None \<Rightarrow> Crashed
                          | Some m \<Rightarrow>
                              Done (change_at (split_on (CHR ''.'') f)
                                (\<lambda>s. Sch (flags s) (Resource_elem (Res (Some (m @ [(ij_key k, injected_schema k)])) fn))) r))
                | _ \<Rightarrow> Failed (Plain (''fieldpath '' @ go_quote f @
                         '' is a Terraform list or set but its element type is not a Terraform *schema.Resource''))))"

fun inject_keys :: "(string \<times> merge_strategy) list \<Rightarrow> sch_resource option \<Rightarrow> sch_resource option outcome" where
  "inject_keys [] r = Done r"
| "inject_keys ((f, s) # ss) r =
     (if ms_list s \<noteq> ''map'' then inject_keys ss r
      else if ij_key (ms_injected s) = '''' \<and> ms_keys s = [] then
        Failed (Plain (''list map keys configuration for the object list '' @ go_quote f @ '' is empty''))
      else if ij_key (ms_injected s) = '''' then inject_keys ss r
      else (case r of
              None \<Rightarrow> Failed (Plain (''cannot find the Terraform schema for the argument at the path '' @ go_quote f))
            | Some r \<Rightarrow> and_then (inject_at f (ms_injected s) r) (\<lambda>r. inject_keys ss (Some r))))"

definition is_resource :: "sch_elem \<Rightarrow> bool" where
  "is_resource el \<longleftrightarrow> (case el of Resource_elem _ \<Rightarrow> True | _ \<Rightarrow> False)"

section \<open>Steps of a field\<close>

text \<open>The field before its type is known.\<close>

definition start_field ::
  "gen_lib \<Rightarrow> resource_cfg \<Rightarrow> sch_flags \<Rightarrow> sch_elem \<Rightarrow> string \<Rightarrow> string list \<Rightarrow> string list \<Rightarrow> string list \<Rightarrow> bool \<Rightarrow> gen_field outcome" where
  "start_field lib cfg a el snake tf_path xp_path names blocks =
     (let n = field_name lib snake in
      and_then (get_doc_string lib cfg snake tf_path) (\<lambda>doc.
        let text = filter_description ((if doc = '''' then '''' else doc @ new_line) @ s_description a) ''terraform'' in
        and_then (wrap_outcome (''cannot build comment for description: '' @ text) (lift_sum (new_comment text []))) (\<lambda>c.
          case (new_tf [WithName (snake_name n), WithOmit OmitEmpty],
                new_json [WithName (lower_camel_computed n), WithOmit OmitEmpty]) of
            (Inr t, Inr j) \<Rightarrow>
              Done \<lparr>gf_flags = a, gf_scalar_elem = scalar_elem el, gf_resource_elem = is_resource el, gf_name = n, gf_comment = c, gf_tf_tag = t, gf_json_tag = j,
                gf_camel = camel_name n, gf_tf_paths = tf_path @ [snake_name n], gf_crd_paths = xp_path @ [lower_camel_computed n],
                gf_canonical = tl names @ [camel_name n], gf_type = Basic_g '''', gf_init_type = None, gf_blocks_mode = blocks,
                gf_reference = None, gf_transformed = lower_camel_computed n, gf_selector = '''',
                gf_identifier = (snake \<in> set (rc_identifier_fields cfg)), gf_required = (snake \<in> set (required_fields cfg)),
                gf_injected = False, gf_sensitive = False\<rparr>
          | _ \<Rightarrow> Crashed)))"

definition note_ignored :: "gen_lib \<Rightarrow> gen_field \<Rightarrow> resource_cfg \<Rightarrow> resource_cfg" where
  "note_ignored lib f cfg =
     (let p = field_path lib (gf_tf_paths f); c = field_path lib (gf_canonical f);
          cfg = fold (\<lambda>i cfg. if i = p then add_ignored_canonical_fields c cfg else cfg) (ignored_fields cfg) cfg in
      fold (\<lambda>i cfg. if i = p then add_conditional_ignored_canonical_fields c cfg else cfg) (conditional_ignored_fields cfg) cfg)"

definition finish_field :: "gen_field \<Rightarrow> gen_state \<Rightarrow> gen_field outcome \<times> gen_state" where
  "finish_field f g =
     (wrap_outcome ''cannot add the server-side apply merge strategy markers for the field''
        (lift_sum (add_server_side_apply_markers_from_config (g_cfg g) (add_server_side_apply_markers f))), g)"

primrec basic_type :: "sch_type \<Rightarrow> gtype option" where
  "basic_type Bool_s = Some (Basic_g ''bool'')"
| "basic_type Float_s = Some (Basic_g ''float64'')"
| "basic_type Int_s = Some (Basic_g ''int64'')"
| "basic_type String_s = Some (Basic_g ''string'')"
| "basic_type Invalid_s = None"
| "basic_type List_s = None"
| "basic_type Map_s = None"
| "basic_type Set_s = None"
| "basic_type Dynamic_s = None"
| "basic_type Object_s = None"

definition dynamic_type :: gtype where
  "dynamic_type = Ptr_g (Named_g ''k8s.io/apiextensions-apiserver/pkg/apis/apiextensions/v1'' ''JSON'')"

text \<open>A collection, map or object of elements of a type.\<close>

definition collection :: "bool \<Rightarrow> sch_type \<Rightarrow> gtype \<Rightarrow> gtype" where
  "collection embedded t el =
     (if embedded \<or> t = Object_s then Ptr_g el
      else if t = Map_s then Map_g (Basic_g ''string'') el else Slice_g el)"

definition with_wildcards :: "bool \<Rightarrow> gen_field \<Rightarrow> gen_field" where
  "with_wildcards embedded f =
     (let t = s_type (gf_flags f) in
      if (t \<noteq> Map_s \<and> t \<noteq> Object_s) \<or> (t = Map_s \<and> gf_resource_elem f)
      then f\<lparr>gf_tf_paths := gf_tf_paths f @ [''*''], gf_crd_paths := (if embedded then gf_crd_paths f else gf_crd_paths f @ [''*''])\<rparr>
      else f)"

section \<open>Sensitive and reference fields\<close>

definition secret_type :: "crd_scope \<Rightarrow> gtype \<Rightarrow> gtype option" where
  "secret_type sc t =
     (let local = (case sc of Namespaced_scope \<Rightarrow> ''Local'' | _ \<Rightarrow> '''');
          sel = common_type (local @ ''SecretKeySelector''); ref = common_type (local @ ''SecretReference'') in
      case sc of
        Other_scope _ \<Rightarrow> None
      | _ \<Rightarrow> Some (if is_slice t then Slice_g sel else case t of Map_g _ _ \<Rightarrow> ref | _ \<Rightarrow> sel))"

definition sensitive_types :: "gtype set" where
  "sensitive_types =
     {Basic_g ''string'', Ptr_g (Basic_g ''string''), Slice_g (Basic_g ''string''), Slice_g (Ptr_g (Basic_g ''string'')),
      Map_g (Basic_g ''string'') (Basic_g ''string''), Map_g (Basic_g ''string'') (Ptr_g (Basic_g ''string''))}"

definition rename_secret_path :: "string list \<Rightarrow> string list option" where
  "rename_secret_path p =
     (if length p < 2 then None else Some (p[length p - 2 := p ! (length p - 2) @ ''SecretRef'']))"

text \<open>What is done with the field once it is built; \<open>None\<close> drops it.\<close>

definition make_sensitive :: "gen_lib \<Rightarrow> gen_field \<Rightarrow> gen_state \<Rightarrow> gen_field option outcome \<times> gen_state" where
  "make_sensitive lib f g =
     (let f = f\<lparr>gf_sensitive := True\<rparr>; tf = field_path_with_wildcard lib (gf_tf_paths f);
          note = (\<lambda>xp g. g\<lparr>g_cfg := add_field_path tf xp (g_cfg g)\<rparr>) in
      if is_observation (gf_flags f) then
        (Done None, note (''status.atProvider.'' @ field_path_with_wildcard lib (gf_crd_paths f)) g)
      else (case (if is_slice (gf_type f) then rename_secret_path (gf_crd_paths f) else Some (gf_crd_paths f)) of
              None \<Rightarrow> (Crashed, g)
            | Some ps \<Rightarrow>
                let g = note (field_path_with_wildcard lib ps @ (if is_slice (gf_type f) then '''' else ''SecretRef'')) g;
                    f = f\<lparr>gf_crd_paths := ps\<rparr> in
                if gf_type f \<notin> sensitive_types then
                  (Failed (Plain (''got type '' @ go_quote (gtype_string (g_package g) (gf_type f)) @ '' for field '' @ go_quote (gf_camel f) @
                     '', only types \"string\", \"*string\", []string, []*string, \"map[string]string\" and \"map[string]*string\" supported as sensitive'')), g)
                else (case secret_type (g_crd_scope g) (gf_type f) of
                        None \<Rightarrow> (Failed (Plain (''Invalid CRD scope '' @
                                   (case g_crd_scope g of Other_scope s \<Rightarrow> go_quote s | _ \<Rightarrow> ''''))), g)
                      | Some t \<Rightarrow>
                          let camel = gf_camel f @ ''SecretRef'';
                              tn = lower_camel_computed (new_from_camel (name_lib lib) (name_acronyms lib) camel) in
                          (case new_json [WithName tn] of
                             Inl e \<Rightarrow> (Crashed, g)
                           | Inr j \<Rightarrow>
                               let opt = s_optional (gf_flags f) in
                               (Done (Some (f\<lparr>gf_camel := camel, gf_tf_tag := tf_omitted, gf_transformed := tn,
                                  gf_type := (if opt then Ptr_g t else t),
                                  gf_json_tag := (if opt then set_omit OmitEmpty j else j)\<rparr>)), g)))))"

definition make_reference :: "reference \<Rightarrow> gen_field \<Rightarrow> gen_field" where
  "make_reference ref f =
     f\<lparr>gf_reference := Some ref, gf_comment := (gf_comment f)\<lparr>cm_reference := ref\<rparr>,
       gf_flags := (gf_flags f)\<lparr>s_optional := True\<rparr>, gf_required := False\<rparr>"

section \<open>The recursion over the schema\<close>

lemma size_list_sort: "size_list h (sort_key k xs) = size_list h xs"
proof -
  have "size_list h (insort_key k x ys) = Suc (h x + size_list h ys)" for x ys by (induction ys) auto
  then show ?thesis by (induction xs) auto
qed

text \<open>What needs no recursion: a scalar override comes first, and elements that are no schemas.\<close>

definition with_types :: "bool \<Rightarrow> gen_field \<Rightarrow> gtype \<Rightarrow> gtype \<Rightarrow> gen_field" where
  "with_types emb f el it =
     f\<lparr>gf_type := collection emb (s_type (gf_flags f)) el, gf_init_type := Some (collection emb (s_type (gf_flags f)) it)\<rparr>"

definition flat_type :: "gtype option \<Rightarrow> string \<Rightarrow> gen_field \<Rightarrow> gen_field outcome option" where
  "flat_type override cp f =
     (let t = s_type (gf_flags f) in
      case override of
        Some u \<Rightarrow>
          Some (if scalar_type t then Done (f\<lparr>gf_type := u\<rparr>)
                else Failed (Plain (''field at path '' @ go_quote cp @ '' with Terraform type '' @ sch_type_string t @
                  '' specified for OverrideScalarFieldType is not scalar, only scalar field types can be overridden'')))
      | None \<Rightarrow>
          (case basic_type t of
             Some u \<Rightarrow> Some (Done (f\<lparr>gf_type := Ptr_g u\<rparr>))
           | None \<Rightarrow>
               if t = Dynamic_s then Some (Done (f\<lparr>gf_type := dynamic_type, gf_init_type := Some dynamic_type\<rparr>))
               else if t = Invalid_s then Some (Failed (Plain (''invalid schema type '' @ sch_type_string t)))
               else None))"

definition element_type :: "string \<Rightarrow> sch_type \<Rightarrow> gtype outcome" where
  "element_type shown et =
     (case basic_type et of
        Some u \<Rightarrow> Done u
      | None \<Rightarrow> Failed (Plain (''element type of '' @ shown @
          (if et = Dynamic_s \<or> et = Object_s then '' is basic but not one of known types: '' @ sch_type_string et
           else '' is basic but not one of known basic types''))))"

text \<open>The observation type of a nested parameter is added to the observation of its parent when it has fields.\<close>

definition nested_type :: "bool \<Rightarrow> gen_field \<Rightarrow> type_names \<times> bool \<Rightarrow> gen_state \<Rightarrow> gen_field outcome \<times> gen_state" where
  "nested_type emb f e g =
     (case e of (tn, has_obs) \<Rightarrow>
        if is_observation (gf_flags f) then (Done (with_types emb f (Local_g (obs_name tn)) (Local_g (init_name tn))), g)
        else (Done (with_types emb f (Local_g (param_name tn)) (Local_g (init_name tn))),
              if has_obs
              then on_struct (add_observation_field f
                     (camel_name (gf_name f), collection emb (s_type (gf_flags f)) (Local_g (obs_name tn)))) g
              else g))"

text \<open>What is done with a field of a resource: a sensitive one is no reference.\<close>

definition use_field ::
  "gen_lib \<Rightarrow> type_names \<Rightarrow> sch_flags \<Rightarrow> reference option \<Rightarrow> string \<Rightarrow> gen_field \<Rightarrow> gen_state \<Rightarrow> unit outcome \<times> gen_state" where
  "use_field lib tn a ref cp f g =
     then_go
       (if s_sensitive a then make_sensitive lib f g
        else (Done (Some (case ref of None \<Rightarrow> f | Some ref \<Rightarrow> make_reference ref f)), g))
       (\<lambda>kept g.
         case kept of
           None \<Rightarrow> (Done (), g)
         | Some f \<Rightarrow>
             add_to_resource lib tn
               (case map_of (rc_element_options (g_cfg g)) cp of None \<Rightarrow> no_element_option | Some w \<Rightarrow> w) f g)"

definition reference_at :: "resource_cfg \<Rightarrow> sch_flags \<Rightarrow> string \<Rightarrow> reference option" where
  "reference_at cfg a cp = (if is_observation a then None else map_of (rc_references cfg) cp)"

function build_resource ::
    "gen_lib \<Rightarrow> sch_resource \<Rightarrow> string list \<Rightarrow> string list \<Rightarrow> bool \<Rightarrow> string list \<Rightarrow> gen_state \<Rightarrow> (type_names \<times> bool) outcome \<times> gen_state"
  and build_entries ::
    "gen_lib \<Rightarrow> (string \<times> sch) list \<Rightarrow> type_names \<Rightarrow> string list \<Rightarrow> string list \<Rightarrow> bool \<Rightarrow> string list \<Rightarrow> gen_state \<Rightarrow> unit outcome \<times> gen_state"
  and new_field ::
    "gen_lib \<Rightarrow> sch \<Rightarrow> string \<Rightarrow> string list \<Rightarrow> string list \<Rightarrow> string list \<Rightarrow> bool \<Rightarrow> gen_state \<Rightarrow> gen_field outcome \<times> gen_state"
  and build_element ::
    "gen_lib \<Rightarrow> sch_elem \<Rightarrow> bool \<Rightarrow> gen_field \<Rightarrow> string list \<Rightarrow> gen_state \<Rightarrow> gen_field outcome \<times> gen_state" where
  "build_resource lib (Res m fn) tf xp blocks names g =
     then_go (new_type_names lib names g) (\<lambda>tn g1.
     then_go (build_entries lib (sort_key fst (case m of None \<Rightarrow> [] | Some m \<Rightarrow> m)) tn tf xp blocks names (g1\<lparr>g_struct := no_fields\<rparr>)) (\<lambda>_ g2.
     then_go (add_to_builder tn g2) (\<lambda>_ g3.
       (Done (tn, obs_fields (g_struct g2) \<noteq> []), g3\<lparr>g_struct := g_struct g\<rparr>))))"
| "build_entries lib [] tn tf xp blocks names g = (Done (), g)"
| "build_entries lib ((k, s) # es) tn tf xp blocks names g =
     then_go (new_field lib s k tf xp names blocks g) (\<lambda>f g1.
     then_go (use_field lib tn (flags s) (reference_at (g_cfg g) (flags s) (field_path lib (tf @ [k]))) (field_path lib (tf @ [k])) f g1) (\<lambda>_ g2.
       build_entries lib es tn tf xp blocks names g2))"
| "new_field lib (Sch a el) k tf xp names blocks g =
     then_go (start_field lib (g_cfg g) a el k tf xp names blocks, g) (\<lambda>f g1.
     then_go
       (wrap_go (''cannot infer type from schema of field '' @ snake_name (gf_name f))
         (case flat_type (field_type_override (g_cfg g) (field_path lib (tf @ [k]))) (field_path lib (tf @ [k])) f of
            Some r \<Rightarrow> (r, g1\<lparr>g_cfg := note_ignored lib f (g_cfg g)\<rparr>)
          | None \<Rightarrow>
              build_element lib el (is_embedded (rc_element_options (g_cfg g)) (field_path lib (tf @ [k])))
                (with_wildcards (is_embedded (rc_element_options (g_cfg g)) (field_path lib (tf @ [k]))) f)
                (names @ [camel_name (gf_name f)]) (g1\<lparr>g_cfg := note_ignored lib f (g_cfg g)\<rparr>)))
       finish_field)"
| "build_element lib No_elem emb f names g = (Done (with_types emb f (Basic_g ''string'') (Basic_g ''string'')), g)"
| "build_element lib (Type_elem et) emb f names g =
     then_go (element_type (field_path lib names) et, g) (\<lambda>u g1. (Done (with_types emb f u u), g1))"
| "build_element lib (Schema_elem s) emb f names g =
     then_go (new_field lib s (snake_name (gf_name f)) (gf_tf_paths f) (gf_crd_paths f) names False g)
       (\<lambda>nf g1. (Done (with_types emb f (gf_type nf) (gf_type nf)), g1))"
| "build_element lib (Resource_elem r) emb f names g =
     then_go
       (wrap_go (''cannot infer type from resource schema of element type of '' @ field_path lib names)
         (build_resource lib r (gf_tf_paths f) (gf_crd_paths f) (s_attr_mode (gf_flags f)) names g))
       (nested_type emb f)"
  by pat_completeness auto

termination
  by (relation "measure (\<lambda>x. case x of
       Inl (Inl (lib, r, rest)) \<Rightarrow> size r | Inl (Inr (lib, es, rest)) \<Rightarrow> size_list (size_prod (\<lambda>_. 0) size) es
     | Inr (Inl (lib, s, rest)) \<Rightarrow> size s | Inr (Inr (lib, el, rest)) \<Rightarrow> size el)")
    (simp_all add: size_list_sort split: option.split)

section \<open>The result\<close>

record generated =
  gen_types :: "gen_type list"
  gen_comments :: "string \<times> string \<rightharpoonup> string"
  gen_names :: type_names
  gen_rules :: string

definition new_builder :: "string \<Rightarrow> string list \<Rightarrow> crd_scope \<Rightarrow> resource_cfg \<Rightarrow> gen_state" where
  "new_builder pkg used sc cfg =
     \<lparr>g_package = pkg, g_crd_scope = sc, g_names = used, g_types = [], g_comments = Map.empty, g_rules = '''',
      g_cfg = cfg, g_struct = no_fields\<rparr>"

definition build_types :: "gen_lib \<Rightarrow> gen_state \<Rightarrow> generated outcome \<times> gen_state" where
  "build_types lib g =
     (let cfg = g_cfg g in
      then_go
        (wrap_outcome (''cannot inject server-side apply merge keys for resource '' @ go_quote (rc_name cfg))
           (inject_keys (merge_strategies cfg) (rc_schema cfg)), g)
        (\<lambda>sch g.
          let g = g\<lparr>g_cfg := (g_cfg g)\<lparr>rc_schema := sch\<rparr>\<rparr> in
          case sch of
            None \<Rightarrow> (Crashed, g)
          | Some r \<Rightarrow>
              then_go
                (wrap_go (''cannot build the Types for resource '' @ go_quote (rc_name cfg)) (build_resource lib r [] [] False [rc_kind cfg] g))
                (\<lambda>(tn, _) g. (Done \<lparr>gen_types = g_types g, gen_comments = g_comments g, gen_names = tn, gen_rules = g_rules g\<rparr>, g))))"

end
