(* ===== verification/TypeBuilderFacts.thy ===== *)
theory TypeBuilderFacts
  imports TypeBuilder "HOL-Library.Multiset"
begin

text \<open>
  What holds of the generated types: they do not depend on the order of maps, their names are new
  and different, and sensitive fields are references to secrets in them.
\<close>

section \<open>Independence of the order of maps\<close>

text \<open>The same schema with its maps in the order of their keys, at every level.\<close>

fun sorted_sch :: "sch \<Rightarrow> sch" and sorted_elem :: "sch_elem \<Rightarrow> sch_elem" and sorted_res :: "sch_resource \<Rightarrow> sch_resource" where
  "sorted_sch (Sch a el) = Sch a (sorted_elem el)"
| "sorted_elem (Schema_elem s) = Schema_elem (sorted_sch s)"
| "sorted_elem (Resource_elem r) = Resource_elem (sorted_res r)"
| "sorted_elem el = el"
| "sorted_res (Res m f) = Res (map_option (\<lambda>m. sort_key fst (map (\<lambda>(k, s). (k, sorted_sch s)) m)) m) f"

lemma flags_sorted [simp]: "flags (sorted_sch s) = flags s"
  by (cases s) simp

lemma scalar_sorted [simp]: "scalar_elem (sorted_elem el) = scalar_elem el" "is_resource (sorted_elem el) = is_resource el"
  by (cases el rule: sorted_elem.cases; simp add: scalar_elem_def is_resource_def)+

lemma start_sorted [simp]: "start_field lib cfg a (sorted_elem el) k tf xp names blocks = start_field lib cfg a el k tf xp names blocks"
  unfolding start_field_def scalar_sorted by (rule refl)

lemma sort_map_snd: "sort_key fst (map (\<lambda>(k, x). (k, h x)) m) = map (\<lambda>(k, x). (k, h x)) (sort_key fst m)"
proof -
  have h: "insort_key fst (k, h x) (map (\<lambda>(k, x). (k, h x)) ys) = map (\<lambda>(k, x). (k, h x)) (insort_key fst (k, x) ys)" for k x ys
    by (induction ys) auto
  show ?thesis by (induction m) (auto simp: h)
qed

lemma sort_sorted: "sort_key fst (sort_key fst xs) = sort_key fst xs"
  by (rule sort_key_id_if_sorted) simp

lemma then_go_cong: "p = q \<Longrightarrow> (\<And>x g. h x g = k x g) \<Longrightarrow> then_go p h = then_go q k"
  by (cases "(q, k)" rule: then_go.cases) simp_all

lemma build_sorted:
  shows "build_resource lib (sorted_res r) tf xp blocks names g = build_resource lib r tf xp blocks names g"
    and "build_entries lib (map (\<lambda>(k, s). (k, sorted_sch s)) es) tn tf xp blocks names g = build_entries lib es tn tf xp blocks names g"
    and "new_field lib (sorted_sch s) k tf xp names blocks g = new_field lib s k tf xp names blocks g"
    and "build_element lib (sorted_elem el) emb f names g = build_element lib el emb f names g"
proof (induction lib r tf xp blocks names g and lib es tn tf xp blocks names g and lib s k tf xp names blocks g
    and lib el emb f names g rule: build_resource_build_entries_new_field_build_element.induct)
  case (1 lib m fn tf xp blocks names g)
  show ?case
  proof (cases m)
    case None
    then show ?thesis by simp
  next
    case (Some es)
    then show ?thesis using 1 by (auto simp: sort_map_snd sort_sorted intro!: then_go_cong)
  qed
next
  case (3 lib k s es tn tf xp blocks names g)
  then show ?case by (auto intro!: then_go_cong)
next
  case (4 lib a el k tf xp names blocks g)
  then show ?case by (auto intro!: then_go_cong arg_cong2 [where f = wrap_go] split: option.split)
qed (auto intro!: then_go_cong arg_cong2 [where f = wrap_go])

text \<open>
  C13. The generated types do not depend on the order of a range over a map: two schemas that differ only in the
  order of their maps, at any depth, give the same types, names, comments, rules and errors.
\<close>

theorem build_is_deterministic:
  assumes "sorted_res r = sorted_res r'"
  shows "build_resource lib r tf xp blocks names g = build_resource lib r' tf xp blocks names g"
  using build_sorted(1) [of lib r tf xp blocks names g] build_sorted(1) [of lib r' tf xp blocks names g] assms by simp

text \<open>Maps with the same entries in another order are such schemas.\<close>

lemma sort_key_mset: "mset xs = mset ys \<Longrightarrow> distinct (map fst xs) \<Longrightarrow> sort_key fst xs = sort_key fst (ys :: (string \<times> 'a) list)"
  by (rule sort_key_inj_key_eq) (simp_all add: distinct_map)

lemma reordered_schema:
  assumes "mset m = mset m'" "distinct (map fst m)"
  shows "sorted_res (Res (Some m) f) = sorted_res (Res (Some m') f)"
proof -
  let ?h = "\<lambda>(k, s). (k, sorted_sch s)"
  have "sort_key fst (map ?h m) = sort_key fst (map ?h m')"
    using assms by (intro sort_key_mset) (simp_all add: comp_def case_prod_beta)
  then show ?thesis by simp
qed

section \<open>Names of the types\<close>

text \<open>What the steps of a field leave alone: the types, the scope of the package and the name overrides.\<close>

definition outer :: "gen_state \<Rightarrow> gen_type list \<times> string list \<times> (string \<times> string) list" where
  "outer g = (g_types g, g_names g, override_field_names (g_cfg g))"

lemma outer_simps [simp]:
  "outer (g\<lparr>g_struct := r\<rparr>) = outer g" "outer (on_struct h g) = outer g" "outer (add_field_comment t n c g) = outer g"
  "outer (add_comments tn f ex ov g) = outer g"
  by (simp_all add: outer_def on_struct_def add_field_comment_def add_comments_def Let_def)

lemma outer_cfg: "override_field_names c = override_field_names (g_cfg g) \<Longrightarrow> outer (g\<lparr>g_cfg := c\<rparr>) = outer g"
  by (simp add: outer_def)

lemma overrides_add_field_path [simp]: "override_field_names (add_field_path t x c) = override_field_names c"
  by (simp add: add_field_path_def)

lemma fold_keeps: "(\<And>x s. h (k x s) = h s) \<Longrightarrow> h (fold k xs s) = h s"
  by (induction xs arbitrary: s) auto

lemma overrides_note_ignored [simp]: "override_field_names (note_ignored lib f c) = override_field_names c"
  unfolding note_ignored_def Let_def
  by (simp add: fold_keeps [where h = override_field_names] add_ignored_canonical_fields_def add_conditional_ignored_canonical_fields_def)

lemma outer_generate: "outer (snd (generate_reference_fields lib t ref f g)) = outer g"
  by (simp add: generate_reference_fields_def Let_def split: option.split)

lemma outer_references [simp]: "outer (snd (add_reference_fields lib t f b g)) = outer g"
  by (simp add: add_reference_fields_def then_go_keeps [where h = outer] outer_generate case_prod_beta split: option.split)

lemma outer_init [simp]: "outer (snd (add_init_field lib f fd t ov g)) = outer g"
  unfolding add_init_field_def Let_def by simp

text \<open>Every way through a definition keeps what all its ways keep.\<close>

lemma branches_keep:
  "h (snd p) = k \<Longrightarrow> h (snd q) = k \<Longrightarrow> h (snd (if b then p else q)) = k"
  "h (snd p) = k \<Longrightarrow> (\<And>x. h (snd (F x)) = k) \<Longrightarrow> h (snd (case_option p F w)) = k"
  "(\<And>x. h (snd (G x)) = k) \<Longrightarrow> (\<And>x. h (snd (F' x)) = k) \<Longrightarrow> h (snd (case_sum G F' s)) = k"
  "(\<And>x y. h (snd (H x y)) = k) \<Longrightarrow> h (snd (case_prod H z)) = k"
  by (simp_all split: option.split sum.split prod.split)

lemma outer_if: "outer (if b then x else y) = (if b then outer x else outer y)"
  by simp

lemma outer_add_to_resource [simp]: "outer (snd (add_to_resource lib tn opt f g)) = outer g"
  unfolding add_to_resource_def Let_def
  by (intro then_go_keeps [where h = outer] branches_keep [where h = outer]) (simp_all only: outer_simps outer_if outer_references outer_init if_cancel snd_conv)

lemma outer_sensitive [simp]: "outer (snd (make_sensitive lib f g)) = outer g"
  unfolding make_sensitive_def Let_def
  by (intro branches_keep [where h = outer]) (simp_all only: outer_cfg overrides_add_field_path snd_conv)

lemma outer_use [simp]: "outer (snd (use_field lib tn a ref cp f g)) = outer g"
  unfolding use_field_def
  by (intro then_go_keeps [where h = outer] branches_keep [where h = outer]) (simp_all only: outer_sensitive outer_add_to_resource snd_conv)

lemma outer_finish [simp]: "outer (snd (finish_field f g)) = outer g"
  by (simp add: finish_field_def)

lemma outer_nested [simp]: "outer (snd (nested_type emb f e g)) = outer g"
  by (simp add: nested_type_def split: prod.split)

lemma pick_name_new: "pick_name used n ps = Inr m \<Longrightarrow> m \<notin> set used"
  by (induction used n ps rule: pick_name.induct) (auto simp: find_Some_iff split: if_splits option.splits)

lemma generated_name_new: "generate_type_name suffix used [] names = Inr m \<Longrightarrow> m \<notin> set used"
  by (auto simp: generate_type_name_def split: sum.splits dest: pick_name_new)

definition triple :: "type_names \<Rightarrow> string list" where
  "triple t = [param_name t, init_name t, obs_name t]"

lemma new_names:
  assumes "new_type_names lib names g = (Done t, g')" "override_field_names (g_cfg g) = []"
  shows "g' = g\<lparr>g_names := g_names g @ triple t\<rparr>" "set (triple t) \<inter> set (g_names g) = {}"
  using assms by (auto simp: new_type_names_def Let_def then_go_Done triple_def dest!: generated_name_new)

text \<open>Triples of names that were new when they were chosen, one after the other.\<close>

fun fresh_names :: "string list \<Rightarrow> type_names list \<Rightarrow> bool" where
  "fresh_names used [] = True"
| "fresh_names used (t # ts) = (set (triple t) \<inter> set used = {} \<and> fresh_names (used @ triple t) ts)"

lemma fresh_append: "fresh_names used (ts @ us) = (fresh_names used ts \<and> fresh_names (used @ concat (map triple ts)) us)"
  by (induction ts arbitrary: used) simp_all

lemma fresh_new: "fresh_names used ts \<Longrightarrow> t \<in> set ts \<Longrightarrow> set (triple t) \<inter> set used = {}"
proof (induction ts arbitrary: used)
  case (Cons a ts)
  then show ?case using Cons.IH [of "used @ triple a"] by auto
qed simp

lemma fresh_distinct:
  assumes "fresh_names used ts" "\<And>t. h t \<in> set (triple t)"
  shows "distinct (map h ts)"
  using assms(1)
proof (induction ts arbitrary: used)
  case (Cons t ts)
  have "h t \<noteq> h u" if "u \<in> set ts" for u
    using fresh_new [of "used @ triple t" ts u] Cons.prems that assms(2) [of t] assms(2) [of u] by auto
  with Cons show ?case by auto
qed simp

text \<open>
  What a run adds to the scope of the package and to the types: names in the order in which the structs are
  entered, types in the order in which they are left.
\<close>

definition grows :: "type_names list \<Rightarrow> type_names list \<Rightarrow> gen_state \<Rightarrow> gen_state \<Rightarrow> bool" where
  "grows ts us g g' \<longleftrightarrow>
     mset us = mset ts \<and> fresh_names (g_names g) ts \<and> g_names g' = g_names g @ concat (map triple ts) \<and>
     map gt_name (g_types g') = map gt_name (g_types g) @ concat (map triple us) \<and>
     override_field_names (g_cfg g) = [] \<and> override_field_names (g_cfg g') = []"

definition grown :: "gen_state \<Rightarrow> gen_state \<Rightarrow> bool" where
  "grown g g' \<longleftrightarrow> (\<exists>ts us. grows ts us g g')"

lemma grown_outer: "outer g' = outer g \<Longrightarrow> override_field_names (g_cfg g) = [] \<Longrightarrow> grown g g'"
  by (auto simp: grown_def grows_def outer_def intro!: exI [of _ "[]"])

lemma grown_trans: "grown g g' \<Longrightarrow> grown g' g'' \<Longrightarrow> grown g g''"
proof -
  assume "grown g g'" "grown g' g''"
  then obtain ts us ts' us' where "grows ts us g g'" "grows ts' us' g' g''" by (auto simp: grown_def)
  then have "grows (ts @ ts') (us @ us') g g''" by (auto simp: grows_def fresh_append)
  then show ?thesis by (auto simp: grown_def)
qed

lemma grown_overrides: "grown g g' \<Longrightarrow> override_field_names (g_cfg g') = []"
  by (auto simp: grown_def grows_def)

lemma built_struct:
  assumes "new_type_names lib names g = (Done t, g1)" "override_field_names (g_cfg g) = []"
    "grown (g1\<lparr>g_struct := r\<rparr>) g2" "add_to_builder t g2 = (Done (), g3)"
  shows "\<exists>ts us. grows (t # ts) (us @ [t]) g (g3\<lparr>g_struct := r'\<rparr>)"
proof -
  obtain ts us where ts: "grows ts us (g1\<lparr>g_struct := r\<rparr>) g2" using assms(3) by (auto simp: grown_def)
  have "map gt_name (g_types g3) = map gt_name (g_types g2) @ triple t" "g_names g3 = g_names g2" "g_cfg g3 = g_cfg g2"
    using assms(4) by (auto simp: add_to_builder_def add_type_def then_go_Done Let_def triple_def split: if_splits)
  with ts new_names [OF assms(1,2)] have "grows (t # ts) (us @ [t]) g (g3\<lparr>g_struct := r'\<rparr>)"
    by (simp add: grows_def Int_commute)
  then show ?thesis by blast
qed

lemma build_grows:
  shows "build_resource lib r tf xp blocks names g = (Done (t, b), g') \<Longrightarrow> override_field_names (g_cfg g) = [] \<Longrightarrow>
      \<exists>ts us. grows ts (us @ [t]) g g'"
    and "build_entries lib es tn tf xp blocks names g = (Done u, g') \<Longrightarrow> override_field_names (g_cfg g) = [] \<Longrightarrow> grown g g'"
    and "new_field lib s k tf xp names blocks g = (Done fd, g') \<Longrightarrow> override_field_names (g_cfg g) = [] \<Longrightarrow> grown g g'"
    and "build_element lib el emb f names g = (Done fd, g') \<Longrightarrow> override_field_names (g_cfg g) = [] \<Longrightarrow> grown g g'"
proof (induction lib r tf xp blocks names g and lib es tn tf xp blocks names g and lib s k tf xp names blocks g
    and lib el emb f names g arbitrary: t b g' and u g' and fd g' and fd g'
    rule: build_resource_build_entries_new_field_build_element.induct)
  case (1 lib m fn tf xp blocks names g)
  from 1(2) obtain g1 g2 g3 where run: "new_type_names lib names g = (Done t, g1)"
    "build_entries lib (sort_key fst (case m of None \<Rightarrow> [] | Some m \<Rightarrow> m)) t tf xp blocks names (g1\<lparr>g_struct := no_fields\<rparr>) = (Done (), g2)"
    "add_to_builder t g2 = (Done (), g3)" "g' = g3\<lparr>g_struct := g_struct g\<rparr>"
    by (auto simp: then_go_Done)
  have "g1 = g\<lparr>g_names := g_names g @ triple t\<rparr>" using new_names(1) [OF run(1) 1(3)] .
  then have "grown (g1\<lparr>g_struct := no_fields\<rparr>) g2" using 1(1) [OF run(2)] 1(3) by simp
  from built_struct [OF run(1) 1(3) this run(3)] show ?case using run(4) by blast
next
  case (2 lib tn tf xp blocks names g)
  then show ?case by (auto intro: grown_outer)
next
  case (3 lib k s es tn tf xp blocks names g)
  then obtain f g1 g2 where run: "new_field lib s k tf xp names blocks g = (Done f, g1)"
    "use_field lib tn (flags s) (reference_at (g_cfg g) (flags s) (field_path lib (tf @ [k]))) (field_path lib (tf @ [k])) f g1 = (Done (), g2)"
    "build_entries lib es tn tf xp blocks names g2 = (Done (), g')"
    by (auto simp: then_go_Done)
  have 1: "grown g g1" using 3 run by blast
  have "outer g2 = outer g1"
    using outer_use [of lib tn "flags s" "reference_at (g_cfg g) (flags s) (field_path lib (tf @ [k]))" "field_path lib (tf @ [k])" f g1] run(2) by simp
  with 1 have 2: "grown g g2" by (blast intro: grown_outer grown_trans grown_overrides)
  then have "grown g2 g'" using 3 run by (blast intro: grown_overrides)
  with 2 show ?case by (rule grown_trans)
next
  case (4 lib a el k tf xp names blocks g)
  let ?g1 = "\<lambda>f. g\<lparr>g_cfg := note_ignored lib f (g_cfg g)\<rparr>"
  from 4(2) obtain f fd' g1 where run: "fst (start_field lib (g_cfg g) a el k tf xp names blocks, g) = Done f"
    "(case flat_type (field_type_override (g_cfg g) (field_path lib (tf @ [k]))) (field_path lib (tf @ [k])) f of
            Some r \<Rightarrow> (r, ?g1 f)
          | None \<Rightarrow>
              build_element lib el (is_embedded (rc_element_options (g_cfg g)) (field_path lib (tf @ [k])))
                (with_wildcards (is_embedded (rc_element_options (g_cfg g)) (field_path lib (tf @ [k]))) f)
                (names @ [camel_name (gf_name f)]) (?g1 f)) = (Done fd', g1)"
    "finish_field fd' g1 = (Done fd, g')"
    by (auto simp: then_go_Done)
  have start: "grown g (?g1 f)" by (rule grown_outer) (simp_all add: outer_cfg 4(3))
  have "outer g' = outer g1" using outer_finish [of fd' g1] run(3) by simp
  moreover have "grown g g1"
  proof (cases "flat_type (field_type_override (g_cfg g) (field_path lib (tf @ [k]))) (field_path lib (tf @ [k])) f")
    case None
    with run 4 have "grown (?g1 f) g1" by simp
    with start show ?thesis by (rule grown_trans)
  next
    case (Some r)
    with run start show ?thesis by simp
  qed
  ultimately show ?case by (blast intro: grown_outer grown_trans grown_overrides)
next
  case (5 lib emb f names g)
  then show ?case by (auto intro: grown_outer)
next
  case (6 lib et emb f names g)
  then show ?case by (auto simp: then_go_Done intro: grown_outer)
next
  case (7 lib s emb f names g)
  then show ?case by (auto simp: then_go_Done)
next
  case (8 lib r emb f names g)
  then obtain t b g1 where run: "build_resource lib r (gf_tf_paths f) (gf_crd_paths f) (s_attr_mode (gf_flags f)) names g = (Done (t, b), g1)"
    "nested_type emb f (t, b) g1 = (Done fd, g')"
    by (auto simp: then_go_Done)
  then have 1: "grown g g1" using 8 by (auto simp: grown_def)
  moreover have "outer g' = outer g1" using outer_nested [of emb f "(t, b)" g1] run(2) by simp
  ultimately show ?case by (blast intro: grown_outer grown_trans grown_overrides)
qed

section \<open>Sensitive arguments\<close>

text \<open>
  The types of generated structs inside a type. Only a nested struct is one of them, so such a type is not
  supported for a sensitive argument.
\<close>

fun has_local :: "gtype \<Rightarrow> bool" where
  "has_local (Local_g n) = True"
| "has_local (Ptr_g t) = has_local t"
| "has_local (Slice_g t) = has_local t"
| "has_local (Map_g k t) = (has_local k \<or> has_local t)"
| "has_local (Basic_g n) = False"
| "has_local (Named_g p n) = False"

lemma sensitive_not_local: "t \<in> sensitive_types \<Longrightarrow> \<not> has_local t"
  by (auto simp: sensitive_types_def)

lemma collection_local: "has_local el \<Longrightarrow> has_local (collection emb t el)"
  by (simp add: collection_def)

text \<open>
  Elements for which the observation of the parent gets no field: the objects nested in an element of a
  list are added to it unless their own schema, or the argument itself, is an observation.
\<close>

fun quiet_element :: "bool \<Rightarrow> sch_elem \<Rightarrow> bool" where
  "quiet_element obs (Schema_elem (Sch a el)) = quiet_element (is_observation a) el"
| "quiet_element obs (Resource_elem r) = obs"
| "quiet_element obs el = True"

text \<open>What building an element leaves of the structs of its parent.\<close>

definition parent_kept :: "bool \<Rightarrow> gtype \<Rightarrow> gen_state \<Rightarrow> gen_state \<Rightarrow> bool" where
  "parent_kept quiet t g g' \<longleftrightarrow>
     (has_local t \<or> g_struct g' = g_struct g \<and> g_crd_scope g' = g_crd_scope g) \<and> (quiet \<longrightarrow> g_struct g' = g_struct g) \<and>
     param_fields (g_struct g') = param_fields (g_struct g) \<and> init_fields (g_struct g') = init_fields (g_struct g)"

lemma parent_kept_same: "g_struct g' = g_struct g \<Longrightarrow> g_crd_scope g' = g_crd_scope g \<Longrightarrow> parent_kept quiet t g g'"
  by (simp add: parent_kept_def)

lemma parent_kept_cfg [simp]: "parent_kept quiet t (g\<lparr>g_cfg := c\<rparr>) g' = parent_kept quiet t g g'"
  by (simp add: parent_kept_def)

lemma markers_type: "markers_from p ms f = Inr fd \<Longrightarrow> gf_type fd = gf_type f"
proof (induction p ms f rule: markers_from.induct)
  case (2 fp k s ss f)
  obtain b f1 where set: "set_injected_field fp k s f = (b, f1)" by fastforce
  then have f1: "gf_type f1 = gf_type f"
    by (auto simp: set_injected_field_def on_kube_def Let_def split: if_splits)
  show ?case
  proof (cases "b \<or> k \<noteq> fp")
    case True
    with 2 set f1 show ?thesis by auto
  next
    case False
    with 2(3) set obtain f2 where f2: "marker_of k s f1 = Inr f2" "markers_from fp ss f2 = Inr fd" by (auto split: sum.splits)
    then have "gf_type f2 = gf_type f1" by (auto simp: marker_of_def on_ssa_def Let_def split: if_splits)
    with 2(2) [OF set [symmetric] False f2] f1 show ?thesis by simp
  qed
qed simp

lemma started:
  assumes "start_field lib cfg a el k tf xp names blocks = Done f"
  shows "gf_flags f = a \<and> gf_reference f = None \<and> gf_init_type f = None"
proof -
  from assms obtain c where
    "(case (new_tf [WithName (snake_name (field_name lib k)), WithOmit OmitEmpty],
            new_json [WithName (lower_camel_computed (field_name lib k)), WithOmit OmitEmpty]) of
        (Inr t, Inr j) \<Rightarrow>
          Done \<lparr>gf_flags = a, gf_scalar_elem = scalar_elem el, gf_resource_elem = is_resource el, gf_name = field_name lib k,
            gf_comment = c, gf_tf_tag = t, gf_json_tag = j, gf_camel = camel_name (field_name lib k),
            gf_tf_paths = tf @ [snake_name (field_name lib k)], gf_crd_paths = xp @ [lower_camel_computed (field_name lib k)],
            gf_canonical = tl names @ [camel_name (field_name lib k)], gf_type = Basic_g '''', gf_init_type = None,
            gf_blocks_mode = blocks, gf_reference = None, gf_transformed = lower_camel_computed (field_name lib k),
            gf_selector = '''', gf_identifier = (k \<in> set (rc_identifier_fields cfg)), gf_required = (k \<in> set (required_fields cfg)),
            gf_injected = False, gf_sensitive = False\<rparr>
      | _ \<Rightarrow> Crashed) = Done f"
    by (auto simp: start_field_def Let_def)
  then show ?thesis by (auto split: sum.split_asm)
qed

lemma new_field_from_element:
  assumes elem: "\<And>emb f names g fd g'. build_element lib el emb f names g = (Done fd, g') \<Longrightarrow> gf_flags f = a \<Longrightarrow>
      parent_kept (quiet_element (is_observation (gf_flags f)) el) (gf_type fd) g g' \<and>
      (\<exists>t it. fd = f\<lparr>gf_type := t, gf_init_type := Some it\<rparr>)"
    and run: "new_field lib (Sch a el) k tf xp names blocks g = (Done fd, g')"
  shows "parent_kept (quiet_element (is_observation a) el) (gf_type fd) g g' \<and>
    (s_sensitive a \<longrightarrow> gf_flags fd = a \<and> gf_reference fd = None \<and> (basic_type (s_type a) \<noteq> None \<longrightarrow> gf_init_type fd = None))"
proof -
  let ?cp = "field_path lib (tf @ [k])"
  from run obtain f f1 g1 where start: "start_field lib (g_cfg g) a el k tf xp names blocks = Done f"
    and mid: "(case flat_type (field_type_override (g_cfg g) ?cp) ?cp f of
            Some r \<Rightarrow> (r, g\<lparr>g_cfg := note_ignored lib f (g_cfg g)\<rparr>)
          | None \<Rightarrow>
              build_element lib el (is_embedded (rc_element_options (g_cfg g)) ?cp)
                (with_wildcards (is_embedded (rc_element_options (g_cfg g)) ?cp) f)
                (names @ [camel_name (gf_name f)]) (g\<lparr>g_cfg := note_ignored lib f (g_cfg g)\<rparr>)) = (Done f1, g1)"
    and fin: "finish_field f1 g1 = (Done fd, g')"
    by (auto simp: then_go_Done)
  have f: "gf_flags f = a" "gf_reference f = None" "gf_init_type f = None"
    using started [OF start] by simp_all
  have "g' = g1" and fd: "s_sensitive (gf_flags f1) \<Longrightarrow> fd = f1" "gf_type fd = gf_type f1"
    using fin by (auto simp: finish_field_def add_server_side_apply_markers_def add_server_side_apply_markers_from_config_def
        on_ssa_def on_kube_def dest: markers_type split: if_splits)
  show ?thesis
  proof (cases "flat_type (field_type_override (g_cfg g) ?cp) ?cp f")
    case None
    let ?f = "with_wildcards (is_embedded (rc_element_options (g_cfg g)) ?cp) f"
    have w: "gf_flags ?f = gf_flags f" "gf_reference ?f = gf_reference f" by (simp_all add: with_wildcards_def Let_def)
    from None mid have "build_element lib el (is_embedded (rc_element_options (g_cfg g)) ?cp) ?f
        (names @ [camel_name (gf_name f)]) (g\<lparr>g_cfg := note_ignored lib f (g_cfg g)\<rparr>) = (Done f1, g1)" by simp
    from elem [OF this] w(1) f(1) obtain t it where el: "parent_kept (quiet_element (is_observation a) el) (gf_type f1) g g1"
      "f1 = ?f\<lparr>gf_type := t, gf_init_type := Some it\<rparr>"
      by (auto simp only: parent_kept_cfg)
    from None f have "basic_type (s_type a) = None"
      by (auto simp: flat_type_def Let_def split: option.split_asm if_splits)
    with el f fd w \<open>g' = g1\<close> show ?thesis by simp
  next
    case (Some r)
    with mid have "r = Done f1" "g_struct g1 = g_struct g" "g_crd_scope g1 = g_crd_scope g" by auto
    moreover from this Some have "gf_flags f1 = gf_flags f" "gf_reference f1 = gf_reference f"
      "basic_type (s_type a) \<noteq> None \<longrightarrow> gf_init_type f1 = gf_init_type f"
      using f by (auto simp: flat_type_def Let_def split: option.split_asm if_splits)
    ultimately show ?thesis using f fd \<open>g' = g1\<close> by (simp add: parent_kept_same)
  qed
qed

lemma kept_element:
  "build_element lib el emb f names g = (Done fd, g') \<Longrightarrow>
     parent_kept (quiet_element (is_observation (gf_flags f)) el) (gf_type fd) g g' \<and>
     (\<exists>t it. fd = f\<lparr>gf_type := t, gf_init_type := Some it\<rparr>)"
proof (induction "is_observation (gf_flags f)" el arbitrary: emb f names g fd g' rule: quiet_element.induct)
  case (1 a el)
  from 1(2) obtain nf where run: "new_field lib (Sch a el) (snake_name (gf_name f)) (gf_tf_paths f) (gf_crd_paths f) names False g = (Done nf, g')"
    "fd = with_types emb f (gf_type nf) (gf_type nf)"
    by (auto simp: then_go_Done)
  have "parent_kept (quiet_element (is_observation a) el) (gf_type nf) g g'"
    by (rule conjunct1 [OF new_field_from_element [OF _ run(1)]]) (rule 1(1), simp_all)
  with run(2) show ?case by (auto simp: with_types_def parent_kept_def collection_local)
next
  case (2 r)
  from 2 obtain e g1 where run: "build_resource lib r (gf_tf_paths f) (gf_crd_paths f) (s_attr_mode (gf_flags f)) names g = (Done e, g1)"
    "nested_type emb f e g1 = (Done fd, g')"
    by (auto simp: then_go_Done)
  have "g_struct g1 = g_struct g" using run(1) by (cases r) (auto simp: then_go_Done)
  with run(2) show ?case
    by (cases e) (auto simp: nested_type_def with_types_def parent_kept_def collection_local on_struct_def add_observation_field_def
        split: if_splits)
qed (auto simp: with_types_def then_go_Done parent_kept_same)

lemma kept_field:
  assumes "new_field lib (Sch a el) k tf xp names blocks g = (Done fd, g')"
  shows "parent_kept (quiet_element (is_observation a) el) (gf_type fd) g g' \<and>
    (s_sensitive a \<longrightarrow> gf_flags fd = a \<and> gf_reference fd = None \<and> (basic_type (s_type a) \<noteq> None \<longrightarrow> gf_init_type fd = None))"
  by (rule new_field_from_element [OF kept_element assms])

text \<open>The types of references to secrets in a scope.\<close>

definition secret_forms :: "crd_scope \<Rightarrow> gtype set" where
  "secret_forms sc =
     (let of_scope = (\<lambda>n. common_type ((case sc of Namespaced_scope \<Rightarrow> ''Local'' | _ \<Rightarrow> '''') @ n));
          forms = {of_scope ''SecretKeySelector'', Slice_g (of_scope ''SecretKeySelector''), of_scope ''SecretReference''} in
      forms \<union> Ptr_g ` forms)"

lemma secret_type_form: "secret_type sc t = Some u \<Longrightarrow> u \<in> secret_forms sc \<and> Ptr_g u \<in> secret_forms sc"
  by (cases sc) (auto simp: secret_type_def secret_forms_def Let_def split: if_splits gtype.split_asm)

lemma made_sensitive:
  assumes "make_sensitive lib f g = (Done kept, g')"
  shows "g_struct g' = g_struct g \<and> g_crd_scope g' = g_crd_scope g \<and>
    (case kept of
       None \<Rightarrow> is_observation (gf_flags f)
     | Some fd \<Rightarrow> \<not> is_observation (gf_flags f) \<and> gf_type fd \<in> secret_forms (g_crd_scope g) \<and>
         gf_camel fd = gf_camel f @ ''SecretRef'' \<and> gf_flags fd = gf_flags f \<and> gf_reference fd = gf_reference f \<and>
         gf_init_type fd = gf_init_type f)"
proof (cases "is_observation (gf_flags f)")
  case True
  with assms show ?thesis by (auto simp: make_sensitive_def Let_def)
next
  case False
  with assms show ?thesis
    by (auto simp: make_sensitive_def Let_def secret_type_form split: option.split_asm if_splits sum.split_asm)
qed

lemma made_sensitive_type:
  "make_sensitive lib f g = (Done (Some fd), g') \<Longrightarrow> gf_type f \<in> sensitive_types"
  by (auto simp: make_sensitive_def Let_def split: option.split_asm if_splits sum.split_asm)

lemma comments_keep [simp]:
  "g_struct (add_comments tn f ex ov g) = g_struct g" "g_crd_scope (add_comments tn f ex ov g) = g_crd_scope g"
  by (simp_all add: add_comments_def add_field_comment_def Let_def)

lemma no_references: "gf_reference f = None \<Longrightarrow> add_reference_fields lib t f b g = (Done f, g)"
  by (simp add: add_reference_fields_def)

text \<open>The ways in which the observation gets the field, and the parameters and the init parameters.\<close>

lemma observed_once:
  "obs_fields (add_observation_field f fd r) \<in> {obs_fields r, obs_fields r @ [fd]}"
  "param_fields (add_observation_field f fd r) = param_fields r" "init_fields (add_observation_field f fd r) = init_fields r"
  by (simp_all add: add_observation_field_def)

definition init_field :: "gen_field \<Rightarrow> string \<times> gtype" where
  "init_field f = (case gf_init_type f of None \<Rightarrow> (gf_camel f, gf_type f) | Some it \<Rightarrow> (camel_name (gf_name f), it))"

definition shown_as :: "gen_field \<Rightarrow> reference option \<times> string \<times> gtype \<times> (string \<times> gtype)" where
  "shown_as f = (gf_reference f, gf_camel f, gf_type f, init_field f)"

lemma shown_as_simps [simp]:
  "shown_as (f\<lparr>gf_json_tag := t\<rparr>) = shown_as f" "shown_as (f\<lparr>gf_tf_tag := t\<rparr>) = shown_as f" "shown_as (on_kube h f) = shown_as f"
  "shown_as (unomitted f) = shown_as f"
  by (simp_all add: shown_as_def init_field_def on_kube_def unomitted_def Let_def split: option.split)

lemma added_init:
  assumes "add_init_field lib f (gf_camel f, gf_type f) t ov g = (Done f', g')" "gf_reference f = None"
  shows "f' = f" "g_crd_scope g' = g_crd_scope g" "param_fields (g_struct g') = param_fields (g_struct g)"
    "obs_fields (g_struct g') = obs_fields (g_struct g)"
    "init_fields (g_struct g') \<in> {init_fields (g_struct g), init_fields (g_struct g) @ [init_field f]}"
  using assms by (auto simp: add_init_field_def Let_def no_references on_struct_def init_field_def split: if_splits)

lemma added_parameter:
  assumes "add_parameter_field f fd r = (f', r')"
  shows "param_fields r' = param_fields r @ [fd]" "obs_fields r' = obs_fields r" "init_fields r' = init_fields r"
    "shown_as f' = shown_as f"
  using assms by (auto simp: add_parameter_field_def Let_def)

lemma added_to_resource:
  assumes "add_to_resource lib tn opt f g = (Done (), g')" "gf_reference f = None" "\<not> is_observation (gf_flags f)"
  shows "param_fields (g_struct g') = param_fields (g_struct g) @ [(gf_camel f, gf_type f)] \<and>
    obs_fields (g_struct g') \<in> {obs_fields (g_struct g), obs_fields (g_struct g) @ [(gf_camel f, gf_type f)]} \<and>
    init_fields (g_struct g') \<in> {init_fields (g_struct g), init_fields (g_struct g) @ [init_field f]} \<and>
    g_crd_scope g' = g_crd_scope g"
proof -
  let ?fd = "(gf_camel f, gf_type f)" and ?ex = "add_to_observation opt"
  let ?ov = "case init_provider_overrides opt of None \<Rightarrow> no_overrides | Some w \<Rightarrow> w"
  obtain f1 where f1: "(case field_json_tag (cm_upjet (gf_comment f)) of None \<Rightarrow> f | Some t \<Rightarrow> f\<lparr>gf_json_tag := t\<rparr>) = f1"
    "shown_as f1 = shown_as f" "gf_flags f1 = gf_flags f"
    by (auto split: option.split)
  obtain f2 where f2: "(case field_tf_tag (cm_upjet (gf_comment f1)) of None \<Rightarrow> f1 | Some t \<Rightarrow> f1\<lparr>gf_tf_tag := t\<rparr>) = f2"
    "shown_as f2 = shown_as f" "gf_flags f2 = gf_flags f"
    using f1 by (auto split: option.split)
  obtain f3 where f3: "(if gf_blocks_mode f2 then unomitted f2 else f2) = f3"
    "shown_as f3 = shown_as f"
    using f2 by auto
  have fd: "gf_camel f1 = gf_camel f" "gf_type f1 = gf_type f" "gf_reference f3 = None" "init_field f3 = init_field f"
    using f1(2) f3(2) assms(2) by (simp_all add: shown_as_def)
  let ?g1 = "if ?ex then on_struct (add_observation_field f1 ?fd) g else g"
  obtain g2 where g2: "(if (\<not> always_omitted (gf_tf_tag f2) \<or> gf_injected f2) \<and> \<not> ?ex then on_struct (add_observation_field f2 ?fd) ?g1 else ?g1) = g2"
    by simp
  have g2_fields: "obs_fields (g_struct g2) \<in> {obs_fields (g_struct g), obs_fields (g_struct g) @ [?fd]}"
    "param_fields (g_struct g2) = param_fields (g_struct g)" "init_fields (g_struct g2) = init_fields (g_struct g)"
    "g_crd_scope g2 = g_crd_scope g"
    using observed_once [of f1 ?fd "g_struct g"] observed_once [of f2 ?fd "g_struct g"] g2
    by (auto simp: on_struct_def split: if_splits)
  obtain f4 r where r: "add_parameter_field f3 ?fd (g_struct g2) = (f4, r)" by force
  note r_fields = added_parameter [OF r]
  note run = assms(1) [unfolded add_to_resource_def Let_def, unfolded f1(1), unfolded fd(1,2) f2(1), unfolded g2 f3(1) f2(3), unfolded r prod.case]
  from run assms(3) obtain f5 g5 where init: "add_init_field lib f4 ?fd (init_name tn) ?ov (g2\<lparr>g_struct := r\<rparr>) = (Done f5, g5)"
    and comments: "then_go (add_reference_fields lib (param_name tn) f5 False g5) (\<lambda>f g. (Done (), add_comments tn f ?ex ?ov g)) = (Done (), g')"
    by (simp only: if_False then_go_Done) blast
  have f4: "gf_camel f4 = gf_camel f" "gf_type f4 = gf_type f" "gf_reference f4 = None" "init_field f4 = init_field f"
    using r_fields(4) f3(2) assms(2) by (simp_all add: shown_as_def)
  note i = added_init [of lib f4 "init_name tn" ?ov "g2\<lparr>g_struct := r\<rparr>" f5 g5, unfolded f4(1,2), OF init f4(3)]
  from comments have "g_struct g' = g_struct g5" "g_crd_scope g' = g_crd_scope g5"
    using i(1) f4(3) by (auto simp: no_references)
  with i g2_fields r_fields f4(4) show ?thesis by simp
qed

section \<open>Properties\<close>

text \<open>A schema of two arguments, one of them a list of objects, with its map in two orders.\<close>

definition disk_arg :: "string \<times> sch" where
  "disk_arg = (''disk'', Sch (plain_flags List_s) (Resource_elem (Res (Some []) None)))"

definition pass_flags :: sch_flags where
  "pass_flags = (plain_flags String_s)\<lparr>s_sensitive := True\<rparr>"

definition pass_arg :: "string \<times> sch" where
  "pass_arg = (''pass'', Sch pass_flags No_elem)"

definition vm_schema :: sch_resource where
  "vm_schema = Res (Some [disk_arg]) None"

definition vm_builder :: gen_state where
  "vm_builder = new_builder ''p'' [''Vm''] Cluster_scope (the (default_resource simple_lib ''aws_vm'' (Some vm_schema) None []))"

lemma build_is_deterministic_witness:
  "Res (Some [disk_arg, pass_arg]) None \<noteq> Res (Some [pass_arg, disk_arg]) None \<and>
   build_resource simple_lib (Res (Some [disk_arg, pass_arg]) None) [] [] False [''Vm''] vm_builder =
   build_resource simple_lib (Res (Some [pass_arg, disk_arg]) None) [] [] False [''Vm''] vm_builder"
proof -
  have "sorted_res (Res (Some [disk_arg, pass_arg]) None) = sorted_res (Res (Some [pass_arg, disk_arg]) None)"
    by (rule reordered_schema) (simp_all add: disk_arg_def pass_arg_def)
  from build_is_deterministic [OF this] show ?thesis by (simp add: disk_arg_def pass_arg_def)
qed

text \<open>
  C12. Without name overrides the builder gives every struct names of its own: the types that a resource adds are
  triples of a parameter, an init parameter and an observation type, each kind with pairwise different names that
  the scope of the package did not hold before, and the last triple is that of the resource itself.
\<close>

theorem type_names_are_unique:
  assumes "build_resource lib r tf xp blocks names g = (Done (t, b), g')" "override_field_names (g_cfg g) = []"
  shows "\<exists>ts. map gt_name (g_types g') = map gt_name (g_types g) @ concat (map triple (ts @ [t])) \<and>
    distinct (map param_name (ts @ [t])) \<and> distinct (map init_name (ts @ [t])) \<and> distinct (map obs_name (ts @ [t])) \<and>
    (\<forall>u \<in> set (ts @ [t]). set (triple u) \<inter> set (g_names g) = {})"
proof -
  obtain ts us where grows: "grows ts (us @ [t]) g g'" using build_grows(1) [OF assms] by blast
  then have same: "mset (us @ [t]) = mset ts" and new: "fresh_names (g_names g) ts" by (simp_all add: grows_def)
  have "distinct (map h (us @ [t]))" if "\<And>u. h u \<in> set (triple u)" for h :: "type_names \<Rightarrow> string"
    using fresh_distinct [OF new that] same by (metis mset_eq_imp_distinct_iff mset_map)
  from this [of param_name] this [of init_name] this [of obs_name] grows show ?thesis
    by (intro exI [of _ us] conjI ballI fresh_new [OF new])
      (simp_all add: grows_def triple_def flip: mset_eq_setD [OF same])
qed

lemma type_names_are_unique_witness:
  "\<exists>ts. map gt_name (g_types (snd (build_resource simple_lib vm_schema [] [] False [''Vm''] vm_builder))) =
      concat (map triple (ts @ [\<lparr>param_name = ''VmParameters'', init_name = ''VmInitParameters'', obs_name = ''VmObservation''\<rparr>])) \<and>
    distinct (map param_name (ts @ [\<lparr>param_name = ''VmParameters'', init_name = ''VmInitParameters'', obs_name = ''VmObservation''\<rparr>]))"
proof -
  let ?run = "build_resource simple_lib vm_schema [] [] False [''Vm''] vm_builder"
  let ?t = "\<lparr>param_name = ''VmParameters'', init_name = ''VmInitParameters'', obs_name = ''VmObservation''\<rparr>"
  have "fst ?run = Done (?t, True)" by code_simp
  then have run: "?run = (Done (?t, True), snd ?run)" by (simp add: prod_eq_iff)
  have start: "override_field_names (g_cfg vm_builder) = []" "g_types vm_builder = []" by code_simp+
  from type_names_are_unique [OF run start(1)] start(2) show ?thesis by auto
qed

text \<open>
  C11. A sensitive argument never gets its plain type into the parameters of its struct. When it is observed it gives
  no field at all, and in particular none of the observation, unless it is a list whose element schema is itself not
  an observation and holds objects: the observation of those objects is then in the observation of the struct. Otherwise
  its one parameter, and its field of the observation if it has one, have the name with the suffix \<open>SecretRef\<close> and the
  type of a reference to a secret of the scope of the resource; so has the init parameter of a scalar argument.
  An argument that holds objects and is not observed is refused.
\<close>

theorem sensitive_argument_is_secret:
  assumes "build_entries lib ((k, Sch a el) # es) tn tf xp blocks names g = (Done (), g')" "s_sensitive a"
  shows "\<exists>g1. build_entries lib es tn tf xp blocks names g1 = (Done (), g') \<and>
    (if is_observation a
     then param_fields (g_struct g1) = param_fields (g_struct g) \<and> init_fields (g_struct g1) = init_fields (g_struct g) \<and>
       (quiet_element True el \<longrightarrow> obs_fields (g_struct g1) = obs_fields (g_struct g))
     else \<exists>n t. t \<in> secret_forms (g_crd_scope g) \<and>
       param_fields (g_struct g1) = param_fields (g_struct g) @ [(n @ ''SecretRef'', t)] \<and>
       obs_fields (g_struct g1) \<in> {obs_fields (g_struct g), obs_fields (g_struct g) @ [(n @ ''SecretRef'', t)]} \<and>
       (basic_type (s_type a) \<noteq> None \<longrightarrow>
         init_fields (g_struct g1) \<in> {init_fields (g_struct g), init_fields (g_struct g) @ [(n @ ''SecretRef'', t)]}))"
proof -
  from assms(1,2) obtain f g1 kept g2 g3 where run: "new_field lib (Sch a el) k tf xp names blocks g = (Done f, g1)"
    "make_sensitive lib f g1 = (Done kept, g2)"
    "(case kept of None \<Rightarrow> (Done (), g2)
      | Some f \<Rightarrow> add_to_resource lib tn
          (case map_of (rc_element_options (g_cfg g2)) (field_path lib (tf @ [k])) of None \<Rightarrow> no_element_option | Some w \<Rightarrow> w) f g2) = (Done (), g3)"
    "build_entries lib es tn tf xp blocks names g3 = (Done (), g')"
    by (auto simp: use_field_def then_go_Done)
  note f = kept_field [OF run(1)] made_sensitive [OF run(2)]
  show ?thesis
  proof (cases kept)
    case None
    with f run assms(2) show ?thesis by (intro exI [of _ g3]) (simp add: parent_kept_def)
  next
    case (Some fd)
    then have "\<not> has_local (gf_type f)"
      using f(2) run(2) sensitive_not_local [of "gf_type f"] by (auto dest: made_sensitive_type)
    with f(1) have same: "g_struct g1 = g_struct g" "g_crd_scope g1 = g_crd_scope g" by (auto simp: parent_kept_def)
    with Some f assms(2) have fd: "\<not> is_observation a" "gf_reference fd = None" "gf_flags fd = a" "gf_type fd \<in> secret_forms (g_crd_scope g)"
      "gf_camel fd = gf_camel f @ ''SecretRef''" "g_struct g2 = g_struct g"
      "basic_type (s_type a) \<noteq> None \<longrightarrow> init_field fd = (gf_camel fd, gf_type fd)"
      by (auto simp: init_field_def)
    from run(3) Some fd(1-3) have "param_fields (g_struct g3) = param_fields (g_struct g2) @ [(gf_camel fd, gf_type fd)] \<and>
      obs_fields (g_struct g3) \<in> {obs_fields (g_struct g2), obs_fields (g_struct g2) @ [(gf_camel fd, gf_type fd)]} \<and>
      init_fields (g_struct g3) \<in> {init_fields (g_struct g2), init_fields (g_struct g2) @ [init_field fd]}"
      using added_to_resource by (metis option.simps(5))
    with fd run(4) show ?thesis by (intro exI [of _ g3]) auto
  qed
qed

lemma sensitive_argument_is_secret_witness:
  "\<exists>n t. t \<in> secret_forms Cluster_scope \<and>
     param_fields (g_struct (snd (build_entries simple_lib [pass_arg] \<lparr>param_name = ''P'', init_name = ''I'', obs_name = ''O''\<rparr> [] [] False [''Vm''] vm_builder))) = [(n @ ''SecretRef'', t)]"
proof -
  let ?run = "build_entries simple_lib [pass_arg] \<lparr>param_name = ''P'', init_name = ''I'', obs_name = ''O''\<rparr> [] [] False [''Vm''] vm_builder"
  have "fst ?run = Done ()" by code_simp
  then obtain g' where run: "?run = (Done (), g')" by (cases ?run) simp
  have start: "g_crd_scope vm_builder = Cluster_scope" "param_fields (g_struct vm_builder) = []"
    "s_sensitive pass_flags" "\<not> is_observation pass_flags" by code_simp+
  from sensitive_argument_is_secret [OF run [unfolded pass_arg_def] start(3)] start(1,2,4)
  have "\<exists>n t. t \<in> secret_forms Cluster_scope \<and> param_fields (g_struct g') = [(n @ ''SecretRef'', t)]" by auto
  then show ?thesis by (simp only: run snd_conv)
qed

section \<open>Corners\<close>

text \<open>
  The three names of one struct are chosen before any of them is in the scope of the package, so for a field
  \<open>init\<close> in an argument \<open>init\<close> two of them can be the same.
\<close>

lemma names_of_one_struct_clash:
  "(case fst (new_type_names simple_lib [''Init'', ''Init''] (vm_builder\<lparr>g_names := [''InitParameters'']\<rparr>)) of
      Done t \<Rightarrow> param_name t = init_name t | _ \<Rightarrow> False)"
  by code_simp

text \<open>The init parameter of a sensitive list keeps the plain type, under its own name.\<close>

lemma sensitive_list_is_plain_in_init:
  "init_fields (g_struct (snd (build_entries simple_lib [(''keys'', Sch (pass_flags\<lparr>s_type := List_s\<rparr>) No_elem)]
      \<lparr>param_name = ''P'', init_name = ''I'', obs_name = ''O''\<rparr> [] [] False [''Vm''] vm_builder))) =
   [(''keys'', Slice_g (Basic_g ''string''))]"
  by code_simp

text \<open>
  The exception of the sensitive arguments: an observed list of lists of objects gives no field of its own, but the
  objects are in the observation.
\<close>

definition nested_keys :: "string \<times> sch" where
  "nested_keys = (''keys'', Sch (pass_flags\<lparr>s_type := List_s, s_computed := True, s_optional := False\<rparr>)
     (Schema_elem (Sch (plain_flags List_s) (Resource_elem (Res (Some
       [(''key'', Sch ((plain_flags String_s)\<lparr>s_computed := True, s_optional := False\<rparr>) No_elem)]) None)))))"

lemma nested_keys_are_observed:
  "is_observation (flags (snd nested_keys)) \<and> s_sensitive (flags (snd nested_keys))"
  "map fst (obs_fields (g_struct (snd (build_entries simple_lib [nested_keys]
      \<lparr>param_name = ''P'', init_name = ''I'', obs_name = ''O''\<rparr> [] [] False [''Vm''] vm_builder)))) = [''keys'']"
  by code_simp+

end
