(* ===== verification/AutoConversions.thy ===== *)
theory AutoConversions
  imports FieldConversions ResourceConfig
begin

text \<open>
  The registration of conversions from a report of schema changes between API versions
  (\<open>pkg/config/conversion.go\<close>). The report is in the format of the package \<open>crdschema\<close>; its decoder and
  its test for the type of a schema are parameters. The resources are in the order of a range over the
  provider's map; of a resource only what the functions read and change is kept.
\<close>

section \<open>Reports and resources\<close>

datatype change_type = Field_added | Field_deleted | Type_changed | Other_change string

text \<open>The details of a type change are the deleted and the added part of the schema, if there are any.\<close>

record 'd change =
  ch_path :: string
  ch_type :: change_type
  ch_details :: "('d \<times> 'd) option"

record 'd version_changes =
  old_version :: string
  new_version :: string
  ch_changes :: "'d change list"

text \<open>A null report for a key is a nil pointer.\<close>

type_synonym 'd reports = "(string \<times> 'd version_changes list option) list"

record 'r auto_resource =
  ar_group :: string
  ar_kind :: string
  ar_schema :: "sch_resource option"
  skip_auto :: bool
  identity_excluded :: "string list"
  auto_excluded :: "string list"
  ar_conversions :: "'r conversion list"

definition parse_change_reports :: "gerror + 'd reports \<Rightarrow> gerror + 'd reports" where
  "parse_change_reports decoded =
     (case decoded of
        Inl e \<Rightarrow> Inl (WithMsg ''failed to unmarshal CRD schema change conversion functions'' e)
      | Inr d \<Rightarrow> Inr d)"

section \<open>Paths\<close>

definition trim_path_prefix :: "string \<Rightarrow> string" where
  "trim_path_prefix p =
     (if has_prefix p ''spec.forProvider'' then trim_prefix p ''spec.forProvider.''
      else if has_prefix p ''spec.initProvider'' then trim_prefix p ''spec.initProvider.''
      else if has_prefix p ''status.atProvider'' then trim_prefix p ''status.atProvider.''
      else '''')"

definition is_excluded_path :: "string \<Rightarrow> string list \<Rightarrow> bool" where
  "is_excluded_path p ps \<longleftrightarrow> list_ex (\<lambda>q. p = q) ps"

definition report_key :: "string \<Rightarrow> 'r auto_resource \<Rightarrow> string" where
  "report_key root r = ar_group r @ ''.'' @ root @ ''/'' @ ar_kind r"

section \<open>Registration\<close>

definition annotation_pair :: "string \<Rightarrow> string \<Rightarrow> string \<Rightarrow> annotation_mode \<Rightarrow> annotation_mode \<Rightarrow> 'r conversion list" where
  "annotation_pair vo vn p m n =
     [new_newly_introduced_field_conversion vo vn p m, new_newly_introduced_field_conversion vn vo p n]"

definition type_pair :: "string \<Rightarrow> string \<Rightarrow> string \<Rightarrow> type_mode \<Rightarrow> type_mode \<Rightarrow> 'r conversion list" where
  "type_pair vo vn p m n = [new_field_type_conversion vo vn p m, new_field_type_conversion vn vo p n]"

definition number_conversions :: "sch_resource option \<Rightarrow> string \<Rightarrow> string \<Rightarrow> string \<Rightarrow> gerror + 'r conversion list" where
  "number_conversions sch vo vn p =
     (let sp = trim_path_prefix p in
      if sp = '''' \<or> sch = None then Inr []
      else (case get_schema sch sp of
              None \<Rightarrow> Inr []
            | Some s \<Rightarrow>
                if s_type (flags s) = Float_s then Inr (type_pair vo vn p StringToFloat FloatToString)
                else if s_type (flags s) = Int_s then Inr (type_pair vo vn p StringToInt IntToString)
                else Inl (Plain (''unsupported type for number conversion in field '' @ go_quote p @ '': got Terraform schema type '' @
                       go_quote (sch_type_string (s_type (flags s)))))))"

definition change_conversions ::
  "('d \<Rightarrow> string \<Rightarrow> bool) \<Rightarrow> sch_resource option \<Rightarrow> string \<Rightarrow> string \<Rightarrow> 'd change \<Rightarrow> gerror + 'r conversion list" where
  "change_conversions is_of_type sch vo vn c =
     (let p = ch_path c in
      case ch_type c of
        Field_added \<Rightarrow> Inr (annotation_pair vo vn p FromAnnotation ToAnnotation)
      | Field_deleted \<Rightarrow> Inr (annotation_pair vo vn p ToAnnotation FromAnnotation)
      | Type_changed \<Rightarrow>
          (case ch_details c of
             None \<Rightarrow> Inr []
           | Some (del, add) \<Rightarrow>
               if is_of_type del ''string'' \<and> is_of_type add ''number'' then number_conversions sch vo vn p
               else if is_of_type del ''number'' \<and> is_of_type add ''string'' then Inr (type_pair vo vn p IntToString StringToInt)
               else if is_of_type del ''string'' \<and> is_of_type add ''boolean'' then Inr (type_pair vo vn p StringToBool BoolToString)
               else if is_of_type del ''boolean'' \<and> is_of_type add ''string'' then Inr (type_pair vo vn p BoolToString StringToBool)
               else Inr [])
      | Other_change t \<Rightarrow> Inr [])"

fun register_changes ::
  "('d \<Rightarrow> string \<Rightarrow> bool) \<Rightarrow> string \<Rightarrow> string \<Rightarrow> 'd change list \<Rightarrow> 'r auto_resource \<Rightarrow> unit outcome \<times> 'r auto_resource" where
  "register_changes is_of_type vo vn [] r = (Done (), r)"
| "register_changes is_of_type vo vn (c # cs) r =
     (if is_excluded_path (ch_path c) (auto_excluded r) then register_changes is_of_type vo vn cs r
      else (case change_conversions is_of_type (ar_schema r) vo vn c of
              Inl e \<Rightarrow> (Failed e, r)
            | Inr new \<Rightarrow> register_changes is_of_type vo vn cs (r\<lparr>ar_conversions := ar_conversions r @ new\<rparr>)))"

fun register_versions ::
  "('d \<Rightarrow> string \<Rightarrow> bool) \<Rightarrow> 'd version_changes list \<Rightarrow> 'r auto_resource \<Rightarrow> unit outcome \<times> 'r auto_resource" where
  "register_versions is_of_type [] r = (Done (), r)"
| "register_versions is_of_type (v # vs) r =
     then_go (register_changes is_of_type (old_version v) (new_version v) (ch_changes v) r) (\<lambda>_ r. register_versions is_of_type vs r)"

definition register_resource ::
  "('d \<Rightarrow> string \<Rightarrow> bool) \<Rightarrow> string \<Rightarrow> 'd reports \<Rightarrow> 'r auto_resource \<Rightarrow> unit outcome \<times> 'r auto_resource" where
  "register_resource is_of_type root data r =
     (if skip_auto r then (Done (), r)
      else (case map_of data (report_key root r) of
              None \<Rightarrow> (Done (), r)
            | Some None \<Rightarrow> (Crashed, r)
            | Some (Some vs) \<Rightarrow> register_versions is_of_type vs r))"

text \<open>A function on each resource of the provider, up to the first failure.\<close>

fun each_resource :: "('r auto_resource \<Rightarrow> unit outcome \<times> 'r auto_resource) \<Rightarrow> 'r auto_resource list \<Rightarrow> unit outcome \<times> 'r auto_resource list" where
  "each_resource f [] = (Done (), [])"
| "each_resource f (r # rs) =
     (case f r of
        (Done _, r) \<Rightarrow> (case each_resource f rs of (x, rs) \<Rightarrow> (x, r # rs))
      | (x, r) \<Rightarrow> (x, r # rs))"

definition register_auto_conversions ::
  "('d \<Rightarrow> string \<Rightarrow> bool) \<Rightarrow> string \<Rightarrow> gerror + 'd reports \<Rightarrow> 'r auto_resource list \<Rightarrow> unit outcome \<times> 'r auto_resource list" where
  "register_auto_conversions is_of_type root decoded rs =
     (case parse_change_reports decoded of
        Inl e \<Rightarrow> (Failed (WithMsg ''error parsing CRD schema change'' e), rs)
      | Inr data \<Rightarrow> each_resource (register_resource is_of_type root data) rs)"

section \<open>Exclusion from the identity\<close>

definition set_identity_conversion_exclude_path :: "string \<Rightarrow> 'r auto_resource \<times> string set \<Rightarrow> 'r auto_resource \<times> string set" where
  "set_identity_conversion_exclude_path full s =
     (case s of (r, m) \<Rightarrow>
        let p = trim_path_prefix full in
        if p \<noteq> '''' \<and> p \<notin> m then (r\<lparr>identity_excluded := identity_excluded r @ [p]\<rparr>, insert p m) else (r, m))"

definition exclude_change :: "'d change \<Rightarrow> 'r auto_resource \<times> string set \<Rightarrow> 'r auto_resource \<times> string set" where
  "exclude_change c s =
     (if is_excluded_path (ch_path c) (auto_excluded (fst s)) then s
      else if ch_type c = Type_changed then set_identity_conversion_exclude_path (ch_path c) s
      else s)"

definition exclude_in_resource :: "string \<Rightarrow> 'd reports \<Rightarrow> 'r auto_resource \<Rightarrow> unit outcome \<times> 'r auto_resource" where
  "exclude_in_resource root data r =
     (case map_of data (report_key root r) of
        None \<Rightarrow> (Done (), r)
      | Some None \<Rightarrow> (Crashed, r)
      | Some (Some vs) \<Rightarrow> (Done (), fst (fold exclude_change (concat (map ch_changes vs)) (r, {}))))"

definition exclude_type_changes_from_identity ::
  "string \<Rightarrow> gerror + 'd reports \<Rightarrow> 'r auto_resource list \<Rightarrow> unit outcome \<times> 'r auto_resource list" where
  "exclude_type_changes_from_identity root decoded rs =
     (case parse_change_reports decoded of
        Inl e \<Rightarrow> (Failed (WithMsg ''error parsing CRD schema change'' e), rs)
      | Inr data \<Rightarrow> each_resource (exclude_in_resource root data) rs)"

section \<open>What is registered\<close>

text \<open>Two conversions of a field that undo each other.\<close>

fun undoes_type :: "type_mode \<Rightarrow> type_mode \<Rightarrow> bool" where
  "undoes_type IntToString StringToInt = True"
| "undoes_type StringToInt IntToString = True"
| "undoes_type BoolToString StringToBool = True"
| "undoes_type StringToBool BoolToString = True"
| "undoes_type FloatToString StringToFloat = True"
| "undoes_type StringToFloat FloatToString = True"
| "undoes_type _ _ = False"

text \<open>The type of the schema that a mode reads and the one it writes.\<close>

fun reads_writes :: "type_mode \<Rightarrow> string \<times> string" where
  "reads_writes IntToString = (''number'', ''string'')"
| "reads_writes StringToInt = (''string'', ''number'')"
| "reads_writes BoolToString = (''boolean'', ''string'')"
| "reads_writes StringToBool = (''string'', ''boolean'')"
| "reads_writes FloatToString = (''number'', ''string'')"
| "reads_writes StringToFloat = (''string'', ''number'')"
| "reads_writes (Other_type_mode n) = ('''', '''')"

text \<open>
  What a change asks of the conversion from one side of it to the other. A field that exists only on the
  source side is kept in an annotation, and one that exists only on the target side is restored from it;
  a value changes from the type of the field on the source side to that on the target side.
\<close>

definition keeps_field :: "bool \<Rightarrow> string \<Rightarrow> string \<Rightarrow> string \<Rightarrow> 'r conversion \<Rightarrow> bool" where
  "keeps_field on_source sv tv p cv \<longleftrightarrow>
     (\<exists>b m. cv = New_field b p m \<and> source_version b = sv \<and> target_version b = tv \<and>
        m = (if on_source then ToAnnotation else FromAnnotation))"

definition converts_type ::
  "('d \<Rightarrow> string \<Rightarrow> bool) \<Rightarrow> 'd \<Rightarrow> 'd \<Rightarrow> string \<Rightarrow> string \<Rightarrow> string \<Rightarrow> type_mode \<Rightarrow> 'r conversion \<Rightarrow> bool" where
  "converts_type is_of_type src tgt sv tv p m cv \<longleftrightarrow>
     (\<exists>b. cv = Field_type b p m \<and> source_version b = sv \<and> target_version b = tv) \<and>
     is_of_type src (fst (reads_writes m)) \<and> is_of_type tgt (snd (reads_writes m))"

definition report_schema_at :: "sch_resource option \<Rightarrow> string \<Rightarrow> sch option" where
  "report_schema_at sch p =
     (if trim_path_prefix p = '''' \<or> sch = None then None else get_schema sch (trim_path_prefix p))"

text \<open>
  The type changes without conversions: those between types that no mode converts, and those from a
  string to a number of a field that the Terraform schema does not have.
\<close>

definition not_convertible ::
  "('d \<Rightarrow> string \<Rightarrow> bool) \<Rightarrow> sch_resource option \<Rightarrow> string \<Rightarrow> 'd \<Rightarrow> 'd \<Rightarrow> bool" where
  "not_convertible is_of_type sch p del add \<longleftrightarrow>
     (is_of_type del ''string'' \<and> is_of_type add ''number'' \<and> report_schema_at sch p = None) \<or>
     \<not> list_ex (\<lambda>(t, u). is_of_type del t \<and> is_of_type add u)
         [(''string'', ''number''), (''number'', ''string''), (''string'', ''boolean''), (''boolean'', ''string'')]"

definition answers ::
  "('d \<Rightarrow> string \<Rightarrow> bool) \<Rightarrow> sch_resource option \<Rightarrow> 'd version_changes \<times> 'd change \<Rightarrow> 'r conversion list \<Rightarrow> bool" where
  "answers is_of_type sch x cvs =
     (let vo = old_version (fst x); vn = new_version (fst x); p = ch_path (snd x) in
      case ch_type (snd x) of
        Field_added \<Rightarrow> (\<exists>cv cv'. cvs = [cv, cv'] \<and> keeps_field False vo vn p cv \<and> keeps_field True vn vo p cv')
      | Field_deleted \<Rightarrow> (\<exists>cv cv'. cvs = [cv, cv'] \<and> keeps_field True vo vn p cv \<and> keeps_field False vn vo p cv')
      | Type_changed \<Rightarrow>
          (case ch_details (snd x) of
             None \<Rightarrow> cvs = []
           | Some (del, add) \<Rightarrow>
               if not_convertible is_of_type sch p del add then cvs = []
               else \<exists>cv cv' m n. cvs = [cv, cv'] \<and> undoes_type m n \<and>
                 converts_type is_of_type del add vo vn p m cv \<and> converts_type is_of_type add del vn vo p n cv' \<and>
                 (m \<in> {StringToInt, StringToFloat} \<longrightarrow>
                    (\<exists>s. report_schema_at sch p = Some s \<and> s_type (flags s) = (if m = StringToInt then Int_s else Float_s))))
      | Other_change t \<Rightarrow> cvs = [])"

lemmas conversion_defs = annotation_pair_def type_pair_def new_newly_introduced_field_conversion_def
  new_field_type_conversion_def new_base_conversion_def

lemma number_answered:
  assumes "number_conversions sch vo vn p = Inr new"
  shows "case report_schema_at sch p of
      None \<Rightarrow> new = []
    | Some s \<Rightarrow> s_type (flags s) = Float_s \<and> new = type_pair vo vn p StringToFloat FloatToString \<or>
        s_type (flags s) = Int_s \<and> new = type_pair vo vn p StringToInt IntToString"
  using assms by (auto simp: number_conversions_def report_schema_at_def Let_def split: option.splits if_splits)

lemma change_answered:
  assumes "change_conversions is_of_type sch (old_version v) (new_version v) c = Inr new"
  shows "answers is_of_type sch (v, c) new"
proof (cases "ch_type c")
  case Type_changed
  show ?thesis
  proof (cases "ch_details c")
    case (Some da)
    obtain del add where da: "da = (del, add)" by (cases da)
    show ?thesis
    proof (cases "is_of_type del ''string'' \<and> is_of_type add ''number''")
      case True
      with assms Type_changed Some da number_answered [of sch "old_version v" "new_version v" "ch_path c" new]
      show ?thesis
        by (cases "report_schema_at sch (ch_path c)")
          (auto simp: answers_def not_convertible_def change_conversions_def Let_def converts_type_def conversion_defs)
    next
      case False
      with assms Type_changed Some da show ?thesis
        by (auto simp: answers_def not_convertible_def change_conversions_def Let_def converts_type_def conversion_defs
            split: if_splits)
    qed
  qed (use assms Type_changed in \<open>simp add: answers_def change_conversions_def\<close>)
qed (use assms in \<open>auto simp: answers_def change_conversions_def Let_def keeps_field_def conversion_defs\<close>)

text \<open>The changes of the report of a resource that it does not exclude, in order.\<close>

definition not_excluded :: "'r auto_resource \<Rightarrow> 'd version_changes \<Rightarrow> ('d version_changes \<times> 'd change) list" where
  "not_excluded r v = map (Pair v) (filter (\<lambda>c. ch_path c \<notin> set (auto_excluded r)) (ch_changes v))"

definition reported :: "string \<Rightarrow> 'd reports \<Rightarrow> 'r auto_resource \<Rightarrow> ('d version_changes \<times> 'd change) list" where
  "reported root data r =
     (if skip_auto r then []
      else (case map_of data (report_key root r) of Some (Some vs) \<Rightarrow> concat (map (not_excluded r) vs) | _ \<Rightarrow> []))"

text \<open>
  \<open>r'\<close> has the conversions of \<open>r\<close> and, after them, the answers to the first changes of \<open>xs\<close>: to all of
  them when the registration returned.
\<close>

definition registered ::
  "('d \<Rightarrow> string \<Rightarrow> bool) \<Rightarrow> ('d version_changes \<times> 'd change) list \<Rightarrow> 'r auto_resource \<Rightarrow> unit outcome \<Rightarrow> 'r auto_resource \<Rightarrow> bool" where
  "registered is_of_type xs r out r' \<longleftrightarrow>
     (\<exists>cvss n. r' = r\<lparr>ar_conversions := ar_conversions r @ concat cvss\<rparr> \<and>
        list_all2 (answers is_of_type (ar_schema r)) (take n xs) cvss \<and> (out = Done () \<longrightarrow> length xs \<le> n))"

lemma registered_nothing: "xs = [] \<or> out \<noteq> Done () \<Longrightarrow> registered is_of_type xs r out r"
  unfolding registered_def by (intro exI [of _ "[]"] exI [of _ 0]) auto

lemma registered_append:
  assumes "registered is_of_type xs r (Done ()) r1" "registered is_of_type ys r1 out r2"
  shows "registered is_of_type (xs @ ys) r out r2"
proof -
  obtain cs n ds m where
    "r1 = r\<lparr>ar_conversions := ar_conversions r @ concat cs\<rparr>" "list_all2 (answers is_of_type (ar_schema r)) (take n xs) cs" "length xs \<le> n"
    "r2 = r1\<lparr>ar_conversions := ar_conversions r1 @ concat ds\<rparr>" "list_all2 (answers is_of_type (ar_schema r1)) (take m ys) ds"
    "out = Done () \<longrightarrow> length ys \<le> m"
    using assms unfolding registered_def by blast
  then show ?thesis unfolding registered_def
    by (intro exI [of _ "cs @ ds"] exI [of _ "length xs + m"]) (auto intro: list_all2_appendI)
qed

lemma registered_failed: "registered is_of_type xs r out r1 \<Longrightarrow> out \<noteq> Done () \<Longrightarrow> registered is_of_type (xs @ ys) r out r1"
proof -
  assume "registered is_of_type xs r out r1" "out \<noteq> Done ()"
  then obtain cs n where "r1 = r\<lparr>ar_conversions := ar_conversions r @ concat cs\<rparr>"
    "list_all2 (answers is_of_type (ar_schema r)) (take n xs) cs" by (auto simp: registered_def)
  then show ?thesis using \<open>out \<noteq> Done ()\<close> unfolding registered_def
    by (intro exI [of _ cs] exI [of _ "min n (length xs)"]) (cases "n \<le> length xs"; simp add: min_def)
qed

lemma registered_excluded: "registered is_of_type xs r out r1 \<Longrightarrow> auto_excluded r1 = auto_excluded r \<and> ar_schema r1 = ar_schema r"
  by (auto simp: registered_def)

lemma changes_registered:
  fixes r :: "'r auto_resource"
  shows "registered is_of_type (map (Pair v) (filter (\<lambda>c. ch_path c \<notin> set (auto_excluded r)) cs)) r
     (fst (register_changes is_of_type (old_version v) (new_version v) cs r))
     (snd (register_changes is_of_type (old_version v) (new_version v) cs r))"
proof (induction cs arbitrary: r)
  case (Cons c cs)
  have ex: "is_excluded_path (ch_path c) (auto_excluded r) \<longleftrightarrow> ch_path c \<in> set (auto_excluded r)"
    by (auto simp: is_excluded_path_def list_ex_iff)
  show ?case
  proof (cases "ch_path c \<in> set (auto_excluded r)")
    case False
    show ?thesis
    proof (cases "change_conversions is_of_type (ar_schema r) (old_version v) (new_version v) c :: gerror + 'r conversion list")
      case (Inr new)
      have "registered is_of_type [(v, c)] r (Done ()) (r\<lparr>ar_conversions := ar_conversions r @ new\<rparr>)"
        unfolding registered_def by (intro exI [of _ "[new]"] exI [of _ 1]) (simp add: change_answered [OF Inr])
      from registered_append [OF this Cons.IH] show ?thesis using False Inr by (simp add: ex)
    qed (simp add: ex False registered_nothing)
  qed (simp add: ex Cons.IH)
qed (simp add: registered_nothing)

lemma versions_registered:
  "registered is_of_type (concat (map (not_excluded r) vs)) r
     (fst (register_versions is_of_type vs r)) (snd (register_versions is_of_type vs r))"
proof (induction vs arbitrary: r)
  case (Cons v vs)
  obtain out r1 where first: "register_changes is_of_type (old_version v) (new_version v) (ch_changes v) r = (out, r1)"
    by fastforce
  have reg: "registered is_of_type (not_excluded r v) r out r1"
    using changes_registered [of is_of_type v r "ch_changes v"] first by (simp add: not_excluded_def)
  have "registered is_of_type (concat (map (not_excluded r) vs)) r1
      (fst (register_versions is_of_type vs r1)) (snd (register_versions is_of_type vs r1))"
    using Cons.IH [of r1] registered_excluded [OF reg] by (simp add: not_excluded_def [abs_def])
  with reg show ?case
    by (cases out) (auto simp: first registered_failed intro: registered_append)
qed (simp add: registered_nothing)

lemma resource_registered:
  "registered is_of_type (reported root data r) r
     (fst (register_resource is_of_type root data r)) (snd (register_resource is_of_type root data r))"
  by (auto simp: register_resource_def reported_def registered_nothing versions_registered split: option.split)

lemma each_resource_all2:
  assumes "\<And>r. P r (fst (f r)) (snd (f r))" "\<And>r out. out \<noteq> Done () \<Longrightarrow> P r out r"
    and "\<And>r out out' r'. P r out r' \<Longrightarrow> out' \<noteq> Done () \<Longrightarrow> P r out' r'"
  shows "list_all2 (\<lambda>r. P r (fst (each_resource f rs))) rs (snd (each_resource f rs))"
proof (induction rs)
  case (Cons r rs)
  obtain out r1 where f: "f r = (out, r1)" by fastforce
  obtain x rs1 where rest: "each_resource f rs = (x, rs1)" by fastforce
  have P: "P r out r1" using assms(1) [of r] f by simp
  show ?case
  proof (cases "out = Done ()")
    case True
    have "P r x r1" using P True assms(3) by (cases "x = Done ()") auto
    with Cons.IH True f rest show ?thesis by simp
  next
    case False
    then have "each_resource f (r # rs) = (out, r1 # rs)" using f by (cases out) simp_all
    with P False assms(2) show ?thesis by (simp add: list_all2_refl)
  qed
qed simp

section \<open>Properties\<close>

text \<open>
  C32. The automatic registration answers every change of the report in both directions. To the conversions of a
  resource it appends, in the order of the report and for each change that the resource does not exclude, two
  conversions between the two versions: of a field that only one version has, the one away from that version keeps
  the value in an annotation and the other restores it; of a field whose type changed, each reads the type of
  its source version and writes the type of its target version, and the two undo each other, a string
  becoming an integer or a float as the Terraform schema says. Changes that no mode converts get none. A resource
  that opts out gets none. When the registration fails, what was appended are the answers to the first changes.
\<close>

theorem auto_conversions_in_pairs:
  assumes "register_auto_conversions is_of_type root (Inr data) rs = (out, rs')"
  shows "list_all2
     (\<lambda>r r'. \<exists>cvss n. r' = r\<lparr>ar_conversions := ar_conversions r @ concat cvss\<rparr> \<and>
        list_all2 (answers is_of_type (ar_schema r)) (take n (reported root data r)) cvss \<and>
        (out = Done () \<longrightarrow> length (reported root data r) \<le> n)) rs rs'"
proof -
  have "list_all2 (\<lambda>r. registered is_of_type (reported root data r) r (fst (each_resource (register_resource is_of_type root data) rs)))
      rs (snd (each_resource (register_resource is_of_type root data) rs))"
    by (rule each_resource_all2) (auto simp: resource_registered registered_nothing, auto simp: registered_def)
  then show ?thesis
    unfolding registered_def [symmetric] using assms
    by (simp add: register_auto_conversions_def parse_change_reports_def)
qed

section \<open>Corners\<close>

text \<open>
  The path in a report is one of the API, in camel case, but the Terraform schema is asked for it: a field whose name
  has two words is not found. Its change to a number is taken out of the identity but gets no conversion, so
  its value is in no version after a conversion.
\<close>

definition renamed_resource :: "unit auto_resource" where
  "renamed_resource = \<lparr>ar_group = ''eks'', ar_kind = ''Cluster'',
     ar_schema = Some (Res (Some [(''node_count'', Sch (plain_flags Int_s) No_elem), (''size'', Sch (plain_flags Int_s) No_elem)]) None),
     skip_auto = False, identity_excluded = [], auto_excluded = [], ar_conversions = []\<rparr>"

definition to_number :: "string \<Rightarrow> string reports" where
  "to_number p = [(''eks.aws/Cluster'', Some [\<lparr>old_version = ''v1beta1'', new_version = ''v1beta2'',
     ch_changes = [\<lparr>ch_path = p, ch_type = Type_changed, ch_details = Some (''string'', ''number'')\<rparr>]\<rparr>])]"

lemma two_word_number_is_lost:
  "map (\<lambda>r. length (ar_conversions r)) (snd (register_auto_conversions (=) ''aws'' (Inr (to_number ''spec.forProvider.nodeCount'')) [renamed_resource])) = [0]"
  "map identity_excluded (snd (exclude_type_changes_from_identity ''aws'' (Inr (to_number ''spec.forProvider.nodeCount'')) [renamed_resource])) = [[''nodeCount'']]"
  "map (\<lambda>r. length (ar_conversions r)) (snd (register_auto_conversions (=) ''aws'' (Inr (to_number ''spec.forProvider.size'')) [renamed_resource])) = [2]"
  by code_simp+

text \<open>The paths taken out of the identity are those of the type changes that are not excluded.\<close>

definition taken_out :: "string list \<Rightarrow> 'd change \<Rightarrow> bool" where
  "taken_out ex c \<longleftrightarrow> ch_type c = Type_changed \<and> \<not> is_excluded_path (ch_path c) ex \<and> trim_path_prefix (ch_path c) \<noteq> ''''"

lemma excluded_so_far:
  "fold exclude_change cs (r, m) = (r', m') \<Longrightarrow> m \<subseteq> set (identity_excluded r) \<Longrightarrow>
     set (identity_excluded r') = set (identity_excluded r) \<union>
       (\<lambda>c. trim_path_prefix (ch_path c)) ` set (filter (taken_out (auto_excluded r)) cs)"
proof (induction cs arbitrary: r m)
  case (Cons c cs)
  obtain r1 m1 where step: "exclude_change c (r, m) = (r1, m1)" by force
  have "m1 \<subseteq> set (identity_excluded r1) \<and> auto_excluded r1 = auto_excluded r \<and>
    set (identity_excluded r1) = set (identity_excluded r) \<union>
      (if taken_out (auto_excluded r) c then {trim_path_prefix (ch_path c)} else {})"
    using step Cons.prems(2)
    by (auto simp: taken_out_def exclude_change_def set_identity_conversion_exclude_path_def Let_def split: if_splits)
  with Cons.IH [of r1 m1] Cons.prems(1) step show ?case by auto
qed auto

text \<open>A field that became a number gets its two conversions.\<close>

theorem auto_conversions_in_pairs_witness:
  "\<exists>out r' cv cv'. register_auto_conversions (=) ''aws'' (Inr (to_number ''spec.forProvider.size'')) [renamed_resource] = (out, [r']) \<and>
     ar_conversions r' = [cv, cv'] \<and>
     converts_type (=) ''string'' ''number'' ''v1beta1'' ''v1beta2'' ''spec.forProvider.size'' StringToInt cv \<and>
     converts_type (=) ''number'' ''string'' ''v1beta2'' ''v1beta1'' ''spec.forProvider.size'' IntToString cv'"
proof -
  let ?g = "register_auto_conversions (=) ''aws'' (Inr (to_number ''spec.forProvider.size'')) [renamed_resource]"
  have "fst ?g = Done ()" by code_simp
  then obtain rs' where g: "?g = (Done (), rs')" by (metis prod.collapse)
  have rep: "reported ''aws'' (to_number ''spec.forProvider.size'') renamed_resource =
      [(\<lparr>old_version = ''v1beta1'', new_version = ''v1beta2'', ch_changes =
          [\<lparr>ch_path = ''spec.forProvider.size'', ch_type = Type_changed, ch_details = Some (''string'', ''number'')\<rparr>]\<rparr>,
        \<lparr>ch_path = ''spec.forProvider.size'', ch_type = Type_changed, ch_details = Some (''string'', ''number'')\<rparr>)]"
    by code_simp
  have conv: "\<not> not_convertible (=) (ar_schema renamed_resource) ''spec.forProvider.size'' ''string'' ''number''"
    "ar_conversions renamed_resource = []"
    by code_simp+
  have mode: "m = StringToInt \<and> n = IntToString"
    if "undoes_type m n" "fst (reads_writes m) = ''string''" "snd (reads_writes m) = ''number''"
      "m \<in> {StringToInt, StringToFloat} \<longrightarrow> (\<exists>s. report_schema_at (ar_schema renamed_resource) ''spec.forProvider.size'' = Some s \<and>
         s_type (flags s) = (if m = StringToInt then Int_s else Float_s))" for m n
  proof -
    have s: "map_option (\<lambda>s. s_type (flags s)) (report_schema_at (ar_schema renamed_resource) ''spec.forProvider.size'') = Some Int_s"
      by code_simp
    with that show ?thesis by (cases m; cases n) auto
  qed
  from auto_conversions_in_pairs [OF g] obtain r' cvss where r': "rs' = [r']" "ar_conversions r' = concat cvss"
    "list_all2 (answers (=) (ar_schema renamed_resource)) (reported ''aws'' (to_number ''spec.forProvider.size'') renamed_resource) cvss"
    by (auto simp: list_all2_Cons1 conv(2))
  then obtain cvs where cvs: "cvss = [cvs]" unfolding rep by (auto simp: list_all2_Cons1)
  with r'(3) obtain cv cv' m n where *: "cvs = [cv, cv']" "undoes_type m n"
    "converts_type (=) ''string'' ''number'' ''v1beta1'' ''v1beta2'' ''spec.forProvider.size'' m cv"
    "converts_type (=) ''number'' ''string'' ''v1beta2'' ''v1beta1'' ''spec.forProvider.size'' n cv'"
    "m \<in> {StringToInt, StringToFloat} \<longrightarrow> (\<exists>s. report_schema_at (ar_schema renamed_resource) ''spec.forProvider.size'' = Some s \<and>
       s_type (flags s) = (if m = StringToInt then Int_s else Float_s))"
    unfolding rep by (auto simp: answers_def conv(1) Let_def)
  have "fst (reads_writes m) = ''string''" "snd (reads_writes m) = ''number''"
    using *(3) by (simp_all only: converts_type_def)
  from mode [OF *(2) this *(5)] *(3,4)
  have "converts_type (=) ''string'' ''number'' ''v1beta1'' ''v1beta2'' ''spec.forProvider.size'' StringToInt cv"
    "converts_type (=) ''number'' ''string'' ''v1beta2'' ''v1beta1'' ''spec.forProvider.size'' IntToString cv'" by simp_all
  moreover have "ar_conversions r' = [cv, cv']" by (simp add: r'(2) cvs *(1))
  ultimately show ?thesis using g unfolding r'(1) by blast
qed

end
