(* ===== verification/SchemaJson.thy ===== *)
theory SchemaJson
  imports TfSchema GoOutcome "HOL-Library.Word"
begin

text \<open>
  The conversion of a provider schema in the JSON format of Terraform to schemas of the plugin SDK
  (\<open>pkg/types/conversion/tfjson/tfjson.go\<close>). The formats are those of the packages \<open>terraform-json\<close>
  and \<open>go-cty\<close>. A map of the JSON schema has no null values; a panic is \<open>None\<close>.
\<close>

section \<open>Types and schemas in JSON\<close>

text \<open>The attributes of an object type, each with its optional mark.\<close>

datatype cty =
    Bool_c | Number_c | String_c | Dynamic_c
  | List_c cty | Set_c cty | Map_c cty | Tuple_c "cty list"
  | Object_c "(string \<times> bool \<times> cty) list"

datatype nesting = Single_n | Group_n | List_n | Set_n | Map_n | Other_n string

record json_facts =
  ja_description :: string
  ja_required :: bool
  ja_optional :: bool
  ja_computed :: bool
  ja_sensitive :: bool
  ja_deprecated :: bool

text \<open>An attribute with its type, which may be missing, or with nested attributes and their numbers of items.\<close>

datatype json_attr = Attr json_facts "cty option" | Nested_attr json_facts nesting "64 word" "64 word" "(string \<times> json_attr) list"

text \<open>A block has a description, a deprecation, attributes and nested blocks.\<close>

datatype json_block_type = Block_type nesting "64 word" "64 word" "json_block option"
  and json_block = Block string bool "(string \<times> json_attr) list" "(string \<times> json_block_type) list"

record json_schema =
  js_version :: "64 word"
  js_block :: "json_block option"

record v2_resource =
  v2_version :: int
  v2_schema :: sch_resource
  v2_description :: string
  v2_deprecation :: string

section \<open>Types\<close>

definition primitive_to_schema_type :: "cty \<Rightarrow> sch_type" where
  "primitive_to_schema_type t = (case t of String_c \<Rightarrow> String_s | Number_c \<Rightarrow> Float_s | Bool_c \<Rightarrow> Bool_s | _ \<Rightarrow> Invalid_s)"

definition collection_to_schema_type :: "cty \<Rightarrow> sch_type" where
  "collection_to_schema_type t = (case t of Set_c _ \<Rightarrow> Set_s | List_c _ \<Rightarrow> List_s | Map_c _ \<Rightarrow> Map_s | _ \<Rightarrow> Invalid_s)"

definition deprecated_message :: "bool \<Rightarrow> string" where
  "deprecated_message d = (if d then ''deprecated'' else '''')"

definition blank_flags :: sch_flags where
  "blank_flags = \<lparr>s_type = Invalid_s, s_optional = False, s_required = False, s_computed = False, s_sensitive = False,
     s_min_items = 0, s_max_items = 0, s_attr_mode = False, s_description = '''', s_deprecated = '''', s_default = None\<rparr>"

text \<open>
  The schema of a type, in a schema that is given with its flags; what the elements inherit of them. The text
  that shows a type is that of \<open>GoString\<close>.
\<close>

definition inherited :: "sch_flags \<Rightarrow> sch_flags" where
  "inherited a = blank_flags\<lparr>s_computed := s_computed a, s_optional := s_optional a\<rparr>"

fun type_schema :: "(cty \<Rightarrow> string) \<Rightarrow> cty \<Rightarrow> sch_flags \<Rightarrow> gerror + sch"
  and collection_schema :: "(cty \<Rightarrow> string) \<Rightarrow> cty \<Rightarrow> cty \<Rightarrow> sch_flags \<Rightarrow> gerror + sch"
  and object_schemas :: "(cty \<Rightarrow> string) \<Rightarrow> bool \<Rightarrow> sch_flags \<Rightarrow> (string \<times> bool \<times> cty) list \<Rightarrow> gerror + (string \<times> sch) list" where
  "type_schema shown (List_c t) a = collection_schema shown (List_c t) t a"
| "type_schema shown (Set_c t) a = collection_schema shown (Set_c t) t a"
| "type_schema shown (Map_c t) a = collection_schema shown (Map_c t) t a"
| "type_schema shown (Tuple_c ts) a = Inl (Plain ''cannot convert cty TupleType to schema v2 type'')"
| "type_schema shown (Object_c ats) a =
     (case object_schemas shown False (inherited a\<lparr>s_required := s_required a\<rparr>) ats of
        Inl e \<Rightarrow> Inl e
      | Inr m \<Rightarrow> Inr (Sch (a\<lparr>s_attr_mode := False, s_type := Object_s, s_max_items := 1, s_min_items := 0\<rparr>) (Resource_elem (Res (Some m) None))))"
| "type_schema shown Dynamic_c a = Inr (Sch (a\<lparr>s_type := Dynamic_s\<rparr>) No_elem)"
| "type_schema shown Bool_c a = Inr (Sch (a\<lparr>s_type := primitive_to_schema_type Bool_c\<rparr>) No_elem)"
| "type_schema shown Number_c a = Inr (Sch (a\<lparr>s_type := primitive_to_schema_type Number_c\<rparr>) No_elem)"
| "type_schema shown String_c a = Inr (Sch (a\<lparr>s_type := primitive_to_schema_type String_c\<rparr>) No_elem)"
| "collection_schema shown c (Tuple_c ts) a = Inl (Plain (''unexpected cty.Type '' @ shown c))"
| "collection_schema shown c Dynamic_c a = Inl (Plain (''unexpected cty.Type '' @ shown c))"
| "collection_schema shown c (Object_c ats) a =
     (case object_schemas shown True (inherited a) ats of
        Inl e \<Rightarrow> Inl e
      | Inr m \<Rightarrow> Inr (Sch (a\<lparr>s_attr_mode := True, s_type := collection_to_schema_type c\<rparr>) (Resource_elem (Res (Some m) None))))"
| "collection_schema shown c t a =
     (case type_schema shown t (inherited a\<lparr>s_type := (if collection_to_schema_type t = Invalid_s then primitive_to_schema_type t else collection_to_schema_type t)\<rparr>) of
        Inl e \<Rightarrow> Inl e
      | Inr s \<Rightarrow> Inr (Sch (a\<lparr>s_attr_mode := False, s_type := collection_to_schema_type c\<rparr>) (Schema_elem s)))"
| "object_schemas shown marks a [] = Inr []"
| "object_schemas shown marks a ((k, opt, t) # ats) =
     (case type_schema shown t (if marks \<and> opt then a\<lparr>s_optional := True\<rparr> else a) of
        Inl e \<Rightarrow> Inl e
      | Inr s \<Rightarrow> (case object_schemas shown marks a ats of Inl e \<Rightarrow> Inl e | Inr m \<Rightarrow> Inr ((k, s) # m)))"

section \<open>Attributes and blocks\<close>

text \<open>The facts of an attribute that become flags of its schema.\<close>

definition attribute_flags :: "json_facts \<Rightarrow> sch_flags" where
  "attribute_flags j = blank_flags\<lparr>s_optional := ja_optional j, s_required := ja_required j, s_computed := ja_computed j,
     s_sensitive := ja_sensitive j, s_deprecated := deprecated_message (ja_deprecated j)\<rparr>"

definition attribute_to_schema :: "(cty \<Rightarrow> string) \<Rightarrow> json_facts \<Rightarrow> cty option \<Rightarrow> sch option" where
  "attribute_to_schema shown j t =
     (let a = attribute_flags j\<lparr>s_description := ja_description j\<rparr> in
      case t of
        None \<Rightarrow> Some (Sch a No_elem)
      | Some t \<Rightarrow> (case type_schema shown t a of Inl e \<Rightarrow> None | Inr s \<Rightarrow> Some s))"

definition nested_flags :: "json_facts \<Rightarrow> nesting \<Rightarrow> 64 word \<Rightarrow> 64 word \<Rightarrow> sch_flags option" where
  "nested_flags j mode mn mx =
     (let a = attribute_flags j\<lparr>s_min_items := sint mn, s_max_items := sint mx\<rparr>;
          single = a\<lparr>s_type := Object_s, s_min_items := (if ja_required j then 1 else 0), s_max_items := 1\<rparr> in
      case mode of
        Set_n \<Rightarrow> Some (a\<lparr>s_type := Set_s\<rparr>)
      | List_n \<Rightarrow> Some (a\<lparr>s_type := List_s\<rparr>)
      | Map_n \<Rightarrow> Some (a\<lparr>s_type := Map_s\<rparr>)
      | Single_n \<Rightarrow> Some single
      | Group_n \<Rightarrow> Some single
      | Other_n m \<Rightarrow> None)"

fun attr_to_schema :: "(cty \<Rightarrow> string) \<Rightarrow> json_attr \<Rightarrow> sch option"
  and attrs_to_schemas :: "(cty \<Rightarrow> string) \<Rightarrow> (string \<times> json_attr) list \<Rightarrow> (string \<times> sch) list option" where
  "attr_to_schema shown (Attr j t) = attribute_to_schema shown j t"
| "attr_to_schema shown (Nested_attr j mode mn mx as) =
     (case nested_flags j mode mn mx of
        None \<Rightarrow> None
      | Some a \<Rightarrow> (case attrs_to_schemas shown as of None \<Rightarrow> None | Some m \<Rightarrow> Some (Sch a (Resource_elem (Res (Some m) None)))))"
| "attrs_to_schemas shown [] = Some []"
| "attrs_to_schemas shown ((k, x) # as) =
     (case attr_to_schema shown x of
        None \<Rightarrow> None
      | Some s \<Rightarrow> (case attrs_to_schemas shown as of None \<Rightarrow> None | Some m \<Rightarrow> Some ((k, s) # m)))"

primrec attr_facts :: "json_attr \<Rightarrow> json_facts" where
  "attr_facts (Attr j t) = j"
| "attr_facts (Nested_attr j mode mn mx as) = j"

text \<open>A required attribute in the block or in a block inside it.\<close>

fun has_required_child :: "json_block_type \<Rightarrow> bool"
  and block_required :: "json_block \<Rightarrow> bool" where
  "has_required_child (Block_type mode mn mx b) = (case b of None \<Rightarrow> False | Some b \<Rightarrow> block_required b)"
| "block_required (Block d dep as bs) \<longleftrightarrow>
     list_ex (\<lambda>(k, x). ja_required (attr_facts x)) as \<or> list_ex (\<lambda>(k, nb). has_required_child nb) bs"

definition block_flags :: "nesting \<Rightarrow> 64 word \<Rightarrow> 64 word \<Rightarrow> bool \<Rightarrow> sch_flags option" where
  "block_flags mode mn mx req =
     (let a = blank_flags\<lparr>s_min_items := sint mn, s_max_items := sint mx, s_optional := (mn = 0), s_computed := (mn = 0 \<and> mx = 0)\<rparr> in
      case mode of
        Set_n \<Rightarrow> Some (a\<lparr>s_type := Set_s\<rparr>)
      | List_n \<Rightarrow> Some (a\<lparr>s_type := List_s\<rparr>)
      | Map_n \<Rightarrow> Some (a\<lparr>s_type := Map_s\<rparr>)
      | Single_n \<Rightarrow> Some (a\<lparr>s_type := List_s, s_required := req, s_optional := \<not> req, s_min_items := (if req then 1 else 0), s_max_items := 1\<rparr>)
      | _ \<Rightarrow> None)"

fun block_type_to_schema :: "(cty \<Rightarrow> string) \<Rightarrow> json_block_type \<Rightarrow> sch option"
  and block_to_schemas :: "(cty \<Rightarrow> string) \<Rightarrow> json_block \<Rightarrow> (string \<times> sch) list option"
  and blocks_to_schemas :: "(cty \<Rightarrow> string) \<Rightarrow> (string \<times> json_block_type) list \<Rightarrow> (string \<times> sch) list option" where
  "block_type_to_schema shown (Block_type mode mn mx b) =
     (case block_flags mode mn mx (has_required_child (Block_type mode mn mx b)) of
        None \<Rightarrow> None
      | Some a \<Rightarrow>
          (case b of
             None \<Rightarrow> Some (Sch a No_elem)
           | Some (Block d dep as bs) \<Rightarrow>
               (case block_to_schemas shown (Block d dep as bs) of
                  None \<Rightarrow> None
                | Some m \<Rightarrow>
                    Some (Sch (a\<lparr>s_description := d, s_deprecated := deprecated_message dep\<rparr>) (Resource_elem (Res (Some m) None))))))"
| "block_to_schemas shown (Block d dep as bs) =
     (case attrs_to_schemas shown as of
        None \<Rightarrow> None
      | Some m \<Rightarrow> (case blocks_to_schemas shown bs of None \<Rightarrow> None | Some ns \<Rightarrow> Some (put_all ns m)))"
| "blocks_to_schemas shown [] = Some []"
| "blocks_to_schemas shown ((k, nb) # bs) =
     (case block_type_to_schema shown nb of
        None \<Rightarrow> None
      | Some s \<Rightarrow> (case blocks_to_schemas shown bs of None \<Rightarrow> None | Some m \<Rightarrow> Some ((k, s) # m)))"

text \<open>The resource: its own blocks for timeouts are left out, nested ones are not.\<close>

definition resource_from_json :: "(cty \<Rightarrow> string) \<Rightarrow> json_schema \<Rightarrow> v2_resource option" where
  "resource_from_json shown s =
     (case js_block s of
        None \<Rightarrow> Some \<lparr>v2_version = sint (js_version s), v2_schema = Res None None, v2_description = '''', v2_deprecation = ''''\<rparr>
      | Some (Block d dep as bs) \<Rightarrow>
          (case block_to_schemas shown (Block d dep as (filter (\<lambda>(k, nb). k \<noteq> ''timeouts'') bs)) of
             None \<Rightarrow> None
           | Some m \<Rightarrow> Some \<lparr>v2_version = sint (js_version s), v2_schema = Res (Some m) None, v2_description = d,
               v2_deprecation = deprecated_message dep\<rparr>))"

fun get_v2_resource_map :: "(cty \<Rightarrow> string) \<Rightarrow> (string \<times> json_schema) list \<Rightarrow> (string \<times> v2_resource) list option" where
  "get_v2_resource_map shown [] = Some []"
| "get_v2_resource_map shown ((k, s) # ss) =
     (case resource_from_json shown s of
        None \<Rightarrow> None
      | Some r \<Rightarrow> (case get_v2_resource_map shown ss of None \<Rightarrow> None | Some m \<Rightarrow> Some ((k, r) # m)))"

section \<open>What the conversion keeps\<close>

text \<open>
  The type that a schema stands for, read off the schema: the specification of the conversion. It is no function
  of the program or of the plugin SDK, which does not know the object and dynamic types of
  the package. A schema does not tell the optional attributes of an object, so none is marked.
\<close>

fun represented_type :: "sch \<Rightarrow> cty option" and represented_elem :: "sch_elem \<Rightarrow> cty option"
  and represented_attributes :: "(string \<times> sch) list \<Rightarrow> (string \<times> bool \<times> cty) list option" where
  "represented_type (Sch a el) =
     (case s_type a of
        String_s \<Rightarrow> Some String_c
      | Bool_s \<Rightarrow> Some Bool_c
      | Float_s \<Rightarrow> Some Number_c
      | Int_s \<Rightarrow> Some Number_c
      | Dynamic_s \<Rightarrow> Some Dynamic_c
      | List_s \<Rightarrow> map_option List_c (represented_elem el)
      | Set_s \<Rightarrow> map_option Set_c (represented_elem el)
      | Map_s \<Rightarrow> map_option Map_c (represented_elem el)
      | Object_s \<Rightarrow> represented_elem el
      | Invalid_s \<Rightarrow> None)"
| "represented_elem (Schema_elem s) = represented_type s"
| "represented_elem (Resource_elem (Res (Some m) f)) = map_option Object_c (represented_attributes m)"
| "represented_elem el = None"
| "represented_attributes [] = Some []"
| "represented_attributes ((k, s) # m) =
     (case represented_type s of None \<Rightarrow> None | Some t \<Rightarrow> map_option (Cons (k, False, t)) (represented_attributes m))"

text \<open>A type without the marks of its optional attributes, and the types that can be converted.\<close>

fun unmarked :: "cty \<Rightarrow> cty" where
  "unmarked (List_c t) = List_c (unmarked t)"
| "unmarked (Set_c t) = Set_c (unmarked t)"
| "unmarked (Map_c t) = Map_c (unmarked t)"
| "unmarked (Tuple_c ts) = Tuple_c (map unmarked ts)"
| "unmarked (Object_c ats) = Object_c (map (\<lambda>(k, opt, t). (k, False, unmarked t)) ats)"
| "unmarked t = t"

fun convertible :: "cty \<Rightarrow> bool" and convertible_elem :: "cty \<Rightarrow> bool" where
  "convertible (Tuple_c ts) = False"
| "convertible (List_c t) = convertible_elem t"
| "convertible (Set_c t) = convertible_elem t"
| "convertible (Map_c t) = convertible_elem t"
| "convertible (Object_c ats) = list_all (\<lambda>(k, opt, t). convertible t) ats"
| "convertible t = True"
| "convertible_elem Dynamic_c = False"
| "convertible_elem t = convertible t"

lemma represented_collection:
  "s_type (flags s) = List_s \<Longrightarrow> represented_type s = map_option List_c (represented_elem (elem s))"
  "s_type (flags s) = Set_s \<Longrightarrow> represented_type s = map_option Set_c (represented_elem (elem s))"
  "s_type (flags s) = Map_s \<Longrightarrow> represented_type s = map_option Map_c (represented_elem (elem s))"
  by (cases s; simp)+

lemma converted_types:
  shows "(case type_schema shown t a of Inl e \<Rightarrow> \<not> convertible t | Inr s \<Rightarrow> convertible t \<and> represented_type s = Some (unmarked t))"
    and "(case collection_schema shown c t a of
        Inl e \<Rightarrow> \<not> convertible_elem t
      | Inr s \<Rightarrow> convertible_elem t \<and> s_type (flags s) = collection_to_schema_type c \<and> represented_elem (elem s) = Some (unmarked t))"
    and "(case object_schemas shown marks a ats of
        Inl e \<Rightarrow> \<not> list_all (\<lambda>(k, opt, t). convertible t) ats
      | Inr m \<Rightarrow> list_all (\<lambda>(k, opt, t). convertible t) ats \<and> represented_attributes m = Some (map (\<lambda>(k, opt, t). (k, False, unmarked t)) ats))"
proof (induction shown t a and shown c t a and shown marks a ats rule: type_schema_collection_schema_object_schemas.induct)
qed (auto split: sum.splits split del: if_split simp: represented_collection primitive_to_schema_type_def collection_to_schema_type_def)

section \<open>Which schemas are converted\<close>

fun ok_attr :: "json_attr \<Rightarrow> bool" and ok_attrs :: "(string \<times> json_attr) list \<Rightarrow> bool" where
  "ok_attr (Attr j t) = (case t of None \<Rightarrow> True | Some t \<Rightarrow> convertible t)"
| "ok_attr (Nested_attr j mode mn mx as) = ((case mode of Other_n m \<Rightarrow> False | _ \<Rightarrow> True) \<and> ok_attrs as)"
| "ok_attrs [] = True"
| "ok_attrs ((k, x) # as) = (ok_attr x \<and> ok_attrs as)"

fun ok_block_type :: "json_block_type \<Rightarrow> bool" and ok_block :: "json_block \<Rightarrow> bool" and ok_blocks :: "(string \<times> json_block_type) list \<Rightarrow> bool" where
  "ok_block_type (Block_type mode mn mx b) =
     ((case mode of Other_n m \<Rightarrow> False | Group_n \<Rightarrow> False | _ \<Rightarrow> True) \<and> (case b of None \<Rightarrow> True | Some b \<Rightarrow> ok_block b))"
| "ok_block (Block d dep as bs) = (ok_attrs as \<and> ok_blocks bs)"
| "ok_blocks [] = True"
| "ok_blocks ((k, nb) # bs) = (ok_block_type nb \<and> ok_blocks bs)"

lemma attribute_converted: "attribute_to_schema shown j t = None \<longleftrightarrow> \<not> ok_attr (Attr j t)"
proof (cases t)
  case (Some c)
  then show ?thesis
    using converted_types(1) [where shown = shown and t = c and a = "attribute_flags j\<lparr>s_description := ja_description j\<rparr>"]
    by (auto simp: attribute_to_schema_def Let_def split: sum.splits)
qed (simp add: attribute_to_schema_def)

lemma nested_flags_None: "nested_flags j mode mn mx = None \<longleftrightarrow> (case mode of Other_n m \<Rightarrow> True | _ \<Rightarrow> False)"
  by (cases mode) (simp_all add: nested_flags_def Let_def)

lemma block_flags_None: "block_flags mode mn mx req = None \<longleftrightarrow> (case mode of Other_n m \<Rightarrow> True | Group_n \<Rightarrow> True | _ \<Rightarrow> False)"
  by (cases mode) (simp_all add: block_flags_def Let_def)

lemma attrs_converted:
  shows "attr_to_schema shown x = None \<longleftrightarrow> \<not> ok_attr x"
    and "attrs_to_schemas shown as = None \<longleftrightarrow> \<not> ok_attrs as"
proof (induction shown x and shown as rule: attr_to_schema_attrs_to_schemas.induct)
  case (1 shown j t)
  then show ?case by (simp add: attribute_converted del: ok_attr.simps)
next
  case (2 shown j mode mn mx as)
  show ?case
  proof (cases "nested_flags j mode mn mx")
    case None
    then show ?thesis using nested_flags_None [of j mode mn mx] by (simp split: nesting.splits)
  next
    case (Some a)
    then have "(case mode of Other_n m \<Rightarrow> False | _ \<Rightarrow> True)" using nested_flags_None [of j mode mn mx] by (simp split: nesting.splits)
    with 2 Some show ?thesis by (auto split: option.splits)
  qed
qed (auto split: option.splits)

lemma blocks_converted:
  shows "block_type_to_schema shown nb = None \<longleftrightarrow> \<not> ok_block_type nb"
    and "block_to_schemas shown b = None \<longleftrightarrow> \<not> ok_block b"
    and "blocks_to_schemas shown bs = None \<longleftrightarrow> \<not> ok_blocks bs"
proof (induction shown nb and shown b and shown bs rule: block_type_to_schema_block_to_schemas_blocks_to_schemas.induct)
  case (1 shown mode mn mx b)
  show ?case
  proof (cases "block_flags mode mn mx (has_required_child (Block_type mode mn mx b))")
    case None
    then show ?thesis using block_flags_None [of mode mn mx "has_required_child (Block_type mode mn mx b)"]
      by (simp del: has_required_child.simps split: nesting.splits)
  next
    case (Some a)
    then have mode: "(case mode of Other_n m \<Rightarrow> False | Group_n \<Rightarrow> False | _ \<Rightarrow> True)"
      using block_flags_None [of mode mn mx "has_required_child (Block_type mode mn mx b)"] by (simp del: has_required_child.simps split: nesting.splits)
    show ?thesis
    proof (cases b)
      case None
      with Some mode show ?thesis by (simp del: has_required_child.simps)
    next
      case (Some bl)
      obtain d dep as bs where bl: "bl = Block d dep as bs" by (cases bl)
      note ih = 1 [OF \<open>block_flags _ _ _ _ = Some a\<close> Some bl]
      with \<open>block_flags _ _ _ _ = Some a\<close> mode Some bl show ?thesis
        by (auto simp del: has_required_child.simps block_to_schemas.simps ok_block.simps split: option.splits)
    qed
  qed
next
  case (2 shown d dep as bs)
  then show ?case using attrs_converted(2) [of shown as] by (auto split: option.splits)
qed (auto split: option.splits)

text \<open>The conversion of a resource panics exactly on such attributes and blocks, its timeouts left out.\<close>

lemma resource_converted:
  "resource_from_json shown s = None \<longleftrightarrow>
     (case js_block s of None \<Rightarrow> False | Some (Block d dep as bs) \<Rightarrow> \<not> ok_block (Block d dep as (filter (\<lambda>(k, nb). k \<noteq> ''timeouts'') bs)))"
proof (cases "js_block s")
  case None
  then show ?thesis by (simp add: resource_from_json_def)
next
  case (Some b)
  obtain d dep as bs where "b = Block d dep as bs" by (cases b)
  with Some show ?thesis using blocks_converted(2) [of shown "Block d dep as (filter (\<lambda>(k, nb). k \<noteq> ''timeouts'') bs)"]
    by (auto simp: resource_from_json_def simp del: block_to_schemas.simps ok_block.simps split: option.splits)
qed

section \<open>Properties\<close>

text \<open>
  C33. The schema of an attribute keeps its type, up to the marks of optional attributes: a type is converted exactly
  when it holds no tuple and no dynamic element of a collection, and then the type that can be read off the
  schema, its collections and the names and types of object attributes at every depth, is the original one without the
  marks of its optional attributes.
\<close>

theorem types_survive_schema:
  "case type_schema shown t a of
     Inl e \<Rightarrow> \<not> convertible t
   | Inr s \<Rightarrow> convertible t \<and> represented_type s = Some (unmarked t)"
  by (rule converted_types(1))

text \<open>
  A block type goes to the status exactly when it is a single block without item counts that has a required
  attribute in it, at any depth: every other block stays configurable.
\<close>

lemma only_required_single_blocks_observed:
  assumes "block_type_to_schema shown (Block_type mode mn mx b) = Some s"
  shows "is_observation (flags s) \<longleftrightarrow> mode = Single_n \<and> mn = 0 \<and> mx = 0 \<and> has_required_child (Block_type mode mn mx b)"
proof -
  obtain a where "block_flags mode mn mx (has_required_child (Block_type mode mn mx b)) = Some a"
    "s_computed (flags s) = s_computed a" "s_optional (flags s) = s_optional a"
    using assms by (cases b rule: option.exhaust; cases "the b") (auto split: option.splits)
  then show ?thesis
    by (cases mode) (auto simp: block_flags_def Let_def is_observation_def)
qed

end
