(* ===== verification/ProviderAssembly.thy ===== *)
theory ProviderAssembly
  imports ResourceConfig SchemaJson TfConversion
begin

text \<open>
  The assembly of a provider's configuration (\<open>pkg/config/provider.go\<close>): which Terraform resources are
  generated, with which client, from which schema, and what the schema visitors set up; and the paths of
  dynamic attributes (\<open>pkg/config/dynamic.go\<close>). The matching of regular expressions is a parameter, with
  \<open>None\<close> for an invalid expression; so are the schema of the Plugin Framework provider, as a type for each
  resource, and the injectors of references. The JSON documents are decoded. The resources of the schema are in the
  order of a range over their map.
\<close>

section \<open>Dynamic attributes\<close>

fun traverse_type_for_dynamic_type :: "tf_type \<Rightarrow> string \<Rightarrow> string list" where
  "traverse_type_for_dynamic_type (Prim_t p) prefix = (if p = Dynamic_pt then [prefix] else [])"
| "traverse_type_for_dynamic_type (Object_t ats) prefix =
     concat (map (\<lambda>(k, t). traverse_type_for_dynamic_type t (prefix @ ''.'' @ k)) ats)"
| "traverse_type_for_dynamic_type (List_t t) prefix = traverse_type_for_dynamic_type t (prefix @ ''[*]'')"
| "traverse_type_for_dynamic_type (Map_t t) prefix = traverse_type_for_dynamic_type t (prefix @ ''[*]'')"
| "traverse_type_for_dynamic_type (Set_t t) prefix = traverse_type_for_dynamic_type t (prefix @ ''[*]'')"
| "traverse_type_for_dynamic_type (Tuple_t ts) prefix =
     concat (map (\<lambda>t. traverse_type_for_dynamic_type t (prefix @ ''[*]'')) ts)"

text \<open>The schema of a Framework resource is its type, or the diagnostics of the request; there may be no resource.\<close>

definition framework_dynamic_type_attribute_paths :: "string \<Rightarrow> (string + tf_type) option \<Rightarrow> gerror + string list" where
  "framework_dynamic_type_attribute_paths nm r =
     (case r of
        None \<Rightarrow> Inl (Plain ''resource is nil'')
      | Some (Inl diags) \<Rightarrow>
          Inl (Plain (''failed to retrieve framework schema for resource '' @ go_quote nm @ '': '' @ diags))
      | Some (Inr t) \<Rightarrow> Inr (map (\<lambda>p. trim_prefix p ''.'') (traverse_type_for_dynamic_type t '''')))"

section \<open>Providers\<close>

text \<open>A resource with its client and whether the conversion of dynamic values was added.\<close>

datatype client = Cli | Sdk | Framework

record provider_resource =
  pr_cfg :: resource_cfg
  pr_client :: client
  pr_dynamic :: bool

record gen_provider =
  p_prefix :: string
  p_root_group :: string
  p_short_name :: string
  p_module_path :: string
  p_include :: "string list"
  p_sdk_include :: "string list"
  p_fw_include :: "string list"
  p_skip_list :: "string list"
  p_sdk_resources :: "(string \<times> sch_resource) list option"
  p_fw_resources :: "(string \<times> (string + tf_type)) list"
  p_default_options :: "(resource_cfg \<Rightarrow> resource_cfg) list"
  p_traversers :: "resource_cfg visitor list"
  p_injectors :: "((string \<times> provider_resource) list \<Rightarrow> gerror + (string \<times> provider_resource) list) list"
  p_resources :: "(string \<times> provider_resource) list"
  p_skipped :: "string list"
  p_configurators :: "(string \<times> (resource_cfg \<Rightarrow> resource_cfg) list) list"

fun matches :: "(string \<Rightarrow> string \<Rightarrow> bool option) \<Rightarrow> string \<Rightarrow> string list \<Rightarrow> bool outcome" where
  "matches re nm [] = Done False"
| "matches re nm (r # rs) =
     (case re r nm of None \<Rightarrow> Crashed | Some True \<Rightarrow> Done True | Some False \<Rightarrow> matches re nm rs)"

definition starting_provider :: "string \<Rightarrow> string \<Rightarrow> gen_provider" where
  "starting_provider prefix module_path =
     \<lparr>p_prefix = prefix @ ''_'', p_root_group = prefix @ ''.upbound.io'', p_short_name = prefix, p_module_path = module_path,
      p_include = [''.+''], p_sdk_include = [], p_fw_include = [], p_skip_list = [], p_sdk_resources = None, p_fw_resources = [],
      p_default_options = [], p_traversers = [], p_injectors = [], p_resources = [], p_skipped = [], p_configurators = []\<rparr>"

section \<open>Choosing resources\<close>

text \<open>The client and the schema of a resource; \<open>None\<close> skips it.\<close>

definition sdk_schema :: "gen_provider \<Rightarrow> string \<Rightarrow> sch_resource option outcome" where
  "sdk_schema p nm =
     (case p_sdk_resources p of
        None \<Rightarrow> Crashed
      | Some rs \<Rightarrow>
          (case map_of rs nm of
             None \<Rightarrow> Crashed
           | Some (Res (Some m) f) \<Rightarrow> Done (Some (Res (Some m) f))
           | Some (Res None (Some m)) \<Rightarrow> Done (Some (Res (Some m) (Some m)))
           | Some (Res None None) \<Rightarrow> Done None))"

definition select_resource :: "(string \<Rightarrow> string \<Rightarrow> bool option) \<Rightarrow> gen_provider \<Rightarrow> string \<Rightarrow> sch_resource \<Rightarrow> (client \<times> sch_resource) option outcome" where
  "select_resource re p nm json =
     and_then (matches re nm (p_sdk_include p)) (\<lambda>sdk.
     and_then (matches re nm (p_fw_include p)) (\<lambda>fw.
     and_then (matches re nm (p_include p)) (\<lambda>cli.
       if sdk \<and> fw \<or> sdk \<and> cli \<or> fw \<and> cli then Crashed
       else if own_schema json = [] then Done None
       else and_then (matches re nm (p_skip_list p)) (\<lambda>skip.
         if skip \<or> \<not> cli \<and> \<not> sdk \<and> \<not> fw then Done None
         else if sdk then and_then (sdk_schema p nm) (\<lambda>r. Done (map_option (Pair Sdk) r))
         else if fw then (if map_of (p_fw_resources p) nm = None then Crashed else Done (Some (Framework, json)))
         else Done (Some (Cli, json))))))"

text \<open>The configuration of a chosen resource after the visitors; every error panics.\<close>

definition visited :: "gen_lib \<Rightarrow> string \<Rightarrow> resource_cfg visitor list \<Rightarrow> resource_cfg \<Rightarrow> resource_cfg outcome" where
  "visited lib nm vs c = (case traverse_schemas lib nm vs c of (Done _, c) \<Rightarrow> Done c | _ \<Rightarrow> Crashed)"

definition configured_resource ::
  "gen_lib \<Rightarrow> gen_provider \<Rightarrow> string \<Rightarrow> (string \<times> string) list option \<Rightarrow> client \<Rightarrow> sch_resource \<Rightarrow> provider_resource outcome" where
  "configured_resource lib p nm docs cl sch =
     (case default_resource lib nm (Some sch) docs (p_default_options p) of
        None \<Rightarrow> Crashed
      | Some c \<Rightarrow>
          and_then (if cl = Cli then visited lib nm [dynamic_pseudo_type_traverser lib] c else Done c) (\<lambda>c.
            let cli_dynamic = (cl = Cli \<and> dynamic_paths c \<noteq> []) in
            and_then (visited lib nm (p_traversers p) c) (\<lambda>c.
              if cl \<noteq> Framework then Done \<lparr>pr_cfg = c, pr_client = cl, pr_dynamic = cli_dynamic\<rparr>
              else (case framework_dynamic_type_attribute_paths nm (map_of (p_fw_resources p) nm) of
                      Inl e \<Rightarrow> Crashed
                    | Inr ps \<Rightarrow>
                        if ps = [] then Done \<lparr>pr_cfg = c, pr_client = cl, pr_dynamic = False\<rparr>
                        else Done \<lparr>pr_cfg = c\<lparr>dynamic_paths := ps\<rparr>, pr_client = cl, pr_dynamic = True\<rparr>))))"

fun add_resources ::
  "gen_lib \<Rightarrow> (string \<Rightarrow> string \<Rightarrow> bool option) \<Rightarrow> (string \<Rightarrow> (string \<times> string) list option) \<Rightarrow> (string \<times> v2_resource) list \<Rightarrow> gen_provider \<Rightarrow> gen_provider outcome" where
  "add_resources lib re docs [] p = Done p"
| "add_resources lib re docs ((nm, json) # rs) p =
     and_then (select_resource re p nm (v2_schema json)) (\<lambda>chosen.
       case chosen of
         None \<Rightarrow> add_resources lib re docs rs (p\<lparr>p_skipped := p_skipped p @ [nm]\<rparr>)
       | Some (cl, sch) \<Rightarrow>
           and_then (configured_resource lib p nm (docs nm) cl sch) (\<lambda>r.
             add_resources lib re docs rs (p\<lparr>p_resources := put_key nm r (p_resources p)\<rparr>)))"

fun inject_references ::
  "((string \<times> provider_resource) list \<Rightarrow> gerror + (string \<times> provider_resource) list) list \<Rightarrow> (string \<times> provider_resource) list \<Rightarrow> (string \<times> provider_resource) list outcome" where
  "inject_references [] rs = Done rs"
| "inject_references (f # fs) rs = (case f rs of Inl e \<Rightarrow> Crashed | Inr rs \<Rightarrow> inject_references fs rs)"

definition new_provider ::
  "gen_lib \<Rightarrow> (string \<Rightarrow> string \<Rightarrow> bool option) \<Rightarrow> (cty \<Rightarrow> string) \<Rightarrow> (string \<times> (string \<times> json_schema) list) list \<Rightarrow> string \<Rightarrow> string \<Rightarrow>
     (string \<Rightarrow> (string \<times> string) list option) \<Rightarrow> (gen_provider \<Rightarrow> gen_provider) list \<Rightarrow> gen_provider outcome" where
  "new_provider lib re shown schemas prefix module_path docs opts =
     (case schemas of
        [(_, rs)] \<Rightarrow>
          (case get_v2_resource_map shown rs of
             None \<Rightarrow> Crashed
           | Some m \<Rightarrow>
               and_then (add_resources lib re docs m (fold (\<lambda>f p. f p) opts (starting_provider prefix module_path))) (\<lambda>p.
               and_then (inject_references (p_injectors p) (p_resources p)) (\<lambda>rs. Done (p\<lparr>p_resources := rs\<rparr>))))
      | _ \<Rightarrow> Crashed)"

section \<open>Configurators\<close>

definition add_resource_configurator :: "string \<Rightarrow> (resource_cfg \<Rightarrow> resource_cfg) \<Rightarrow> gen_provider \<Rightarrow> gen_provider" where
  "add_resource_configurator r c p =
     p\<lparr>p_configurators := put_key r ((case map_of (p_configurators p) r of None \<Rightarrow> [] | Some cs \<Rightarrow> cs) @ [c]) (p_configurators p)\<rparr>"

definition set_resource_configurator :: "string \<Rightarrow> (resource_cfg \<Rightarrow> resource_cfg) \<Rightarrow> gen_provider \<Rightarrow> gen_provider" where
  "set_resource_configurator r c p = p\<lparr>p_configurators := put_key r [c] (p_configurators p)\<rparr>"

definition configure_chain :: "(resource_cfg \<Rightarrow> resource_cfg) list \<Rightarrow> resource_cfg \<Rightarrow> resource_cfg" where
  "configure_chain cs r = fold (\<lambda>c r. c r) cs r"

definition configure_resources :: "gen_provider \<Rightarrow> gen_provider" where
  "configure_resources p =
     p\<lparr>p_resources := fold (\<lambda>(nm, cs) rs. map_entry nm (\<lambda>r. r\<lparr>pr_cfg := configure_chain cs (pr_cfg r)\<rparr>) rs) (p_configurators p) (p_resources p)\<rparr>"

section \<open>What is generated\<close>

lemma select_resources [simp]: "select_resource re (p\<lparr>p_resources := rs\<rparr>) nm json = select_resource re p nm json"
  by (cases p, hypsubst, unfold select_resource_def sdk_schema_def gen_provider.simps, rule refl)

lemma select_skipped [simp]: "select_resource re (p\<lparr>p_skipped := ns\<rparr>) nm json = select_resource re p nm json"
  by (cases p, hypsubst, unfold select_resource_def sdk_schema_def gen_provider.simps, rule refl)

lemma configured_client: "configured_resource lib p nm docs cl sch = Done r \<Longrightarrow> pr_client r = cl"
  by (auto simp: configured_resource_def Let_def split: option.splits if_splits sum.splits)

text \<open>One step of the loop: the resource is recorded or skipped.\<close>

lemma add_resources_step:
  assumes "add_resources lib re docs ((n, j) # rs) p = Done p'"
  obtains (skipped) "select_resource re p n (v2_schema j) = Done None" "add_resources lib re docs rs (p\<lparr>p_skipped := p_skipped p @ [n]\<rparr>) = Done p'"
  | (taken) cl sch r where "select_resource re p n (v2_schema j) = Done (Some (cl, sch))" "pr_client r = cl"
      "add_resources lib re docs rs (p\<lparr>p_resources := put_key n r (p_resources p)\<rparr>) = Done p'"
proof -
  from assms obtain chosen where chosen: "select_resource re p n (v2_schema j) = Done chosen"
    "(case chosen of None \<Rightarrow> add_resources lib re docs rs (p\<lparr>p_skipped := p_skipped p @ [n]\<rparr>)
      | Some (cl, sch) \<Rightarrow>
          and_then (configured_resource lib p n (docs n) cl sch) (\<lambda>r.
            add_resources lib re docs rs (p\<lparr>p_resources := put_key n r (p_resources p)\<rparr>))) = Done p'"
    by (simp only: add_resources.simps and_then_Done) blast
  show thesis
  proof (cases chosen)
    case None
    with chosen skipped show thesis by simp
  next
    case (Some x)
    with chosen taken show thesis by (cases x) (auto dest: configured_client)
  qed
qed

lemma other_resources:
  "add_resources lib re docs rs p = Done p' \<Longrightarrow> nm \<notin> fst ` set rs \<Longrightarrow>
     map_of (p_resources p') nm = map_of (p_resources p) nm \<and> (nm \<in> set (p_skipped p') \<longleftrightarrow> nm \<in> set (p_skipped p))"
proof (induction rs arbitrary: p)
  case (Cons e rs)
  obtain n j where e: "e = (n, j)" by force
  from Cons.prems(1) [unfolded e] show ?case
  proof (cases rule: add_resources_step)
    case skipped
    with Cons.IH [OF skipped(2)] Cons.prems(2) e show ?thesis by auto
  next
    case (taken cl sch r)
    with Cons.IH [OF taken(3)] Cons.prems(2) e show ?thesis by (auto simp: map_of_put_key)
  qed
qed simp

definition recorded :: "(string \<Rightarrow> string \<Rightarrow> bool option) \<Rightarrow> gen_provider \<Rightarrow> gen_provider \<Rightarrow> string \<Rightarrow> sch_resource \<Rightarrow> bool" where
  "recorded re p p' nm json \<longleftrightarrow>
     (case map_of (p_resources p') nm of
        None \<Rightarrow> select_resource re p nm json = Done None \<and> nm \<in> set (p_skipped p')
      | Some r \<Rightarrow> (\<exists>sch. select_resource re p nm json = Done (Some (pr_client r, sch))) \<and> nm \<notin> set (p_skipped p'))"

lemma recorded_frame [simp]:
  "recorded re (p\<lparr>p_skipped := ns\<rparr>) = recorded re p" "recorded re (p\<lparr>p_resources := rs\<rparr>) = recorded re p"
  unfolding recorded_def fun_eq_iff select_skipped select_resources by simp_all

lemma all_recorded:
  "add_resources lib re docs rs p = Done p' \<Longrightarrow> distinct (map fst rs) \<Longrightarrow> (nm, json) \<in> set rs \<Longrightarrow>
     nm \<notin> set (p_skipped p) \<Longrightarrow> map_of (p_resources p) nm = None \<Longrightarrow> recorded re p p' nm (v2_schema json)"
proof (induction rs arbitrary: p)
  case (Cons e rs)
  obtain n j where e: "e = (n, j)" by force
  from Cons.prems(1) [unfolded e] show ?case
  proof (cases rule: add_resources_step)
    case skipped
    show ?thesis
    proof (cases "nm = n")
      case True
      with Cons.prems e have "json = j" "nm \<notin> fst ` set rs" by (auto simp: image_iff dest: eq_key_imp_eq_value)
      with skipped True Cons.prems(5) other_resources [OF skipped(2)] show ?thesis by (simp add: recorded_def)
    next
      case False
      with Cons.IH [OF skipped(2)] Cons.prems e show ?thesis by simp
    qed
  next
    case (taken cl sch r)
    show ?thesis
    proof (cases "nm = n")
      case True
      with Cons.prems e have "json = j" "nm \<notin> fst ` set rs" by (auto simp: image_iff dest: eq_key_imp_eq_value)
      with taken True Cons.prems(4) other_resources [OF taken(3)] show ?thesis by (simp add: recorded_def map_of_put_key)
    next
      case False
      with Cons.IH [OF taken(3)] Cons.prems e show ?thesis by (simp add: map_of_put_key)
    qed
  qed
qed simp

lemma selected_client:
  assumes "select_resource re p nm json = Done (Some (cl, sch))"
  shows "matches re nm (p_sdk_include p) = Done (cl = Sdk) \<and> matches re nm (p_fw_include p) = Done (cl = Framework) \<and>
    matches re nm (p_include p) = Done (cl = Cli) \<and> matches re nm (p_skip_list p) = Done False \<and> own_schema json \<noteq> []"
  using assms by (auto simp: select_resource_def split: if_splits)

lemma not_selected:
  assumes "select_resource re p nm json = Done None"
  shows "own_schema json = [] \<or> matches re nm (p_skip_list p) = Done True \<or>
    (\<forall>l \<in> {p_sdk_include p, p_fw_include p, p_include p}. matches re nm l = Done False) \<or>
    matches re nm (p_sdk_include p) = Done True \<and> sdk_schema p nm = Done None"
  using assms by (auto simp: select_resource_def split: if_splits)

text \<open>
  C31. Every Terraform resource is either generated or skipped, never both. A generated resource matches exactly one
  of the three include lists, the one of its client, and not the skip list, and has a schema; a skipped one has no
  schema, matches the skip list or matches no include list.
\<close>

theorem resources_follow_include_lists:
  assumes "add_resources lib re docs rs p = Done p'" "distinct (map fst rs)" "(nm, json) \<in> set rs"
    "p_skipped p = []" "p_resources p = []"
  shows "case map_of (p_resources p') nm of
      Some r \<Rightarrow> nm \<notin> set (p_skipped p') \<and>
        matches re nm (p_sdk_include p) = Done (pr_client r = Sdk) \<and> matches re nm (p_fw_include p) = Done (pr_client r = Framework) \<and>
        matches re nm (p_include p) = Done (pr_client r = Cli) \<and> matches re nm (p_skip_list p) = Done False \<and> own_schema (v2_schema json) \<noteq> []
    | None \<Rightarrow> nm \<in> set (p_skipped p') \<and>
        (own_schema (v2_schema json) = [] \<or> matches re nm (p_skip_list p) = Done True \<or>
         (\<forall>l \<in> {p_sdk_include p, p_fw_include p, p_include p}. matches re nm l = Done False) \<or>
         matches re nm (p_sdk_include p) = Done True \<and> sdk_schema p nm = Done None)"
proof -
  have "recorded re p p' nm (v2_schema json)" using all_recorded [OF assms(1-3)] assms(4,5) by simp
  then show ?thesis unfolding recorded_def by (auto dest: selected_client not_selected split: option.splits)
qed

definition sample_resources :: "(string \<times> v2_resource) list" where
  "sample_resources =
     [(''aws_vm'', \<lparr>v2_version = 0, v2_schema = disk_schema, v2_description = '''', v2_deprecation = ''''\<rparr>),
      (''aws_log'', \<lparr>v2_version = 0, v2_schema = disk_schema, v2_description = '''', v2_deprecation = ''''\<rparr>)]"

definition sample_provider :: gen_provider where
  "sample_provider = (starting_provider ''aws'' ''m'')\<lparr>p_include := [''aws_vm'']\<rparr>"

lemma resources_follow_include_lists_witness:
  "case add_resources simple_lib (\<lambda>r n. Some (r = n)) (\<lambda>n. None) sample_resources sample_provider of
     Done p' \<Rightarrow> ''aws_log'' \<in> set (p_skipped p') \<or> map_of (p_resources p') ''aws_log'' \<noteq> None
   | _ \<Rightarrow> False"
proof -
  let ?run = "add_resources simple_lib (\<lambda>r n. Some (r = n)) (\<lambda>n. None) sample_resources sample_provider"
  have "(case ?run of Done p' \<Rightarrow> True | _ \<Rightarrow> False)" by code_simp
  then obtain p' where run: "?run = Done p'" by (auto split: outcome.splits)
  have "distinct (map fst sample_resources)" "(''aws_log'', snd (sample_resources ! 1)) \<in> set sample_resources"
    "p_skipped sample_provider = []" "p_resources sample_provider = []"
    by (simp_all add: sample_resources_def sample_provider_def starting_provider_def)
  from resources_follow_include_lists [OF run this] run show ?thesis by (auto split: option.splits)
qed

text \<open>
  The default of the include list for the CLI takes every resource, and those for the two other clients none: with
  the defaults a resource in another include list makes the assembly panic.
\<close>

lemma default_include_list_conflicts:
  assumes "re ''.+'' nm = Some True" "p_include p = [''.+'']" "matches re nm (p_sdk_include p) = Done True"
  shows "select_resource re p nm json \<noteq> Done x"
  using assms by (auto simp: select_resource_def)

end
