(* ===== verification/ExternalNames.thy ===== *)
theory ExternalNames
  imports HclParams GoOutcome
begin

text \<open>
  The configurations of external names (\<open>pkg/config/externalname.go\<close>, the functions of
  \<open>pkg/config/resource.go\<close>): how the identifier in Terraform's state is built from the name of a resource
  and how the name is read back. The package text/template is a parameter: the actions of a parsed template
  as text, and its execution on data. So are the setting of a field path and \<open>fmt.Sprintf\<close> with \<open>%v\<close>.
  Templates and identifiers are ASCII text. A configuration is a record of functions; a panic is \<open>Crashed\<close>.
\<close>

section \<open>Configurations\<close>

type_synonym set_identifier_fn = "any_map \<Rightarrow> string \<Rightarrow> any_map outcome"
type_synonym get_external_name_fn = "any_map \<Rightarrow> string outcome"
type_synonym get_id_fn = "string \<Rightarrow> any_map \<Rightarrow> any_map \<Rightarrow> gerror + string"

record external_name =
  en_set_identifier :: set_identifier_fn
  en_get_external_name :: get_external_name_fn
  en_get_id :: get_id_fn
  en_omitted :: "string list"
  en_no_initializer :: bool
  en_identifier_fields :: "string list"
  en_computed_identifiers :: "string list"

definition nop_set_identifier_argument :: set_identifier_fn where
  "nop_set_identifier_argument base name = Done base"

definition external_name_as_id :: get_id_fn where
  "external_name_as_id name params setup_cfg = Inr name"

definition id_as_external_name :: get_external_name_fn where
  "id_as_external_name tfstate =
     (case map_of tfstate ''id'' of
        Some (Str_v i) \<Rightarrow> if i = '''' then Failed (Plain ''cannot find id in tfstate'') else Done i
      | _ \<Rightarrow> Failed (Plain ''cannot find id in tfstate''))"

definition name_as_identifier :: external_name where
  "name_as_identifier =
     \<lparr>en_set_identifier = (\<lambda>base name. Done (put_key ''name'' (Str_v name) base)), en_get_external_name = id_as_external_name,
      en_get_id = external_name_as_id, en_omitted = [''name'', ''name_prefix''], en_no_initializer = False,
      en_identifier_fields = [], en_computed_identifiers = []\<rparr>"

definition identifier_from_provider :: external_name where
  "identifier_from_provider =
     \<lparr>en_set_identifier = nop_set_identifier_argument, en_get_external_name = id_as_external_name,
      en_get_id = external_name_as_id, en_omitted = [], en_no_initializer = True, en_identifier_fields = [],
      en_computed_identifiers = []\<rparr>"

definition parameter_as_identifier :: "string \<Rightarrow> external_name" where
  "parameter_as_identifier param =
     name_as_identifier\<lparr>en_set_identifier := (\<lambda>base name. Done (put_key param (Str_v name) base)),
       en_omitted := [param, param @ ''_prefix''], en_identifier_fields := [param]\<rparr>"

section \<open>Reading a name out of an identifier\<close>

text \<open>The rest of the text after a match of the expression for the name at its beginning.\<close>

definition external_name_action :: "string \<Rightarrow> string option" where
  "external_name_action s =
     (let s1 = dropWhile (\<lambda>c. c = CHR '' '') (drop 2 s); s2 = drop 14 s1; s3 = dropWhile (\<lambda>c. c = CHR '' '') s2 in
      if has_prefix s ''{{'' \<and> has_prefix s1 ''.external_name'' \<and> (s2 = [] \<or> \<not> is_word_char (hd s2)) \<and> has_prefix s3 ''}}''
      then Some (drop 2 s3) else None)"

text \<open>The text before the leftmost match and the text after it.\<close>

fun find_external_name :: "string \<Rightarrow> (string \<times> string) option" where
  "find_external_name [] = None"
| "find_external_name (c # cs) =
     (case external_name_action (c # cs) of
        Some r \<Rightarrow> Some ([], r)
      | None \<Rightarrow> map_option (\<lambda>(l, r). (c # l, r)) (find_external_name cs))"

text \<open>The last part of \<open>strings.SplitAfterN\<close> with one part more than the given number.\<close>

fun after_seps :: "char \<Rightarrow> nat \<Rightarrow> string \<Rightarrow> string" where
  "after_seps c 0 v = v"
| "after_seps c (Suc n) v = (if c \<in> set v then after_seps c n (tl (dropWhile (\<lambda>x. x \<noteq> c) v)) else v)"

definition get_external_name_from_templated :: "string \<Rightarrow> string \<Rightarrow> string" where
  "get_external_name_from_templated tmpl val =
     (case find_external_name tmpl of
        None \<Rightarrow> val
      | Some ([], []) \<Rightarrow> val
      | Some ([], d # r) \<Rightarrow> hd (split_on d val)
      | Some (c # l, []) \<Rightarrow> last (split_on (last (c # l)) val)
      | Some (c # l, d # r) \<Rightarrow>
          (let sep = last (c # l) in
           hd (split_on d (after_seps sep (count_list ((c # l) @ ''{'') sep) val))))"

section \<open>Templates\<close>

text \<open>
  The parameter an action prints: after a match of \<open>{{\s*\.parameters\.\<close> the longest text without white
  space and brace, then white space and the end of the action.
\<close>

definition parameter_at :: "string \<Rightarrow> string option" where
  "parameter_at s =
     (let s1 = dropWhile is_regexp_space (drop 2 s);
          s2 = drop 12 s1;
          p = takeWhile (\<lambda>c. \<not> is_regexp_space c \<and> c \<noteq> CHR ''}'') s2 in
      if has_prefix s ''{{'' \<and> has_prefix s1 ''.parameters.'' \<and> p \<noteq> [] \<and> has_prefix (dropWhile is_regexp_space (drop (length p) s2)) ''}}''
      then Some p else None)"

fun parameter_field :: "string \<Rightarrow> string option" where
  "parameter_field [] = None"
| "parameter_field (c # cs) = (case parameter_at (c # cs) of Some p \<Rightarrow> Some p | None \<Rightarrow> parameter_field cs)"

record template_lib =
  parse_actions :: "string \<Rightarrow> gerror + string list"  \<comment> \<open>the action nodes of the root as text\<close>
  execute :: "string \<Rightarrow> any_map \<Rightarrow> gerror + string"
  set_string :: "string \<Rightarrow> string \<Rightarrow> any_map \<Rightarrow> any_map option"

definition template_data :: "string \<Rightarrow> any_map \<Rightarrow> any_map \<Rightarrow> any_map" where
  "template_data name params setup_cfg = [(''external_name'', Str_v name), (''parameters'', Map_v params), (''setup'', Map_v setup_cfg)]"

definition templated_string_as_identifier :: "template_lib \<Rightarrow> string \<Rightarrow> string \<Rightarrow> external_name option" where
  "templated_string_as_identifier lib path tmpl =
     (case parse_actions lib tmpl of
        Inl e \<Rightarrow> None
      | Inr as \<Rightarrow>
          Some
            \<lparr>en_set_identifier = (\<lambda>base name.
               if path = '''' then Done base
               else (case set_string lib path name base of None \<Rightarrow> Crashed | Some base \<Rightarrow> Done base)),
             en_get_external_name = (\<lambda>tfstate.
               case map_of tfstate ''id'' of
                 None \<Rightarrow> Failed (Plain ''id does not exist in tfstate'')
               | Some (Str_v i) \<Rightarrow> Done (get_external_name_from_templated tmpl i)
               | Some _ \<Rightarrow> Crashed),
             en_get_id = (\<lambda>name params setup_cfg.
               case execute lib tmpl (template_data name params setup_cfg) of
                 Inl e \<Rightarrow> Inl (WithMsg ''cannot execute template'' e)
               | Inr i \<Rightarrow> Inr i),
             en_omitted = [path, path @ ''_prefix''], en_no_initializer = False,
             en_identifier_fields = List.map_filter parameter_field as, en_computed_identifiers = []\<rparr>)"

section \<open>Configurations from other ones\<close>

record external_name_from =
  ef_parent :: external_name
  ef_get_id :: "(get_id_fn \<Rightarrow> get_id_fn) option"
  ef_get_external_name :: "(get_external_name_fn \<Rightarrow> get_external_name_fn) option"
  ef_set_identifier :: "(set_identifier_fn \<Rightarrow> set_identifier_fn) option"

definition with_get_id_fn :: "(get_id_fn \<Rightarrow> get_id_fn) \<Rightarrow> external_name_from \<Rightarrow> external_name_from" where
  "with_get_id_fn f e = e\<lparr>ef_get_id := Some f\<rparr>"

definition with_get_external_name_fn :: "(get_external_name_fn \<Rightarrow> get_external_name_fn) \<Rightarrow> external_name_from \<Rightarrow> external_name_from" where
  "with_get_external_name_fn f e = e\<lparr>ef_get_external_name := Some f\<rparr>"

definition with_set_identifier_arguments_fn :: "(set_identifier_fn \<Rightarrow> set_identifier_fn) \<Rightarrow> external_name_from \<Rightarrow> external_name_from" where
  "with_set_identifier_arguments_fn f e = e\<lparr>ef_set_identifier := Some f\<rparr>"

definition new_external_name_from :: "external_name \<Rightarrow> (external_name_from \<Rightarrow> external_name_from) list \<Rightarrow> external_name" where
  "new_external_name_from parent opts =
     (let e = fold (\<lambda>f e. f e) opts \<lparr>ef_parent = parent, ef_get_id = None, ef_get_external_name = None, ef_set_identifier = None\<rparr> in
      (ef_parent e)
        \<lparr>en_get_id := (case ef_get_id e of None \<Rightarrow> en_get_id parent | Some f \<Rightarrow> f (en_get_id parent)),
         en_get_external_name := (case ef_get_external_name e of None \<Rightarrow> en_get_external_name parent | Some f \<Rightarrow> f (en_get_external_name parent)),
         en_set_identifier := (case ef_set_identifier e of None \<Rightarrow> en_set_identifier parent | Some f \<Rightarrow> f (en_set_identifier parent))\<rparr>)"

definition set_computed_identifier :: "string \<Rightarrow> string \<Rightarrow> set_identifier_fn \<Rightarrow> set_identifier_fn" where
  "set_computed_identifier ident placeholder f base name =
     (if map_of base ident = None \<or> map_of base ident = Some (Str_v placeholder)
      then Done (put_key ident (Str_v (if name = '''' then placeholder else name)) base)
      else Done base)"

definition get_computed_identifier :: "(any \<Rightarrow> string) \<Rightarrow> string \<Rightarrow> string \<Rightarrow> get_external_name_fn \<Rightarrow> get_external_name_fn" where
  "get_computed_identifier shown ident placeholder f tfstate =
     (let missing = Failed (Plain (''cannot find attribute '' @ go_quote ident @ '' in tfstate'')) in
      case map_of tfstate ident of
        None \<Rightarrow> missing
      | Some v \<Rightarrow> if shown v \<noteq> '''' \<and> shown v \<noteq> placeholder then Done (shown v) else missing)"

definition framework_resource_with_computed_identifier :: "(any \<Rightarrow> string) \<Rightarrow> string \<Rightarrow> string \<Rightarrow> external_name" where
  "framework_resource_with_computed_identifier shown ident placeholder =
     (new_external_name_from identifier_from_provider
        [with_set_identifier_arguments_fn (set_computed_identifier ident placeholder),
         with_get_external_name_fn (get_computed_identifier shown ident placeholder)])\<lparr>en_computed_identifiers := [ident]\<rparr>"

section \<open>Reading back what was written\<close>

text \<open>
  The text around the name in an identifier fits the template: nothing where the template has nothing, the
  separators next to the name as in the template, and before it the left separator as often as in the
  template, if there is a right one.
\<close>

definition fits :: "string \<Rightarrow> string \<Rightarrow> string \<Rightarrow> string \<Rightarrow> bool" where
  "fits l r pre post \<longleftrightarrow>
     (l = [] \<and> pre = [] \<or> l \<noteq> [] \<and> pre \<noteq> [] \<and> last pre = last l \<and>
        (r \<noteq> [] \<longrightarrow> count_list pre (last l) = count_list (l @ ''{'') (last l))) \<and>
     (r = [] \<and> post = [] \<or> r \<noteq> [] \<and> post \<noteq> [] \<and> hd post = hd r)"

text \<open>The name does not have the separator after it or, at the end of the template, the one before it.\<close>

definition separable :: "string \<Rightarrow> string \<Rightarrow> string \<Rightarrow> bool" where
  "separable l r name \<longleftrightarrow> (if r \<noteq> [] then hd r \<notin> set name else l \<noteq> [] \<longrightarrow> last l \<notin> set name)"

lemma last_split: "last (split_on c (a @ c # b)) = last (split_on c b)"
proof (induction a)
  case (Cons x a)
  have "split_on c (a @ c # b) \<noteq> []" "length (split_on c (a @ c # b)) > 1 \<or> a = a"
    by simp_all
  obtain p ps where s: "split_on c (a @ c # b) = p # ps" by (meson neq_Nil_conv split_on_ne)
  have "ps \<noteq> []"
  proof
    assume "ps = []"
    with s have "c \<notin> set (join_with [c] [p])" using split_on_parts [of p c "a @ c # b"] by simp
    moreover from s \<open>ps = []\<close> have "join_with [c] [p] = a @ c # b" using join_split_on [of c "a @ c # b"] by simp
    ultimately show False by simp
  qed
  with s Cons show ?case by simp
qed simp

lemma after_all_seps: "l = [] \<or> last l = c \<Longrightarrow> after_seps c (count_list l c) (l @ w) = w"
proof (induction "length l" arbitrary: l rule: less_induct)
  case less
  show ?case
  proof (cases "l = []")
    case False
    with less.prems have "c \<in> set l" using last_in_set by fastforce
    then obtain p l' where l: "l = p @ c # l'" "c \<notin> set p" by (meson split_list_first)
    have "dropWhile (\<lambda>x. x \<noteq> c) (p @ c # l' @ w) = c # l' @ w"
      using l(2) by (induction p) auto
    moreover have "count_list p c = 0" using l(2) by (simp add: count_list_0_iff)
    moreover have "l' = [] \<or> last l' = c" using less.prems l by (auto split: if_splits)
    ultimately show ?thesis using less.hyps [of l'] l by simp
  qed simp
qed

lemma templated_round_trip:
  assumes "find_external_name tmpl = Some (l, r)" "fits l r pre post" "separable l r name"
  shows "get_external_name_from_templated tmpl (pre @ name @ post) = name"
proof (cases l; cases r)
  assume "l = []" "r = []"
  with assms show ?thesis by (simp add: get_external_name_from_templated_def fits_def)
next
  fix d r'
  assume "l = []" "r = d # r'"
  moreover from this assms(2) obtain q where "post = d # q" by (cases post) (auto simp: fits_def)
  ultimately show ?thesis using assms
    by (simp add: get_external_name_from_templated_def fits_def separable_def split_on_append)
next
  fix c l'
  assume lr: "l = c # l'" "r = []"
  with assms(2) obtain q where "pre = q @ [last l]" by (metis append_butlast_last_id fits_def list.distinct(1))
  with lr assms show ?thesis
    by (simp add: get_external_name_from_templated_def fits_def separable_def last_split last_ConsL del: last.simps)
next
  fix c l' d r'
  assume lr: "l = c # l'" "r = d # r'"
  with assms(2) obtain q where q: "post = d # q" by (cases post) (auto simp: fits_def)
  from lr assms(2) have "after_seps (last l) (count_list (l @ ''{'') (last l)) (pre @ name @ post) = name @ post"
    using after_all_seps [of pre "last l" "name @ post"] by (simp add: fits_def)
  with lr q assms show ?thesis
    by (simp add: get_external_name_from_templated_def separable_def split_on_append del: last.simps count_list.simps append.simps)
qed

section \<open>Properties\<close>

text \<open>
  C14. The name of a resource survives the identifier: a templated configuration reads the name back out of
  the identifier that it built from the name, when the rendered text around the name has the separators of the
  template and the name does not have the one that delimits it.
\<close>

theorem name_survives_identifier:
  assumes "templated_string_as_identifier lib path tmpl = Some en"
    "find_external_name tmpl = Some (l, r)"
    "execute lib tmpl (template_data name params setup_cfg) = Inr (pre @ name @ post)"
    "fits l r pre post" "separable l r name"
  shows "en_get_id en name params setup_cfg = Inr (pre @ name @ post) \<and>
    en_get_external_name en (put_key ''id'' (Str_v (pre @ name @ post)) tfstate) = Done name"
  using assms templated_round_trip [OF assms(2,4,5)]
  by (auto simp: templated_string_as_identifier_def split: sum.splits)

definition arn_template :: string where
  "arn_template = ''arn:{{ .parameters.region }}:{{ .external_name }}/x''"

text \<open>A template library for this template alone.\<close>

definition arn_lib :: template_lib where
  "arn_lib =
     \<lparr>parse_actions = (\<lambda>t. Inr [''{{.parameters.region}}'', ''{{.external_name}}'']),
      execute = (\<lambda>t d. case map_of d ''external_name'' of Some (Str_v n) \<Rightarrow> Inr (''arn:eu:'' @ n @ ''/x'') | _ \<Rightarrow> Inr ''''),
      set_string = (\<lambda>p v m. Some (put_key p (Str_v v) m))\<rparr>"

lemma name_survives_identifier_witness:
  "\<exists>en. templated_string_as_identifier arn_lib ''name'' arn_template = Some en \<and>
     en_get_id en ''my:role'' [] [] = Inr ''arn:eu:my:role/x'' \<and>
     en_get_external_name en [(''id'', Str_v ''arn:eu:my:role/x'')] = Done ''my:role''"
proof -
  have found: "find_external_name arn_template = Some (''arn:{{ .parameters.region }}:'', ''/x'')" by code_simp
  have run: "execute arn_lib arn_template (template_data ''my:role'' [] []) = Inr (''arn:eu:'' @ ''my:role'' @ ''/x'')" by code_simp
  have fit: "fits ''arn:{{ .parameters.region }}:'' ''/x'' ''arn:eu:'' ''/x''" by code_simp
  have sep: "separable ''arn:{{ .parameters.region }}:'' ''/x'' ''my:role''" by code_simp
  obtain en where en: "templated_string_as_identifier arn_lib ''name'' arn_template = Some en"
    by (simp add: templated_string_as_identifier_def arn_lib_def)
  show ?thesis using name_survives_identifier [OF en found run fit sep, of "[]"] en by simp
qed

section \<open>Other configurations\<close>

text \<open>Where the name is the identifier, every name but the empty one is read back.\<close>

lemma plain_names_survive:
  assumes "en \<in> {name_as_identifier, identifier_from_provider, parameter_as_identifier param}"
    "en_get_id en name params setup_cfg = Inr i" "map_of tfstate ''id'' = Some (Str_v i)"
  shows "en_get_external_name en tfstate = (if name = '''' then Failed (Plain ''cannot find id in tfstate'') else Done name)"
  using assms
  by (auto simp: name_as_identifier_def identifier_from_provider_def parameter_as_identifier_def external_name_as_id_def id_as_external_name_def)

text \<open>
  A computed identifier: the name is put into the arguments and read back; without a name the placeholder is
  put there, which is no name; an identifier that is set already is kept.
\<close>

lemma computed_identifier:
  assumes "\<And>s. shown (Str_v s) = s"
    and e: "e = framework_resource_with_computed_identifier shown ident placeholder"
  shows "map_of base ident = None \<or> map_of base ident = Some (Str_v placeholder) \<Longrightarrow>
      \<exists>m. en_set_identifier e base name = Done m \<and>
        en_get_external_name e m =
          (if name = '''' \<or> name = placeholder then Failed (Plain (''cannot find attribute '' @ go_quote ident @ '' in tfstate'')) else Done name)"
    and "map_of base ident = Some v \<Longrightarrow> v \<noteq> Str_v placeholder \<Longrightarrow> en_set_identifier e base name = Done base"
  using assms(1)
  by (auto simp: e framework_resource_with_computed_identifier_def new_external_name_from_def
      with_set_identifier_arguments_fn_def with_get_external_name_fn_def set_computed_identifier_def get_computed_identifier_def Let_def)

text \<open>A configuration without options behaves like its parent.\<close>

lemma no_options: "new_external_name_from parent [] = parent"
  by (cases parent) (simp add: new_external_name_from_def)

text \<open>What is not read back: a name with the separator before it at the end of the template; a name after a
  parameter whose value has the left separator; a name after a dot, as the dots of the actions are counted.\<close>

lemma name_with_separator_cut:
  "get_external_name_from_templated ''{{ .parameters.cluster_id }}:{{ .external_name }}'' ''c1:group:node'' = ''node''"
  "get_external_name_from_templated ''{{ .parameters.role }}:{{ .external_name }}:v1'' ''aws:role:mine:v1'' = ''role''"
  "get_external_name_from_templated ''{{ .parameters.zone }}.{{ .external_name }}/a'' ''zone.my.host/a'' = ''host''"
  by code_simp+

text \<open>A parameter that goes through a function is not taken for an identifier field.\<close>

lemma piped_parameter_is_no_identifier:
  "parameter_field ''{{.parameters.type}}'' = Some ''type''"
  "parameter_field ''{{.parameters.type | ToLower}}'' = None"
  by code_simp+

end
