(* ===== verification/VersionMarkers.thy ===== *)
theory VersionMarkers
  imports ResourceConfig
begin

text \<open>
  The markers of API versions in the files of generated types, which are changed line by line when a version has
  become a previous one and is not generated again (\<open>pkg/pipeline/hooks_storage_version.go\<close>,
  \<open>hooks_deprecated_version.go\<close>), and the texts of a deprecation (\<open>pkg/pipeline/crd.go\<close>).
\<close>

section \<open>Lines\<close>

definition newline :: char where
  "newline = CHR 0x0A"

definition lines_of :: "string \<Rightarrow> string list" where
  "lines_of s = split_on newline s"

definition unlines :: "string list \<Rightarrow> string" where
  "unlines ls = join_with [newline] ls"

definition insert_lines :: "nat \<Rightarrow> string list \<Rightarrow> string list \<Rightarrow> string list" where
  "insert_lines n xs ls = take n ls @ xs @ drop n ls"

definition storage_marker :: string where
  "storage_marker = ''// +kubebuilder:storageversion''"

definition unserved_marker :: string where
  "unserved_marker = ''// +kubebuilder:unservedversion''"

definition type_declaration :: "string \<Rightarrow> string" where
  "type_declaration kind = ''type '' @ kind @ '' struct''"

fun find_type_line_index :: "string list \<Rightarrow> string \<Rightarrow> nat option" where
  "find_type_line_index [] kind = None"
| "find_type_line_index (l # ls) kind =
     (if contains_sub l (type_declaration kind) then Some 0 else map_option Suc (find_type_line_index ls kind))"

section \<open>The storage version\<close>

text \<open>The lines before the type, backwards: the index of a line is the number of lines before it.\<close>

fun storage_point :: "string list \<Rightarrow> nat option \<Rightarrow> nat option" where
  "storage_point [] found = found"
| "storage_point (l # before) found =
     (if has_prefix (trim_space l) ''// +kubebuilder:subresource:status'' then Some (Suc (length before))
      else storage_point before
        (if has_prefix (trim_space l) ''// +kubebuilder:object:root=true'' \<and> found = None then Some (Suc (length before)) else found))"

definition add_storage_version_marker :: "string \<Rightarrow> string \<Rightarrow> gerror + string" where
  "add_storage_version_marker content kind =
     (let ls = lines_of content in
      case find_type_line_index ls kind of
        None \<Rightarrow> Inl (Plain (''cannot find type '' @ kind @ '' declaration''))
      | Some i \<Rightarrow>
          (case storage_point (rev (take i ls)) None of
             None \<Rightarrow> Inl (Plain (''cannot find insertion point for storage version marker before type '' @ kind))
           | Some n \<Rightarrow> Inr (unlines (insert_lines n [storage_marker] ls))))"

definition remove_storage_version_marker :: "string \<Rightarrow> string \<Rightarrow> gerror + string" where
  "remove_storage_version_marker content kind =
     (if \<not> contains_sub content (storage_marker @ [newline])
      then Inl (Plain (''storage version marker not found for type '' @ kind))
      else Inr (replace_all content (storage_marker @ [newline]) ''''))"

section \<open>Deprecation\<close>

definition build_enhanced_deprecation_warning :: "version_deprecation \<Rightarrow> string" where
  "build_enhanced_deprecation_warning d =
     (if trim_space (vd_warning d) = '''' then ''This API version is deprecated.'' else trim_space (vd_warning d)) @
     (if vd_release d \<noteq> '''' then '' Deprecated since '' @ vd_release d @ ''.'' else '''') @
     (if vd_removal d \<noteq> '''' then '' Planned removal in '' @ vd_removal d @ ''.'' else '''')"

definition build_deprecation_notice :: "string \<Rightarrow> version_deprecation \<Rightarrow> string" where
  "build_deprecation_notice version d =
     ''// Deprecated: This API version ('' @ version @ '') has been deprecated'' @
     (if vd_release d \<noteq> '''' then '' in release '' @ vd_release d else '''') @
     (if vd_removal d \<noteq> '''' then '' and is planned for removal in release '' @ vd_removal d else '''') @ ''.''"

definition deprecated_line :: "string \<Rightarrow> bool" where
  "deprecated_line l \<longleftrightarrow> has_prefix (trim_space l) ''// +kubebuilder:deprecatedversion''"

definition remove_lifecycle_markers :: "string \<Rightarrow> string" where
  "remove_lifecycle_markers content =
     unlines (filter (\<lambda>l. \<not> deprecated_line l) (lines_of (replace_all content (unserved_marker @ [newline]) '''')))"

fun marker_point :: "string list \<Rightarrow> nat option" where
  "marker_point [] = None"
| "marker_point (l # before) =
     (if has_prefix (trim_space l) storage_marker \<or> has_prefix (trim_space l) ''// +kubebuilder:subresource:status''
      then Some (Suc (length before)) else marker_point before)"

definition lifecycle_markers :: "bool \<Rightarrow> version_deprecation option \<Rightarrow> string list" where
  "lifecycle_markers served dep =
     (if served then [] else [unserved_marker]) @
     (case dep of
        None \<Rightarrow> []
      | Some d \<Rightarrow> [''// +kubebuilder:deprecatedversion:warning='' @ [CHR 0x22] @ build_enhanced_deprecation_warning d @ [CHR 0x22]])"

definition description_line :: "string \<Rightarrow> bool" where
  "description_line l \<longleftrightarrow> has_prefix (trim_space l) ''//'' \<and> \<not> has_prefix (trim_space l) ''// +kubebuilder:''"

text \<open>The first and the last line of the description, at most the given number of lines before the type.\<close>

fun find_description_block :: "nat \<Rightarrow> string list \<Rightarrow> (nat \<times> nat) option \<Rightarrow> (nat \<times> nat) option" where
  "find_description_block 0 before r = r"
| "find_description_block (Suc n) [] r = r"
| "find_description_block (Suc n) (l # before) r =
     (if trim_space l = '''' then (if r = None then find_description_block n before r else r)
      else if description_line l then
        find_description_block n before (Some (length before, case r of None \<Rightarrow> length before | Some (_, e) \<Rightarrow> e))
      else if r \<noteq> None then r
      else if has_prefix (trim_space l) ''// +kubebuilder:'' then find_description_block n before r
      else r)"

text \<open>Line \<open>i\<close> and the lines after it, with whether a notice has begun.\<close>

fun remove_deprecation_notice :: "nat \<Rightarrow> nat \<Rightarrow> nat \<Rightarrow> bool \<Rightarrow> string list \<Rightarrow> string list" where
  "remove_deprecation_notice s e i notice [] = []"
| "remove_deprecation_notice s e i notice (l # ls) =
     (if s \<le> i \<and> i \<le> e then
        let t = trim_space l in
        if contains_sub t ''Deprecated:'' then remove_deprecation_notice s e (Suc i) True ls
        else if notice then
          (if t \<noteq> ''//'' then remove_deprecation_notice s e (Suc i) (i \<noteq> e) ls
           else l # remove_deprecation_notice s e (Suc i) False ls)
        else l # remove_deprecation_notice s e (Suc i) False ls
      else l # remove_deprecation_notice s e (Suc i) notice ls)"

fun find_main_description_line :: "nat \<Rightarrow> string list \<Rightarrow> nat option" where
  "find_main_description_line 0 before = None"
| "find_main_description_line (Suc n) [] = None"
| "find_main_description_line (Suc n) (l # before) =
     (if description_line l \<and> contains_sub (trim_space l) ''is the Schema for'' then Some (length before)
      else find_main_description_line n before)"

definition insert_deprecation_notice :: "string list \<Rightarrow> string \<Rightarrow> string \<Rightarrow> version_deprecation \<Rightarrow> string list" where
  "insert_deprecation_notice ls kind version d =
     (case find_type_line_index ls kind of
        None \<Rightarrow> ls
      | Some i \<Rightarrow>
          insert_lines (case find_main_description_line 20 (rev (take i ls)) of Some j \<Rightarrow> Suc j | None \<Rightarrow> i)
            (lines_of (build_deprecation_notice version d)) ls)"

definition update_description_deprecation_notice :: "string list \<Rightarrow> string \<Rightarrow> string \<Rightarrow> version_deprecation option \<Rightarrow> string list" where
  "update_description_deprecation_notice ls kind version dep =
     (case find_type_line_index ls kind of
        None \<Rightarrow> ls
      | Some i \<Rightarrow>
          (case find_description_block 10 (rev (take i ls)) None of
             None \<Rightarrow> ls
           | Some (s, e) \<Rightarrow>
               let ls = remove_deprecation_notice s e 0 False ls in
               (case dep of None \<Rightarrow> ls | Some d \<Rightarrow> insert_deprecation_notice ls kind version d)))"

definition update_file_markers :: "string \<Rightarrow> string \<Rightarrow> string \<Rightarrow> bool \<Rightarrow> version_deprecation option \<Rightarrow> gerror + string" where
  "update_file_markers content kind version served dep =
     (let ls = lines_of (remove_lifecycle_markers content) in
      case find_type_line_index ls kind of
        None \<Rightarrow> Inl (Plain (''cannot find type '' @ kind @ '' declaration''))
      | Some i \<Rightarrow>
          (case marker_point (rev (take i ls)) of
             None \<Rightarrow> Inl (Plain (''cannot find insertion point for markers before type '' @ kind))
           | Some n \<Rightarrow>
               Inr (unlines (update_description_deprecation_notice (insert_lines n (lifecycle_markers served dep) ls) kind version dep))))"

section \<open>What the texts contain\<close>

text \<open>A text without line breaks occurs in joined lines exactly when it occurs in one of them.\<close>

lemma contains_newline_split:
  assumes "newline \<notin> set v"
  shows "contains_sub (l @ newline # s) v \<longleftrightarrow> contains_sub l v \<or> contains_sub s v"
proof
  assume "contains_sub (l @ newline # s) v"
  then obtain a b where e: "l @ newline # s = a @ v @ b" by (auto simp: contains_sub_iff)
  from e obtain us where "l @ us = a \<and> newline # s = us @ v @ b \<or> l = a @ us \<and> us @ newline # s = v @ b"
    by (auto simp: append_eq_append_conv2)
  then show "contains_sub l v \<or> contains_sub s v"
  proof
    assume "l @ us = a \<and> newline # s = us @ v @ b"
    with assms show ?thesis by (cases us; cases v) (auto simp: contains_sub_iff)
  next
    assume r: "l = a @ us \<and> us @ newline # s = v @ b"
    then obtain ws where "us @ ws = v \<and> newline # s = ws @ b \<or> us = v @ ws \<and> ws @ newline # s = b"
      by (auto simp: append_eq_append_conv2)
    with r have "ws = [] \<Longrightarrow> l = a @ v @ []" by simp
    moreover have "ws \<noteq> [] \<Longrightarrow> contains_sub l v"
      using \<open>us @ ws = v \<and> newline # s = ws @ b \<or> us = v @ ws \<and> ws @ newline # s = b\<close> r assms
      by (cases ws) (auto simp: contains_sub_iff)
    ultimately show ?thesis unfolding contains_sub_iff by blast
  qed
next
  assume "contains_sub l v \<or> contains_sub s v"
  then show "contains_sub (l @ newline # s) v"
  proof
    assume "contains_sub l v"
    then obtain a b where "l = a @ v @ b" by (auto simp: contains_sub_iff)
    then have "l @ newline # s = a @ v @ (b @ newline # s)" by simp
    then show ?thesis unfolding contains_sub_iff by blast
  next
    assume "contains_sub s v"
    then obtain a b where "s = a @ v @ b" by (auto simp: contains_sub_iff)
    then have "l @ newline # s = (l @ newline # a) @ v @ b" by simp
    then show ?thesis unfolding contains_sub_iff by blast
  qed
qed

lemma unlines_Cons: "ls \<noteq> [] \<Longrightarrow> unlines (l # ls) = l @ newline # unlines ls"
  by (simp add: unlines_def join_with_Cons)

lemma unlines_simps [simp]: "unlines [] = []" "unlines [l] = l"
  by (simp_all add: unlines_def)

lemma contains_unlines:
  assumes "newline \<notin> set v" "v \<noteq> []"
  shows "contains_sub (unlines ls) v \<longleftrightarrow> (\<exists>l \<in> set ls. contains_sub l v)"
proof (induction ls)
  case (Cons l ls)
  then show ?case
    by (cases "ls = []") (auto simp: unlines_Cons contains_newline_split [OF assms(1)])
qed (use assms in simp)

lemma lines_of_unlines: "ls \<noteq> [] \<Longrightarrow> \<forall>l \<in> set ls. newline \<notin> set l \<Longrightarrow> lines_of (unlines ls) = ls"
  by (simp add: lines_of_def unlines_def split_on_join)

lemma unlines_lines_of [simp]: "unlines (lines_of s) = s"
  by (simp add: lines_of_def unlines_def join_split_on)

lemma lines_of_ne [simp]: "lines_of s \<noteq> []"
  by (simp add: lines_of_def)

lemma lines_of_line: "l \<in> set (lines_of s) \<Longrightarrow> newline \<notin> set l"
  using split_on_parts by (auto simp: lines_of_def)

text \<open>A line without the marker stays when lines with the marker alone are removed.\<close>

lemma replace_all_skip:
  assumes "v \<noteq> []" "\<And>a b. p = a @ b \<Longrightarrow> b \<noteq> [] \<Longrightarrow> \<not> has_prefix (b @ x) v"
  shows "replace_all (p @ x) v r = p @ replace_all x v r"
  using assms(2)
proof (induction p)
  case (Cons c p)
  have "\<not> has_prefix (c # p @ x) v" using Cons.prems [of "[]" "c # p"] by simp
  moreover have "replace_all (p @ x) v r = p @ replace_all x v r"
    by (rule Cons.IH) (use Cons.prems in \<open>metis append_Cons\<close>)
  ultimately show ?case using assms(1) by (simp add: replace_all_Cons)
qed simp

lemma marker_in_line:
  assumes "has_prefix (b @ newline # s) (v @ [newline])" "newline \<notin> set v" "newline \<notin> set b"
  shows "b = v"
proof -
  from assms(1) obtain r where "b @ newline # s = v @ newline # r" by (auto simp: has_prefix_iff)
  then have "takeWhile (\<lambda>c. c \<noteq> newline) (b @ newline # s) = takeWhile (\<lambda>c. c \<noteq> newline) (v @ newline # r)" by simp
  moreover have "takeWhile (\<lambda>c. c \<noteq> newline) (w @ newline # t) = w" if "newline \<notin> set w" for w t
    using that by (induction w) auto
  ultimately show ?thesis using assms(2,3) by simp
qed

lemma replace_lines:
  assumes "newline \<notin> set v" "v \<noteq> []"
    and "\<forall>l \<in> set ls. newline \<notin> set l \<and> (contains_sub l v \<longrightarrow> l = v)" "ls \<noteq> []" "last ls \<noteq> v"
  shows "replace_all (unlines ls) (v @ [newline]) [] = unlines (filter (\<lambda>l. l \<noteq> v) ls)"
  using assms(3-)
proof (induction ls)
  case (Cons l ls)
  show ?case
  proof (cases "ls = []")
    case True
    have "\<not> has_prefix b (v @ [newline])" if "l = a @ b" for a b
    proof
      assume "has_prefix b (v @ [newline])"
      then have "newline \<in> set b" by (auto simp: has_prefix_iff)
      with that Cons.prems(1) show False by simp
    qed
    then have "replace_all (l @ []) (v @ [newline]) [] = l @ replace_all [] (v @ [newline]) []"
      by (intro replace_all_skip) auto
    with True Cons.prems show ?thesis by simp
  next
    case False
    note ih = Cons.IH [OF _ False]
    have rest: "filter (\<lambda>l. l \<noteq> v) ls \<noteq> []" using False Cons.prems(3) by (auto simp: filter_empty_conv dest: last_in_set)
    show ?thesis
    proof (cases "l = v")
      case True
      have "replace_all (v @ newline # unlines ls) (v @ [newline]) [] = replace_all (unlines ls) (v @ [newline]) []"
        using assms(2) by (cases v) (simp_all add: replace_all.simps has_prefix_iff)
      with True False ih Cons.prems show ?thesis by (simp add: unlines_Cons)
    next
      case no_marker: False
      have nl: "newline \<notin> set l" "\<not> contains_sub l v" using Cons.prems(1) no_marker by auto
      have "\<not> has_prefix (b @ unlines ls) (v @ [newline])" if e: "l @ [newline] = a @ b" "b \<noteq> []" for a b
      proof
        assume p: "has_prefix (b @ unlines ls) (v @ [newline])"
        from e obtain b' where b': "b = b' @ [newline]" "l = a @ b'" by (cases b rule: rev_cases) auto
        with p nl have "b' = v" using marker_in_line [of b' "unlines ls" v] assms(1) by simp
        with b' nl(2) show False by (metis append.right_neutral contains_sub_iff)
      qed
      then have "replace_all ((l @ [newline]) @ unlines ls) (v @ [newline]) [] = (l @ [newline]) @ replace_all (unlines ls) (v @ [newline]) []"
        by (intro replace_all_skip) auto
      with no_marker False ih Cons.prems rest show ?thesis by (simp add: unlines_Cons)
    qed
  qed
qed simp

end
