(* ===== verification/VersionHooks.thy ===== *)
theory VersionHooks
  imports VersionMarkers GoOutcome
begin

text \<open>
  The hooks that run after the generation of an API group over the files of previous versions
  (\<open>pkg/pipeline/hooks_storage_version.go\<close>, \<open>hooks_deprecated_version.go\<close>) and the fields that the generator of CRDs takes out
  of a schema (\<open>pkg/pipeline/crd.go\<close>). Files are a map from their place below the directory of the APIs.
  What the file system answers is a parameter, as is the check that a place is inside the directory.
\<close>

section \<open>Files\<close>

text \<open>A failed write says what it left in the file.\<close>

record hook_env =
  he_path :: "string list \<Rightarrow> string"
  he_invalid :: "string list \<Rightarrow> gerror option"
  he_read_error :: "string list \<Rightarrow> gerror option"
  he_write_error :: "string list \<Rightarrow> (gerror \<times> string) option"

type_synonym api_files = "string list \<rightharpoonup> string"

definition type_file :: "string \<Rightarrow> string \<Rightarrow> string \<Rightarrow> string list" where
  "type_file grp version kind = [to_lower (hd (split_on (CHR ''.'') grp)), version, ''zz_'' @ to_lower kind @ ''_types.go'']"

text \<open>The content of the file, if there is one, which must declare the type.\<close>

definition read_type_file :: "hook_env \<Rightarrow> string list \<Rightarrow> string \<Rightarrow> api_files \<Rightarrow> string option outcome" where
  "read_type_file env p kind fs =
     (case he_invalid env p of
        Some e \<Rightarrow> Failed (WithMsg (''invalid file path '' @ he_path env p) e)
      | None \<Rightarrow>
          (case fs p of
             None \<Rightarrow> Done None
           | Some c \<Rightarrow>
               (case he_read_error env p of
                  Some e \<Rightarrow> Failed (WithMsg (''cannot read file '' @ he_path env p) e)
                | None \<Rightarrow>
                    if contains_sub c (type_declaration kind) then Done (Some c)
                    else Failed (Plain (''cannot find type '' @ kind @ '' in file '' @ he_path env p)))))"

definition write_type_file :: "hook_env \<Rightarrow> string list \<Rightarrow> string \<Rightarrow> api_files \<Rightarrow> unit outcome \<times> api_files" where
  "write_type_file env p c fs =
     (case he_write_error env p of
        Some (e, left) \<Rightarrow> (Failed (WithMsg (''cannot write file '' @ he_path env p) e), fs(p \<mapsto> left))
      | None \<Rightarrow> (Done (), fs(p \<mapsto> c)))"

fun for_each :: "('a \<Rightarrow> 's \<Rightarrow> unit outcome \<times> 's) \<Rightarrow> 'a list \<Rightarrow> 's \<Rightarrow> unit outcome \<times> 's" where
  "for_each f [] s = (Done (), s)"
| "for_each f (x # xs) s = then_go (f x s) (\<lambda>_ s. for_each f xs s)"

section \<open>The storage version\<close>

definition update_storage_file :: "hook_env \<Rightarrow> string \<Rightarrow> string \<Rightarrow> string \<Rightarrow> bool \<Rightarrow> api_files \<Rightarrow> unit outcome \<times> api_files" where
  "update_storage_file env grp version kind marked fs =
     (let p = type_file grp version kind in
      then_go (read_type_file env p kind fs, fs) (\<lambda>content fs.
        case content of
          None \<Rightarrow> (Done (), fs)
        | Some c \<Rightarrow>
            if contains_sub c storage_marker = marked then (Done (), fs)
            else (case (if marked then add_storage_version_marker c kind else remove_storage_version_marker c kind) of
                    Inl e \<Rightarrow> (Failed (WithMsg (''cannot update storage version marker in file '' @ he_path env p) e), fs)
                  | Inr c \<Rightarrow> write_type_file env p c fs)))"

definition update_storage_version :: "hook_env \<Rightarrow> string \<times> resource_cfg \<times> string \<Rightarrow> api_files \<Rightarrow> unit outcome \<times> api_files" where
  "update_storage_version env t fs =
     (case t of (grp, r, v) \<Rightarrow>
        wrap_go (''cannot update storage version marker for '' @ rc_kind r @ ''/'' @ v @ '' in group '' @ grp)
          (update_storage_file env grp v (rc_kind r) (v = crd_storage_version r) fs))"

definition storage_version_hook :: "hook_env \<Rightarrow> (string \<times> resource_cfg list) list \<Rightarrow> api_files \<Rightarrow> unit outcome \<times> api_files" where
  "storage_version_hook env groups =
     for_each (\<lambda>(grp, rs). for_each (\<lambda>r. for_each (\<lambda>v. update_storage_version env (grp, r, v)) (previous_versions r)) rs) groups"

section \<open>Deprecated and unserved versions\<close>

definition update_lifecycle_file ::
  "hook_env \<Rightarrow> string \<Rightarrow> string \<Rightarrow> string \<Rightarrow> bool \<Rightarrow> version_deprecation option \<Rightarrow> api_files \<Rightarrow> unit outcome \<times> api_files" where
  "update_lifecycle_file env grp version kind served dep fs =
     (let p = type_file grp version kind in
      then_go (read_type_file env p kind fs, fs) (\<lambda>content fs.
        case content of
          None \<Rightarrow> (Done (), fs)
        | Some c \<Rightarrow>
            if served \<and> dep = None then (Done (), fs)
            else (case update_file_markers c kind version served dep of
                    Inl e \<Rightarrow> (Failed (WithMsg (''cannot update markers in file '' @ he_path env p) e), fs)
                  | Inr c \<Rightarrow> write_type_file env p c fs)))"

definition update_lifecycle_version :: "hook_env \<Rightarrow> string \<Rightarrow> resource_cfg \<Rightarrow> string \<Rightarrow> api_files \<Rightarrow> unit outcome \<times> api_files" where
  "update_lifecycle_version env grp r v fs =
     (let served = (v \<in> set (get_served_versions r)); dep = is_version_deprecated r v in
      if served \<and> dep = None then (Done (), fs)
      else wrap_go (''cannot update markers for '' @ rc_kind r @ ''/'' @ v @ '' in group '' @ grp)
        (update_lifecycle_file env grp v (rc_kind r) served dep fs))"

definition lifecycle_hook :: "hook_env \<Rightarrow> (string \<times> resource_cfg list) list \<Rightarrow> api_files \<Rightarrow> unit outcome \<times> api_files" where
  "lifecycle_hook env groups =
     for_each (\<lambda>(grp, rs). for_each (\<lambda>r fs.
       if \<not> has_explicit_served_versions r \<and> deprecated_versions r = [] then (Done (), fs)
       else for_each (update_lifecycle_version env grp r) (previous_versions r) fs) rs) groups"

section \<open>Generated CRD types\<close>

text \<open>The markers of the version that is generated; the texts are those of the template.\<close>

record crd_marks =
  mark_storage_version :: bool
  mark_unserved :: bool
  mark_deprecation :: "(string \<times> string) option"  \<comment> \<open>warning and notice\<close>

definition crd_marks_of :: "resource_cfg \<Rightarrow> crd_marks" where
  "crd_marks_of r =
     \<lparr>mark_storage_version = (crd_storage_version r = rc_version r),
      mark_unserved = (rc_version r \<notin> set (get_served_versions r)),
      mark_deprecation = (case is_version_deprecated r (rc_version r) of
        None \<Rightarrow> None
      | Some d \<Rightarrow> Some (build_enhanced_deprecation_warning d, build_deprecation_notice (rc_version r) d))\<rparr>"

text \<open>The entry at a path of names is deleted; without a resource on the way the type assertion panics.\<close>

fun delete_field :: "string list \<Rightarrow> (string \<times> sch) list \<Rightarrow> (string \<times> sch) list option" where
  "delete_field [] m = Some m"
| "delete_field [k] m = Some (del_key k m)"
| "delete_field (k # l # ks) m =
     (case map_of m k of
        Some (Sch a (Resource_elem r)) \<Rightarrow>
          map_option (\<lambda>n. map_entry k (\<lambda>_. Sch a (Resource_elem (with_schema n r))) m) (delete_field (l # ks) (own_schema r))
      | _ \<Rightarrow> None)"

fun delete_omitted_fields :: "(string \<times> sch) list \<Rightarrow> string list \<Rightarrow> (string \<times> sch) list option" where
  "delete_omitted_fields m [] = Some m"
| "delete_omitted_fields m (p # ps) =
     (case delete_field (split_on (CHR ''.'') p) m of None \<Rightarrow> None | Some m \<Rightarrow> delete_omitted_fields m ps)"

section \<open>Lines that are inserted and removed\<close>

text \<open>Every occurrence of the marker is a line of its own that ends.\<close>

definition whole_lines :: "string \<Rightarrow> string \<Rightarrow> bool" where
  "whole_lines v c \<longleftrightarrow> (\<forall>l \<in> set (lines_of c). contains_sub l v \<longrightarrow> l = v) \<and> last (lines_of c) \<noteq> v"

lemma marker_text [simp]:
  "newline \<notin> set storage_marker" "storage_marker \<noteq> []" "newline \<notin> set unserved_marker" "unserved_marker \<noteq> []"
  by (simp_all add: storage_marker_def unserved_marker_def newline_def)

lemma contains_self [simp]: "contains_sub v v"
  using contains_sub_iff [of v v] by (metis append_Nil append_Nil2)

lemma find_type_line: "find_type_line_index ls kind = Some i \<Longrightarrow> i < length ls"
  by (induction ls kind arbitrary: i rule: find_type_line_index.induct) (auto split: if_splits)

lemma storage_point_le: "storage_point before found = Some n \<Longrightarrow> n \<le> length before \<or> found = Some n"
  by (induction before found rule: storage_point.induct) (auto split: if_splits)

lemma marker_point_le: "marker_point before = Some n \<Longrightarrow> n \<le> length before"
  by (induction before) (auto split: if_splits)

lemma lines_of_insert:
  assumes "\<forall>x \<in> set xs. newline \<notin> set x"
  shows "lines_of (unlines (insert_lines n xs (lines_of c))) = insert_lines n xs (lines_of c)"
proof (rule lines_of_unlines)
  show "insert_lines n xs (lines_of c) \<noteq> []"
    by (metis append_is_Nil_conv append_take_drop_id insert_lines_def lines_of_ne)
  show "\<forall>l \<in> set (insert_lines n xs (lines_of c)). newline \<notin> set l"
    using assms by (auto simp: insert_lines_def dest: in_set_takeD in_set_dropD lines_of_line)
qed

lemma filter_insert: "filter P (insert_lines n xs ls) = filter P (take n ls) @ filter P xs @ filter P (drop n ls)"
  by (simp add: insert_lines_def)

lemma filter_take_drop: "filter P (take n ls) @ filter P (drop n ls) = filter P ls"
  by (metis append_take_drop_id filter_append)

lemma add_lines:
  assumes "add_storage_version_marker c kind = Inr c'"
  obtains n where "n < length (lines_of c)" "lines_of c' = insert_lines n [storage_marker] (lines_of c)"
proof -
  from assms obtain i n where "find_type_line_index (lines_of c) kind = Some i"
    "storage_point (rev (take i (lines_of c))) None = Some n" and c': "c' = unlines (insert_lines n [storage_marker] (lines_of c))"
    by (auto simp: add_storage_version_marker_def Let_def split: option.splits)
  then have "n < length (lines_of c)"
    using find_type_line [of "lines_of c" kind i] storage_point_le [of "rev (take i (lines_of c))" None n] by auto
  with c' that show thesis by (simp add: lines_of_insert)
qed

lemma removed_lines:
  assumes "whole_lines v c" "newline \<notin> set v" "v \<noteq> []"
  shows "lines_of (replace_all c (v @ [newline]) []) = filter (\<lambda>l. l \<noteq> v) (lines_of c)"
proof -
  have "replace_all c (v @ [newline]) [] = unlines (filter (\<lambda>l. l \<noteq> v) (lines_of c))"
    using replace_lines [OF assms(2,3), of "lines_of c"] assms(1) lines_of_line [of _ c] by (auto simp: whole_lines_def)
  moreover have "filter (\<lambda>l. l \<noteq> v) (lines_of c) \<noteq> []"
    using assms(1) last_in_set [OF lines_of_ne] by (auto simp: whole_lines_def filter_empty_conv)
  ultimately show ?thesis using lines_of_line [of _ c] by (simp add: lines_of_unlines)
qed

lemma contains_marker:
  assumes "newline \<notin> set v" "v \<noteq> []"
  shows "contains_sub c v \<longleftrightarrow> (\<exists>l \<in> set (lines_of c). contains_sub l v)"
  using contains_unlines [OF assms, of "lines_of c"] by simp

lemma contains_first_line: "ls \<noteq> [] \<Longrightarrow> contains_sub (unlines (ks @ v # ls)) (v @ [newline])"
proof (induction ks)
  case Nil
  then have "unlines ([] @ v # ls) = [] @ (v @ [newline]) @ unlines ls" by (simp add: unlines_Cons)
  then show ?case unfolding contains_sub_iff by blast
next
  case (Cons k ks)
  then obtain a b where "unlines (ks @ v # ls) = a @ (v @ [newline]) @ b" by (auto simp only: contains_sub_iff)
  then have "unlines ((k # ks) @ v # ls) = (k @ newline # a) @ (v @ [newline]) @ b" by (simp add: unlines_Cons)
  then show ?case unfolding contains_sub_iff by blast
qed

section \<open>The storage marker\<close>

lemma storage_marker_changed:
  assumes "(if marked then add_storage_version_marker c kind else remove_storage_version_marker c kind) = Inr c'"
    and whole: "whole_lines storage_marker c"
  shows "(contains_sub c' storage_marker \<longleftrightarrow> marked) \<and>
    filter (\<lambda>l. l \<noteq> storage_marker) (lines_of c') = filter (\<lambda>l. l \<noteq> storage_marker) (lines_of c)"
proof (cases marked)
  case True
  with assms obtain n where n: "lines_of c' = insert_lines n [storage_marker] (lines_of c)"
    by (auto elim: add_lines)
  then have "storage_marker \<in> set (lines_of c')" by (simp add: insert_lines_def)
  then have "contains_sub c' storage_marker" by (subst contains_marker) (auto intro: bexI [of _ storage_marker])
  with True n show ?thesis by (simp add: filter_insert filter_take_drop)
next
  case False
  with assms have "c' = replace_all c (storage_marker @ [newline]) []"
    by (simp add: remove_storage_version_marker_def split: if_splits)
  with whole have l: "lines_of c' = filter (\<lambda>l. l \<noteq> storage_marker) (lines_of c)" by (simp add: removed_lines)
  with whole have "\<not> contains_sub c' storage_marker" by (auto simp: contains_marker [of _ c'] whole_lines_def)
  with False l show ?thesis by simp
qed

lemma read_content: "read_type_file env p kind fs = Done x \<Longrightarrow> x = fs p"
  by (auto simp: read_type_file_def split: option.splits if_splits)

lemma written: "write_type_file env p c fs = (Done (), fs') \<Longrightarrow> fs' = fs(p \<mapsto> c)"
  by (auto simp: write_type_file_def split: option.splits)

text \<open>A successful update of a file changes only lines with the marker alone, and leaves it exactly when it should.\<close>

lemma storage_file_updated:
  assumes "update_storage_file env grp version kind marked fs = (Done (), fs')" "p = type_file grp version kind"
  shows "(\<forall>q. q \<noteq> p \<longrightarrow> fs' q = fs q) \<and>
    (case fs p of
       None \<Rightarrow> fs' p = None
     | Some c \<Rightarrow> whole_lines storage_marker c \<longrightarrow>
         (\<exists>c'. fs' p = Some c' \<and> (contains_sub c' storage_marker \<longleftrightarrow> marked) \<and>
           filter (\<lambda>l. l \<noteq> storage_marker) (lines_of c') = filter (\<lambda>l. l \<noteq> storage_marker) (lines_of c)))"
proof -
  from assms(1) [unfolded update_storage_file_def Let_def then_go_Done, folded assms(2)]
  have upd: "(case fs p of
      None \<Rightarrow> (Done (), fs)
    | Some c \<Rightarrow>
        if contains_sub c storage_marker = marked then (Done (), fs)
        else (case (if marked then add_storage_version_marker c kind else remove_storage_version_marker c kind) of
                Inl e \<Rightarrow> (Failed (WithMsg (''cannot update storage version marker in file '' @ he_path env p) e), fs)
              | Inr c \<Rightarrow> write_type_file env p c fs)) = (Done (), fs')"
    by (auto dest: read_content)
  show ?thesis
  proof (cases "fs p")
    case None
    with upd show ?thesis by simp
  next
    case (Some c)
    show ?thesis
    proof (cases "contains_sub c storage_marker = marked")
      case True
      with upd Some show ?thesis by simp
    next
      case False
      with upd Some obtain c' where changed: "fs' = fs(p \<mapsto> c')"
        "(if marked then add_storage_version_marker c kind else remove_storage_version_marker c kind) = Inr c'"
        by (cases "if marked then add_storage_version_marker c kind else remove_storage_version_marker c kind") (auto dest: written)
      have "(contains_sub c' storage_marker \<longleftrightarrow> marked) \<and>
          filter (\<lambda>l. l \<noteq> storage_marker) (lines_of c') = filter (\<lambda>l. l \<noteq> storage_marker) (lines_of c)"
        if whole: "whole_lines storage_marker c"
        by (rule storage_marker_changed [OF changed(2) whole])
      with changed Some show ?thesis by simp
    qed
  qed
qed

section \<open>Loops over versions\<close>

text \<open>Nested loops are one loop over their tasks.\<close>

lemma for_each_append: "for_each f (xs @ ys) s = then_go (for_each f xs s) (\<lambda>_. for_each f ys)"
proof (induction xs arbitrary: s)
  case (Cons x xs)
  show ?case by (cases "f x s"; cases "fst (f x s)") (auto simp: Cons)
qed simp

lemma for_each_map: "for_each f (map h xs) = for_each (\<lambda>x. f (h x)) xs"
  by (induction xs; rule ext) simp_all

lemma for_each_concat: "for_each (\<lambda>x. for_each f (h x)) xs = for_each f (concat (map h xs))"
  by (induction xs; rule ext) (simp_all add: for_each_append)

definition storage_tasks :: "(string \<times> resource_cfg list) list \<Rightarrow> (string \<times> resource_cfg \<times> string) list" where
  "storage_tasks groups =
     concat (map (\<lambda>(grp, rs). concat (map (\<lambda>r. map (\<lambda>v. (grp, r, v)) (previous_versions r)) rs)) groups)"

lemma storage_hook_tasks: "storage_version_hook env groups fs = for_each (update_storage_version env) (storage_tasks groups) fs"
proof -
  have inner: "(\<lambda>(grp, rs). for_each (\<lambda>r. for_each (\<lambda>v. update_storage_version env (grp, r, v)) (previous_versions r)) rs) =
      (\<lambda>g. for_each (update_storage_version env) (case g of (grp, rs) \<Rightarrow> concat (map (\<lambda>r. map (\<lambda>v. (grp, r, v)) (previous_versions r)) rs)))"
    by (rule ext) (simp add: for_each_map for_each_concat [symmetric] split: prod.split)
  show ?thesis unfolding storage_version_hook_def inner for_each_concat storage_tasks_def by simp
qed

definition task_file :: "string \<times> resource_cfg \<times> string \<Rightarrow> string list" where
  "task_file t = (case t of (grp, r, v) \<Rightarrow> type_file grp v (rc_kind r))"

text \<open>With a file of its own for each task, a task finds its file as it was and no other changes it.\<close>

lemma for_each_file:
  assumes "\<And>t s s'. f t s = (Done (), s') \<Longrightarrow> \<forall>q. q \<noteq> path t \<longrightarrow> s' q = s q"
    and "for_each f ts fs = (Done (), fs')" "distinct (map path ts)"
  shows "t \<in> set ts \<Longrightarrow> \<exists>s s'. f t s = (Done (), s') \<and> s (path t) = fs (path t) \<and> fs' (path t) = s' (path t)"
    and "q \<notin> path ` set ts \<Longrightarrow> fs' q = fs q"
  using assms(2,3)
proof (induction ts arbitrary: fs q)
  case (Cons x xs)
  {
    case 1
    obtain s where s: "f x fs = (Done (), s)" "for_each f xs s = (Done (), fs')" using "1"(2) by (auto simp: then_go_Done)
    show ?case
    proof (cases "t = x")
      case True
      with s Cons.IH(2) [OF _ s(2), of "path x"] 1 show ?thesis by auto
    next
      case False
      with 1 have "path t \<noteq> path x" "t \<in> set xs" by (auto simp: image_iff)
      with Cons.IH(1) [OF _ s(2)] assms(1) [OF s(1)] 1 show ?thesis by force
    qed
  next
    case 2
    obtain s where s: "f x fs = (Done (), s)" "for_each f xs s = (Done (), fs')" using "2"(2) by (auto simp: then_go_Done)
    with Cons.IH(2) [OF _ s(2), of q] assms(1) [OF s(1)] 2 show ?case by auto
  }
qed auto

section \<open>Properties of the storage marker\<close>

text \<open>
  C34. After the hook the files of the previous versions have the storage marker exactly when their version is the
  storage version of the resource: every file that there was is there, with the same lines but for the marker,
  and no other file changed.
\<close>

theorem storage_marker_exact:
  assumes "storage_version_hook env groups fs = (Done (), fs')"
    and "distinct (map task_file (storage_tasks groups))"
    and "\<forall>p c. fs p = Some c \<longrightarrow> whole_lines storage_marker c"
  shows "(\<forall>(grp, r, v) \<in> set (storage_tasks groups).
      case fs (type_file grp v (rc_kind r)) of
        None \<Rightarrow> fs' (type_file grp v (rc_kind r)) = None
      | Some c \<Rightarrow> \<exists>c'. fs' (type_file grp v (rc_kind r)) = Some c' \<and>
          (contains_sub c' storage_marker \<longleftrightarrow> v = crd_storage_version r) \<and>
          filter (\<lambda>l. l \<noteq> storage_marker) (lines_of c') = filter (\<lambda>l. l \<noteq> storage_marker) (lines_of c)) \<and>
    (\<forall>q. q \<notin> task_file ` set (storage_tasks groups) \<longrightarrow> fs' q = fs q)"
proof -
  note run = assms(1) [unfolded storage_hook_tasks]
  have own: "\<forall>q. q \<noteq> task_file t \<longrightarrow> s' q = s q" if "update_storage_version env t s = (Done (), s')" for t s s'
    using that storage_file_updated
    by (auto simp: update_storage_version_def task_file_def split: prod.splits)
  have "case fs (type_file grp v (rc_kind r)) of
        None \<Rightarrow> fs' (type_file grp v (rc_kind r)) = None
      | Some c \<Rightarrow> \<exists>c'. fs' (type_file grp v (rc_kind r)) = Some c' \<and>
          (contains_sub c' storage_marker \<longleftrightarrow> v = crd_storage_version r) \<and>
          filter (\<lambda>l. l \<noteq> storage_marker) (lines_of c') = filter (\<lambda>l. l \<noteq> storage_marker) (lines_of c)"
    if t: "(grp, r, v) \<in> set (storage_tasks groups)" for grp r v
  proof -
    from for_each_file(1) [where path = task_file, OF own run assms(2) t]
    obtain s s' where step: "update_storage_file env grp v (rc_kind r) (v = crd_storage_version r) s = (Done (), s')"
      and same: "s (type_file grp v (rc_kind r)) = fs (type_file grp v (rc_kind r))"
        "fs' (type_file grp v (rc_kind r)) = s' (type_file grp v (rc_kind r))"
      by (auto simp: update_storage_version_def task_file_def)
    from storage_file_updated [OF step refl] same assms(3) show ?thesis by (auto split: option.splits)
  qed
  with for_each_file(2) [where path = task_file, OF own run assms(2)] show ?thesis by auto
qed

text \<open>The file of a previous version, which becomes the storage version.\<close>

definition vpc_file :: string where
  "vpc_file = unlines [''// +kubebuilder:object:root=true'', ''// +kubebuilder:subresource:status'', [], ''type VPC struct {'', ''}'', []]"

definition vpc_cfg :: resource_cfg where
  "vpc_cfg = disk_cfg\<lparr>rc_kind := ''VPC'', rc_version := ''v1beta2'', previous_versions := [''v1beta1''], crd_storage := ''v1beta1''\<rparr>"

definition calm_env :: hook_env where
  "calm_env = \<lparr>he_path = join_with ''/'', he_invalid = (\<lambda>p. None), he_read_error = (\<lambda>p. None), he_write_error = (\<lambda>p. None)\<rparr>"

definition vpc_files :: api_files where
  "vpc_files = [type_file ''ec2.aws'' ''v1beta1'' ''VPC'' \<mapsto> vpc_file]"

lemma storage_marker_exact_witness:
  "case snd (storage_version_hook calm_env [(''ec2.aws'', [vpc_cfg])] vpc_files) (type_file ''ec2.aws'' ''v1beta1'' ''VPC'') of
     None \<Rightarrow> False
   | Some c \<Rightarrow> contains_sub c storage_marker"
proof -
  let ?gs = "[(''ec2.aws'', [vpc_cfg])]" and ?p = "type_file ''ec2.aws'' ''v1beta1'' ''VPC''"
  have "(case storage_version_hook calm_env ?gs vpc_files of (Done _, _) \<Rightarrow> True | _ \<Rightarrow> False)" by code_simp
  then obtain fs' where run: "storage_version_hook calm_env ?gs vpc_files = (Done (), fs')"
    by (auto split: prod.splits outcome.splits)
  have tasks: "storage_tasks ?gs = [(''ec2.aws'', vpc_cfg, ''v1beta1'')]" by (simp add: storage_tasks_def vpc_cfg_def)
  have "whole_lines storage_marker vpc_file" by code_simp
  then have whole: "\<forall>p c. vpc_files p = Some c \<longrightarrow> whole_lines storage_marker c" by (simp add: vpc_files_def)
  have cfg: "rc_kind vpc_cfg = ''VPC''" "crd_storage_version vpc_cfg = ''v1beta1''" by (simp_all add: vpc_cfg_def crd_storage_version_def)
  have "vpc_files ?p = Some vpc_file" by (simp add: vpc_files_def)
  with storage_marker_exact [OF run _ whole] run tasks cfg show ?thesis by auto
qed

text \<open>
  Adding the storage marker to a file without it and removing it again gives the file as it was, byte for byte.
\<close>

lemma storage_marker_round_trip:
  assumes "add_storage_version_marker c kind = Inr c'" "\<not> contains_sub c storage_marker"
  shows "remove_storage_version_marker c' kind = Inr c"
proof -
  from assms(1) obtain n where n: "n < length (lines_of c)" "lines_of c' = insert_lines n [storage_marker] (lines_of c)"
    by (rule add_lines)
  have none: "\<forall>l \<in> set (lines_of c). \<not> contains_sub l storage_marker"
    using assms(2) by (simp add: contains_marker)
  have "\<forall>l \<in> set (lines_of c'). contains_sub l storage_marker \<longrightarrow> l = storage_marker"
    using none n(2) by (auto simp: insert_lines_def dest: in_set_takeD in_set_dropD)
  moreover have "last (lines_of c') \<noteq> storage_marker"
  proof -
    have "\<not> contains_sub (last (lines_of c)) storage_marker" using none by simp
    with n show ?thesis by (auto simp: insert_lines_def)
  qed
  ultimately have whole: "whole_lines storage_marker c'" by (simp add: whole_lines_def)
  have "filter (\<lambda>l. l \<noteq> storage_marker) (lines_of c) = lines_of c"
    using none by (auto simp: filter_id_conv)
  with n(2) removed_lines [OF whole] have "lines_of (replace_all c' (storage_marker @ [newline]) []) = lines_of c"
    by (simp add: filter_insert filter_take_drop)
  then have "replace_all c' (storage_marker @ [newline]) [] = c"
    by (metis unlines_lines_of)
  moreover have "contains_sub c' (storage_marker @ [newline])"
  proof -
    let ?l = "take n (lines_of c)" and ?d = "drop n (lines_of c)"
    have "?d \<noteq> []" using n(1) by simp
    moreover have "c' = unlines (?l @ storage_marker # ?d)" using n(2) by (metis append_Cons append_Nil insert_lines_def unlines_lines_of)
    ultimately show ?thesis by (simp add: contains_first_line)
  qed
  ultimately show ?thesis by (simp add: remove_storage_version_marker_def)
qed

section \<open>One storage version\<close>

text \<open>Of the known versions exactly one is marked, the storage version: the current one by the generator, or a previous one by the hook.\<close>

lemma one_storage_version:
  assumes "distinct (known_versions r)" "crd_storage_version r \<in> set (known_versions r)"
  shows "filter (\<lambda>v. if v = rc_version r then mark_storage_version (crd_marks_of r) else v = crd_storage_version r) (known_versions r) = [crd_storage_version r]"
proof -
  have "filter (\<lambda>v. v = x) vs = [x]" if "distinct vs" "x \<in> set vs" for x and vs :: "string list"
    using that by (induction vs) (auto simp: filter_empty_conv)
  moreover have "(if v = rc_version r then mark_storage_version (crd_marks_of r) else v = crd_storage_version r) \<longleftrightarrow> v = crd_storage_version r" for v
    by (auto simp: crd_marks_of_def)
  ultimately show ?thesis using assms by simp
qed

section \<open>Omitted fields\<close>

lemma del_key_id: "map_of m k = None \<Longrightarrow> del_key k m = m"
  by (auto simp: del_key_def filter_id_conv map_of_eq_None_iff image_iff)

lemma schema_at_own: "own_schema r = own_schema r' \<Longrightarrow> schema_at r q = schema_at r' q"
  by (cases q rule: remdups_adj.cases) auto

lemma delete_from_none: "delete_field p [] = Some n \<Longrightarrow> n = []"
  by (cases p rule: remdups_adj.cases) (auto simp: del_key_def)

lemma own_after_delete: "delete_field p (own_schema r) = Some n \<Longrightarrow> own_schema (with_schema n r) = n"
  by (cases r) (auto dest: delete_from_none split: option.splits)

lemma schema_at_below: "q \<noteq> [] \<Longrightarrow> schema_at r (k # q) =
    (case map_of (own_schema r) k of None \<Rightarrow> None | Some s \<Rightarrow> (case elem s of Resource_elem r \<Rightarrow> schema_at r q | _ \<Rightarrow> None))"
  by (cases q) auto

text \<open>The deleted field is gone, and the fields beside it are as they were.\<close>

lemma delete_field_exact:
  "delete_field p (own_schema r) = Some n \<Longrightarrow> p \<noteq> [] \<Longrightarrow> schema_at (with_schema n r) p = None \<and>
     (\<forall>q. beside p q \<longrightarrow> schema_at (with_schema n r) q = schema_at r q)"
proof (induction p "own_schema r" arbitrary: n r rule: delete_field.induct)
  case (2 k)
  have "schema_at (with_schema n r) q = schema_at r q" if "beside [k] q" for q
    using that 2 own_after_delete [of "[k]" r n] by (cases q rule: remdups_adj.cases) auto
  with 2 own_after_delete [of "[k]" r n] show ?case by auto
next
  case (3 k l ks)
  from "3.prems" obtain a r1 n' where found: "map_of (own_schema r) k = Some (Sch a (Resource_elem r1))"
    and sub: "delete_field (l # ks) (own_schema r1) = Some n'"
    and n: "n = map_entry k (\<lambda>_. Sch a (Resource_elem (with_schema n' r1))) (own_schema r)"
    by (auto split: option.splits sch.splits sch_elem.splits)
  note own = own_after_delete [OF "3.prems"(1)]
  note ih = "3.hyps" [OF found refl refl refl sub]
  have "schema_at (with_schema n r) q = schema_at r q" if "beside (k # l # ks) q" for q
    using that ih own n found by (cases q; cases "tl q = []") (auto simp: schema_at_below map_of_map_entry split: option.split)
  moreover have "schema_at (with_schema n r) (k # l # ks) = None"
    using ih own n found by (simp add: map_of_map_entry)
  ultimately show ?case by blast
qed simp

end
