(* ===== verification/VersionLifecycle.thy ===== *)
theory VersionLifecycle
  imports VersionHooks
begin

text \<open>
  What the update of the lifecycle markers of a previous version does to its file: the markers are those
  of the configuration, and no line of code changes.
\<close>

section \<open>Lines of a file\<close>

definition lifecycle_line :: "string \<Rightarrow> bool" where
  "lifecycle_line l \<longleftrightarrow> l = unserved_marker \<or> deprecated_line l"

definition code_line :: "string \<Rightarrow> bool" where
  "code_line l \<longleftrightarrow> \<not> has_prefix (trim_space l) ''//''"

lemma has_prefix_trans: "has_prefix s (p @ q) \<Longrightarrow> has_prefix s p"
  by (auto simp: has_prefix_iff)

lemma trim_marker:
  "l \<noteq> [] \<Longrightarrow> \<not> is_ascii_space (hd l) \<Longrightarrow> \<not> is_ascii_space (last l) \<Longrightarrow> trim_space l = l"
  by (rule trim_space_id) auto

lemma lifecycle_no_description: "lifecycle_line l \<Longrightarrow> \<not> description_line l"
proof -
  have "has_prefix (trim_space l) ''// +kubebuilder:''" if "deprecated_line l"
    using that has_prefix_trans [of "trim_space l" "''// +kubebuilder:''" "''deprecatedversion''"] by (simp add: deprecated_line_def)
  moreover have "has_prefix (trim_space unserved_marker) ''// +kubebuilder:''" by code_simp
  ultimately show "lifecycle_line l \<Longrightarrow> \<not> description_line l" by (auto simp: lifecycle_line_def description_line_def)
qed

lemma code_no_description: "code_line l \<Longrightarrow> \<not> description_line l"
  by (simp add: code_line_def description_line_def)

lemma code_no_lifecycle: "code_line l \<Longrightarrow> \<not> lifecycle_line l"
proof -
  have "has_prefix (trim_space l) ''//''" if "deprecated_line l"
    using that has_prefix_trans [of "trim_space l" "''//''" "'' +kubebuilder:deprecatedversion''"] by (simp add: deprecated_line_def)
  moreover have "has_prefix (trim_space unserved_marker) ''//''" by code_simp
  ultimately show "code_line l \<Longrightarrow> \<not> lifecycle_line l" by (auto simp: lifecycle_line_def code_line_def)
qed

text \<open>A marker or a notice with its texts.\<close>

lemma starts_comment:
  assumes "l = ''//'' @ r @ [c]" "\<not> is_ascii_space c"
  shows "trim_space l = l"
  using assms by (intro trim_marker) (auto simp: is_ascii_space_def)

lemma lifecycle_markers_lines:
  "list_all lifecycle_line (lifecycle_markers served dep)"
proof -
  have "deprecated_line (''// +kubebuilder:deprecatedversion:warning='' @ [CHR 0x22] @ w @ [CHR 0x22])" for w
  proof -
    let ?l = "''// +kubebuilder:deprecatedversion:warning='' @ [CHR 0x22] @ w @ [CHR 0x22]"
    have "trim_space ?l = ?l"
      by (rule starts_comment [where r = "'' +kubebuilder:deprecatedversion:warning='' @ [CHR 0x22] @ w" and c = "CHR 0x22"])
        (simp_all add: is_ascii_space_def)
    then show ?thesis unfolding deprecated_line_def by (simp add: has_prefix_iff)
  qed
  then show ?thesis by (auto simp: lifecycle_markers_def lifecycle_line_def split: option.split)
qed

lemma notice_line:
  "\<not> lifecycle_line (build_deprecation_notice v d)" "\<not> code_line (build_deprecation_notice v d)"
proof -
  let ?l = "build_deprecation_notice v d"
  have "\<exists>r. ?l = ''// D'' @ r @ [CHR ''.'']" by (simp add: build_deprecation_notice_def)
  then obtain r where r: "?l = ''// D'' @ r @ [CHR ''.'']" by blast
  then have "trim_space ?l = ?l" by (intro starts_comment [where r = "'' D'' @ r" and c = "CHR ''.''"]) (simp_all add: is_ascii_space_def)
  with r show "\<not> lifecycle_line ?l" "\<not> code_line ?l"
    by (simp_all add: lifecycle_line_def deprecated_line_def code_line_def unserved_marker_def)
qed

section \<open>The description of a type\<close>

text \<open>The block that is found is a run of description lines before the type.\<close>

lemma description_block:
  assumes "find_description_block n before r = Some (s, e)" "before = rev (take (length before) xs)" "length before \<le> length xs"
    and "case r of None \<Rightarrow> True
      | Some (s, e) \<Rightarrow> s = length before \<and> e < m \<and> (\<forall>k. s \<le> k \<and> k \<le> e \<longrightarrow> description_line (xs ! k))"
    and "length before \<le> m"
  shows "e < m \<and> (\<forall>k. s \<le> k \<and> k \<le> e \<longrightarrow> description_line (xs ! k))"
  using assms
proof (induction n before r rule: find_description_block.induct)
  case (3 n l before r)
  have "length before < length xs" using "3.prems"(3) by simp
  with "3.prems"(2) have l: "l = xs ! length before" and before: "before = rev (take (length before) xs)"
    by (simp_all add: take_Suc_conv_app_nth)
  have len: "length before \<le> length xs" "length before \<le> m" using "3.prems"(3,5) by simp_all
  show ?case
  proof (cases "trim_space l = ''''")
    case True
    show ?thesis
    proof (cases "r = None")
      case r: True
      with True "3.prems"(1) have "find_description_block n before r = Some (s, e)" by simp
      with "3.IH"(1) [OF True r _ before len(1) _ len(2)] r show ?thesis by simp
    next
      case False
      with True "3.prems"(1,4) show ?thesis by auto
    qed
  next
    case blank: False
    show ?thesis
    proof (cases "description_line l")
      case True
      let ?r = "Some (length before, case r of None \<Rightarrow> length before | Some (_, e) \<Rightarrow> e)"
      have "find_description_block n before ?r = Some (s, e)" using "3.prems"(1) blank True by simp
      moreover have "\<forall>k. length before \<le> k \<and> k \<le> (case r of None \<Rightarrow> length before | Some (_, e) \<Rightarrow> e) \<longrightarrow> description_line (xs ! k)"
      proof (intro allI impI)
        fix k
        assume k: "length before \<le> k \<and> k \<le> (case r of None \<Rightarrow> length before | Some (_, e) \<Rightarrow> e)"
        show "description_line (xs ! k)"
        proof (cases "k = length before")
          case True
          then show ?thesis using \<open>description_line l\<close> l by simp
        next
          case False
          with k "3.prems"(4) show ?thesis by (auto split: option.splits)
        qed
      qed
      moreover have "(case r of None \<Rightarrow> length before | Some (_, e) \<Rightarrow> e) < m"
        using "3.prems"(4,5) by (auto split: option.splits)
      ultimately show ?thesis using "3.IH"(2) [OF blank True] before "3.prems"(3,5) by simp
    next
      case False
      show ?thesis
      proof (cases "r = None \<and> has_prefix (trim_space l) ''// +kubebuilder:''")
        case True
        with blank False "3.prems"(1) have "find_description_block n before r = Some (s, e)" by simp
        with "3.IH"(3) [OF blank False _ _ _ before len(1) _ len(2)] True show ?thesis by simp
      next
        case none: False
        with blank False "3.prems"(1,4) show ?thesis by (auto split: if_splits)
      qed
    qed
  qed
qed (auto split: option.splits)

text \<open>Only lines of the block are removed; lines that are no description stay, and so does a last line after the block.\<close>

lemma removed_only_description:
  assumes "\<forall>l. P l \<longrightarrow> \<not> description_line l" "\<forall>k < length ls. s \<le> i + k \<and> i + k \<le> e \<longrightarrow> description_line (ls ! k)"
  shows "filter P (remove_deprecation_notice s e i b ls) = filter P ls"
  using assms
proof (induction s e i b ls rule: remove_deprecation_notice.induct)
  case (2 s e i b l ls)
  have rest: "\<forall>k < length ls. s \<le> Suc i + k \<and> Suc i + k \<le> e \<longrightarrow> description_line (ls ! k)"
    using "2.prems"(2) by (metis Suc_less_eq add_Suc_right add_Suc_shift length_Cons nth_Cons_Suc)
  have "\<not> P l" if "s \<le> i" "i \<le> e" using "2.prems"(2) [THEN spec, of 0] "2.prems"(1) that by auto
  with 2 rest show ?case by (auto simp: Let_def)
qed simp

lemma last_line_stays: "ls \<noteq> [] \<Longrightarrow> e < i + length ls - 1 \<Longrightarrow> last ls \<in> set (remove_deprecation_notice s e i b ls)"
  by (induction s e i b ls rule: remove_deprecation_notice.induct) (auto simp: Let_def split: if_splits)

lemma set_remove_notice: "set (remove_deprecation_notice s e i b ls) \<subseteq> set ls"
  by (induction s e i b ls rule: remove_deprecation_notice.induct) (auto simp: Let_def split: if_splits)

section \<open>The whole update\<close>

lemma notice_inserted:
  assumes "newline \<notin> set (v @ vd_release d @ vd_removal d)"
  obtains "insert_deprecation_notice ls kind v d = ls"
  | n where "insert_deprecation_notice ls kind v d = insert_lines n [build_deprecation_notice v d] ls"
proof -
  have "newline \<notin> set (build_deprecation_notice v d)" using assms by (simp add: build_deprecation_notice_def newline_def)
  then have "lines_of (build_deprecation_notice v d) = [build_deprecation_notice v d]" by (simp add: lines_of_def)
  with that show thesis
    by (cases "find_type_line_index ls kind") (auto simp: insert_deprecation_notice_def)
qed

lemma description_updated:
  assumes "\<forall>d. dep = Some d \<longrightarrow> newline \<notin> set (v @ vd_release d @ vd_removal d)" "\<forall>l \<in> set ls. newline \<notin> set l" "ls \<noteq> []"
    and "P = lifecycle_line \<or> P = code_line"
  shows "filter P (update_description_deprecation_notice ls kind v dep) = filter P ls \<and>
    lines_of (unlines (update_description_deprecation_notice ls kind v dep)) = update_description_deprecation_notice ls kind v dep"
proof (cases "find_type_line_index ls kind")
  case None
  with assms show ?thesis by (simp add: update_description_deprecation_notice_def lines_of_unlines)
next
  case (Some i)
  note i = find_type_line [OF Some]
  show ?thesis
  proof (cases "find_description_block 10 (rev (take i ls)) None")
    case None
    with Some assms show ?thesis by (simp add: update_description_deprecation_notice_def lines_of_unlines)
  next
    case block: (Some se)
    obtain s e where se: "se = (s, e)" by force
    have b: "e < i \<and> (\<forall>k. s \<le> k \<and> k \<le> e \<longrightarrow> description_line (ls ! k))"
      using description_block [OF block [unfolded se], of ls i] i by simp
    let ?ls = "remove_deprecation_notice s e 0 False ls"
    have "\<forall>l. P l \<longrightarrow> \<not> description_line l" using assms(4) lifecycle_no_description code_no_description by auto
    then have kept: "filter P ?ls = filter P ls" using b by (intro removed_only_description) auto
    have ne: "?ls \<noteq> []" using last_line_stays [OF assms(3), of e 0 s False] b i by fastforce
    have nl: "\<forall>l \<in> set ?ls. newline \<notin> set l" using set_remove_notice assms(2) by fastforce
    show ?thesis
    proof (cases dep)
      case None
      with Some block se kept ne nl show ?thesis by (simp add: update_description_deprecation_notice_def lines_of_unlines)
    next
      case dep: (Some d)
      with assms(1) have d: "newline \<notin> set (v @ vd_release d @ vd_removal d)" by simp
      then have notice: "newline \<notin> set (build_deprecation_notice v d)" by (simp add: build_deprecation_notice_def newline_def)
      have upd: "update_description_deprecation_notice ls kind v dep = insert_deprecation_notice ?ls kind v d"
        using Some block se dep by (simp add: update_description_deprecation_notice_def)
      from d show ?thesis
      proof (cases rule: notice_inserted [where ls = ?ls and kind = kind])
        case 1
        with upd kept ne nl show ?thesis by (simp add: lines_of_unlines)
      next
        case (2 n)
        have "lines_of (unlines (insert_lines n [build_deprecation_notice v d] ?ls)) = insert_lines n [build_deprecation_notice v d] ?ls"
          using lines_of_insert [of "[build_deprecation_notice v d]" n "unlines ?ls"] notice ne nl by (simp add: lines_of_unlines)
        moreover have "\<not> P (build_deprecation_notice v d)" using assms(4) notice_line by auto
        ultimately show ?thesis using 2 upd kept by (simp add: filter_insert filter_take_drop)
      qed
    qed
  qed
qed

lemma removed_lifecycle_lines:
  assumes "whole_lines unserved_marker c" "find_type_line_index (lines_of (remove_lifecycle_markers c)) kind = Some i"
  shows "lines_of (remove_lifecycle_markers c) = filter (\<lambda>l. \<not> lifecycle_line l) (lines_of c)"
proof -
  let ?ls = "filter (\<lambda>l. \<not> lifecycle_line l) (lines_of c)"
  have "filter (\<lambda>l. \<not> deprecated_line l) (lines_of (replace_all c (unserved_marker @ [newline]) [])) = ?ls"
    using assms(1) by (simp add: removed_lines lifecycle_line_def conj_commute)
  then have r: "remove_lifecycle_markers c = unlines ?ls" by (simp add: remove_lifecycle_markers_def)
  have "?ls \<noteq> []"
  proof
    assume "?ls = []"
    with r assms(2) show False by (simp add: lines_of_def type_declaration_def)
  qed
  with r lines_of_line [of _ c] show ?thesis by (simp add: lines_of_unlines)
qed

text \<open>
  C35. An update leaves exactly the lifecycle markers that the configuration of the version asks for, whatever
  markers the file had, and leaves every line of code as it was and where it was among them.
\<close>

theorem lifecycle_markers_exact:
  assumes "update_file_markers c kind v served dep = Inr c'" "whole_lines unserved_marker c"
    and "\<forall>d. dep = Some d \<longrightarrow> newline \<notin> set (v @ vd_warning d @ vd_release d @ vd_removal d)"
  shows "filter lifecycle_line (lines_of c') = lifecycle_markers served dep \<and>
    filter code_line (lines_of c') = filter code_line (lines_of c)"
proof -
  let ?ls = "lines_of (remove_lifecycle_markers c)"
  from assms(1) obtain i n where i: "find_type_line_index ?ls kind = Some i"
    and c': "c' = unlines (update_description_deprecation_notice (insert_lines n (lifecycle_markers served dep) ?ls) kind v dep)"
    by (auto simp: update_file_markers_def Let_def split: option.splits)
  let ?new = "insert_lines n (lifecycle_markers served dep) ?ls"
  have "newline \<notin> set l" if "l \<in> set (lifecycle_markers served dep)" for l
    using that assms(3)
    by (auto dest!: subsetD [OF set_trim_space] simp: lifecycle_markers_def build_enhanced_deprecation_warning_def newline_def unserved_marker_def
        split: option.splits if_splits)
  then have "lines_of (unlines ?new) = ?new" by (intro lines_of_insert) blast
  then have new: "\<forall>l \<in> set ?new. newline \<notin> set l" "?new \<noteq> []"
    using lines_of_line [of _ "unlines ?new"] lines_of_ne [of "unlines ?new"] by simp_all
  have dep: "\<forall>d. dep = Some d \<longrightarrow> newline \<notin> set (v @ vd_release d @ vd_removal d)" using assms(3) by auto
  note upd = description_updated [OF dep new, of _ kind]
  have ls: "?ls = filter (\<lambda>l. \<not> lifecycle_line l) (lines_of c)" by (rule removed_lifecycle_lines [OF assms(2) i])
  have markers: "filter lifecycle_line (lifecycle_markers served dep) = lifecycle_markers served dep"
    "filter code_line (lifecycle_markers served dep) = []"
    using lifecycle_markers_lines [of served dep] code_no_lifecycle
    by (auto simp: list_all_iff filter_id_conv filter_empty_conv)
  have "filter lifecycle_line ?ls = []" unfolding ls by simp
  then have "filter lifecycle_line (take n ?ls) = []" "filter lifecycle_line (drop n ?ls) = []"
    using filter_take_drop [of lifecycle_line n ?ls] by simp_all
  then have "filter lifecycle_line ?new = lifecycle_markers served dep" by (simp add: filter_insert markers)
  moreover have "filter code_line ?new = filter code_line (lines_of c)"
  proof -
    have "filter code_line ?new = filter code_line ?ls" by (simp add: filter_insert markers filter_take_drop)
    also have "\<dots> = filter code_line (lines_of c)" unfolding ls using code_no_lifecycle by (auto simp: conj_commute intro!: filter_cong)
    finally show ?thesis .
  qed
  ultimately show ?thesis using upd [of lifecycle_line] upd [of code_line] c' by simp
qed

definition old_release :: version_deprecation where
  "old_release = \<lparr>vd_warning = ''use v1beta2'', vd_release = ''v1.2.0'', vd_removal = []\<rparr>"

definition described_file :: "string list \<Rightarrow> string" where
  "described_file ds = unlines ([''// +kubebuilder:object:root=true'', ''// +kubebuilder:subresource:status'', []] @ ds @ [''type VPC struct {'', ''}'', []])"

lemma lifecycle_markers_exact_witness:
  "case update_file_markers (described_file [''// VPC is the Schema for the VPCs API.'']) ''VPC'' ''v1beta1'' False (Some old_release) of
     Inl e \<Rightarrow> False
   | Inr c \<Rightarrow> filter lifecycle_line (lines_of c) = lifecycle_markers False (Some old_release)"
proof -
  let ?c = "described_file [''// VPC is the Schema for the VPCs API.'']"
  have "(case update_file_markers ?c ''VPC'' ''v1beta1'' False (Some old_release) of Inr c \<Rightarrow> True | _ \<Rightarrow> False)" by code_simp
  then obtain c' where run: "update_file_markers ?c ''VPC'' ''v1beta1'' False (Some old_release) = Inr c'" by (auto split: sum.splits)
  have "whole_lines unserved_marker ?c" by code_simp
  moreover have "\<forall>d. Some old_release = Some d \<longrightarrow> newline \<notin> set (''v1beta1'' @ vd_warning d @ vd_release d @ vd_removal d)"
    by (simp add: old_release_def newline_def)
  ultimately show ?thesis using lifecycle_markers_exact [OF run] run by simp
qed

section \<open>Corners\<close>

text \<open>
  A notice is removed with the line it is on. The template puts the notice of a version behind its description on the same
  line, so the description is lost when the version has become a previous one.
\<close>

lemma description_lost:
  "case update_file_markers
      (described_file [''// VPC is the Schema for the VPCs API. A network.'' @ build_deprecation_notice ''v1beta1'' old_release])
      ''VPC'' ''v1beta1'' True (Some old_release) of
    Inl e \<Rightarrow> False | Inr c \<Rightarrow> \<not> contains_sub c ''is the Schema for''"
  by code_simp

text \<open>Lines of the description after the notice are taken for a part of it.\<close>

lemma description_after_notice_lost:
  "case update_file_markers
      (described_file [''// VPC is the Schema for the VPCs API.'', build_deprecation_notice ''v1beta1'' old_release, ''// A network.''])
      ''VPC'' ''v1beta1'' True (Some old_release) of
    Inl e \<Rightarrow> False | Inr c \<Rightarrow> \<not> contains_sub c ''A network''"
  by code_simp

text \<open>The file of a version that is served again and no longer deprecated is not touched: its old markers stay.\<close>

lemma stale_markers_stay:
  assumes "v \<in> set (get_served_versions r)" "is_version_deprecated r v = None"
  shows "update_lifecycle_version env grp r v fs = (Done (), fs)"
  using assms by (simp add: update_lifecycle_version_def Let_def)

end
