(* ===== verification/Spec2Isabelle.thy ===== *)
theory Spec2Isabelle
  imports AsyncTracker StructTag IgnoreChanges AsyncExternal ExternalClient ListConversion SdkClient HclParams FrameworkLifecycle NumberFacts Sensitive ConversionRegistry LateInit ReconciliationPolicies CrdMigrator TypeBuilderFacts AutoConversions ProviderAssembly ExternalNames VersionLifecycle
begin

text \<open>
  \<^bold>\<open>A verification development for upjet\<close>

  Upjet generates Crossplane providers from Terraform providers and runs them. At run time a
  managed resource is reconciled by an external client, which either runs the Terraform CLI in a
  workspace of its own or calls the Terraform provider in process (the no-fork clients). Operations
  that take long run in goroutines, report through callbacks and requeue the resource through an
  event handler and its rate limiters. The theories model this run-time core, and the parts of the
  code generator that the run-time data depends on.

  \<^bold>\<open>Conventions.\<close> Records are Go structs and datatypes are Go enumerations. A definition has the name of the
  function it models in snake case. Mutated state is passed and returned. A nil pointer is \<open>None\<close>, an
  error is a value of \<open>gerror\<close> with the wrapping messages of the source, a panic is \<open>None\<close> of an
  option around the result or \<open>Crashed\<close>. Maps that are ranged over are entry lists in the order
  of the range, which is arbitrary. Goroutines are programs whose steps are interleaved by
  inductive step relations, with one step for each access to shared data under its mutex. Logs
  and metrics are left out. Integers of Go's type \<open>int\<close> that count uses and requeues are natural numbers or
  integers: they change by one for each call of a running process and stay far below the bound of the type. The reuse budget of a shared provider
  is the float64 product of the source written with exact rational arithmetic on the time-to-live.

  \<^bold>\<open>Third-party code\<close> is a parameter: a record of functions (\<open>tf_world\<close> for the Terraform CLI and its
  files, \<open>sdk_ops\<close> for the plugin SDK, \<open>limiter_ops\<close> for client-go's rate limiters, \<open>condition_api\<close> for
  conditions, \<open>paved\<close>, \<open>field_lib\<close>, \<open>conv_lib\<close>, \<open>path_syntax\<close> and \<open>sensitive_lib\<close> for field paths and JSON,
  \<open>case_lib\<close> for camel case, \<open>template_lib\<close> for text/template, \<open>gen_lib\<close> for the names and paths of the generator, \<open>path_lib\<close>, \<open>fw_ops\<close> and \<open>fw_server\<close> for the values, the codec and the server of
  the Plugin Framework, \<open>crd_api\<close> for the API server, \<open>mr_ops\<close>, \<open>managed_api\<close> and \<open>resource_api\<close> for the
  methods generated for a resource) or an argument with what one call returned.
  Documented behaviour a theorem relies on is a predicate on the record (\<open>limiter_laws\<close>,
  \<open>condition_laws\<close>, \<open>paved_laws\<close>, \<open>field_laws\<close>, \<open>case_laws\<close>, \<open>sdk_laws\<close>, \<open>codec_law\<close>, \<open>plain_server\<close>,
  \<open>conv_laws\<close>, \<open>crd_laws\<close>), with a concrete instance in the witness. The laws of field paths and codecs speak only of the
  paths and values for which the libraries keep them (\<open>plain_end\<close>, \<open>plain_field\<close>, \<open>printable\<close>, \<open>json_exact\<close>).

  \<^bold>\<open>Theories.\<close>
  \<^item> \<open>Prelude\<close>: strings as in packages strings, strconv and sort; \<open>GoValue\<close>: values of \<open>any\<close>, maps as
    entry lists, paths into values, \<open>fmt.Sprintf\<close>; \<open>GoErrors\<close>: \<open>pkg/terraform/errors\<close>;
    \<open>GoOutcome\<close>: results with panics and their sequencing.
  \<^item> \<open>Operation\<close> (\<open>pkg/terraform/operation.go\<close>): the record of the last operation and its calls;
    a granted start excludes every other until an end or a clear. \<open>AsyncTracker\<close>
    (\<open>pkg/controller/nofork_store.go\<close>) and \<open>KeyedStore\<close>, the interface of stores that hand out one
    object for a key: isolation of trackers, cleanup before the finalizer goes.
  \<^item> \<open>ProviderRunner\<close>, \<open>ProviderScheduler\<close> (\<open>pkg/terraform/provider_runner.go\<close>,
    \<open>provider_scheduler.go\<close>): native provider processes and their sharing with in-use counts; no
    process is stopped while in use, reuse is bounded, references stay valid; two theorems exhibit races.
  \<^item> \<open>Workspace\<close>, \<open>WorkspaceFiles\<close>, \<open>WorkspaceStore\<close>, \<open>Timeouts\<close>, \<open>ProviderConfig\<close>
    (\<open>pkg/terraform/workspace.go\<close>, \<open>files.go\<close>, \<open>store.go\<close>, \<open>timeouts.go\<close>): the CLI operations with their
    goroutines, at most one at a time; a destroy runs once for each refresh; the state file is
    filled exactly when it is empty; provider handles do not depend on map order; secrets are redacted.
  \<^item> \<open>EncapsulatingLimiter\<close> (\<open>pkg/internal/ratelimiter\<close>), \<open>EventHandling\<close> (\<open>pkg/controller/handler\<close>),
    \<open>AsyncCallbacks\<close> (\<open>pkg/controller/api.go\<close>, \<open>pkg/resource/conditions.go\<close>): limiter overrides for one
    request, bounded requeues, conditions and requeues after an asynchronous operation.
  \<^item> \<open>ExternalClient\<close> (\<open>pkg/controller/external.go\<close>): the client of the CLI. \<open>SdkClient\<close>,
    \<open>HclParams\<close>, \<open>Annotations\<close> (\<open>pkg/controller/external_tfpluginsdk.go\<close>, \<open>hcl.go\<close>,
    \<open>annotation_conversions.go\<close>): the client of the plugin SDK with the filter of its diff, its
    state in the tracker and the values kept in annotations. \<open>AsyncExternal\<close>
    (\<open>pkg/controller/external_async_tfpluginsdk.go\<close>, \<open>external_async_tfpluginfw.go\<close>): both
    asynchronous clients with every interleaving of goroutine and reconciler.
  \<^item> \<open>TfValue\<close>, \<open>TfConversion\<close>, \<open>NumberFacts\<close>, \<open>ProposedState\<close> (\<open>pkg/controller/proposed_state.go\<close>): Terraform values and types,
    their conversion from and to JSON values, which keeps a number as the nearest float64 or refuses it (\<open>NumberFacts\<close>, with the
    float64 format as binary64 numbers), and the proposed new state: it has the type of the
    schema, and proposing again changes nothing. \<open>FrameworkClient\<close>, \<open>FrameworkLifecycle\<close>
    (\<open>pkg/controller/external_tfpluginfw.go\<close>): the client of the Plugin Framework; updates converge, never
    replace a resource, and a failed creation is remembered.
  \<^item> \<open>FieldConversions\<close>, \<open>FieldRoundTrip\<close> (\<open>pkg/config/conversion/conversions.go\<close>), \<open>ConversionRegistry\<close>
    (\<open>pkg/controller/conversion\<close>): the conversions between CRD versions and the stages of the webhook;
    a field only a newer version has survives the way through the older one.
    \<open>CrdMigrator\<close> (\<open>pkg/config/crd_migrator.go\<close>): the migration of stored versions, which drops an old version
    only when no resource is stored in it, and ends.
  \<^item> \<open>SecretKeys\<close>, \<open>Sensitive\<close> (\<open>pkg/resource/sensitive.go\<close>): sensitive attributes to connection details and back.
    \<open>LateInit\<close> (\<open>pkg/resource/lateinit.go\<close>): late initialization, which converges and respects its filters.
    \<open>ReconciliationPolicies\<close> (\<open>pkg/reconciler/reconciliationpolicy\<close>): limiters set from policies, and a
    request runs under the delays of its policy.
  \<^item> \<open>IgnoreChanges\<close> (\<open>pkg/resource/ignored.go\<close>, \<open>pkg/controller/ignored_tfpluginsdk.go\<close>): the fields only
    \<open>initProvider\<close> sets. \<open>ListConversion\<close> (\<open>pkg/config/conversion/list_conversion.go\<close>,
    \<open>pkg/config/tf_conversion.go\<close>): singleton lists and embedded objects, a round trip.
  \<^item> \<open>StructTag\<close> (\<open>pkg/types/structtag\<close>), \<open>Names\<close> (\<open>pkg/types/name\<close>): tags and names of generated types.
    \<open>TfSchema\<close>, \<open>SchemaTraverse\<close> (\<open>pkg/schema/traverser\<close>): Terraform schemas, their walk with visitors and
    the synchronisation of singleton lists, which is exact. \<open>ResourceConfig\<close> (\<open>pkg/config/resource.go\<close>,
    \<open>common.go\<close>, \<open>schema_conversions.go\<close>): the configuration of a resource, its versions and its embedded lists.
  \<^item> \<open>CommentMarkers\<close> (\<open>pkg/types/comments\<close>, \<open>pkg/types/markers\<close>), \<open>GeneratedFields\<close>, \<open>TypeBuilder\<close>
    (\<open>pkg/types/field.go\<close>, \<open>reference.go\<close>, \<open>builder.go\<close>): the builder of Go types from a schema, as a recursion
    that passes the state of the generator. \<open>TypeBuilderFacts\<close>: the types do not depend on the order of
    maps, their names are new and different, and sensitive arguments are references to secrets.
  \<^item> \<open>SchemaJson\<close> (\<open>pkg/types/conversion/tfjson\<close>): Terraform schemas in JSON to schemas of the plugin SDK, which keep
    every type up to the marks of optional attributes. \<open>ProviderAssembly\<close> (\<open>pkg/config/provider.go\<close>, \<open>dynamic.go\<close>): the choice of the resources that are
    generated and of their clients, from the include lists. \<open>AutoConversions\<close> (\<open>pkg/config/conversion.go\<close>): conversions
    registered from a report of schema changes, in pairs. \<open>ExternalNames\<close> (\<open>pkg/config/externalname.go\<close>): the
    identifier built from the name of a resource and the name read back out of it.
  \<^item> \<open>VersionMarkers\<close>, \<open>VersionHooks\<close>, \<open>VersionLifecycle\<close> (\<open>pkg/pipeline/hooks_storage_version.go\<close>,
    \<open>hooks_deprecated_version.go\<close>, \<open>crd.go\<close>): the markers of API versions in the files of previous versions. The
    storage marker is in the file of the storage version only, the lifecycle markers are those of the
    configuration, and lines of code do not change.

  \<^bold>\<open>Interfaces.\<close> The locale of \<open>KeyedStore\<close> is interpreted on the tracker store and on the workspace
  store, that of \<open>Operation\<close> on the operation record, that of \<open>ReconciliationPolicies\<close> on the encapsulating limiter.

  \<^bold>\<open>Bounds.\<close> No definition runs on fuel: loops of the source are structural recursions, or recursions with a
  measure on the size of the value they walk. The loop over the pages of the storage version
  migration may not end: it is a partial function, and a theorem shows when it ends.

  \<^bold>\<open>Not modelled.\<close> Struct assembly and options of providers and controllers; the tagger of resources; the build-time parts that drive
  templates, Go syntax trees, scraped documentation and files; the metrics, the commands and the test framework.
\<close>

end
